(* ===== verification/Prelude.thy ===== *)
theory Prelude
  imports Main "HOL-Library.Word" "HOL-Library.Sublist"
begin

text \<open>
  Shared vocabulary of the development: how a Go \<open>error\<close> result is represented, the
  indexed validation loop that almost every \<open>IsValid\<close> method contains, string and list
  slices, and the \<open>named_theorems\<close> collections that carry the component proofs.

  \<^item> A Go \<open>error\<close> result is an \<open>'e option\<close>: \<open>None\<close> is \<open>nil\<close> and \<open>Some e\<close> an error,
    where \<open>'e\<close> is the component's own datatype with one constructor per
    \<open>fmt.Errorf\<close> call. A pair \<open>(value, error)\<close> is the sum \<open>'e + 'a\<close>.
  \<^item> \<open>first_err\<close> is a sequence of \<open>if err != nil { return err }\<close> statements.
  \<^item> \<open>validate_from\<close> is the loop
    \<open>for i, x := range xs { if err := f(x); err != nil { return wrap(i, err) } }\<close>.
\<close>

named_theorems checks \<open>turns ``the check passed'' into the conditions it stands for\<close>
named_theorems enum_defs \<open>the string constants behind the configuration enums\<close>

type_synonym uint64 = "64 word"
type_synonym uint32 = "32 word"

section \<open>Sequences of checks\<close>

definition guard :: "bool \<Rightarrow> 'e \<Rightarrow> 'e option" where
  "guard b e = (if b then Some e else None)"

fun first_err :: "'e option list \<Rightarrow> 'e option" where
  "first_err [] = None"
| "first_err (Some e # _) = Some e"
| "first_err (None # rest) = first_err rest"

lemma guard_None [simp, checks]: "guard b e = None \<longleftrightarrow> \<not> b"
  by (simp add: guard_def)

lemma guard_Some [simp]: "guard b e = Some e' \<longleftrightarrow> b \<and> e' = e"
  by (auto simp: guard_def)

lemma guard_simps [simp]: "guard True e = Some e" "guard False e = None"
  by (simp_all add: guard_def)

lemma first_err_Nil_None [checks]: "first_err [] = None"
  by simp

lemma first_err_Cons_None [simp, checks]:
  "first_err (x # xs) = None \<longleftrightarrow> x = None \<and> first_err xs = None"
  by (cases x) auto

lemma first_err_None_iff: "first_err xs = None \<longleftrightarrow> (\<forall>x \<in> set xs. x = None)"
  by (induction xs) auto

lemma first_err_Some_mem: "first_err xs = Some e \<Longrightarrow> Some e \<in> set xs"
  by (induction xs rule: first_err.induct) auto

lemma map_option_None [checks]: "map_option f x = None \<longleftrightarrow> x = None"
  by simp

section \<open>Indexed validation loops\<close>

fun validate_from :: "nat \<Rightarrow> (nat \<Rightarrow> 'e \<Rightarrow> 'f) \<Rightarrow> ('a \<Rightarrow> 'e option) \<Rightarrow> 'a list \<Rightarrow> 'f option" where
  "validate_from i wrap f [] = None"
| "validate_from i wrap f (x # xs) =
     (case f x of Some e \<Rightarrow> Some (wrap i e) | None \<Rightarrow> validate_from (Suc i) wrap f xs)"

abbreviation validate_items :: "(nat \<Rightarrow> 'e \<Rightarrow> 'f) \<Rightarrow> ('a \<Rightarrow> 'e option) \<Rightarrow> 'a list \<Rightarrow> 'f option" where
  "validate_items \<equiv> validate_from 0"

lemma validate_from_None [simp, checks]:
  "validate_from i wrap f xs = None \<longleftrightarrow> (\<forall>x \<in> set xs. f x = None)"
  by (induction xs arbitrary: i) (auto split: option.splits)

lemma validate_from_Some:
  "validate_from i wrap f xs = Some g \<longleftrightarrow>
     (\<exists>k e. k < length xs \<and> f (xs ! k) = Some e \<and> g = wrap (i + k) e \<and>
        (\<forall>j < k. f (xs ! j) = None))" (is "_ \<longleftrightarrow> ?R i xs")
proof (induction xs arbitrary: i)
  case Nil
  then show ?case by simp
next
  case (Cons x xs)
  show ?case
  proof (cases "f x")
    case None
    have "?R i (x # xs) \<longleftrightarrow> ?R (Suc i) xs"
    proof
      assume "?R i (x # xs)"
      then obtain k e where k: "k < length (x # xs)" "f ((x # xs) ! k) = Some e"
        "g = wrap (i + k) e" "\<forall>j < k. f ((x # xs) ! j) = None" by blast
      with None obtain k' where "k = Suc k'" by (cases k) auto
      with k show "?R (Suc i) xs" by (intro exI [of _ k'] exI [of _ e]) auto
    next
      assume "?R (Suc i) xs"
      then obtain k e where "k < length xs" "f (xs ! k) = Some e"
        "g = wrap (Suc i + k) e" "\<forall>j < k. f (xs ! j) = None" by blast
      with None show "?R i (x # xs)"
        by (intro exI [of _ "Suc k"] exI [of _ e]) (auto simp: less_Suc_eq_0_disj)
    qed
    with None Cons.IH show ?thesis by simp
  next
    case (Some e)
    then have "?R i (x # xs) \<longleftrightarrow> g = wrap i e"
      by (metis (no_types, lifting) add_0_right length_greater_0_conv list.distinct(1)
          not_less_zero nth_Cons_0 option.distinct(1) option.inject gr0I)
    with Some show ?thesis by auto
  qed
qed

section \<open>Slices\<close>

text \<open>\<open>substr i j s\<close> is Go's \<open>s[i:j]\<close> for \<open>i \<le> j \<le> len(s)\<close>.\<close>

definition substr :: "nat \<Rightarrow> nat \<Rightarrow> 'a list \<Rightarrow> 'a list" where
  "substr i j s = take (j - i) (drop i s)"

lemma substr_same [simp]: "substr i i s = []"
  by (simp add: substr_def)

lemma length_substr: "j \<le> length s \<Longrightarrow> length (substr i j s) = j - i"
  by (simp add: substr_def)

lemma substr_append:
  assumes "i \<le> j" "j \<le> k"
  shows "substr i j s @ substr j k s = substr i k s"
proof -
  have "take (k - i) (drop i s) = take (j - i) (drop i s) @ take (k - j) (drop (j - i) (drop i s))"
    using assms by (metis Nat.add_diff_assoc2 le_add_diff_inverse take_add diff_add_inverse2)
  then show ?thesis using assms by (simp add: substr_def)
qed

lemma substr_full [simp]: "substr 0 (length s) s = s"
  by (simp add: substr_def)

lemma substr_take_drop: "j \<le> length s \<Longrightarrow> i \<le> j \<Longrightarrow> s = take i s @ substr i j s @ drop j s"
  by (metis append_take_drop_id substr_def drop_drop le_add_diff_inverse2)

section \<open>Finite maps as the code uses them\<close>

lemma map_upd_dom [simp]: "dom (m(k \<mapsto> v)) = insert k (dom m)"
  by auto

lemma map_le_Some: "m \<subseteq>\<^sub>m m' \<Longrightarrow> m k = Some v \<Longrightarrow> m' k = Some v"
  by (metis map_le_def domI)

lemma map_le_fresh:
  assumes "m(k \<mapsto> v) \<subseteq>\<^sub>m m'" "m k = None"
  shows "m \<subseteq>\<^sub>m m' \<and> m' k = Some v"
proof
  show "m \<subseteq>\<^sub>m m'" using assms by (auto simp: map_le_def dom_def split: if_splits)
  show "m' k = Some v" by (rule map_le_Some [OF assms(1)]) simp
qed

lemma sorted_wrt_append_last:
  "sorted_wrt P xs \<Longrightarrow> (\<And>x. x \<in> set xs \<Longrightarrow> P x y) \<Longrightarrow> sorted_wrt P (xs @ [y])"
  by (simp add: sorted_wrt_append)

end
