(* ===== verification/MathUtils.thy ===== *)
theory MathUtils
  imports Prelude
begin

text \<open>
  \<open>internal/mathutils\<close> and the pure helpers of \<open>internal/sliceutils\<close>. The generic Go
  functions over unsigned integers are polymorphic in the word length. A zero alignment or
  denominator panics in Go; every caller passes a non-zero constant.
\<close>

unbundle bit_operations_syntax

section \<open>mathutils\<close>

definition RoundUp :: "'a::len word \<Rightarrow> 'a word \<Rightarrow> 'a word" where
  "RoundUp sz alignment =
     (let d = sz div alignment; m = sz mod alignment in
      if m = 0 then sz else (d + 1) * alignment)"

definition RoundDown :: "'a::len word \<Rightarrow> 'a word \<Rightarrow> 'a word" where
  "RoundDown sz alignment =
     (let d = sz div alignment; m = sz mod alignment in
      if m = 0 then sz else d * alignment)"

definition DivRoundUp :: "'a::len word \<Rightarrow> 'a word \<Rightarrow> 'a word" where
  "DivRoundUp numerator denominator =
     (let sizeInSectors = numerator div denominator; r = numerator mod denominator in
      if r \<noteq> 0 then sizeInSectors + 1 else sizeInSectors)"

lemma unat_RoundDown:
  "unat (RoundDown s a) = unat s div unat a * unat a"
proof -
  have le: "unat s div unat a * unat a \<le> unat s" by (simp add: mult.commute)
  show ?thesis
  proof (cases "s mod a = 0")
    case True
    then have "unat s mod unat a = 0" by (metis unat_0 unat_mod_distrib)
    then show ?thesis using True by (auto simp: RoundDown_def)
  next
    case False
    have "unat (s div a * a) = unat s div unat a * unat a"
      using le_less_trans [OF le unsigned_less [of s]]
      by (subst unat_mult_lem [THEN iffD1]) (simp_all add: unat_div_distrib)
    then show ?thesis using False by (simp add: RoundDown_def)
  qed
qed

lemma RoundDown_le: "unat (RoundDown s a) \<le> unat s"
  by (simp add: unat_RoundDown mult.commute)

lemma unat_DivRoundUp:
  assumes "1 < unat d"
  shows "unat (DivRoundUp n d) = (unat n + unat d - 1) div unat d"
proof (cases "n mod d = 0")
  case True
  then have m: "unat n mod unat d = 0" by (metis unat_0 unat_mod_distrib)
  then obtain k where "unat n = unat d * k" by auto
  moreover have "(unat d * k + unat d - 1) div unat d = k"
  proof -
    have "unat d * k + unat d - 1 = (unat d - 1) + unat d * k" using assms by simp
    then show ?thesis using assms by (simp only: div_mult_self2) simp
  qed
  ultimately show ?thesis using True assms
    by (simp add: DivRoundUp_def unat_div_distrib)
next
  case False
  then have m: "0 < unat n mod unat d"
    by (metis bot_nat_0.not_eq_extremum unat_eq_zero unat_mod_distrib)
  then have "0 < unat n" by (cases "unat n") auto
  then have "unat n div unat d < unat n" using assms by simp
  then have lt: "unat n div unat d + 1 < 2 ^ LENGTH('a)"
    using unsigned_less [of n] by (metis One_nat_def Suc_leI add.commute le_less_trans plus_1_eq_Suc)
  have "unat (n div d + 1) = unat n div unat d + 1"
    using lt by (subst unat_add_lem [THEN iffD1]) (auto simp: unat_div_distrib)
  moreover have "(unat n + unat d - 1) div unat d = unat n div unat d + 1"
  proof -
    define q where "q = unat n div unat d"
    have "unat n = unat d * q + unat n mod unat d" by (simp add: q_def)
    moreover have "unat d * (q + 1) = unat d * q + unat d" by simp
    ultimately have "unat n + unat d - 1 = (unat n mod unat d - 1) + unat d * (q + 1)"
      using m by linarith
    moreover have "(unat n mod unat d - 1) div unat d = 0"
      using assms by (metis div_less less_imp_diff_less mod_less_divisor order.strict_trans zero_less_one)
    ultimately show ?thesis using assms
      by (simp add: q_def del: mult_Suc_right)
  qed
  ultimately show ?thesis using False by (simp add: DivRoundUp_def)
qed

section \<open>sliceutils\<close>

fun FindMatches :: "'a list \<Rightarrow> ('a \<Rightarrow> bool) \<Rightarrow> 'a list" where
  "FindMatches [] isMatch = []"
| "FindMatches (v # vs) isMatch = (if isMatch v then v # FindMatches vs isMatch else FindMatches vs isMatch)"

fun ContainsValue :: "'a list \<Rightarrow> 'a \<Rightarrow> bool" where
  "ContainsValue [] val = False"
| "ContainsValue (item # items) val = (if item = val then True else ContainsValue items val)"

fun ContainsFunc :: "'a list \<Rightarrow> ('a \<Rightarrow> bool) \<Rightarrow> bool" where
  "ContainsFunc [] fn = False"
| "ContainsFunc (item # items) fn = (if fn item then True else ContainsFunc items fn)"

fun FindValueFunc :: "'a list \<Rightarrow> ('a \<Rightarrow> bool) \<Rightarrow> 'a option" where
  "FindValueFunc [] fn = None"
| "FindValueFunc (item # items) fn = (if fn item then Some item else FindValueFunc items fn)"

text \<open>\<open>Find\<close> returns the index of the first match, or \<open>NotFound\<close> (-1).\<close>

fun Find_from :: "int \<Rightarrow> 'a list \<Rightarrow> 'b \<Rightarrow> ('b \<Rightarrow> 'a \<Rightarrow> bool) \<Rightarrow> int" where
  "Find_from i [] searched cond = -1"
| "Find_from i (x # xs) searched cond = (if cond searched x then i else Find_from (i + 1) xs searched cond)"

definition Find :: "'a list \<Rightarrow> 'b \<Rightarrow> ('b \<Rightarrow> 'a \<Rightarrow> bool) \<Rightarrow> int" where
  "Find xs searched cond = Find_from 0 xs searched cond"

definition Contains :: "'a list \<Rightarrow> 'b \<Rightarrow> ('b \<Rightarrow> 'a \<Rightarrow> bool) \<Rightarrow> bool" where
  "Contains xs searched cond = (Find xs searched cond \<noteq> -1)"

lemma FindMatches_filter [simp]: "FindMatches xs p = filter p xs"
  by (induction xs) auto

lemma ContainsValue_iff [simp, checks]: "ContainsValue xs v \<longleftrightarrow> v \<in> set xs"
  by (induction xs) auto

lemma ContainsFunc_iff [simp, checks]: "ContainsFunc xs f \<longleftrightarrow> (\<exists>x \<in> set xs. f x)"
  by (induction xs) auto

lemma FindValueFunc_Some: "FindValueFunc xs f = Some x \<Longrightarrow> x \<in> set xs \<and> f x"
  by (induction xs) (auto split: if_splits)

lemma FindValueFunc_None [simp]: "FindValueFunc xs f = None \<longleftrightarrow> (\<forall>x \<in> set xs. \<not> f x)"
  by (induction xs) auto

lemma Find_from_ge: "0 \<le> i \<Longrightarrow> Find_from i xs s c = -1 \<or> i \<le> Find_from i xs s c"
proof (induction xs arbitrary: i)
  case (Cons x xs)
  from Cons.IH [of "i + 1"] Cons.prems show ?case by auto
qed simp

lemma Contains_iff: "Contains xs s c \<longleftrightarrow> (\<exists>x \<in> set xs. c s x)"
proof -
  have "0 \<le> i \<Longrightarrow> Find_from i xs s c \<noteq> -1 \<longleftrightarrow> (\<exists>x \<in> set xs. c s x)" for i
    by (induction xs arbitrary: i) auto
  then show ?thesis by (simp add: Contains_def Find_def)
qed

end
