(* ===== verification/GoStrings.thy ===== *)
theory GoStrings
  imports Prelude
begin

text \<open>
  The parts of Go's \<open>strings\<close>, \<open>strconv\<close>, \<open>path\<close>, \<open>unicode\<close> and \<open>unicode/utf8\<close> packages
  that the program relies on. A Go string is a sequence of bytes and is modelled by HOL's
  \<open>string\<close> (a list of 8-bit characters), so \<open>len(s)\<close> is \<open>length s\<close>. A rune is a \<open>nat\<close>.
\<close>

section \<open>Package strings\<close>

abbreviation HasPrefix :: "string \<Rightarrow> string \<Rightarrow> bool" where
  "HasPrefix s p \<equiv> prefix p s"

abbreviation HasSuffix :: "string \<Rightarrow> string \<Rightarrow> bool" where
  "HasSuffix s p \<equiv> suffix p s"

definition TrimSuffix :: "string \<Rightarrow> string \<Rightarrow> string" where
  "TrimSuffix s p = (if suffix p s then take (length s - length p) s else s)"

definition ContainsAny :: "string \<Rightarrow> string \<Rightarrow> bool" where
  "ContainsAny s chars = list_ex (\<lambda>c. c \<in> set chars) s"

definition ContainsStr :: "string \<Rightarrow> string \<Rightarrow> bool" where
  "ContainsStr s sub = list_ex (prefix sub) (suffixes s)"

text \<open>\<open>strings.Split(s, sep)\<close> for a separator of one byte, as everywhere in the code.\<close>

fun Split :: "string \<Rightarrow> char \<Rightarrow> string list" where
  "Split [] sep = [[]]"
| "Split (c # cs) sep =
     (if c = sep then [] # Split cs sep
      else (case Split cs sep of [] \<Rightarrow> [[c]] | w # ws \<Rightarrow> (c # w) # ws))"

text \<open>\<open>strings.Cut(s, sep)\<close>: the text before and after the first separator, and whether there is one.\<close>

fun Cut :: "string \<Rightarrow> char \<Rightarrow> string \<times> string \<times> bool" where
  "Cut [] sep = ([], [], False)"
| "Cut (c # cs) sep =
     (if c = sep then ([], cs, True)
      else (case Cut cs sep of (b, a, f) \<Rightarrow> (c # b, a, f)))"

fun join :: "'a list \<Rightarrow> 'a list list \<Rightarrow> 'a list" where
  "join sep [] = []"
| "join sep [w] = w"
| "join sep (w # v # ws) = w @ sep @ join sep (v # ws)"

text \<open>ASCII part of \<open>strings.ToLower\<close>.\<close>

definition to_lower :: "char \<Rightarrow> char" where
  "to_lower c = (if 65 \<le> (of_char c :: nat) \<and> (of_char c :: nat) \<le> 90
                 then char_of (of_char c + 32 :: nat) else c)"

definition ToLower :: "string \<Rightarrow> string" where
  "ToLower s = map to_lower s"

lemma Split_nonempty [simp]: "Split s sep \<noteq> []"
  by (cases s) (auto split: list.splits)

lemma Split_no_sep [simp]: "sep \<notin> set s \<Longrightarrow> Split s sep = [s]"
  by (induction s) auto

lemma Split_append_sep:
  "sep \<notin> set w \<Longrightarrow> Split (w @ sep # rest) sep = w # Split rest sep"
  by (induction w) auto

lemma Split_trailing: "Split (s @ [sep]) sep = Split s sep @ [[]]"
proof (induction s)
  case (Cons c cs)
  then show ?case by (cases "Split cs sep") auto
qed simp

lemma Split_mem_no_sep: "w \<in> set (Split s sep) \<Longrightarrow> sep \<notin> set w"
proof (induction s arbitrary: w)
  case (Cons c cs)
  then show ?case
    by (cases "Split cs sep") (auto split: if_splits)
qed simp

lemma join_Split: "join [sep] (Split s sep) = s"
proof (induction s)
  case (Cons c cs)
  obtain w ws where w: "Split cs sep = w # ws"
    by (cases "Split cs sep") auto
  with Cons show ?case by (cases ws) auto
qed simp

lemma Split_join:
  "ws \<noteq> [] \<Longrightarrow> (\<And>w. w \<in> set ws \<Longrightarrow> sep \<notin> set w) \<Longrightarrow> Split (join [sep] ws) sep = ws"
proof (induction "[sep]" ws rule: join.induct)
  case (3 w v ws)
  then have "Split (w @ sep # join [sep] (v # ws)) sep = w # Split (join [sep] (v # ws)) sep"
    by (intro Split_append_sep) simp
  with 3 show ?case by simp
qed simp_all

lemma Cut_append_sep: "sep \<notin> set w \<Longrightarrow> Cut (w @ sep # rest) sep = (w, rest, True)"
  by (induction w) auto

lemma Cut_no_sep: "sep \<notin> set w \<Longrightarrow> Cut w sep = (w, [], False)"
  by (induction w) auto

section \<open>Package strconv\<close>

text \<open>\<open>ParseUint\<close> on a string of characters, without underscores or a base prefix other than a
  leading zero, which is what the callers' regular expressions let through: \<open>ErrSyntax\<close> for a
  character that is no digit of the base, \<open>ErrRange\<close> as soon as the value leaves the width.\<close>

datatype num_error = ErrSyntax | ErrRange

definition digit_val :: "char \<Rightarrow> nat option" where
  "digit_val c =
     (let b = of_char c :: nat in
      if 48 \<le> b \<and> b \<le> 57 then Some (b - 48)
      else if 97 \<le> b \<and> b \<le> 122 then Some (b - 97 + 10)
      else if 65 \<le> b \<and> b \<le> 90 then Some (b - 65 + 10)
      else None)"

definition is_digit :: "char \<Rightarrow> bool" where
  "is_digit c = (48 \<le> (of_char c :: nat) \<and> (of_char c :: nat) \<le> 57)"

fun parse_uint_loop :: "nat \<Rightarrow> nat \<Rightarrow> nat \<Rightarrow> string \<Rightarrow> num_error + nat" where
  "parse_uint_loop base max_val n [] = Inr n"
| "parse_uint_loop base max_val n (c # cs) =
     (case digit_val c of
        None \<Rightarrow> Inl ErrSyntax
      | Some d \<Rightarrow>
          if d \<ge> base then Inl ErrSyntax
          else if n * base + d > max_val then Inl ErrRange
          else parse_uint_loop base max_val (n * base + d) cs)"

definition ParseUint :: "string \<Rightarrow> nat \<Rightarrow> nat \<Rightarrow> num_error + nat" where
  "ParseUint s base bits =
     (case s of
        [] \<Rightarrow> Inl ErrSyntax
      | c # cs \<Rightarrow>
          if base = 0
          then (if c = CHR ''0'' then parse_uint_loop 8 (2 ^ bits - 1) 0 cs
                else parse_uint_loop 10 (2 ^ bits - 1) 0 s)
          else parse_uint_loop base (2 ^ bits - 1) 0 s)"

text \<open>\<open>Atoi\<close>: an optional sign and decimal digits in the range of a 64-bit \<open>int\<close>.\<close>

definition Atoi :: "string \<Rightarrow> num_error + int" where
  "Atoi s =
     (case s of
        [] \<Rightarrow> Inl ErrSyntax
      | c # cs \<Rightarrow>
          let neg = (c = CHR ''-'');
              body = (if c = CHR ''-'' \<or> c = CHR ''+'' then cs else s) in
          (case ParseUint body 10 64 of
             Inl e \<Rightarrow> Inl e
           | Inr u \<Rightarrow>
               if \<not> neg \<and> u \<ge> 2 ^ 63 then Inl ErrRange
               else if neg \<and> u > 2 ^ 63 then Inl ErrRange
               else Inr (if neg then - int u else int u)))"

text \<open>\<open>fmt.Sprintf("%d", n)\<close>.\<close>

fun nat_dec :: "nat \<Rightarrow> string" where
  "nat_dec n = (if n < 10 then [char_of (48 + n)] else nat_dec (n div 10) @ [char_of (48 + n mod 10)])"

declare nat_dec.simps [simp del]

definition int_dec :: "int \<Rightarrow> string" where
  "int_dec i = (if i < 0 then CHR ''-'' # nat_dec (nat (- i)) else nat_dec (nat i))"

lemma of_char_digit: "d < 10 \<Longrightarrow> (of_char (char_of (48 + d)) :: nat) = 48 + d"
  by simp

lemma digit_val_digit [simp]: "d < 10 \<Longrightarrow> digit_val (char_of (48 + d)) = Some d"
  by (simp add: digit_val_def Let_def)

lemma is_digit_digit: "d < 10 \<Longrightarrow> is_digit (char_of (48 + d :: nat))"
  by (simp add: is_digit_def)

lemma nat_dec_digits: "c \<in> set (nat_dec n) \<Longrightarrow> is_digit c"
proof (induction n rule: nat_dec.induct)
  case (1 n)
  then show ?case
    by (cases "n < 10") (auto simp: nat_dec.simps [of n] is_digit_digit)
qed

lemma nat_dec_nonempty [simp]: "nat_dec n \<noteq> []"
  by (subst nat_dec.simps) simp

lemma nat_dec_hd_nonzero: "0 < n \<Longrightarrow> hd (nat_dec n) \<noteq> CHR ''0''"
proof (induction n rule: nat_dec.induct)
  case (1 n)
  show ?case
  proof (cases "n < 10")
    case True
    then have "(48 + n) mod 256 = 48 + n" by simp
    with True \<open>0 < n\<close> have "char_of (48 + n) \<noteq> CHR ''0''"
      by (simp add: char_of_eq_iff take_bit_eq_mod)
    with True show ?thesis by (simp add: nat_dec.simps [of n])
  next
    case False
    with 1 show ?thesis by (auto simp: nat_dec.simps [of n])
  qed
qed

lemma parse_uint_loop_append:
  "parse_uint_loop base m n (xs @ ys) =
     (case parse_uint_loop base m n xs of Inl e \<Rightarrow> Inl e | Inr k \<Rightarrow> parse_uint_loop base m k ys)"
  by (induction xs arbitrary: n) (auto split: option.splits)

lemma parse_nat_dec: "n \<le> m \<Longrightarrow> parse_uint_loop 10 m 0 (nat_dec n) = Inr n"
proof (induction n rule: nat_dec.induct)
  case (1 n)
  show ?case
  proof (cases "n < 10")
    case True
    with 1(2) show ?thesis by (simp add: nat_dec.simps [of n])
  next
    case False
    with 1 have "parse_uint_loop 10 m 0 (nat_dec (n div 10)) = Inr (n div 10)" by simp
    with False 1(2) show ?thesis
      by (simp add: nat_dec.simps [of n] parse_uint_loop_append mult.commute)
  qed
qed

lemma parse_uint_loop_le: "parse_uint_loop b m n s = Inr k \<Longrightarrow> n \<le> m \<Longrightarrow> k \<le> m"
  by (induction s arbitrary: n) (auto split: option.splits if_splits)

lemma ParseUint_le: "ParseUint s base bits = Inr k \<Longrightarrow> k < 2 ^ bits"
proof -
  assume a: "ParseUint s base bits = Inr k"
  then have "k \<le> 2 ^ bits - 1"
    by (auto simp: ParseUint_def simp del: parse_uint_loop.simps
        split: list.splits if_splits dest!: parse_uint_loop_le)
  moreover have "0 < (2 ^ bits :: nat)" by simp
  ultimately show "k < 2 ^ bits" by linarith
qed

lemma ParseUint_10_nat_dec: "n < 2 ^ bits \<Longrightarrow> ParseUint (nat_dec n) 10 bits = Inr n"
  using parse_nat_dec [of n "2 ^ bits - 1"]
  by (auto simp: ParseUint_def split: list.splits)

lemma ParseUint_0_nat_dec: "n < 2 ^ bits \<Longrightarrow> ParseUint (nat_dec n) 0 bits = Inr n"
proof (cases "n = 0")
  case True
  then show ?thesis by (simp add: nat_dec.simps ParseUint_def char_of_eq_iff)
next
  case False
  then have "hd (nat_dec n) \<noteq> CHR ''0''" by (simp add: nat_dec_hd_nonzero)
  moreover assume "n < 2 ^ bits"
  ultimately show ?thesis
    using parse_nat_dec [of n "2 ^ bits - 1"] nat_dec_nonempty [of n]
    by (cases "nat_dec n") (auto simp: ParseUint_def)
qed

lemma not_digit_sign: "\<not> is_digit CHR ''-''" "\<not> is_digit CHR ''+''"
  by (simp_all add: is_digit_def)

lemma Atoi_int_dec: "- (2 ^ 63) \<le> i \<Longrightarrow> i < 2 ^ 63 \<Longrightarrow> Atoi (int_dec i) = Inr i"
proof (cases "i < 0")
  case True
  assume "- (2 ^ 63) \<le> i"
  with True have b: "nat (- i) \<le> 2 ^ 63" by simp
  then have "ParseUint (nat_dec (nat (- i))) 10 64 = Inr (nat (- i))"
    by (intro ParseUint_10_nat_dec) simp
  with True b show ?thesis by (simp add: Atoi_def int_dec_def Let_def)
next
  case False
  assume "i < 2 ^ 63"
  with False have b: "nat i < 2 ^ 63" by simp
  obtain c cs where s: "nat_dec (nat i) = c # cs" by (cases "nat_dec (nat i)") auto
  have "c \<noteq> CHR ''-''" "c \<noteq> CHR ''+''"
    using nat_dec_digits [of c "nat i"] not_digit_sign s by auto
  moreover have "ParseUint (nat_dec (nat i)) 10 64 = Inr (nat i)"
    using b by (intro ParseUint_10_nat_dec) simp
  ultimately show ?thesis using False b s
    by (simp add: Atoi_def int_dec_def Let_def)
qed

section \<open>Package unicode/utf8\<close>

text \<open>
  \<open>DecodeRuneInString\<close>: the rune at the start of a byte sequence and its width in bytes,
  \<open>(RuneError, 0)\<close> at the end of the string and \<open>(RuneError, 1)\<close> for a byte that does not start a
  well-formed sequence. \<open>encode_rune\<close> is \<open>AppendRune\<close>, which \<open>strings.Builder.WriteRune\<close> uses.
\<close>

abbreviation RuneError :: nat where "RuneError \<equiv> 0xFFFD"

abbreviation byte :: "char \<Rightarrow> nat" where "byte c \<equiv> of_char c"

definition cont_in :: "nat \<Rightarrow> nat \<Rightarrow> string \<Rightarrow> nat \<Rightarrow> bool" where
  "cont_in lo hi s i = (i < length s \<and> lo \<le> byte (s ! i) \<and> byte (s ! i) \<le> hi)"

definition DecodeRune :: "string \<Rightarrow> nat \<times> nat" where
  "DecodeRune s =
     (case s of
        [] \<Rightarrow> (RuneError, 0)
      | c # _ \<Rightarrow>
          let b0 = byte c; ct = (\<lambda>i. byte (s ! i) - 0x80) in
          if b0 < 0x80 then (b0, 1)
          else if 0xC2 \<le> b0 \<and> b0 \<le> 0xDF \<and> cont_in 0x80 0xBF s 1
            then ((b0 - 0xC0) * 64 + ct 1, 2)
          else if 0xE0 \<le> b0 \<and> b0 \<le> 0xEF
              \<and> cont_in (if b0 = 0xE0 then 0xA0 else 0x80) (if b0 = 0xED then 0x9F else 0xBF) s 1
              \<and> cont_in 0x80 0xBF s 2
            then ((b0 - 0xE0) * 4096 + ct 1 * 64 + ct 2, 3)
          else if 0xF0 \<le> b0 \<and> b0 \<le> 0xF4
              \<and> cont_in (if b0 = 0xF0 then 0x90 else 0x80) (if b0 = 0xF4 then 0x8F else 0xBF) s 1
              \<and> cont_in 0x80 0xBF s 2 \<and> cont_in 0x80 0xBF s 3
            then ((b0 - 0xF0) * 262144 + ct 1 * 4096 + ct 2 * 64 + ct 3, 4)
          else (RuneError, 1))"

definition valid_rune :: "nat \<Rightarrow> bool" where
  "valid_rune r \<longleftrightarrow> r < 0xD800 \<or> (0xE000 \<le> r \<and> r \<le> 0x10FFFF)"

definition encode_rune :: "nat \<Rightarrow> string" where
  "encode_rune r0 =
     (let r = (if valid_rune r0 then r0 else RuneError) in
      if r < 0x80 then [char_of r]
      else if r < 0x800 then [char_of (0xC0 + r div 64), char_of (0x80 + r mod 64)]
      else if r < 0x10000 then
        [char_of (0xE0 + r div 4096), char_of (0x80 + r div 64 mod 64), char_of (0x80 + r mod 64)]
      else
        [char_of (0xF0 + r div 262144), char_of (0x80 + r div 4096 mod 64),
         char_of (0x80 + r div 64 mod 64), char_of (0x80 + r mod 64)])"

definition encode_runes :: "nat list \<Rightarrow> string" where
  "encode_runes rs = concat (map encode_rune rs)"

lemma DecodeRune_Nil [simp]: "DecodeRune [] = (RuneError, 0)"
  by (simp add: DecodeRune_def)

lemma DecodeRune_width_pos: "s \<noteq> [] \<Longrightarrow> 0 < snd (DecodeRune s)"
  by (cases s) (simp_all add: DecodeRune_def Let_def)

lemma cont_in_length: "cont_in lo hi s i \<Longrightarrow> i < length s"
  by (simp add: cont_in_def)

lemma DecodeRune_width_le: "snd (DecodeRune s) \<le> length s"
  by (cases s) (auto simp: DecodeRune_def Let_def Suc_le_eq dest!: cont_in_length)

lemma DecodeRune_ascii: "byte c < 0x80 \<Longrightarrow> DecodeRune (c # s) = (byte c, 1)"
  by (simp add: DecodeRune_def)

lemma byte_char_of: "n < 256 \<Longrightarrow> byte (char_of n) = n"
  by simp

lemma DecodeRune_2:
  assumes "byte c0 = 0xC0 + q" "byte c1 = 0x80 + t" "2 \<le> q" "q < 32" "t < 64"
  shows "DecodeRune (c0 # c1 # s) = (q * 64 + t, 2)"
  using assms by (simp add: DecodeRune_def cont_in_def Let_def)

lemma DecodeRune_3:
  assumes "byte c0 = 0xE0 + q" "byte c1 = 0x80 + t" "byte c2 = 0x80 + u"
    "q < 16" "t < 64" "u < 64" "q = 0 \<Longrightarrow> 32 \<le> t" "q = 13 \<Longrightarrow> t < 32"
  shows "DecodeRune (c0 # c1 # c2 # s) = (q * 4096 + t * 64 + u, 3)"
  using assms by (auto simp: DecodeRune_def cont_in_def Let_def)

lemma DecodeRune_4:
  assumes "byte c0 = 0xF0 + q" "byte c1 = 0x80 + t" "byte c2 = 0x80 + u" "byte c3 = 0x80 + v"
    "q < 5" "t < 64" "u < 64" "v < 64" "q = 0 \<Longrightarrow> 16 \<le> t" "q = 4 \<Longrightarrow> t < 16"
  shows "DecodeRune (c0 # c1 # c2 # c3 # s) = (q * 262144 + t * 4096 + u * 64 + v, 4)"
  using assms by (auto simp: DecodeRune_def cont_in_def Let_def)

lemma DecodeRune_encode_rune:
  assumes "valid_rune r"
  shows "DecodeRune (encode_rune r @ s) = (r, length (encode_rune r))"
proof -
  consider "r < 0x80" | "0x80 \<le> r" "r < 0x800" | "0x800 \<le> r" "r < 0x10000"
    | "0x10000 \<le> r" "r \<le> 0x10FFFF"
    using assms by (force simp: valid_rune_def)
  then show ?thesis
  proof cases
    case 1
    then have "byte (char_of r) = r" by (intro byte_char_of) simp
    with 1 assms show ?thesis by (simp add: encode_rune_def DecodeRune_ascii)
  next
    case 2
    then have e: "encode_rune r = [char_of (0xC0 + r div 64), char_of (0x80 + r mod 64)]"
      using assms by (simp add: encode_rune_def)
    have "DecodeRune (encode_rune r @ s) = (r div 64 * 64 + r mod 64, 2)"
      unfolding e append.simps using 2
      by (intro DecodeRune_2 byte_char_of) auto
    with e show ?thesis by simp
  next
    case 3
    then have e: "encode_rune r = [char_of (0xE0 + r div 4096),
        char_of (0x80 + r div 64 mod 64), char_of (0x80 + r mod 64)]"
      using assms by (simp add: encode_rune_def)
    define h where "h = r div 64"
    have h: "r div 4096 = h div 64" by (simp add: h_def div_mult2_eq [symmetric])
    have "32 \<le> h" "h < 864 \<or> 896 \<le> h"
      using 3 assms unfolding h_def valid_rune_def by linarith+
    then have "h div 64 = 0 \<Longrightarrow> 32 \<le> h mod 64" "h div 64 = 13 \<Longrightarrow> h mod 64 < 32"
      using mult_div_mod_eq [of 64 h] mod_less_divisor [of 64 h] by (elim disjE; simp; linarith)+
    then have lo: "r div 4096 = 0 \<Longrightarrow> 32 \<le> r div 64 mod 64"
      and hi: "r div 4096 = 13 \<Longrightarrow> r div 64 mod 64 < 32"
      unfolding h by (simp_all add: h_def)
    have "DecodeRune (encode_rune r @ s) =
        (r div 4096 * 4096 + r div 64 mod 64 * 64 + r mod 64, 3)"
      unfolding e append.simps using 3 lo hi
      by (intro DecodeRune_3 byte_char_of) auto
    moreover have "r div 4096 * 4096 + r div 64 mod 64 * 64 + r mod 64 = r"
      using mult_div_mod_eq [of 64 r] mult_div_mod_eq [of 64 h]
      unfolding h h_def [symmetric] by linarith
    ultimately show ?thesis using e by simp
  next
    case 4
    then have e: "encode_rune r = [char_of (0xF0 + r div 262144),
        char_of (0x80 + r div 4096 mod 64), char_of (0x80 + r div 64 mod 64),
        char_of (0x80 + r mod 64)]"
      using assms by (simp add: encode_rune_def)
    define h where "h = r div 4096"
    have h: "r div 262144 = h div 64" by (simp add: h_def div_mult2_eq [symmetric])
    have "16 \<le> h" "h < 272" using 4 unfolding h_def by linarith+
    then have "h div 64 = 0 \<Longrightarrow> 16 \<le> h mod 64" "h div 64 = 4 \<Longrightarrow> h mod 64 < 16"
      using mult_div_mod_eq [of 64 h] mod_less_divisor [of 64 h] by (simp; linarith)+
    then have lo: "r div 262144 = 0 \<Longrightarrow> 16 \<le> r div 4096 mod 64"
      and hi: "r div 262144 = 4 \<Longrightarrow> r div 4096 mod 64 < 16"
      unfolding h by (simp_all add: h_def)
    have "DecodeRune (encode_rune r @ s) =
        (r div 262144 * 262144 + r div 4096 mod 64 * 4096 + r div 64 mod 64 * 64 + r mod 64, 4)"
      unfolding e append.simps using 4 lo hi
      by (intro DecodeRune_4 byte_char_of) auto
    moreover have "r div 262144 * 262144 + r div 4096 mod 64 * 4096 + r div 64 mod 64 * 64
        + r mod 64 = r"
    proof -
      have "h = r div 64 div 64" by (simp add: h_def div_mult2_eq [symmetric])
      then show ?thesis
        using mult_div_mod_eq [of 64 r] mult_div_mod_eq [of 64 h] mult_div_mod_eq [of 64 "r div 64"]
        unfolding h h_def [symmetric] by linarith
    qed
    ultimately show ?thesis using e by simp
  qed
qed

lemma encode_rune_nonempty [simp]: "encode_rune r \<noteq> []"
  by (simp add: encode_rune_def Let_def)

lemma encode_runes_Nil [simp]: "encode_runes [] = []"
  and encode_runes_Cons [simp]: "encode_runes (r # rs) = encode_rune r @ encode_runes rs"
  by (simp_all add: encode_runes_def)

lemma encode_runes_append: "encode_runes (rs @ qs) = encode_runes rs @ encode_runes qs"
  by (simp add: encode_runes_def)

lemma encode_rune_ascii: "r < 0x80 \<Longrightarrow> encode_rune r = [char_of r]"
  by (simp add: encode_rune_def valid_rune_def)

text \<open>An ASCII byte is its own rune; every other rune is made of bytes above 127 only.\<close>

lemma take_high: "(\<And>i. i < n \<Longrightarrow> P (s ! i)) \<Longrightarrow> \<forall>c \<in> set (take n s). P c"
  by (auto simp: in_set_conv_nth)

lemma DecodeRune_split:
  assumes "DecodeRune s = (r, w)" "s \<noteq> []"
  shows "(byte (hd s) < 128 \<and> r = byte (hd s) \<and> w = 1)
    \<or> (128 \<le> r \<and> (\<forall>c \<in> set (take w s). 128 \<le> byte c))"
proof -
  obtain c u where s: "s = c # u" using assms(2) by (cases s) auto
  let ?b = "byte c"
  let ?c2 = "0xC2 \<le> ?b \<and> ?b \<le> 0xDF \<and> cont_in 0x80 0xBF s 1"
  let ?c3 = "0xE0 \<le> ?b \<and> ?b \<le> 0xEF
              \<and> cont_in (if ?b = 0xE0 then 0xA0 else 0x80) (if ?b = 0xED then 0x9F else 0xBF) s 1
              \<and> cont_in 0x80 0xBF s 2"
  let ?c4 = "0xF0 \<le> ?b \<and> ?b \<le> 0xF4
              \<and> cont_in (if ?b = 0xF0 then 0x90 else 0x80) (if ?b = 0xF4 then 0x8F else 0xBF) s 1
              \<and> cont_in 0x80 0xBF s 2 \<and> cont_in 0x80 0xBF s 3"
  have D: "DecodeRune s = (if ?b < 0x80 then (?b, 1)
     else if ?c2 then ((?b - 0xC0) * 64 + (byte (s ! 1) - 0x80), 2)
     else if ?c3 then ((?b - 0xE0) * 4096 + (byte (s ! 1) - 0x80) * 64 + (byte (s ! 2) - 0x80), 3)
     else if ?c4 then ((?b - 0xF0) * 262144 + (byte (s ! 1) - 0x80) * 4096 + (byte (s ! 2) - 0x80) * 64 + (byte (s ! 3) - 0x80), 4)
     else (RuneError, 1))"
    unfolding DecodeRune_def s Let_def list.case by (rule refl)
  consider "?b < 128" | "\<not> ?b < 128" "?c2" | "\<not> ?b < 128" "\<not> ?c2" "?c3"
    | "\<not> ?b < 128" "\<not> ?c2" "\<not> ?c3" "?c4" | "\<not> ?b < 128" "\<not> ?c2" "\<not> ?c3" "\<not> ?c4" by blast
  then show ?thesis
  proof cases
    case 1
    with assms D s show ?thesis by simp
  next
    case 2
    have "128 \<le> byte (s ! i)" if "i < 2" for i
      using that 2 s by (auto simp: less_2_cases_iff cont_in_def)
    then have "\<forall>c \<in> set (take 2 s). 128 \<le> byte c" by (rule take_high)
    moreover have "r = (?b - 0xC0) * 64 + (byte (s ! 1) - 0x80)" "w = 2" using assms D 2 by simp_all
    moreover from this have "128 \<le> r" using 2 by linarith
    ultimately show ?thesis by blast
  next
    case 3
    then have c: "128 \<le> byte (s ! 1)" "128 \<le> byte (s ! 2)"
      using 3 by (auto simp: cont_in_def split: if_splits)
    have "128 \<le> byte (s ! i)" if "i < 3" for i
      using that 3 c s by (auto simp: numeral_3_eq_3 less_Suc_eq numeral_2_eq_2)
    then have "\<forall>c \<in> set (take 3 s). 128 \<le> byte c" by (rule take_high)
    moreover have r: "r = (?b - 0xE0) * 4096 + (byte (s ! 1) - 0x80) * 64 + (byte (s ! 2) - 0x80)" "w = 3"
      using assms D 3 by simp_all
    moreover have "128 \<le> r"
    proof (cases "?b = 0xE0")
      case True
      then have "0xA0 \<le> byte (s ! 1)" using 3 by (simp add: cont_in_def)
      then show ?thesis using r by simp
    next
      case False
      then have "1 \<le> ?b - 0xE0" using 3 by linarith
      then show ?thesis using r by linarith
    qed
    ultimately show ?thesis by blast
  next
    case 4
    then have c: "128 \<le> byte (s ! 1)" "128 \<le> byte (s ! 2)" "128 \<le> byte (s ! 3)"
      using 4 by (auto simp: cont_in_def split: if_splits)
    have "128 \<le> byte (s ! i)" if "i < 4" for i
    proof -
      have "i = 0 \<or> i = 1 \<or> i = 2 \<or> i = 3" using that by linarith
      then show ?thesis using 4 c s by auto
    qed
    then have "\<forall>c \<in> set (take 4 s). 128 \<le> byte c" by (rule take_high)
    moreover have r: "r = (?b - 0xF0) * 262144 + (byte (s ! 1) - 0x80) * 4096 + (byte (s ! 2) - 0x80) * 64 + (byte (s ! 3) - 0x80)" "w = 4"
      using assms D 4 by simp_all
    moreover have "128 \<le> r"
    proof (cases "?b = 0xF0")
      case True
      then have "0x90 \<le> byte (s ! 1)" using 4 by (simp add: cont_in_def)
      then show ?thesis using r by simp
    next
      case False
      then have "1 \<le> ?b - 0xF0" using 4 by linarith
      then show ?thesis using r by linarith
    qed
    ultimately show ?thesis by blast
  next
    case 5
    then have "DecodeRune s = (RuneError, 1)" unfolding D by (simp only: if_False)
    with assms s 5 show ?thesis by simp
  qed
qed

text \<open>The runes a \<open>for _, c := range s\<close> loop visits.\<close>

function range_runes :: "string \<Rightarrow> nat list" where
  "range_runes s =
     (if s = [] then []
      else (case DecodeRune s of (r, w) \<Rightarrow> r # range_runes (drop w s)))"
  by pat_completeness auto
termination range_runes
proof (relation "measure length", goal_cases)
  case (2 s r w)
  then have "0 < w" using DecodeRune_width_pos [of s] by (metis snd_conv)
  with 2 show ?case by simp
qed simp

declare range_runes.simps [simp del]

lemma range_runes_Nil [simp]: "range_runes [] = []"
  by (simp add: range_runes.simps)

lemma range_runes_encode:
  "list_all valid_rune rs \<Longrightarrow> range_runes (encode_runes rs) = rs"
proof (induction rs)
  case (Cons r rs)
  then show ?case
    by (simp add: range_runes.simps [of "encode_rune r @ encode_runes rs"] DecodeRune_encode_rune)
qed simp

lemma range_runes_ascii: "(\<And>c. c \<in> set s \<Longrightarrow> byte c < 0x80) \<Longrightarrow> range_runes s = map byte s"
proof (induction s)
  case (Cons c s)
  then show ?case
    by (simp add: range_runes.simps [of "c # s"] DecodeRune_ascii)
qed simp

section \<open>Packages unicode and path\<close>

text \<open>\<open>unicode.IsSpace\<close>, and \<open>strings.TrimSpace(s) == ""\<close>: every rune is a space.\<close>

definition IsSpace :: "nat \<Rightarrow> bool" where
  "IsSpace r \<longleftrightarrow> (9 \<le> r \<and> r \<le> 13) \<or> r = 0x20 \<or> r = 0x85 \<or> r = 0xA0 \<or> r = 0x1680
     \<or> (0x2000 \<le> r \<and> r \<le> 0x200A) \<or> r = 0x2028 \<or> r = 0x2029 \<or> r = 0x202F \<or> r = 0x205F \<or> r = 0x3000"

definition TrimSpace_empty :: "string \<Rightarrow> bool" where
  "TrimSpace_empty s = list_all IsSpace (range_runes s)"

definition path_IsAbs :: "string \<Rightarrow> bool" where
  "path_IsAbs p = prefix ''/'' p"

text \<open>
  \<open>path.Clean\<close>: the components of the path are pushed on a stack; an empty component or \<open>.\<close> is
  dropped, \<open>..\<close> removes the component before it, and one that has nothing to remove is dropped
  in a rooted path and kept in a relative one.
\<close>

fun clean_step :: "bool \<Rightarrow> string list \<Rightarrow> string \<Rightarrow> string list" where
  "clean_step rooted st w =
     (if w = [] \<or> w = ''.'' then st
      else if w = ''..'' then
        (case st of
           [] \<Rightarrow> if rooted then [] else [w]
         | v # st' \<Rightarrow> if v = ''..'' then w # st else st')
      else w # st)"

definition path_Clean :: "string \<Rightarrow> string" where
  "path_Clean p =
     (if p = [] then ''.''
      else
        let rooted = path_IsAbs p;
            st = foldl (clean_step rooted) [] (Split p CHR ''/'');
            body = join ''/'' (rev st)
        in if rooted then CHR ''/'' # body else if body = [] then ''.'' else body)"

lemma path_Clean_ex: "path_Clean ''/boot//a/../b/.'' = ''/boot/b''" "path_Clean ''a/../..'' = ''..''"
  "path_Clean ''/..'' = ''/''"
  by (simp_all add: path_Clean_def path_IsAbs_def Let_def)

end
