(* ===== verification/VerityUtils.thy ===== *)
theory VerityUtils
  imports MathUtils GoStrings
begin

text \<open>
  \<open>internal/verityutils\<close>: the dm-verity superblock and the size of a dm-verity hash tree, and the
  binary search of \<open>imagecustomizerapi/storage.go\<close> that splits an inline verity partition into a
  data and a hash part. Every integer has the width the code gives it. A loop of the code that need
  not end is a \<open>partial_function (option)\<close>; \<open>None\<close> says that it does not return.

  The lemmas show when the loops return, that the 64-bit tree size is the mathematical one
  (\<open>tree_blocks\<close>, over \<open>nat\<close>) and that the binary search finds the greatest number of data
  blocks that fits, for any monotone cost (locale \<open>block_cost\<close>).
\<close>

section \<open>Superblock\<close>

record VeritySuperBlock =
  Signature :: string
  Version :: uint32
  HashType :: uint32
  Uuid :: string
  Algorithm :: string
  DataBlockSize :: uint32
  HashBlockSize :: uint32
  DataBlocks :: uint64
  SaltSize :: "16 word"
  Pad1 :: string
  Salt :: string
  Pad2 :: string

datatype verity_error =
    HashPartitionOpen
  | HashPartitionSeek
  | HashPartitionRead
  | WrongSuperblockSignature
  | UnsupportedVersion uint32
  | UnsupportedHashType uint32
  | InvalidDataBlockSize uint32
  | InvalidHashBlockSize uint32
  | UnknownHashAlgorithm string

definition GetAlgorithm :: "VeritySuperBlock \<Rightarrow> string" where
  "GetAlgorithm s = fst (Cut (Algorithm s) (CHR 0x00))"

definition isPowerOf2 :: "uint32 \<Rightarrow> bool" where
  "isPowerOf2 n = (n AND (n - 1) = 0)"

definition getAlgorithmHashSize :: "string \<Rightarrow> verity_error + uint32" where
  "getAlgorithmHashSize algorithm =
     (if algorithm = ''sha256'' then Inr 32
      else if algorithm = ''sha384'' then Inr 48
      else if algorithm = ''sha512'' then Inr 64
      else Inl (UnknownHashAlgorithm algorithm))"

definition verifyHashAlgorithmAndBlockSize :: "string \<Rightarrow> uint32 \<Rightarrow> verity_error + uint32" where
  "verifyHashAlgorithmAndBlockSize algorithm hashBlockSize =
     (case getAlgorithmHashSize algorithm of
        Inl e \<Rightarrow> Inl e
      | Inr hashSize \<Rightarrow>
          if \<not> isPowerOf2 hashBlockSize \<or> hashBlockSize < hashSize
          then Inl (InvalidHashBlockSize hashBlockSize)
          else Inr hashSize)"

definition verity_magic :: string where
  "verity_magic = ''verity'' @ [CHR 0x00, CHR 0x00]"

definition verifySuperblock :: "VeritySuperBlock \<Rightarrow> verity_error option" where
  "verifySuperblock superblock =
     first_err
      [guard (Signature superblock \<noteq> verity_magic) WrongSuperblockSignature,
       guard (Version superblock \<noteq> 1) (UnsupportedVersion (Version superblock)),
       guard (HashType superblock \<noteq> 1) (UnsupportedHashType (HashType superblock)),
       guard (\<not> isPowerOf2 (DataBlockSize superblock)) (InvalidDataBlockSize (DataBlockSize superblock)),
       (case verifyHashAlgorithmAndBlockSize (GetAlgorithm superblock) (HashBlockSize superblock) of
          Inl e \<Rightarrow> Some e | Inr _ \<Rightarrow> None)]"

text \<open>\<open>binary.Read\<close> with little-endian byte order fills the 512-byte struct field by field.\<close>

fun le_value :: "string \<Rightarrow> nat" where
  "le_value [] = 0"
| "le_value (c # cs) = byte c + 256 * le_value cs"

definition read_superblock :: "string \<Rightarrow> VeritySuperBlock" where
  "read_superblock b =
     \<lparr>Signature = substr 0 8 b, Version = of_nat (le_value (substr 8 12 b)),
      HashType = of_nat (le_value (substr 12 16 b)), Uuid = substr 16 32 b,
      Algorithm = substr 32 64 b, DataBlockSize = of_nat (le_value (substr 64 68 b)),
      HashBlockSize = of_nat (le_value (substr 68 72 b)), DataBlocks = of_nat (le_value (substr 72 80 b)),
      SaltSize = of_nat (le_value (substr 80 82 b)), Pad1 = substr 82 88 b,
      Salt = substr 88 344 b, Pad2 = substr 344 512 b\<rparr>"

text \<open>The hash partition is its content, \<open>None\<close> when it cannot be opened. \<open>Seek\<close> takes an \<open>int64\<close>,
  so an offset with the top bit set is a negative one and is refused.\<close>

definition ReadVeritySuperblock :: "string option \<Rightarrow> uint64 \<Rightarrow> verity_error + VeritySuperBlock" where
  "ReadVeritySuperblock hashPartition hashOffsetBytes =
     (case hashPartition of
        None \<Rightarrow> Inl HashPartitionOpen
      | Some content \<Rightarrow>
          if hashOffsetBytes \<noteq> 0 \<and> unat hashOffsetBytes \<ge> 2 ^ 63 then Inl HashPartitionSeek
          else
            let rest = drop (unat hashOffsetBytes) content in
            if length rest < 512 then Inl HashPartitionRead
            else
              let superblock = read_superblock rest in
              (case verifySuperblock superblock of
                 Some e \<Rightarrow> Inl e
               | None \<Rightarrow> Inr superblock))"

section \<open>Hash tree size\<close>

partial_function (option) roundUpToPowerOf2_loop :: "uint32 \<Rightarrow> uint32 \<Rightarrow> uint32 option" where
  "roundUpToPowerOf2_loop res n =
     (if res < n then roundUpToPowerOf2_loop (res * 2) n else Some res)"

definition roundUpToPowerOf2 :: "uint32 \<Rightarrow> uint32 option" where
  "roundUpToPowerOf2 n = roundUpToPowerOf2_loop 1 n"

partial_function (option) hash_levels_loop :: "uint64 \<Rightarrow> uint64 \<Rightarrow> uint64 \<Rightarrow> uint64 option" where
  "hash_levels_loop hashesPerBlock totalTreeBlocks prevLevelTreeBlocks =
     (if prevLevelTreeBlocks > 1 then
        let q = prevLevelTreeBlocks div hashesPerBlock;
            r = prevLevelTreeBlocks mod hashesPerBlock;
            levelTreeBlocks = (if r \<noteq> 0 then q + 1 else q)
        in hash_levels_loop hashesPerBlock (totalTreeBlocks + levelTreeBlocks) levelTreeBlocks
      else Some totalTreeBlocks)"

definition CalculateHashSizeInBlocks :: "uint64 \<Rightarrow> uint32 \<Rightarrow> string \<Rightarrow> (verity_error + uint64) option" where
  "CalculateHashSizeInBlocks dataBlocksCount hashBlockSize algorithm =
     (case verifyHashAlgorithmAndBlockSize algorithm hashBlockSize of
        Inl e \<Rightarrow> Some (Inl e)
      | Inr hashSize \<Rightarrow>
          (case roundUpToPowerOf2 hashSize of
             None \<Rightarrow> None
           | Some hashSizeFull \<Rightarrow>
               let hashesPerBlock = ucast (hashBlockSize div hashSizeFull) in
               (case hash_levels_loop hashesPerBlock 0 dataBlocksCount of
                  None \<Rightarrow> None
                | Some totalTreeBlocks \<Rightarrow> Some (Inr (totalTreeBlocks + 1)))))"

definition CalculateHashSizeInBytes :: "uint64 \<Rightarrow> uint32 \<Rightarrow> string \<Rightarrow> (verity_error + uint64) option" where
  "CalculateHashSizeInBytes dataBlocksCount hashBlockSize algorithm =
     (case CalculateHashSizeInBlocks dataBlocksCount hashBlockSize algorithm of
        None \<Rightarrow> None
      | Some (Inl e) \<Rightarrow> Some (Inl e)
      | Some (Inr totalBlocks) \<Rightarrow> Some (Inr (totalBlocks * ucast hashBlockSize)))"

definition CalculateHashFileSizeInBytes :: "string option \<Rightarrow> uint64 \<Rightarrow> (verity_error + uint64) option" where
  "CalculateHashFileSizeInBytes hashPartition hashOffsetBytes =
     (case ReadVeritySuperblock hashPartition hashOffsetBytes of
        Inl e \<Rightarrow> Some (Inl e)
      | Inr superblock \<Rightarrow>
          CalculateHashSizeInBytes (DataBlocks superblock) (HashBlockSize superblock)
            (GetAlgorithm superblock))"

text \<open>The padded hash size of each algorithm.\<close>

lemma roundUpToPowerOf2_32: "roundUpToPowerOf2 32 = Some 32"
  and roundUpToPowerOf2_48: "roundUpToPowerOf2 48 = Some 64"
  and roundUpToPowerOf2_64: "roundUpToPowerOf2 64 = Some 64"
  by (simp_all add: roundUpToPowerOf2_def roundUpToPowerOf2_loop.simps)

lemmas roundUp_hashes = roundUpToPowerOf2_32 roundUpToPowerOf2_48 roundUpToPowerOf2_64

text \<open>The number of tree blocks over the natural numbers: each level has one hash per block of the
  level below, up to a level of a single block.\<close>

function tree_blocks :: "nat \<Rightarrow> nat \<Rightarrow> nat" where
  "tree_blocks h n =
     (if n \<le> 1 \<or> h \<le> 1 then 0
      else (n + h - 1) div h + tree_blocks h ((n + h - 1) div h))"
  by pat_completeness auto

lemma level_less: "1 < n \<Longrightarrow> 1 < h \<Longrightarrow> (n + h - 1) div h < (n :: nat)"
proof -
  assume a: "1 < n" "1 < h"
  then have "n + h - 1 < n * h"
  proof -
    obtain a b where "n = a + 2" "h = b + 2"
      using a by (metis Suc_leI add.commute le_Suc_ex one_add_one plus_1_eq_Suc)
    then have "n + h \<le> n * h" by (simp add: algebra_simps)
    then show ?thesis using a by linarith
  qed
  then show ?thesis by (simp add: less_mult_imp_div_less)
qed

termination tree_blocks
  by (relation "measure snd") (use level_less in auto)

declare tree_blocks.simps [simp del]

lemma tree_blocks_small [simp]: "n \<le> 1 \<Longrightarrow> tree_blocks h n = 0"
  by (simp add: tree_blocks.simps)

lemma tree_blocks_step:
  "1 < n \<Longrightarrow> 1 < h \<Longrightarrow> tree_blocks h n = (n + h - 1) div h + tree_blocks h ((n + h - 1) div h)"
  by (subst tree_blocks.simps) simp

lemma level_mono: "m \<le> n \<Longrightarrow> (m + h - 1) div h \<le> (n + h - 1) div (h :: nat)"
  by (intro div_le_mono) simp

lemma tree_blocks_mono: "m \<le> n \<Longrightarrow> tree_blocks h m \<le> tree_blocks h n"
proof (induction h n arbitrary: m rule: tree_blocks.induct)
  case (1 h n)
  show ?case
  proof (cases "m \<le> 1 \<or> h \<le> 1")
    case True
    then show ?thesis by (auto simp: tree_blocks.simps [of h m])
  next
    case False
    then have "1 < m" "1 < n" "1 < h" using "1.prems" by auto
    moreover have "tree_blocks h ((m + h - 1) div h) \<le> tree_blocks h ((n + h - 1) div h)"
      using "1.IH" False \<open>1 < n\<close> level_mono [OF "1.prems"] by simp
    ultimately show ?thesis
      using level_mono [OF "1.prems", of h] by (simp add: tree_blocks_step)
  qed
qed

lemma tree_blocks_128_le: "tree_blocks 128 n \<le> n"
proof (induction n rule: less_induct)
  case (less n)
  show ?case
  proof (cases "n \<le> 1")
    case False
    then have "tree_blocks 128 ((n + 128 - 1) div 128) \<le> (n + 128 - 1) div 128"
      by (intro less.IH) simp
    with False show ?thesis by (simp add: tree_blocks_step)
  qed simp
qed

text \<open>The 64-bit loop computes the mathematical size whenever a block holds two hashes or more.\<close>

lemma hash_levels_loop_tree_blocks:
  assumes "1 < unat h"
  shows "hash_levels_loop h t n = Some (t + of_nat (tree_blocks (unat h) (unat n)))"
proof (induction "unat n" arbitrary: n t rule: less_induct)
  case less
  let ?l = "DivRoundUp n h"
  have l: "unat ?l = (unat n + unat h - 1) div unat h"
    by (rule unat_DivRoundUp [OF assms])
  have unf: "hash_levels_loop h t n = (if n > 1 then hash_levels_loop h (t + ?l) ?l else Some t)"
    by (subst hash_levels_loop.simps) (simp add: DivRoundUp_def Let_def)
  show ?case
  proof (cases "n > 1")
    case False
    then have "unat n \<le> 1" by (simp add: word_less_nat_alt)
    with False unf show ?thesis by simp
  next
    case True
    then have n: "1 < unat n" by (simp add: word_less_nat_alt)
    have "unat ?l < unat n" unfolding l by (rule level_less [OF n assms])
    then have "hash_levels_loop h (t + ?l) ?l =
        Some (t + ?l + of_nat (tree_blocks (unat h) (unat ?l)))"
      by (rule less.hyps)
    moreover have "tree_blocks (unat h) (unat n) = unat ?l + tree_blocks (unat h) (unat ?l)"
      using tree_blocks_step [OF n assms] l by simp
    ultimately show ?thesis using True unf by simp
  qed
qed

text \<open>A block of exactly one hash never gets to a level of one block: the loop does not return.\<close>

lemma hash_levels_loop_1_diverges: "n > 1 \<Longrightarrow> hash_levels_loop 1 t n = None"
proof (rule ccontr)
  assume n: "n > 1" and "hash_levels_loop 1 t n \<noteq> None"
  then obtain r where r: "hash_levels_loop 1 t n = Some r" by auto
  have "(1 :: uint64) = 1 \<longrightarrow> n > 1 \<longrightarrow> False"
  proof (rule hash_levels_loop.raw_induct [where P = "\<lambda>h t n r. h = 1 \<longrightarrow> n > 1 \<longrightarrow> False", OF _ r])
    fix f :: "uint64 \<Rightarrow> uint64 \<Rightarrow> uint64 \<Rightarrow> uint64 option" and h t n y :: uint64
    assume IH: "\<And>h t n y. f h t n = Some y \<Longrightarrow> h = 1 \<longrightarrow> n > 1 \<longrightarrow> False"
    assume "(if n > 1 then
        let q = n div h; r = n mod h; levelTreeBlocks = (if r \<noteq> 0 then q + 1 else q)
        in f h (t + levelTreeBlocks) levelTreeBlocks
      else Some t) = Some y"
    then show "h = 1 \<longrightarrow> n > 1 \<longrightarrow> False"
      using IH [of 1 "t + n" n y] by (auto simp: Let_def)
  qed
  with n show False by simp
qed

section \<open>Inline verity data size\<close>

text \<open>
  \<open>calculateInlineVerityDataSize\<close> of \<open>imagecustomizerapi/storage.go\<close>: the greatest number of
  data blocks whose data, hash tree and superblock fit in the partition, in bytes, rounded down to
  a multiple of 1 MiB.
\<close>

definition MiB :: uint64 where "MiB = 1048576"

definition DefaultVerityDataBlockSize :: uint32 where "DefaultVerityDataBlockSize = 4096"
definition DefaultVerityHashBlockSize :: uint32 where "DefaultVerityHashBlockSize = 4096"
definition DefaultVerityHashAlgorithm :: string where "DefaultVerityHashAlgorithm = ''sha256''"

datatype inline_error = PartitionTooSmall | InlineHashSize verity_error

partial_function (option) inline_search_loop ::
  "uint64 \<Rightarrow> uint64 \<Rightarrow> uint64 \<Rightarrow> uint64 \<Rightarrow> (verity_error + uint64) option" where
  "inline_search_loop partitionSize left right answer =
     (if left \<le> right then
        let dataBlocks = left + (right - left) div 2 in
        (case CalculateHashSizeInBlocks dataBlocks DefaultVerityHashBlockSize DefaultVerityHashAlgorithm of
           None \<Rightarrow> None
         | Some (Inl e) \<Rightarrow> Some (Inl e)
         | Some (Inr verityBlocks) \<Rightarrow>
             let totalBytes = verityBlocks * ucast DefaultVerityHashBlockSize
                            + dataBlocks * ucast DefaultVerityDataBlockSize in
             if totalBytes \<le> partitionSize
             then inline_search_loop partitionSize (dataBlocks + 1) right dataBlocks
             else if dataBlocks = 0 then Some (Inr answer)
             else inline_search_loop partitionSize left (dataBlocks - 1) answer)
      else Some (Inr answer))"

definition calculateInlineVerityDataSize :: "uint64 \<Rightarrow> (inline_error + uint64) option" where
  "calculateInlineVerityDataSize partitionSize =
     (case inline_search_loop partitionSize 0 (partitionSize div ucast DefaultVerityDataBlockSize) 0 of
        None \<Rightarrow> None
      | Some (Inl e) \<Rightarrow> Some (Inl (InlineHashSize e))
      | Some (Inr answer) \<Rightarrow>
          let dataSizeBytes = RoundDown (answer * ucast DefaultVerityDataBlockSize) MiB in
          Some (if dataSizeBytes = 0 then Inl PartitionTooSmall else Inr dataSizeBytes))"

text \<open>The search over the natural numbers, for any cost.\<close>

function bsearch :: "(nat \<Rightarrow> nat) \<Rightarrow> nat \<Rightarrow> nat \<Rightarrow> nat \<Rightarrow> nat \<Rightarrow> nat" where
  "bsearch cost lim left right answer =
     (if left \<le> right then
        let m = left + (right - left) div 2 in
        if cost m \<le> lim then bsearch cost lim (m + 1) right m
        else if m = 0 then answer
        else bsearch cost lim left (m - 1) answer
      else answer)"
  by pat_completeness auto
termination bsearch
  by (relation "measure (\<lambda>(c, s, l, r, a). r + 1 - l)") auto

declare bsearch.simps [simp del]

text \<open>The contract the search needs from the cost of a number of data blocks.\<close>

locale block_cost =
  fixes cost :: "nat \<Rightarrow> nat"
  assumes cost_mono: "m \<le> n \<Longrightarrow> cost m \<le> cost n"
begin

lemma bsearch_greatest:
  assumes "left = 0 \<Longrightarrow> answer = 0"
    and "0 < left \<Longrightarrow> left = answer + 1 \<and> cost answer \<le> lim"
    and "\<And>k. right < k \<Longrightarrow> k \<le> R \<Longrightarrow> lim < cost k"
    and "left \<le> right + 1" "right \<le> R"
  shows "(\<forall>k. bsearch cost lim left right answer < k \<longrightarrow> k \<le> R \<longrightarrow> lim < cost k)
    \<and> (bsearch cost lim left right answer = 0 \<or> cost (bsearch cost lim left right answer) \<le> lim)
    \<and> bsearch cost lim left right answer \<le> R"
  using assms
proof (induction "right + 1 - left" arbitrary: left right answer rule: less_induct)
  case less
  define m where "m = left + (right - left) div 2"
  have unf: "bsearch cost lim left right answer =
     (if left \<le> right then
        if cost m \<le> lim then bsearch cost lim (m + 1) right m
        else if m = 0 then answer else bsearch cost lim left (m - 1) answer
      else answer)"
    unfolding m_def by (rule bsearch.simps [unfolded Let_def])
  show ?case
  proof (cases "left \<le> right")
    case False
    then have "bsearch cost lim left right answer = answer"
      by (subst unf) (use False in simp)
    moreover have "left = right + 1" "answer = right" "cost answer \<le> lim"
      using False less.prems by auto
    ultimately show ?thesis using less.prems by simp
  next
    case True
    then have m: "left \<le> m" "m \<le> right" by (auto simp: m_def)
    show ?thesis
    proof (cases "cost m \<le> lim")
      case fits: True
      have "bsearch cost lim left right answer = bsearch cost lim (m + 1) right m"
        by (subst unf) (use True fits in simp)
      then show ?thesis
        using less.hyps [of right "m + 1" m] less.prems m fits by simp
    next
      case big: False
      have above: "lim < cost k" if "m \<le> k" for k
        using cost_mono [OF that] big by linarith
      show ?thesis
      proof (cases "m = 0")
        case True
        then have "bsearch cost lim left right answer = answer" "left = 0"
          by (subst unf, use \<open>left \<le> right\<close> big True in simp) (use m True in simp)
        then show ?thesis using less.prems above True by auto
      next
        case False
        have "bsearch cost lim left right answer = bsearch cost lim left (m - 1) answer"
          by (subst unf) (use \<open>left \<le> right\<close> big False in simp)
        moreover have "left \<le> m - 1 + 1" "m - 1 \<le> R" using m False less.prems by auto
        ultimately show ?thesis
          using less.hyps [of "m - 1" left answer] less.prems m False above by simp
      qed
    qed
  qed
qed

end

definition inline_cost :: "nat \<Rightarrow> nat" where
  "inline_cost n = (tree_blocks 128 n + 1) * 4096 + n * 4096"

interpretation inline: block_cost inline_cost
proof unfold_locales
  fix m n :: nat
  assume "m \<le> n"
  then show "inline_cost m \<le> inline_cost n"
    using tree_blocks_mono [of m n 128] by (simp add: inline_cost_def)
qed

text \<open>The 64-bit search is the search over the natural numbers as long as twice the partition
  size is a 64-bit number: no product or sum of the loop wraps around.\<close>

lemma CalculateHashSizeInBlocks_inline:
  "CalculateHashSizeInBlocks n DefaultVerityHashBlockSize DefaultVerityHashAlgorithm =
     Some (Inr (of_nat (tree_blocks 128 (unat n) + 1)))"
proof -
  have h: "hash_levels_loop 128 0 n = Some (of_nat (tree_blocks 128 (unat n)))"
    using hash_levels_loop_tree_blocks [of 128 0 n] by simp
  have "verifyHashAlgorithmAndBlockSize DefaultVerityHashAlgorithm DefaultVerityHashBlockSize = Inr 32"
    by (simp add: verifyHashAlgorithmAndBlockSize_def getAlgorithmHashSize_def isPowerOf2_def
        DefaultVerityHashBlockSize_def DefaultVerityHashAlgorithm_def)
  moreover have "(ucast (DefaultVerityHashBlockSize div (32 :: uint32)) :: uint64) = 128"
    by (simp add: DefaultVerityHashBlockSize_def)
  ultimately show ?thesis
    by (simp add: CalculateHashSizeInBlocks_def roundUp_hashes Let_def h add.commute)
qed

lemma unat_inline_cost:
  assumes "unat n \<le> 2 ^ 50"
  shows "unat (of_nat (tree_blocks 128 (unat n) + 1) * 4096 + n * 4096 :: uint64) = inline_cost (unat n)"
proof -
  have "inline_cost (unat n) < 2 ^ 64"
    using assms tree_blocks_128_le [of "unat n"] by (simp add: inline_cost_def)
  moreover have "(of_nat (inline_cost (unat n)) :: uint64)
      = of_nat (tree_blocks 128 (unat n) + 1) * 4096 + n * 4096"
    by (simp add: inline_cost_def)
  ultimately show ?thesis
    using unat_of_nat [where 'a = 64, of "inline_cost (unat n)"] by simp
qed

lemma block_sizes:
  "(ucast DefaultVerityHashBlockSize :: uint64) = 4096"
  "(ucast DefaultVerityDataBlockSize :: uint64) = 4096"
  by (simp_all add: DefaultVerityHashBlockSize_def DefaultVerityDataBlockSize_def)

lemma inline_search_refines:
  assumes "unat right \<le> 2 ^ 50"
  shows "inline_search_loop p left right answer =
    Some (Inr (of_nat (bsearch inline_cost (unat p) (unat left) (unat right) (unat answer))))"
  using assms
proof (induction "unat right + 1 - unat left" arbitrary: left right answer rule: less_induct)
  case less
  define m where "m = left + (right - left) div 2"
  define total where
    "total = of_nat (tree_blocks 128 (unat m) + 1) * 4096 + m * (4096 :: uint64)"
  have unf: "inline_search_loop p left right answer =
     (if left \<le> right then
        if total \<le> p then inline_search_loop p (m + 1) right m
        else if m = 0 then Some (Inr answer) else inline_search_loop p left (m - 1) answer
      else Some (Inr answer))"
    by (subst inline_search_loop.simps)
      (simp only: m_def total_def Let_def CalculateHashSizeInBlocks_inline option.case sum.case
        block_sizes)
  have bun: "bsearch inline_cost (unat p) (unat left) (unat right) (unat answer) =
     (if unat left \<le> unat right then
        let m = unat left + (unat right - unat left) div 2 in
        if inline_cost m \<le> unat p then bsearch inline_cost (unat p) (m + 1) (unat right) m
        else if m = 0 then unat answer
        else bsearch inline_cost (unat p) (unat left) (m - 1) (unat answer)
      else unat answer)"
    by (subst bsearch.simps) simp
  show ?case
  proof (cases "left \<le> right")
    case False
    then show ?thesis by (subst unf, subst bun) (simp add: word_le_nat_alt)
  next
    case True
    then have le: "unat left \<le> unat right" by (simp add: word_le_nat_alt)
    have um: "unat m = unat left + (unat right - unat left) div 2"
    proof -
      have "unat ((right - left) div 2) = (unat right - unat left) div 2"
        using True by (simp add: unat_div_distrib unat_sub)
      then show ?thesis using le less.prems unfolding m_def
        by (subst unat_add_lem [THEN iffD1]) (auto simp: unat_div_distrib)
    qed
    have mr: "unat left \<le> unat m" "unat m \<le> unat right" using le um by auto
    have ut: "unat total = inline_cost (unat m)"
      unfolding total_def using mr less.prems by (intro unat_inline_cost) simp
    have um1: "unat (m + 1) = unat m + 1"
      using mr less.prems by (subst unat_add_lem [THEN iffD1]) auto
    have IH1: "inline_search_loop p (m + 1) right m =
        Some (Inr (of_nat (bsearch inline_cost (unat p) (unat m + 1) (unat right) (unat m))))"
      using less.hyps [of right "m + 1" m] mr less.prems um1 le by simp
    have IH2: "m \<noteq> 0 \<Longrightarrow> inline_search_loop p left (m - 1) answer =
        Some (Inr (of_nat (bsearch inline_cost (unat p) (unat left) (unat m - 1) (unat answer))))"
    proof -
      assume m0: "m \<noteq> 0"
      then have "0 < unat m" by (simp add: unat_gt_0)
      moreover have "unat (m - 1) = unat m - 1" using m0 by (rule unat_minus_one)
      ultimately show ?thesis
        using less.hyps [of "m - 1" left answer] mr less.prems by simp
    qed
    show ?thesis
      by (subst unf, subst bun, unfold Let_def um [symmetric])
        (use True le IH1 IH2 in \<open>simp add: ut [symmetric] word_le_nat_alt unat_eq_zero\<close>)
  qed
qed

text \<open>C-level statement of the search result: the number of blocks found.\<close>

lemma inline_search_result:
  assumes "unat p \<le> 2 ^ 62"
  obtains n where
    "inline_search_loop p 0 (p div ucast DefaultVerityDataBlockSize) 0 = Some (Inr (of_nat n))"
    "n \<le> 2 ^ 50" "\<And>k. n < k \<Longrightarrow> unat p < inline_cost k" "n = 0 \<or> inline_cost n \<le> unat p"
proof -
  define R where "R = unat p div 4096"
  have R: "unat (p div 4096) = R" by (simp add: R_def unat_div_distrib)
  define n where "n = bsearch inline_cost (unat p) 0 R 0"
  have Rle: "R \<le> 2 ^ 50" using assms by (simp add: R_def)
  have big: "unat p < inline_cost k" if "R < k" for k
    using that by (simp add: R_def inline_cost_def)
  have g: "(\<forall>k. n < k \<longrightarrow> k \<le> R \<longrightarrow> unat p < inline_cost k)
      \<and> (n = 0 \<or> inline_cost n \<le> unat p) \<and> n \<le> R"
    unfolding n_def by (rule inline.bsearch_greatest) auto
  then have "unat p < inline_cost k" if "n < k" for k
    using big that by (cases "k \<le> R") auto
  moreover have "inline_search_loop p 0 (p div 4096) 0 = Some (Inr (of_nat n))"
    using inline_search_refines [of "p div 4096" p 0 0] Rle R by (simp add: n_def)
  ultimately show ?thesis using that g Rle by (auto simp: block_sizes)
qed

section \<open>Properties\<close>

definition padded_hash_size :: "string \<Rightarrow> nat" where
  "padded_hash_size algorithm =
     (if algorithm = ''sha256'' then 32 else if algorithm = ''sha384'' \<or> algorithm = ''sha512'' then 64 else 0)"

lemma padded_hash_size_roundUp:
  "getAlgorithmHashSize algorithm = Inr hs \<Longrightarrow>
     roundUpToPowerOf2 hs = Some (of_nat (padded_hash_size algorithm))"
  by (auto simp: getAlgorithmHashSize_def padded_hash_size_def roundUp_hashes split: if_splits)

lemma padded_hash_size_bounds:
  "getAlgorithmHashSize algorithm = Inr hs \<Longrightarrow>
     0 < padded_hash_size algorithm \<and> padded_hash_size algorithm \<le> 64"
  by (auto simp: getAlgorithmHashSize_def padded_hash_size_def split: if_splits)

lemma hashes_per_block:
  assumes "0 < k" "k \<le> 64"
  shows "unat (ucast (hbs div of_nat k :: uint32) :: uint64) = unat hbs div k"
proof -
  have k: "unat (of_nat k :: uint32) = k"
    using assms by (simp add: unat_of_nat)
  have "unat (hbs div of_nat k :: uint32) < 2 ^ 64"
    by (rule less_le_trans [OF unsigned_less]) simp
  then have "unat (ucast (hbs div of_nat k :: uint32) :: uint64) = unat (hbs div of_nat k :: uint32)"
    by (simp add: unsigned_ucast_eq take_bit_nat_eq_self)
  then show ?thesis using k by (simp add: unat_div_distrib)
qed

lemma verifyHash_Inr:
  "verifyHashAlgorithmAndBlockSize algorithm hbs = Inr hs \<longleftrightarrow>
     getAlgorithmHashSize algorithm = Inr hs \<and> isPowerOf2 hbs \<and> hs \<le> hbs"
  by (auto simp: verifyHashAlgorithmAndBlockSize_def split: sum.splits)

text \<open>C11. The size of a dm-verity hash area, when a hash block holds at least two padded hashes:
  the 64-bit computation returns, and it returns the mathematical number of tree blocks, one level
  per division by the hashes per block, plus the superblock.\<close>

theorem hash_size_in_blocks_correct:
  assumes "getAlgorithmHashSize algorithm = Inr hs" "isPowerOf2 hbs" "hs \<le> hbs"
    and "2 * padded_hash_size algorithm \<le> unat hbs"
  shows "CalculateHashSizeInBlocks n hbs algorithm =
     Some (Inr (of_nat (tree_blocks (unat hbs div padded_hash_size algorithm) (unat n) + 1)))"
proof -
  let ?k = "padded_hash_size algorithm"
  let ?h = "ucast (hbs div of_nat ?k :: uint32) :: uint64"
  have k: "0 < ?k" "?k \<le> 64" using padded_hash_size_bounds [OF assms(1)] by auto
  have h: "unat ?h = unat hbs div ?k" by (rule hashes_per_block [OF k])
  have "2 \<le> unat hbs div ?k"
    using div_le_mono [OF assms(4), of ?k] k by simp
  then have "hash_levels_loop ?h 0 n = Some (of_nat (tree_blocks (unat hbs div ?k) (unat n)))"
    using hash_levels_loop_tree_blocks [of ?h 0 n] h by simp
  moreover have "verifyHashAlgorithmAndBlockSize algorithm hbs = Inr hs"
    using assms by (simp add: verifyHash_Inr)
  ultimately show ?thesis
    by (simp add: CalculateHashSizeInBlocks_def padded_hash_size_roundUp [OF assms(1)] Let_def add.commute)
qed

theorem hash_size_in_blocks_correct_witness:
  "CalculateHashSizeInBlocks 1000 4096 ''sha256'' = Some (Inr (of_nat (tree_blocks 128 1000 + 1)))"
  using hash_size_in_blocks_correct [of "''sha256''" 32 4096 1000]
  by (simp add: getAlgorithmHashSize_def isPowerOf2_def padded_hash_size_def)

text \<open>C12. A hash block that holds exactly one padded hash passes the superblock's validation,
  and the size computation then never returns as soon as there is more than one data block.\<close>

theorem hash_size_one_hash_per_block_diverges:
  assumes "getAlgorithmHashSize algorithm = Inr hs"
    and "unat hbs = padded_hash_size algorithm" and "1 < n"
  shows "verifyHashAlgorithmAndBlockSize algorithm hbs = Inr hs
     \<and> CalculateHashSizeInBlocks n hbs algorithm = None"
proof -
  let ?k = "padded_hash_size algorithm"
  have k: "0 < ?k" "?k \<le> 64" using padded_hash_size_bounds [OF assms(1)] by auto
  have hbs: "hbs = of_nat ?k"
    using assms(2) k by (simp add: word_unat_eq_iff unat_of_nat)
  have v: "verifyHashAlgorithmAndBlockSize algorithm hbs = Inr hs"
    unfolding verifyHash_Inr hbs using assms(1)
    by (auto simp: getAlgorithmHashSize_def padded_hash_size_def isPowerOf2_def split: if_splits)
  have "unat (ucast (hbs div of_nat ?k :: uint32) :: uint64) = 1"
    using hashes_per_block [OF k, of hbs] assms(2) k by simp
  then have "ucast (hbs div of_nat ?k :: uint32) = (1 :: uint64)"
    by (simp add: word_unat_eq_iff)
  then show ?thesis
    using v hash_levels_loop_1_diverges [OF assms(3), of 0]
    by (simp add: CalculateHashSizeInBlocks_def padded_hash_size_roundUp [OF assms(1)] Let_def)
qed

theorem hash_size_one_hash_per_block_diverges_witness:
  "CalculateHashSizeInBlocks 2 32 ''sha256'' = None"
  using hash_size_one_hash_per_block_diverges [of "''sha256''" 32 32 2]
  by (simp add: getAlgorithmHashSize_def padded_hash_size_def)

text \<open>C13. Inline verity, for partitions up to \<open>2 ^ 62\<close> bytes: the search returns, and the
  data size is that of the greatest number of 4 KiB blocks whose data, sha256 hash tree and
  superblock fit in the partition together, rounded down to 1 MiB; when that leaves nothing, the
  partition is refused as too small.\<close>

theorem inline_verity_data_size_greatest:
  assumes "unat p \<le> 2 ^ 62"
  shows "\<exists>n. (n = 0 \<or> (n + tree_blocks 128 n + 1) * 4096 \<le> unat p)
     \<and> (\<forall>k > n. unat p < (k + tree_blocks 128 k + 1) * 4096)
     \<and> calculateInlineVerityDataSize p =
         Some (if n * 4096 < 1048576 then Inl PartitionTooSmall
               else Inr (of_nat (n * 4096 div 1048576 * 1048576)))"
proof -
  obtain n where
    r: "inline_search_loop p 0 (p div ucast DefaultVerityDataBlockSize) 0 = Some (Inr (of_nat n))"
    and n: "n \<le> 2 ^ 50" "\<And>k. n < k \<Longrightarrow> unat p < inline_cost k" "n = 0 \<or> inline_cost n \<le> unat p"
    by (rule inline_search_result [OF assms]) blast
  have cost: "inline_cost k = (k + tree_blocks 128 k + 1) * 4096" for k
    by (simp add: inline_cost_def)
  let ?d = "RoundDown (of_nat n * 4096 :: uint64) MiB"
  have b: "unat (of_nat n * 4096 :: uint64) = n * 4096"
    using unat_of_nat [where 'a = 64, of "n * 4096"] n(1) by simp
  have d: "unat ?d = n * 4096 div 1048576 * 1048576"
    unfolding unat_RoundDown b by (simp add: MiB_def)
  have "?d = of_nat (n * 4096 div 1048576 * 1048576)"
  proof -
    define D where "D = n * 4096 div 1048576 * 1048576"
    have "D < 2 ^ 64" using n(1) by (simp add: D_def)
    then have "unat (of_nat D :: uint64) = D" by (simp add: unat_of_nat)
    with d show ?thesis unfolding D_def [symmetric] by (simp add: word_unat_eq_iff)
  qed
  moreover have "?d = 0 \<longleftrightarrow> n * 4096 < 1048576"
    using d by (simp add: unat_eq_zero [symmetric] del: unat_eq_zero) (simp add: div_eq_0_iff)
  ultimately have "calculateInlineVerityDataSize p =
      Some (if n * 4096 < 1048576 then Inl PartitionTooSmall
            else Inr (of_nat (n * 4096 div 1048576 * 1048576)))"
    unfolding calculateInlineVerityDataSize_def block_sizes r [unfolded block_sizes] option.case
      sum.case Let_def
    by simp
  with n show ?thesis unfolding cost by blast
qed

theorem inline_verity_data_size_greatest_witness:
  "\<exists>n. (n = 0 \<or> (n + tree_blocks 128 n + 1) * 4096 \<le> 104857600)
     \<and> (\<forall>k > n. 104857600 < (k + tree_blocks 128 k + 1) * 4096)
     \<and> calculateInlineVerityDataSize 104857600 =
         Some (if n * 4096 < 1048576 then Inl PartitionTooSmall
               else Inr (of_nat (n * 4096 div 1048576 * 1048576)))"
  using inline_verity_data_size_greatest [of 104857600] by simp

end
