(* ===== verification/DiskSizes.thy ===== *)
theory DiskSizes
  imports VerityUtils
begin

text \<open>
  \<open>imagecustomizerapi/disksize.go\<close> and \<open>partitionsize.go\<close>: sizes in bytes as the 64-bit unsigned
  integers the code uses, their text form \<open><NUM>(K|M|G|T)\<close>, and the size of a partition
  (unset, \<open>grow\<close> or explicit). The lemmas relate the parser and the printer.
\<close>

type_synonym DiskSize = uint64

definition KiB :: uint64 where "KiB = 1024"
definition GiB :: uint64 where "GiB = 1073741824"
definition TiB :: uint64 where "TiB = 1099511627776"

definition DefaultPartitionAlignment :: uint64 where "DefaultPartitionAlignment = MiB"

lemmas unit_defs = KiB_def MiB_def GiB_def TiB_def DefaultPartitionAlignment_def

datatype disk_size_error =
    SizeFormat string
  | SizeNumber num_error
  | SizeNoUnit string
  | SizeAlignment string

text \<open>\<open>diskSizeRegex\<close> is \<open>^(\d+)([KMGT])?$\<close>: the digits and the unit, empty when there is none.\<close>

definition diskSizeRegex_match :: "string \<Rightarrow> (string \<times> string) option" where
  "diskSizeRegex_match s =
     (let digits = takeWhile is_digit s; unit = dropWhile is_digit s in
      if digits = [] then None
      else if unit = [] \<or> unit = ''K'' \<or> unit = ''M'' \<or> unit = ''G'' \<or> unit = ''T''
      then Some (digits, unit) else None)"

definition parseDiskSize :: "string \<Rightarrow> disk_size_error + DiskSize" where
  "parseDiskSize diskSizeString =
     (case diskSizeRegex_match diskSizeString of
        None \<Rightarrow> Inl (SizeFormat diskSizeString)
      | Some (numString, unit) \<Rightarrow>
          (case ParseUint numString 0 64 of
             Inl e \<Rightarrow> Inl (SizeNumber e)
           | Inr num \<Rightarrow>
               if unit = [] then Inl (SizeNoUnit diskSizeString)
               else
                 let multiplier = (if unit = ''K'' then KiB else if unit = ''M'' then MiB
                                   else if unit = ''G'' then GiB else if unit = ''T'' then TiB else 1);
                     num' = of_nat num * multiplier in
                 if num' mod DefaultPartitionAlignment \<noteq> 0 then Inl (SizeAlignment diskSizeString)
                 else Inr num'))"

definition DiskSize_String :: "DiskSize \<Rightarrow> string" where
  "DiskSize_String s =
     (if s mod TiB = 0 then nat_dec (unat (s div TiB)) @ ''T''
      else if s mod GiB = 0 then nat_dec (unat (s div GiB)) @ ''G''
      else if s mod MiB = 0 then nat_dec (unat (s div MiB)) @ ''M''
      else if s mod KiB = 0 then nat_dec (unat (s div KiB)) @ ''K''
      else nat_dec (unat s))"

definition HumanReadable :: "DiskSize \<Rightarrow> string" where
  "HumanReadable s =
     (if s mod TiB = 0 then nat_dec (unat (s div TiB)) @ '' TiB''
      else if s mod GiB = 0 then nat_dec (unat (s div GiB)) @ '' GiB''
      else if s mod MiB = 0 then nat_dec (unat (s div MiB)) @ '' MiB''
      else if s mod KiB = 0 then nat_dec (unat (s div KiB)) @ '' KiB''
      else nat_dec (unat s) @ '' bytes'')"

section \<open>Partition sizes\<close>

datatype PartitionSizeType =
    PartitionSizeTypeUnset
  | PartitionSizeTypeGrow
  | PartitionSizeTypeExplicit

record PartitionSize =
  psType :: PartitionSizeType
  psSize :: DiskSize

definition PartitionSizeGrow :: string where "PartitionSizeGrow = ''grow''"

definition parseAndSetPartitionSize :: "string \<Rightarrow> disk_size_error + PartitionSize" where
  "parseAndSetPartitionSize stringValue =
     (if stringValue = PartitionSizeGrow then Inr \<lparr>psType = PartitionSizeTypeGrow, psSize = 0\<rparr>
      else if stringValue = [] then Inr \<lparr>psType = PartitionSizeTypeUnset, psSize = 0\<rparr>
      else (case parseDiskSize stringValue of
              Inl e \<Rightarrow> Inl e
            | Inr diskSize \<Rightarrow> Inr \<lparr>psType = PartitionSizeTypeExplicit, psSize = diskSize\<rparr>))"

text \<open>The string that \<open>MarshalJSON\<close> hands to the encoder; \<open>None\<close> is JSON's \<open>null\<close>, which the decoder
  reads as the empty string.\<close>

definition PartitionSize_MarshalJSON :: "PartitionSize \<Rightarrow> string option" where
  "PartitionSize_MarshalJSON s =
     (case psType s of
        PartitionSizeTypeGrow \<Rightarrow> Some ''grow''
      | PartitionSizeTypeExplicit \<Rightarrow> Some (DiskSize_String (psSize s))
      | PartitionSizeTypeUnset \<Rightarrow> None)"

definition PartitionSize_UnmarshalJSON :: "string option \<Rightarrow> disk_size_error + PartitionSize" where
  "PartitionSize_UnmarshalJSON data =
     parseAndSetPartitionSize (case data of None \<Rightarrow> [] | Some s \<Rightarrow> s)"

section \<open>Lemmas\<close>

lemma takeWhile_digits: "takeWhile is_digit (nat_dec n @ c # cs) = nat_dec n" if "\<not> is_digit c"
  using that nat_dec_digits by (subst takeWhile_append2) auto

lemma dropWhile_digits: "dropWhile is_digit (nat_dec n @ c # cs) = c # cs" if "\<not> is_digit c"
  using that nat_dec_digits by (subst dropWhile_append2) auto

lemma units_not_digits [simp]:
  "\<not> is_digit CHR ''K''" "\<not> is_digit CHR ''M''" "\<not> is_digit CHR ''G''" "\<not> is_digit CHR ''T''"
  by (simp_all add: is_digit_def)

lemma diskSizeRegex_match_dec:
  "u \<in> set ''KMGT'' \<Longrightarrow> diskSizeRegex_match (nat_dec n @ [u]) = Some (nat_dec n, [u])"
  by (auto simp: diskSizeRegex_match_def takeWhile_digits dropWhile_digits Let_def)

lemma mult_div_word: "s mod u = 0 \<Longrightarrow> s div u * u = (s :: 'a::len word)"
  using div_mult_mod_eq [of s u] by simp

lemma mult_MiB_aligned: "(k * 2 ^ 20 :: uint64) mod MiB = 0"
proof -
  have "(k * 2 ^ 20) mod 2 ^ 20 = take_bit 20 (push_bit 20 k)"
    by (simp only: take_bit_eq_mod push_bit_eq_mult)
  also have "\<dots> = 0" by (simp only: take_bit_push_bit) simp
  finally show ?thesis by (simp add: MiB_def)
qed

text \<open>A decimal literal without leading zero is its value times the unit, as a 64-bit product: a
  literal that is too large wraps around.\<close>

lemma parseDiskSize_dec:
  assumes "n < 2 ^ 64"
  shows "parseDiskSize (nat_dec n @ ''T'') = Inr (of_nat n * TiB)"
    and "parseDiskSize (nat_dec n @ ''G'') = Inr (of_nat n * GiB)"
    and "parseDiskSize (nat_dec n @ ''M'') = Inr (of_nat n * MiB)"
proof -
  have al: "(k * u :: uint64) mod MiB = 0" if "u = m * 2 ^ 20" for k u m
    using mult_MiB_aligned [of "k * m"] that by (simp add: mult.assoc)
  have u: "TiB = 1048576 * 2 ^ 20" "GiB = 1024 * 2 ^ 20" "MiB = 1 * 2 ^ 20"
    by (simp_all add: unit_defs)
  show "parseDiskSize (nat_dec n @ ''T'') = Inr (of_nat n * TiB)"
    "parseDiskSize (nat_dec n @ ''G'') = Inr (of_nat n * GiB)"
    "parseDiskSize (nat_dec n @ ''M'') = Inr (of_nat n * MiB)"
    using assms al [OF u(1)] al [OF u(2)] al [OF u(3)]
    by (simp_all add: parseDiskSize_def diskSizeRegex_match_dec ParseUint_0_nat_dec Let_def
        DefaultPartitionAlignment_def)
qed

lemma parse_nonempty: "parseDiskSize [] = Inl (SizeFormat [])"
  by (simp add: parseDiskSize_def diskSizeRegex_match_def)

lemma parse_grow: "parseDiskSize PartitionSizeGrow = Inl (SizeFormat PartitionSizeGrow)"
  by (simp add: parseDiskSize_def diskSizeRegex_match_def PartitionSizeGrow_def is_digit_def)

lemma unat_less_64: "unat (s :: uint64) < 2 ^ 64"
  by (rule less_le_trans [OF unsigned_less]) simp

lemma parse_String:
  assumes "s mod DefaultPartitionAlignment = 0"
  shows "parseDiskSize (DiskSize_String s) = Inr s"
  using assms
  by (simp add: DefaultPartitionAlignment_def DiskSize_String_def mult_div_word
      parseDiskSize_dec [OF unat_less_64])

lemma parse_aligned: "parseDiskSize str = Inr s \<Longrightarrow> s mod DefaultPartitionAlignment = 0"
  by (auto simp: parseDiskSize_def Let_def split: option.splits sum.splits if_splits)

section \<open>Properties\<close>

text \<open>Printing and parsing: the parser accepts only multiples of 1 MiB, and each of them is
  printed as a text that the parser reads back as the same size.\<close>

theorem parseDiskSize_String:
  "s mod DefaultPartitionAlignment = 0 \<longleftrightarrow>
     (\<exists>str. parseDiskSize str = Inr s) \<and> parseDiskSize (DiskSize_String s) = Inr s"
  by (metis parse_String parse_aligned)

text \<open>Partition sizes survive a JSON round trip, whether unset, \<open>grow\<close> or explicit.\<close>

theorem PartitionSize_json_roundtrip:
  assumes "psType s = PartitionSizeTypeExplicit \<Longrightarrow> psSize s mod DefaultPartitionAlignment = 0"
    and "psType s \<noteq> PartitionSizeTypeExplicit \<Longrightarrow> psSize s = 0"
  shows "PartitionSize_UnmarshalJSON (PartitionSize_MarshalJSON s) = Inr s"
proof (cases "psType s")
  case PartitionSizeTypeExplicit
  then have p: "parseDiskSize (DiskSize_String (psSize s)) = Inr (psSize s)"
    using assms by (intro parse_String) simp
  then have "DiskSize_String (psSize s) \<noteq> []" "DiskSize_String (psSize s) \<noteq> PartitionSizeGrow"
    using parse_nonempty parse_grow by auto
  with p PartitionSizeTypeExplicit show ?thesis
    by (cases s) (simp add: PartitionSize_UnmarshalJSON_def PartitionSize_MarshalJSON_def
        parseAndSetPartitionSize_def)
qed (use assms in \<open>cases s; simp add: PartitionSize_UnmarshalJSON_def
      PartitionSize_MarshalJSON_def parseAndSetPartitionSize_def PartitionSizeGrow_def\<close>)+

theorem PartitionSize_json_roundtrip_witness:
  "PartitionSize_UnmarshalJSON (PartitionSize_MarshalJSON
     \<lparr>psType = PartitionSizeTypeExplicit, psSize = 8388608\<rparr>) =
   Inr \<lparr>psType = PartitionSizeTypeExplicit, psSize = 8388608\<rparr>"
  using PartitionSize_json_roundtrip [of "\<lparr>psType = PartitionSizeTypeExplicit, psSize = 8388608\<rparr>"]
  by (simp add: unit_defs)

text \<open>There is no overflow check: a size literal denotes its value modulo \<open>2 ^ 64\<close>, so for
  every size in whole TiB there are larger literals, within the range of \<open>ParseUint\<close>, that are
  accepted and denote that size.\<close>

theorem parseDiskSize_wraps:
  assumes "n < 2 ^ 63"
  shows "parseDiskSize (nat_dec (n + 16777216) @ ''T'') = parseDiskSize (nat_dec n @ ''T'')"
proof -
  have "(of_nat (n + 16777216) * TiB :: uint64) = of_nat n * TiB"
    by (simp add: unit_defs distrib_right)
  then show ?thesis
    using assms by (subst (1 2) parseDiskSize_dec) auto
qed

theorem parseDiskSize_wraps_witness:
  "parseDiskSize (nat_dec 16777217 @ ''T'') = parseDiskSize (nat_dec 1 @ ''T'')"
  using parseDiskSize_wraps [of 1] by simp

end
