(* ===== verification/DiskLayout.thy ===== *)
theory DiskLayout
  imports DiskSizes
begin

text \<open>
  \<open>imagecustomizerapi/partition.go\<close>, \<open>partitiontype.go\<close>, \<open>partitiontabletype.go\<close>, \<open>uuid.go\<close>
  and \<open>disk.go\<close>: partitions, and \<open>Disk.IsValid\<close>, which checks a disk and fills in the start,
  end and size of its partitions and its own size. \<open>Disk_IsValid\<close> returns the first error or the
  disk as the method leaves it. A \<open>*DiskSize\<close> is an option; sizes are 64-bit words.
\<close>

section \<open>Partition types\<close>

type_synonym PartitionType = string

definition PartitionTypeDefault :: PartitionType where [enum_defs]: "PartitionTypeDefault = ''''"
definition PartitionTypeESP :: PartitionType where [enum_defs]: "PartitionTypeESP = ''esp''"
definition PartitionTypeBiosGrub :: PartitionType where [enum_defs]: "PartitionTypeBiosGrub = ''bios-grub''"
definition PartitionTypeHome :: PartitionType where [enum_defs]: "PartitionTypeHome = ''home''"
definition PartitionTypeLinuxGeneric :: PartitionType where [enum_defs]: "PartitionTypeLinuxGeneric = ''linux-generic''"
definition PartitionTypeRoot :: PartitionType where [enum_defs]: "PartitionTypeRoot = ''root''"
definition PartitionTypeRootVerity :: PartitionType where [enum_defs]: "PartitionTypeRootVerity = ''root-verity''"
definition PartitionTypeSrv :: PartitionType where [enum_defs]: "PartitionTypeSrv = ''srv''"
definition PartitionTypeSwap :: PartitionType where [enum_defs]: "PartitionTypeSwap = ''swap''"
definition PartitionTypeTmp :: PartitionType where [enum_defs]: "PartitionTypeTmp = ''tmp''"
definition PartitionTypeUsr :: PartitionType where [enum_defs]: "PartitionTypeUsr = ''usr''"
definition PartitionTypeUsrVerity :: PartitionType where [enum_defs]: "PartitionTypeUsrVerity = ''usr-verity''"
definition PartitionTypeVar :: PartitionType where [enum_defs]: "PartitionTypeVar = ''var''"
definition PartitionTypeXbootldr :: PartitionType where [enum_defs]: "PartitionTypeXbootldr = ''xbootldr''"

definition PartitionType_names :: "PartitionType list" where
  "PartitionType_names =
     [PartitionTypeDefault, PartitionTypeESP, PartitionTypeBiosGrub, PartitionTypeHome,
      PartitionTypeLinuxGeneric, PartitionTypeRoot, PartitionTypeRootVerity, PartitionTypeSrv,
      PartitionTypeSwap, PartitionTypeTmp, PartitionTypeUsr, PartitionTypeUsrVerity,
      PartitionTypeVar, PartitionTypeXbootldr]"

text \<open>\<open>uuidRegex\<close>: groups of 8, 4, 4, 4 and 12 hexadecimal digits separated by dashes.\<close>

definition is_hex :: "char \<Rightarrow> bool" where
  "is_hex c = (case digit_val c of None \<Rightarrow> False | Some d \<Rightarrow> d < 16)"

definition uuidRegex_match :: "string \<Rightarrow> bool" where
  "uuidRegex_match s =
     (let groups = Split s CHR ''-'' in
      map length groups = [8, 4, 4, 4, 12] \<and> list_all (list_all is_hex) groups)"

definition partitionTypeToUuidArchIndependent :: "PartitionType \<rightharpoonup> string" where
  "partitionTypeToUuidArchIndependent = map_of
     [(PartitionTypeESP, ''c12a7328-f81f-11d2-ba4b-00a0c93ec93b''),
      (PartitionTypeBiosGrub, ''21686148-6449-6E6F-744E-656564454649''),
      (PartitionTypeHome, ''933ac7e1-2eb4-4f13-b844-0e14e2aef915''),
      (PartitionTypeLinuxGeneric, ''0fc63daf-8483-4772-8e79-3d69d8477de4''),
      (PartitionTypeSrv, ''3b8f8425-20e0-4f3b-907f-1a25a76f98e8''),
      (PartitionTypeSwap, ''0657fd6d-a4ab-43c4-84e5-0933c84b4f4f''),
      (PartitionTypeTmp, ''7ec6f557-3bc5-4aca-b293-16ef5df639d1''),
      (PartitionTypeVar, ''4d21b016-b534-45c2-a9fb-5c16e091fd2d''),
      (PartitionTypeXbootldr, ''bc13c2ff-59e6-4262-a352-b275fd6f7172'')]"

definition partitionTypeToUuidAmd64 :: "PartitionType \<rightharpoonup> string" where
  "partitionTypeToUuidAmd64 = map_of
     [(PartitionTypeRoot, ''4f68bce3-e8cd-4db1-96e7-fbcaf984b709''),
      (PartitionTypeRootVerity, ''2c7357ed-ebd2-46d9-aec1-23d437ec2bf5''),
      (PartitionTypeUsr, ''8484680c-9521-48c6-9c11-b0720656f69e''),
      (PartitionTypeUsrVerity, ''77ff5f63-e7b6-4633-acf4-1565b864c0e6'')]"

definition partitionTypeToUuidArm64 :: "PartitionType \<rightharpoonup> string" where
  "partitionTypeToUuidArm64 = map_of
     [(PartitionTypeRoot, ''b921b045-1df0-41c3-af44-4c6f280d3fae''),
      (PartitionTypeRootVerity, ''df3300ce-d69f-4c92-978c-9bfb0f38d820''),
      (PartitionTypeUsr, ''b0e01050-ee5f-4390-949a-9101b17104e9''),
      (PartitionTypeUsrVerity, ''6e11a4e7-fbca-4ded-b9e9-e1a512bb664e'')]"

text \<open>The \<open>init\<close> function merges the two maps, the architecture's entries last.\<close>

definition PartitionTypeToUuid :: "(PartitionType \<rightharpoonup> string) \<Rightarrow> PartitionType \<rightharpoonup> string" where
  "PartitionTypeToUuid archDependent = partitionTypeToUuidArchIndependent ++ archDependent"

definition PartitionTypeSupportedMountPaths :: "PartitionType \<rightharpoonup> string list" where
  "PartitionTypeSupportedMountPaths = map_of
     [(PartitionTypeESP, [''/boot/efi'']), (PartitionTypeBiosGrub, []),
      (PartitionTypeHome, [''/home'']), (PartitionTypeRoot, [''/'']), (PartitionTypeRootVerity, []),
      (PartitionTypeSrv, [''/srv'']), (PartitionTypeSwap, []), (PartitionTypeTmp, [''/var/tmp'']),
      (PartitionTypeUsr, [''/usr'']), (PartitionTypeUsrVerity, []), (PartitionTypeVar, [''/var'']),
      (PartitionTypeXbootldr, [''/boot''])]"

datatype partition_error =
    PartitionNameNonAscii string nat
  | PartitionNameTooLong string
  | EndAndSize string
  | NonPositiveSize string
  | UnknownPartitionType string

definition PartitionType_IsValid :: "PartitionType \<Rightarrow> partition_error option" where
  "PartitionType_IsValid p =
     (if p \<in> set PartitionType_names then None
      else guard (\<not> uuidRegex_match p) (UnknownPartitionType p))"

section \<open>Partitions\<close>

record Partition =
  partId :: string
  partLabel :: string
  partStart :: "DiskSize option"
  partEnd :: "DiskSize option"
  partSize :: PartitionSize
  partType :: PartitionType
  filled :: bool

definition isGPTNameValid :: "string \<Rightarrow> partition_error option" where
  "isGPTNameValid name =
     first_err
      [(case find (\<lambda>char. char > 0x7F) (range_runes name) of
          Some char \<Rightarrow> Some (PartitionNameNonAscii name char) | None \<Rightarrow> None),
       guard (length name > 35) (PartitionNameTooLong name)]"

definition Partition_IsValid :: "Partition \<Rightarrow> partition_error option" where
  "Partition_IsValid p =
     first_err
      [isGPTNameValid (partLabel p),
       guard (\<not> filled p \<and> partEnd p \<noteq> None \<and> psType (partSize p) \<noteq> PartitionSizeTypeUnset)
         (EndAndSize (partId p)),
       guard ((case (partEnd p, partStart p) of (Some e, Some s) \<Rightarrow> s \<ge> e | _ \<Rightarrow> False)
              \<or> (psType (partSize p) = PartitionSizeTypeExplicit \<and> psSize (partSize p) \<le> 0))
         (NonPositiveSize (partId p)),
       PartitionType_IsValid (partType p)]"

section \<open>Disks\<close>

type_synonym PartitionTableType = string

definition PartitionTableTypeGpt :: PartitionTableType where [enum_defs]: "PartitionTableTypeGpt = ''gpt''"

record Disk =
  PartitionTableType :: PartitionTableType
  MaxSize :: "DiskSize option"
  Partitions :: "Partition list"

datatype disk_error =
    InvalidPartitionTableType string
  | NonPositiveMaxSize DiskSize
  | InvalidPartition nat partition_error
  | StartOmittedNoPreviousEnd string string
  | BiosBootNotAt1MiB
  | GrowNotLast string
  | PartitionsOverlap string "DiskSize option" DiskSize string "DiskSize option" string
  | NoSizeNoPartitions
  | GptHeaderReserved string DiskSize
  | NoMaxSizeNoEnd string
  | MaxSizeTooSmall DiskSize DiskSize DiskSize

definition PartitionTableType_IsValid :: "PartitionTableType \<Rightarrow> disk_error option" where
  "PartitionTableType_IsValid t = guard (t \<noteq> PartitionTableTypeGpt) (InvalidPartitionTableType t)"

definition DefaultSectorSize :: uint64 where "DefaultSectorSize = 512"
definition GptHeaderSectorNum :: uint64 where "GptHeaderSectorNum = 34"
definition GptFooterSectorNum :: uint64 where "GptFooterSectorNum = 33"

definition gptHeaderSize :: DiskSize where
  "gptHeaderSize = RoundUp (GptHeaderSectorNum * DefaultSectorSize) DefaultPartitionAlignment"

definition gptFooterSize :: DiskSize where
  "gptFooterSize = RoundUp (GptFooterSectorNum * DefaultSectorSize) DefaultPartitionAlignment"

text \<open>\<open>partGetEnd\<close> dereferences the start of a partition that has an explicit size; every caller has
  filled the start in by then, so the \<open>None\<close> case for a missing start stands for no code path.\<close>

definition partGetEnd :: "Partition \<Rightarrow> DiskSize option" where
  "partGetEnd p =
     (case partEnd p of
        Some e \<Rightarrow> Some e
      | None \<Rightarrow>
          if psType (partSize p) = PartitionSizeTypeExplicit
          then (case partStart p of Some s \<Rightarrow> Some (s + psSize (partSize p)) | None \<Rightarrow> None)
          else None)"

definition partFillSizeAndEnd :: "Partition \<Rightarrow> DiskSize \<Rightarrow> Partition" where
  "partFillSizeAndEnd p end =
     (let p1 = (if partEnd p = None then p\<lparr>partEnd := Some end\<rparr> else p);
          p2 = (if psType (partSize p1) \<noteq> PartitionSizeTypeExplicit
                then (case partStart p1 of
                        Some s \<Rightarrow> p1\<lparr>partSize := \<lparr>psType = PartitionSizeTypeExplicit, psSize = end - s\<rparr>\<rparr>
                      | None \<Rightarrow> p1)
                else p1)
      in p2\<lparr>filled := True\<rparr>)"

text \<open>First loop: a missing start is the end of the previous partition, 1 MiB for the first one.\<close>

fun fillStarts :: "Partition option \<Rightarrow> Partition list \<Rightarrow> disk_error + Partition list" where
  "fillStarts prev [] = Inr []"
| "fillStarts prev (p # ps) =
     (case (case partStart p of
              Some s \<Rightarrow> Inr p
            | None \<Rightarrow>
                (case prev of
                   None \<Rightarrow> Inr (p\<lparr>partStart := Some DefaultPartitionAlignment\<rparr>)
                 | Some q \<Rightarrow>
                     (case partGetEnd q of
                        None \<Rightarrow> Inl (StartOmittedNoPreviousEnd (partId p) (partId q))
                      | Some prevEnd \<Rightarrow> Inr (p\<lparr>partStart := Some prevEnd\<rparr>)))) of
        Inl e \<Rightarrow> Inl e
      | Inr p' \<Rightarrow>
          if partType p' = PartitionTypeBiosGrub \<and> partStart p' \<noteq> Some MiB then Inl BiosBootNotAt1MiB
          else (case fillStarts (Some p') ps of Inl e \<Rightarrow> Inl e | Inr ps' \<Rightarrow> Inr (p' # ps')))"

text \<open>Second loop: each partition but the last ends before the next one starts, and is filled in.\<close>

fun checkOrder :: "Partition list \<Rightarrow> disk_error + Partition list" where
  "checkOrder (a # b # ps) =
     (case partGetEnd a of
        None \<Rightarrow> Inl (GrowNotLast (partId a))
      | Some aEnd \<Rightarrow>
          if (case partStart b of Some bStart \<Rightarrow> aEnd > bStart | None \<Rightarrow> False)
          then Inl (PartitionsOverlap (partId a) (partStart a) aEnd (partId b) (partStart b)
                      (case partGetEnd b of None \<Rightarrow> [] | Some bEnd \<Rightarrow> HumanReadable bEnd))
          else (case checkOrder (b # ps) of
                  Inl e \<Rightarrow> Inl e
                | Inr rest \<Rightarrow> Inr (partFillSizeAndEnd a aEnd # rest)))"
| "checkOrder ps = Inr ps"

text \<open>Last part: the GPT header's space, and the size of the disk against the last partition.\<close>

definition checkMaxSize :: "DiskSize option \<Rightarrow> Partition list \<Rightarrow> disk_error + (DiskSize option \<times> Partition list)" where
  "checkMaxSize maxSize ps =
     (if ps = [] then Inr (maxSize, ps)
      else
        let firstPartition = hd ps; lastPartition = last ps in
        if (case partStart firstPartition of Some s \<Rightarrow> s < gptHeaderSize | None \<Rightarrow> False)
        then Inl (GptHeaderReserved (partId firstPartition) gptHeaderSize)
        else
          (case (maxSize, partGetEnd lastPartition) of
             (None, None) \<Rightarrow> Inl (NoMaxSizeNoEnd (partId lastPartition))
           | (None, Some lastEnd) \<Rightarrow>
               Inr (Some (lastEnd + gptFooterSize),
                    butlast ps @ [partFillSizeAndEnd lastPartition lastEnd])
           | (Some m, end) \<Rightarrow>
               let requiredSize =
                     (case end of
                        None \<Rightarrow> (case partStart lastPartition of
                                   Some s \<Rightarrow> s + DefaultPartitionAlignment
                                 | None \<Rightarrow> DefaultPartitionAlignment)
                      | Some lastEnd \<Rightarrow> lastEnd) + gptFooterSize in
               if requiredSize > m then Inl (MaxSizeTooSmall requiredSize m gptFooterSize)
               else
                 let lastEnd = (case end of None \<Rightarrow> m - gptFooterSize | Some e \<Rightarrow> e) in
                 Inr (Some m, butlast ps @ [partFillSizeAndEnd lastPartition lastEnd])))"

definition Disk_IsValid :: "Disk \<Rightarrow> disk_error + Disk" where
  "Disk_IsValid d =
     (case first_err
             [PartitionTableType_IsValid (PartitionTableType d),
              (case MaxSize d of Some m \<Rightarrow> guard (m \<le> 0) (NonPositiveMaxSize m) | None \<Rightarrow> None),
              validate_items InvalidPartition Partition_IsValid (Partitions d)] of
        Some e \<Rightarrow> Inl e
      | None \<Rightarrow>
          (case fillStarts None (Partitions d) of
             Inl e \<Rightarrow> Inl e
           | Inr ps1 \<Rightarrow>
               (case checkOrder ps1 of
                  Inl e \<Rightarrow> Inl e
                | Inr ps2 \<Rightarrow>
                    if MaxSize d = None \<and> ps2 = [] then Inl NoSizeNoPartitions
                    else (case checkMaxSize (MaxSize d) ps2 of
                            Inl e \<Rightarrow> Inl e
                          | Inr (m, ps3) \<Rightarrow> Inr (d\<lparr>MaxSize := m, Partitions := ps3\<rparr>)))))"

section \<open>What a validated disk looks like\<close>

text \<open>\<open>pstart\<close> and \<open>pend\<close> are the bounds of a partition that has them, as natural numbers.\<close>

definition pstart :: "Partition \<Rightarrow> nat" where
  "pstart p = (case partStart p of Some s \<Rightarrow> unat s | None \<Rightarrow> 0)"

definition pend :: "Partition \<Rightarrow> nat" where
  "pend p = (case partEnd p of Some e \<Rightarrow> unat e | None \<Rightarrow> 0)"

definition filled_part :: "Partition \<Rightarrow> bool" where
  "filled_part p \<longleftrightarrow> partStart p \<noteq> None \<and> partEnd p \<noteq> None \<and> pstart p < pend p
     \<and> psType (partSize p) = PartitionSizeTypeExplicit
     \<and> unat (psSize (partSize p)) = pend p - pstart p \<and> filled p
     \<and> (partType p = PartitionTypeBiosGrub \<longrightarrow> pstart p = 2 ^ 20)"

text \<open>The partitions have positive, explicit, consistent bounds, lie one after the other, leave
  the first MiB of the disk to the GPT header and its last MiB to the footer.\<close>

definition laid_out :: "Disk \<Rightarrow> bool" where
  "laid_out d \<longleftrightarrow>
     (case MaxSize d of
        None \<Rightarrow> False
      | Some m \<Rightarrow>
          0 < unat m \<and> list_all filled_part (Partitions d)
          \<and> sorted_wrt (\<lambda>a b. pend a \<le> pstart b) (Partitions d)
          \<and> (Partitions d = [] \<or> (2 ^ 20 \<le> pstart (hd (Partitions d))
                \<and> pend (last (Partitions d)) + 2 ^ 20 \<le> unat m)))"

text \<open>The input as the configuration file gives it: nothing filled in, every size below \<open>2 ^ 56\<close>
  bytes, at most 127 partitions.\<close>

definition as_configured :: "Partition \<Rightarrow> bool" where
  "as_configured p \<longleftrightarrow> \<not> filled p
     \<and> (case partStart p of Some s \<Rightarrow> unat s \<le> 2 ^ 56 | None \<Rightarrow> True)
     \<and> (case partEnd p of Some e \<Rightarrow> unat e \<le> 2 ^ 56 | None \<Rightarrow> True)
     \<and> unat (psSize (partSize p)) \<le> 2 ^ 56"

lemma gpt_sizes: "gptHeaderSize = 1048576" "gptFooterSize = 1048576"
  by (simp_all add: gptHeaderSize_def gptFooterSize_def RoundUp_def Let_def unit_defs
      GptHeaderSectorNum_def GptFooterSectorNum_def DefaultSectorSize_def)

text \<open>What holds of a partition once its start is known: \<open>started\<close>.\<close>

definition started :: "Partition \<Rightarrow> bool" where
  "started q \<longleftrightarrow> \<not> filled q \<and> unat (psSize (partSize q)) \<le> 2 ^ 56
     \<and> (psType (partSize q) = PartitionSizeTypeExplicit \<longrightarrow> 0 < psSize (partSize q))
     \<and> (partEnd q \<noteq> None \<longrightarrow> psType (partSize q) = PartitionSizeTypeUnset \<and> pstart q < pend q)
     \<and> partStart q \<noteq> None \<and> pstart q < 2 ^ 63 \<and> pend q \<le> 2 ^ 56
     \<and> (partType q = PartitionTypeBiosGrub \<longrightarrow> pstart q = 2 ^ 20)"

lemma partGetEnd_started:
  assumes "started q" "partGetEnd q = Some e"
  shows "pstart q < unat e" "unat e \<le> pstart q + 2 ^ 56 \<or> unat e \<le> 2 ^ 56"
    "psType (partSize q) = PartitionSizeTypeExplicit \<Longrightarrow> unat (psSize (partSize q)) = unat e - pstart q"
proof -
  obtain s where s: "partStart q = Some s" "unat s < 2 ^ 63"
    using assms(1) by (auto simp: started_def pstart_def)
  have "pstart q < unat e \<and> (unat e \<le> pstart q + 2 ^ 56 \<or> unat e \<le> 2 ^ 56)
     \<and> (psType (partSize q) = PartitionSizeTypeExplicit \<longrightarrow> unat (psSize (partSize q)) = unat e - pstart q)"
  proof (cases "partEnd q")
    case (Some e')
    then show ?thesis
      using assms s by (auto simp: started_def partGetEnd_def pstart_def pend_def)
  next
    case None
    then have ex: "psType (partSize q) = PartitionSizeTypeExplicit" "e = s + psSize (partSize q)"
      using assms(2) s by (auto simp: partGetEnd_def split: if_splits)
    have "unat (s + psSize (partSize q)) = unat s + unat (psSize (partSize q))"
      using assms(1) s by (subst unat_add_lem [THEN iffD1]) (auto simp: started_def)
    moreover have "0 < unat (psSize (partSize q))"
      using assms(1) ex by (auto simp: started_def unat_gt_0)
    ultimately show ?thesis using assms(1) s ex
      by (auto simp: started_def pstart_def)
  qed
  then show "pstart q < unat e" "unat e \<le> pstart q + 2 ^ 56 \<or> unat e \<le> 2 ^ 56"
    "psType (partSize q) = PartitionSizeTypeExplicit \<Longrightarrow> unat (psSize (partSize q)) = unat e - pstart q"
    by auto
qed

lemma partFill_started:
  assumes "started q" "partEnd q = None \<or> partEnd q = Some e" "pstart q < unat e"
    and "psType (partSize q) = PartitionSizeTypeExplicit \<Longrightarrow> unat (psSize (partSize q)) = unat e - pstart q"
  shows "filled_part (partFillSizeAndEnd q e)" "pstart (partFillSizeAndEnd q e) = pstart q"
    "pend (partFillSizeAndEnd q e) = unat e"
proof -
  obtain s where s: "partStart q = Some s" "unat s < unat e"
    using assms(1,3) by (auto simp: started_def pstart_def)
  then have "unat (e - s) = unat e - unat s"
    by (intro unat_sub) (simp add: word_le_nat_alt)
  with s assms show "filled_part (partFillSizeAndEnd q e)"
    "pstart (partFillSizeAndEnd q e) = pstart q" "pend (partFillSizeAndEnd q e) = unat e"
    by (auto simp: filled_part_def partFillSizeAndEnd_def Let_def pstart_def pend_def started_def)
qed

lemma partGetEnd_matches: "partGetEnd q = Some e \<Longrightarrow> partEnd q = None \<or> partEnd q = Some e"
  by (auto simp: partGetEnd_def split: option.splits)

text \<open>The start chosen for a partition keeps it within the bounds that exclude wrap-around.\<close>

lemma started_intro:
  assumes "as_configured p" "Partition_IsValid p = None" "partEnd p \<noteq> None \<Longrightarrow> partStart p \<noteq> None"
    and "unat s < 2 ^ 63" "\<And>t. partStart p = Some t \<Longrightarrow> s = t"
    and "partType p = PartitionTypeBiosGrub \<Longrightarrow> s = MiB"
  shows "started (p\<lparr>partStart := Some s\<rparr>)"
  using assms
  by (auto simp: started_def as_configured_def Partition_IsValid_def pstart_def pend_def MiB_def
      word_less_nat_alt word_le_nat_alt not_le split: option.splits)

lemma partStart_same: "partStart p = Some s \<Longrightarrow> p\<lparr>partStart := Some s\<rparr> = p"
  by (cases p) simp

definition chosen_start :: "Partition option \<Rightarrow> Partition \<Rightarrow> DiskSize \<Rightarrow> bool" where
  "chosen_start prev p s \<longleftrightarrow>
     (case partStart p of
        Some t \<Rightarrow> s = t
      | None \<Rightarrow> (case prev of None \<Rightarrow> s = DefaultPartitionAlignment | Some q \<Rightarrow> partGetEnd q = Some s))
     \<and> (partType p = PartitionTypeBiosGrub \<longrightarrow> s = MiB)"

lemma fillStarts_Cons:
  assumes "fillStarts prev (p # ps) = Inr qs"
  shows "\<exists>s qs'. qs = p\<lparr>partStart := Some s\<rparr> # qs' \<and> chosen_start prev p s
    \<and> fillStarts (Some (p\<lparr>partStart := Some s\<rparr>)) ps = Inr qs'"
proof -
  have "\<exists>s. chosen_start prev p s \<and> (\<exists>qs'. qs = p\<lparr>partStart := Some s\<rparr> # qs'
    \<and> fillStarts (Some (p\<lparr>partStart := Some s\<rparr>)) ps = Inr qs')"
  proof (cases "partStart p")
    case (Some t)
    have "chosen_start prev p t"
      using assms Some by (simp add: chosen_start_def split: if_splits)
    moreover have "\<exists>qs'. qs = p # qs' \<and> fillStarts (Some p) ps = Inr qs'"
      using assms Some by (simp split: if_splits sum.splits)
    ultimately show ?thesis using partStart_same [OF Some] by metis
  next
    case None
    have "\<exists>s. (case prev of None \<Rightarrow> s = DefaultPartitionAlignment | Some q \<Rightarrow> partGetEnd q = Some s)
        \<and> (partType p = PartitionTypeBiosGrub \<longrightarrow> s = MiB)
        \<and> (\<exists>qs'. qs = p\<lparr>partStart := Some s\<rparr> # qs' \<and> fillStarts (Some (p\<lparr>partStart := Some s\<rparr>)) ps = Inr qs')"
    proof (cases prev)
      case None
      with assms \<open>partStart p = None\<close> show ?thesis
        by (simp split: if_splits sum.splits)
    next
      case (Some q)
      obtain e where "partGetEnd q = Some e"
        using assms \<open>partStart p = None\<close> Some by (cases "partGetEnd q") simp_all
      with assms \<open>partStart p = None\<close> Some show ?thesis
        by (simp split: if_splits sum.splits)
    qed
    then show ?thesis using None by (simp add: chosen_start_def)
  qed
  then show ?thesis by blast
qed

lemma fillStarts_started:
  assumes "fillStarts prev ps = Inr qs"
    and "\<And>q e. prev = Some q \<Longrightarrow> partGetEnd q = Some e \<Longrightarrow> unat e \<le> k * 2 ^ 56"
    and "1 \<le> k" "k + length ps \<le> 128"
    and "\<And>p. p \<in> set ps \<Longrightarrow> as_configured p \<and> Partition_IsValid p = None
           \<and> (partEnd p \<noteq> None \<longrightarrow> partStart p \<noteq> None)"
  shows "list_all started qs \<and> length qs = length ps"
  using assms
proof (induction ps arbitrary: prev qs k)
  case Nil
  then show ?case by simp
next
  case (Cons p ps)
  note pe = Cons.prems(2) and k = Cons.prems(3,4) and ok = Cons.prems(5)
  obtain s qs' where q: "qs = p\<lparr>partStart := Some s\<rparr> # qs'" and ch: "chosen_start prev p s"
    and rest: "fillStarts (Some (p\<lparr>partStart := Some s\<rparr>)) ps = Inr qs'"
    using fillStarts_Cons [OF Cons.prems(1)] by blast
  have bios: "s = MiB" if "partType p = PartitionTypeBiosGrub"
    using ch that by (simp add: chosen_start_def)
  have given: "s = t" if "partStart p = Some t" for t
    using ch that by (simp add: chosen_start_def)
  have src: "(prev = None \<and> s = DefaultPartitionAlignment) \<or> (\<exists>q. prev = Some q \<and> partGetEnd q = Some s)"
    if "partStart p = None"
    using ch that by (cases prev) (simp_all add: chosen_start_def)
  have sk: "unat s \<le> k * 2 ^ 56"
  proof (cases "partStart p")
    case None
    with src pe k show ?thesis by (auto simp: unit_defs)
  next
    case (Some t)
    with given ok [of p] k show ?thesis by (auto simp: as_configured_def)
  qed
  then have st: "started (p\<lparr>partStart := Some s\<rparr>)"
    using k ok [of p] given bios by (intro started_intro) auto
  have "unat e \<le> (k + 1) * 2 ^ 56" if "partGetEnd (p\<lparr>partStart := Some s\<rparr>) = Some e" for e
    using partGetEnd_started(2) [OF st that] sk k by (auto simp: pstart_def)
  then have "list_all started qs' \<and> length qs' = length ps"
    using Cons.IH [OF rest, of "k + 1"] k ok by auto
  with st q show ?case by simp
qed

text \<open>The second loop.\<close>

lemma checkOrder_filled:
  assumes "checkOrder qs = Inr rs" "list_all started qs" "qs \<noteq> []"
  shows "rs \<noteq> [] \<and> last rs = last qs \<and> list_all filled_part (butlast rs)
    \<and> successively (\<lambda>a b. pend a \<le> pstart b) rs \<and> pstart (hd rs) = pstart (hd qs)"
  using assms
proof (induction qs arbitrary: rs rule: checkOrder.induct)
  case (1 a b ps)
  obtain e where e: "partGetEnd a = Some e"
    using "1.prems"(1) by (cases "partGetEnd a") simp_all
  obtain t where t: "partStart b = Some t"
    using "1.prems"(2) by (auto simp: started_def)
  have le: "\<not> e > t"
    using "1.prems"(1) e t by (simp split: if_splits)
  obtain rest where rest: "checkOrder (b # ps) = Inr rest" and rs: "rs = partFillSizeAndEnd a e # rest"
    using "1.prems"(1) e t le by (cases "checkOrder (b # ps)") simp_all
  have le': "unat e \<le> pstart b"
    using le t by (simp add: pstart_def word_less_nat_alt)
  have a: "started a" using "1.prems" by simp
  note g = partGetEnd_started [OF a e]
  note f = partFill_started [OF a partGetEnd_matches [OF e] g(1) g(3)]
  have "rest \<noteq> [] \<and> last rest = last (b # ps) \<and> list_all filled_part (butlast rest)
    \<and> successively (\<lambda>a b. pend a \<le> pstart b) rest \<and> pstart (hd rest) = pstart b"
    using "1.IH" [OF e _ rest] "1.prems"(2) le t by simp
  with f le' rs "1.prems"(2) show ?case by (cases rest) auto
qed simp_all

lemma successively_sorted:
  assumes "successively (\<lambda>a b. pend a \<le> pstart b) ps" "list_all (\<lambda>p. pstart p < pend p) ps"
  shows "sorted_wrt (\<lambda>a b. pend a \<le> pstart b) ps"
  using assms
proof (induction ps)
  case (Cons a ps)
  show ?case
  proof (cases ps)
    case (Cons b qs)
    then have "sorted_wrt (\<lambda>a b. pend a \<le> pstart b) (b # qs)" "pend a \<le> pstart b" "pstart b < pend b"
      using Cons.IH Cons.prems \<open>ps = b # qs\<close> by auto
    with Cons show ?thesis by (auto intro: order_trans)
  qed simp
qed simp

text \<open>The last partition and the size of the disk.\<close>

lemma checkMaxSize_filled:
  assumes "checkMaxSize maxSize qs = Inr (m', rs)" "qs \<noteq> []" "started (last qs)"
  shows "\<exists>m e. m' = Some m \<and> rs = butlast qs @ [partFillSizeAndEnd (last qs) e]
    \<and> filled_part (partFillSizeAndEnd (last qs) e)
    \<and> pstart (partFillSizeAndEnd (last qs) e) = pstart (last qs)
    \<and> pend (partFillSizeAndEnd (last qs) e) + 2 ^ 20 \<le> unat m
    \<and> (hd qs = last qs \<or> partStart (hd qs) \<noteq> None \<longrightarrow> 2 ^ 20 \<le> pstart (hd qs))"
proof -
  obtain s where s: "partStart (last qs) = Some s" "unat s < 2 ^ 63"
    using assms(3) by (auto simp: started_def pstart_def)
  have hdr: "2 ^ 20 \<le> pstart (hd qs)" if "hd qs = last qs \<or> partStart (hd qs) \<noteq> None"
    using assms(1,2) that s
    by (auto simp: checkMaxSize_def Let_def gpt_sizes pstart_def word_less_nat_alt not_less
        split: if_splits option.splits)
  show ?thesis
  proof (cases "partGetEnd (last qs)")
    case (Some e)
    note g = partGetEnd_started [OF assms(3) Some]
    note f = partFill_started [OF assms(3) partGetEnd_matches [OF Some] g(1) g(3)]
    have sum: "unat (e + 1048576) = unat e + 1048576"
      using g(2) s by (subst unat_add_lem [THEN iffD1]) (auto simp: pstart_def)
    show ?thesis
    proof (cases maxSize)
      case None
      then have "m' = Some (e + 1048576)" "rs = butlast qs @ [partFillSizeAndEnd (last qs) e]"
        using assms(1,2) Some by (auto simp: checkMaxSize_def Let_def gpt_sizes split: if_splits)
      with f sum hdr show ?thesis by auto
    next
      case (Some m)
      then have "m' = Some m" "rs = butlast qs @ [partFillSizeAndEnd (last qs) e]" "\<not> m < e + 1048576"
        using assms(1,2) \<open>partGetEnd (last qs) = Some e\<close>
        by (auto simp: checkMaxSize_def Let_def gpt_sizes split: if_splits)
      with f sum hdr show ?thesis by (auto simp: word_less_nat_alt)
    qed
  next
    case None
    then obtain m where m: "maxSize = Some m"
      using assms(1,2) by (cases maxSize) (auto simp: checkMaxSize_def Let_def split: if_splits)
    then have r: "m' = Some m" "rs = butlast qs @ [partFillSizeAndEnd (last qs) (m - 1048576)]"
      and le: "\<not> m < s + 1048576 + 1048576"
      using assms(1,2) None s(1)
      by (auto simp: checkMaxSize_def Let_def gpt_sizes unit_defs split: if_splits)
    have "unat (s + 2097152) = unat s + 2097152"
      using s(2) by (subst unat_add_lem [THEN iffD1]) auto
    then have sm: "unat s + 2097152 \<le> unat m"
      using le by (simp add: word_less_nat_alt add.assoc)
    then have mm: "unat (m - 1048576) = unat m - 1048576"
      by (subst unat_sub) (simp_all add: word_le_nat_alt)
    have "partEnd (last qs) = None" "psType (partSize (last qs)) \<noteq> PartitionSizeTypeExplicit"
      using None s by (auto simp: partGetEnd_def split: option.splits if_splits)
    then show ?thesis
      using partFill_started [OF assms(3), of "m - 1048576"] r sm mm s hdr
      by (auto simp: pstart_def)
  qed
qed


lemma Disk_IsValid_InrE:
  assumes "Disk_IsValid d = Inr d'"
  shows "\<exists>ps1 ps2 m ps3. fillStarts None (Partitions d) = Inr ps1 \<and> checkOrder ps1 = Inr ps2
     \<and> \<not> (MaxSize d = None \<and> ps2 = []) \<and> checkMaxSize (MaxSize d) ps2 = Inr (m, ps3)
     \<and> d' = d\<lparr>MaxSize := m, Partitions := ps3\<rparr>"
    and "PartitionTableType d = PartitionTableTypeGpt" "MaxSize d \<noteq> Some 0"
    and "\<And>p. p \<in> set (Partitions d) \<Longrightarrow> Partition_IsValid p = None"
proof -
  have pre: "first_err
             [PartitionTableType_IsValid (PartitionTableType d),
              (case MaxSize d of Some m \<Rightarrow> guard (m \<le> 0) (NonPositiveMaxSize m) | None \<Rightarrow> None),
              validate_items InvalidPartition Partition_IsValid (Partitions d)] = None" (is "?chk = None")
  proof (rule ccontr)
    assume "?chk \<noteq> None"
    then obtain e where "?chk = Some e" by blast
    then show False using assms unfolding Disk_IsValid_def by simp
  qed
  then show "PartitionTableType d = PartitionTableTypeGpt" "MaxSize d \<noteq> Some 0"
    "\<And>p. p \<in> set (Partitions d) \<Longrightarrow> Partition_IsValid p = None"
    by (auto simp: PartitionTableType_IsValid_def)
  obtain ps1 where ps1: "fillStarts None (Partitions d) = Inr ps1"
    using assms pre unfolding Disk_IsValid_def by (cases "fillStarts None (Partitions d)") simp_all
  obtain ps2 where ps2: "checkOrder ps1 = Inr ps2"
    using assms pre ps1 unfolding Disk_IsValid_def by (cases "checkOrder ps1") simp_all
  have "\<not> (MaxSize d = None \<and> ps2 = [])"
    using assms pre ps1 ps2 unfolding Disk_IsValid_def by (simp split: if_splits)
  moreover from this obtain r where r: "checkMaxSize (MaxSize d) ps2 = Inr r"
    using assms pre ps1 ps2 unfolding Disk_IsValid_def
    by (cases "checkMaxSize (MaxSize d) ps2") (simp_all split: if_splits)
  moreover have "d' = d\<lparr>MaxSize := fst r, Partitions := snd r\<rparr>"
    using assms pre ps1 ps2 r unfolding Disk_IsValid_def
    by (cases r) (simp split: if_splits)
  ultimately show "\<exists>ps1 ps2 m ps3. fillStarts None (Partitions d) = Inr ps1 \<and> checkOrder ps1 = Inr ps2
     \<and> \<not> (MaxSize d = None \<and> ps2 = []) \<and> checkMaxSize (MaxSize d) ps2 = Inr (m, ps3)
     \<and> d' = d\<lparr>MaxSize := m, Partitions := ps3\<rparr>"
    using ps1 ps2 by (cases r) auto
qed

text \<open>The shape of the partition table is kept: ids, labels and types.\<close>

definition same_part :: "Partition \<Rightarrow> Partition \<Rightarrow> bool" where
  "same_part p q \<longleftrightarrow> partId p = partId q \<and> partLabel p = partLabel q \<and> partType p = partType q"

lemma same_part_fill [simp]: "same_part p (partFillSizeAndEnd q e) \<longleftrightarrow> same_part p q"
  by (auto simp: same_part_def partFillSizeAndEnd_def Let_def split: option.splits)

lemma same_part_refl [simp]: "same_part p p" by (simp add: same_part_def)

lemma same_part_trans: "same_part a b \<Longrightarrow> same_part b c \<Longrightarrow> same_part a c"
  by (simp add: same_part_def)

lemma fillStarts_same: "fillStarts prev ps = Inr qs \<Longrightarrow> list_all2 same_part ps qs"
proof (induction ps arbitrary: prev qs)
  case (Cons p ps)
  from fillStarts_Cons [OF Cons.prems] Cons.IH show ?case by (auto simp: same_part_def)
qed simp

lemma checkOrder_same: "checkOrder ps = Inr qs \<Longrightarrow> list_all2 same_part ps qs"
proof (induction ps arbitrary: qs rule: checkOrder.induct)
  case (1 a b ps)
  then obtain e where e: "partGetEnd a = Some e" by (cases "partGetEnd a") simp_all
  then have le: "\<not> (case partStart b of Some bStart \<Rightarrow> e > bStart | None \<Rightarrow> False)"
    using "1.prems" by (simp split: if_splits)
  obtain rest where rest: "checkOrder (b # ps) = Inr rest"
    using "1.prems" e le by (cases "checkOrder (b # ps)") simp_all
  then have "qs = partFillSizeAndEnd a e # rest" using "1.prems" e le by simp
  with "1.IH" [OF e le rest] show ?case by simp
qed (simp_all add: list_all2_refl)

lemma checkMaxSize_same: "checkMaxSize m ps = Inr (m', qs) \<Longrightarrow> list_all2 same_part ps qs"
proof (cases ps rule: rev_cases)
  case Nil
  then show "checkMaxSize m ps = Inr (m', qs) \<Longrightarrow> list_all2 same_part ps qs"
    by (simp add: checkMaxSize_def)
next
  case (snoc xs x)
  assume "checkMaxSize m ps = Inr (m', qs)"
  then have "\<exists>e. qs = xs @ [partFillSizeAndEnd x e]"
    using snoc by (cases m; cases "partGetEnd x") (simp_all add: checkMaxSize_def Let_def split: if_splits, blast+)
  then show "list_all2 same_part ps qs"
    using snoc by (auto intro!: list_all2_appendI list.rel_refl)
qed

lemma Disk_IsValid_same:
  assumes "Disk_IsValid d = Inr d'"
  shows "list_all2 same_part (Partitions d) (Partitions d')"
proof -
  obtain ps1 ps2 m ps3 where f: "fillStarts None (Partitions d) = Inr ps1" and o: "checkOrder ps1 = Inr ps2"
    and m: "checkMaxSize (MaxSize d) ps2 = Inr (m, ps3)" and d: "d' = d\<lparr>MaxSize := m, Partitions := ps3\<rparr>"
    using Disk_IsValid_InrE(1) [OF assms] by blast
  have "list_all2 same_part ps1 ps3"
    by (rule list_all2_trans [OF same_part_trans checkOrder_same [OF o] checkMaxSize_same [OF m]])
  then show ?thesis
    using list_all2_trans [OF same_part_trans fillStarts_same [OF f]] d by simp
qed

lemma same_part_ids: "list_all2 same_part ps qs \<Longrightarrow> map partId qs = map partId ps \<and> map partType qs = map partType ps"
  by (induction rule: list_all2_induct) (auto simp: same_part_def)

section \<open>Correctness of the layout\<close>

lemma laid_out_rebuild:
  assumes "successively (\<lambda>a b. pend a \<le> pstart b) rs" "list_all filled_part (butlast rs)" "rs \<noteq> []"
    and "filled_part x" "pstart x = pstart (last rs)"
  shows "sorted_wrt (\<lambda>a b. pend a \<le> pstart b) (butlast rs @ [x])
    \<and> list_all filled_part (butlast rs @ [x]) \<and> pstart (hd (butlast rs @ [x])) = pstart (hd rs)"
proof -
  have all: "list_all filled_part (butlast rs @ [x])" using assms by simp
  then have "list_all (\<lambda>p. pstart p < pend p) (butlast rs @ [x])"
    by (simp add: list_all_iff filled_part_def)
  moreover have "successively (\<lambda>a b. pend a \<le> pstart b) (butlast rs @ [x])"
    using assms by (cases rs rule: rev_cases) (auto simp: successively_append_iff)
  moreover have "pstart (hd (butlast rs @ [x])) = pstart (hd rs)"
    using assms by (cases rs rule: rev_cases) (auto simp: hd_append)
  ultimately show ?thesis using all successively_sorted by blast
qed

lemma Disk_IsValid_laid_out_aux:
  assumes "Disk_IsValid d = Inr d'" "list_all as_configured (Partitions d)"
    and "length (Partitions d) \<le> 127"
    and "\<And>p. p \<in> set (Partitions d) \<Longrightarrow> partEnd p \<noteq> None \<Longrightarrow> partStart p \<noteq> None"
  shows "laid_out d'"
proof -
  obtain ps1 ps2 m ps3 where f: "fillStarts None (Partitions d) = Inr ps1" and o: "checkOrder ps1 = Inr ps2"
    and n: "\<not> (MaxSize d = None \<and> ps2 = [])"
    and c: "checkMaxSize (MaxSize d) ps2 = Inr (m, ps3)" and d': "d' = d\<lparr>MaxSize := m, Partitions := ps3\<rparr>"
    using Disk_IsValid_InrE(1) [OF assms(1)] by blast
  note nz = Disk_IsValid_InrE(3) [OF assms(1)] and pv = Disk_IsValid_InrE(4) [OF assms(1)]
  have st: "list_all started ps1"
    using fillStarts_started [OF f, of 1] assms(2-4) pv by (auto simp: list_all_iff)
  show ?thesis
  proof (cases "ps1 = []")
    case True
    then have "ps2 = []" using o by simp
    moreover from this have "m = MaxSize d" "ps3 = []" using c by (auto simp: checkMaxSize_def)
    ultimately show ?thesis using n nz d' by (auto simp: laid_out_def unat_gt_0)
  next
    case False
    note F = checkOrder_filled [OF o st False]
    have ne: "ps2 \<noteq> []" and last: "last ps2 = last ps1" using F by blast+
    have sl: "started (last ps2)" using st False last by (simp add: list_all_iff)
    obtain k e where k: "m = Some k" "ps3 = butlast ps2 @ [partFillSizeAndEnd (last ps2) e]"
      "filled_part (partFillSizeAndEnd (last ps2) e)"
      "pstart (partFillSizeAndEnd (last ps2) e) = pstart (last ps2)"
      "pend (partFillSizeAndEnd (last ps2) e) + 2 ^ 20 \<le> unat k"
      "hd ps2 = last ps2 \<or> partStart (hd ps2) \<noteq> None \<longrightarrow> 2 ^ 20 \<le> pstart (hd ps2)"
      using checkMaxSize_filled [OF c ne sl] by blast
    have hd: "hd ps2 = last ps2 \<or> partStart (hd ps2) \<noteq> None"
      using F ne by (cases ps2) (auto simp: filled_part_def split: if_splits)
    have "sorted_wrt (\<lambda>a b. pend a \<le> pstart b) ps3 \<and> list_all filled_part ps3
      \<and> pstart (hd ps3) = pstart (hd ps2)"
      unfolding k(2) using F ne k(3,4) by (intro laid_out_rebuild) auto
    then show ?thesis using k hd d' by (auto simp: laid_out_def)
  qed
qed

lemma sorted_successively: "sorted_wrt P xs \<Longrightarrow> successively P xs"
  by (induction xs rule: induct_list012) auto

text \<open>A disk laid out that way is accepted again, as it is.\<close>

lemma filled_fill_id: "filled_part p \<Longrightarrow> partFillSizeAndEnd p e = p"
  by (cases p) (auto simp: filled_part_def partFillSizeAndEnd_def Let_def)

lemma filled_partGetEnd: "filled_part p \<Longrightarrow> \<exists>e. partGetEnd p = Some e \<and> unat e = pend p"
  by (auto simp: filled_part_def partGetEnd_def pend_def)

lemma filled_valid:
  assumes "filled_part q" "same_part p q" "Partition_IsValid p = None"
  shows "Partition_IsValid q = None"
  using assms
  by (auto simp: Partition_IsValid_def filled_part_def same_part_def pstart_def pend_def
      word_less_nat_alt word_le_nat_alt not_le split: option.splits)

lemma fillStarts_filled: "list_all filled_part ps \<Longrightarrow> fillStarts prev ps = Inr ps"
proof (induction ps arbitrary: prev)
  case (Cons p ps)
  then obtain s where s: "partStart p = Some s" by (auto simp: filled_part_def)
  have "s = MiB" if "partType p = PartitionTypeBiosGrub"
    using Cons.prems that s by (simp add: filled_part_def pstart_def word_unat_eq_iff MiB_def)
  with s Cons show ?case by simp
qed simp

lemma checkOrder_done:
  "list_all filled_part ps \<Longrightarrow> successively (\<lambda>a b. pend a \<le> pstart b) ps \<Longrightarrow> checkOrder ps = Inr ps"
proof (induction ps rule: checkOrder.induct)
  case (1 a b ps)
  obtain e where e: "partGetEnd a = Some e" "unat e = pend a"
    using filled_partGetEnd [of a] "1.prems" by auto
  obtain t where t: "partStart b = Some t" "unat t = pstart b"
    using "1.prems" by (auto simp: filled_part_def pstart_def)
  have "\<not> e > t" using e t "1.prems" by (simp add: word_less_nat_alt)
  with "1.IH" [OF e(1)] "1.prems" e t show ?case by (simp add: filled_fill_id)
qed simp_all

lemma checkMaxSize_done:
  assumes "list_all filled_part ps" "ps = [] \<or> 2 ^ 20 \<le> pstart (hd ps) \<and> pend (last ps) + 2 ^ 20 \<le> unat m"
  shows "checkMaxSize (Some m) ps = Inr (Some m, ps)"
proof (cases "ps = []")
  case True
  then show ?thesis by (simp add: checkMaxSize_def)
next
  case False
  have fl: "filled_part (last ps)" and fh: "filled_part (hd ps)"
    using assms(1) False by (simp_all add: list_all_iff)
  obtain e where e: "partGetEnd (last ps) = Some e" "unat e = pend (last ps)"
    using filled_partGetEnd [OF fl] by blast
  have "unat (e + 1048576) = unat e + 1048576"
    using e(2) assms(2) False unsigned_less [where w = m and 'a = nat]
    by (subst unat_add_lem [THEN iffD1]) auto
  then have "\<not> m < e + 1048576" using e assms(2) False by (simp add: word_less_nat_alt)
  moreover have "\<not> (case partStart (hd ps) of Some s \<Rightarrow> s < gptHeaderSize | None \<Rightarrow> False)"
    using assms(2) False by (auto simp: pstart_def gpt_sizes word_less_nat_alt split: option.splits)
  ultimately show ?thesis
    using False e fl by (simp add: checkMaxSize_def Let_def gpt_sizes filled_fill_id)
qed

lemma laid_out_accepted:
  assumes "laid_out d" "PartitionTableType d = PartitionTableTypeGpt"
    and "\<And>p. p \<in> set (Partitions d) \<Longrightarrow> Partition_IsValid p = None"
  shows "Disk_IsValid d = Inr d"
proof -
  obtain m where m: "MaxSize d = Some m" "0 < unat m" and all: "list_all filled_part (Partitions d)"
    and srt: "sorted_wrt (\<lambda>a b. pend a \<le> pstart b) (Partitions d)"
    and bnd: "Partitions d = [] \<or> 2 ^ 20 \<le> pstart (hd (Partitions d)) \<and> pend (last (Partitions d)) + 2 ^ 20 \<le> unat m"
    using assms(1) by (auto simp: laid_out_def split: option.splits)
  have "checkOrder (Partitions d) = Inr (Partitions d)"
    using all srt by (intro checkOrder_done sorted_successively)
  moreover have "m \<noteq> 0" using m(2) by auto
  moreover have "validate_items InvalidPartition Partition_IsValid (Partitions d) = None"
    using assms(3) by simp
  ultimately show ?thesis
    using assms(2) m fillStarts_filled [OF all] checkMaxSize_done [OF all bnd]
    by (simp del: validate_from_None add: Disk_IsValid_def PartitionTableType_IsValid_def)
qed

lemma Disk_IsValid_again:
  assumes "Disk_IsValid d = Inr d'" "laid_out d'"
  shows "Disk_IsValid d' = Inr d'"
proof (rule laid_out_accepted [OF assms(2)])
  show "PartitionTableType d' = PartitionTableTypeGpt"
    using Disk_IsValid_InrE(1,2) [OF assms(1)] by auto
  fix q assume "q \<in> set (Partitions d')"
  moreover have "list_all filled_part (Partitions d')"
    using assms(2) by (auto simp: laid_out_def split: option.splits)
  moreover from calculation obtain p where "p \<in> set (Partitions d)" "same_part p q"
    using Disk_IsValid_same [OF assms(1)] by (metis list_all2_conv_all_nth in_set_conv_nth)
  ultimately show "Partition_IsValid q = None"
    using Disk_IsValid_InrE(4) [OF assms(1)] filled_valid by (auto simp: list_all_iff)
qed

section \<open>Properties\<close>

text \<open>C5. When \<open>Disk.IsValid\<close> accepts a disk (at most 127 partitions, configured sizes and offsets of
  at most \<open>2 ^ 56\<close> bytes, an end only beside a start), it leaves it completely laid out: each
  partition has a start, an end and the size between them, all positive, partitions lie in
  order without overlap, the first MiB is free for the GPT header, the last MiB of the disk for
  the footer, the disk's size is known, a BIOS boot partition starts at 1 MiB; ids, labels and
  types are those of the input; and a second validation changes nothing.\<close>

theorem Disk_IsValid_lays_out:
  assumes "Disk_IsValid d = Inr d'" "list_all as_configured (Partitions d)"
    and "length (Partitions d) \<le> 127"
    and "\<forall>p \<in> set (Partitions d). partEnd p \<noteq> None \<longrightarrow> partStart p \<noteq> None"
  shows "laid_out d' \<and> list_all2 same_part (Partitions d) (Partitions d') \<and> Disk_IsValid d' = Inr d'"
proof -
  have "laid_out d'" using Disk_IsValid_laid_out_aux [OF assms(1-3)] assms(4) by blast
  then show ?thesis using Disk_IsValid_same [OF assms(1)] Disk_IsValid_again [OF assms(1)] by blast
qed

definition example_disk :: Disk where
  "example_disk = \<lparr>PartitionTableType = ''gpt'', MaxSize = Some (4096 * 1048576),
     Partitions =
       [\<lparr>partId = ''esp'', partLabel = ''esp'', partStart = None, partEnd = None,
         partSize = \<lparr>psType = PartitionSizeTypeExplicit, psSize = 8 * 1048576\<rparr>,
         partType = ''esp'', filled = False\<rparr>,
        \<lparr>partId = ''root'', partLabel = ''root'', partStart = None, partEnd = None,
         partSize = \<lparr>psType = PartitionSizeTypeGrow, psSize = 0\<rparr>,
         partType = ''root'', filled = False\<rparr>]\<rparr>"

definition example_disk_filled :: Disk where
  "example_disk_filled = \<lparr>PartitionTableType = ''gpt'', MaxSize = Some (4096 * 1048576),
     Partitions =
       [\<lparr>partId = ''esp'', partLabel = ''esp'', partStart = Some 1048576, partEnd = Some (9 * 1048576),
         partSize = \<lparr>psType = PartitionSizeTypeExplicit, psSize = 8 * 1048576\<rparr>,
         partType = ''esp'', filled = True\<rparr>,
        \<lparr>partId = ''root'', partLabel = ''root'', partStart = Some (9 * 1048576),
         partEnd = Some (4095 * 1048576),
         partSize = \<lparr>psType = PartitionSizeTypeExplicit, psSize = 4086 * 1048576\<rparr>,
         partType = ''root'', filled = True\<rparr>]\<rparr>"

lemma example_disk_valid: "Disk_IsValid example_disk = Inr example_disk_filled"
  by code_simp

theorem Disk_IsValid_lays_out_witness:
  "laid_out example_disk_filled \<and> Disk_IsValid example_disk_filled = Inr example_disk_filled"
proof -
  have "list_all as_configured (Partitions example_disk)" "length (Partitions example_disk) \<le> 127"
    "\<forall>p \<in> set (Partitions example_disk). partEnd p \<noteq> None \<longrightarrow> partStart p \<noteq> None"
    by (simp_all add: example_disk_def as_configured_def)
  then show ?thesis
    using Disk_IsValid_lays_out [OF example_disk_valid] by blast
qed

definition end_only_disk :: "DiskSize \<Rightarrow> Disk" where
  "end_only_disk e = \<lparr>PartitionTableType = ''gpt'', MaxSize = None,
     Partitions =
       [\<lparr>partId = ''root'', partLabel = [], partStart = None, partEnd = Some e,
         partSize = \<lparr>psType = PartitionSizeTypeUnset, psSize = 0\<rparr>, partType = [], filled = False\<rparr>]\<rparr>"

text \<open>The bound on the end of a partition is checked only against a start that is in the
  configuration file: a disk whose only partition gives an end and no start is accepted for every
  non-zero end of less than \<open>2 ^ 63\<close> bytes, even one before the start at 1 MiB that is then
  filled in, and the size filled in is the wrapped-around difference.\<close>

theorem end_without_start_unchecked:
  "Disk_IsValid (end_only_disk e) = Inr \<lparr>PartitionTableType = ''gpt'', MaxSize = Some (e + 1048576),
     Partitions =
       [\<lparr>partId = ''root'', partLabel = [], partStart = Some 1048576, partEnd = Some e,
         partSize = \<lparr>psType = PartitionSizeTypeExplicit, psSize = e - 1048576\<rparr>, partType = [],
         filled = True\<rparr>]\<rparr>"
  by (simp add: Disk_IsValid_def end_only_disk_def PartitionTableType_IsValid_def enum_defs
      Partition_IsValid_def isGPTNameValid_def PartitionType_IsValid_def
      PartitionType_names_def checkMaxSize_def Let_def gpt_sizes partGetEnd_def
      partFillSizeAndEnd_def unit_defs)

end
