(* ===== verification/FileSystems.thy ===== *)
theory FileSystems
  imports DiskLayout
begin

text \<open>
  The checks of the file-system part of the configuration, package \<open>imagecustomizerapi\<close>:
  \<open>mountpoint.go\<close>, \<open>mountidentifiertype.go\<close>, \<open>overlay.go\<close>, \<open>btrfsconfig.go\<close>, \<open>btrfsquotaconfig.go\<close>,
  \<open>btrfssubvolume.go\<close>, \<open>filesystem.go\<close>, \<open>filesystemtype.go\<close>, \<open>identifiedpartition.go\<close>, \<open>verity.go\<close>,
  \<open>corruptionoption.go\<close>, \<open>boottype.go\<close>, \<open>bootloaderresettype.go\<close>, \<open>reinitializeveritytype.go\<close> and
  \<open>resetpartitionuuidtype.go\<close>. Each \<open>IsValid\<close> method is a function to an optional error.
\<close>

section \<open>Enumerations\<close>

type_synonym MountIdentifierType = string

definition MountIdentifierTypeUuid :: MountIdentifierType where [enum_defs]: "MountIdentifierTypeUuid = ''uuid''"
definition MountIdentifierTypePartUuid :: MountIdentifierType where [enum_defs]: "MountIdentifierTypePartUuid = ''part-uuid''"
definition MountIdentifierTypePartLabel :: MountIdentifierType where [enum_defs]: "MountIdentifierTypePartLabel = ''part-label''"
definition MountIdentifierTypeDefault :: MountIdentifierType where [enum_defs]: "MountIdentifierTypeDefault = ''''"

type_synonym FileSystemType = string

definition FileSystemTypeNone :: FileSystemType where [enum_defs]: "FileSystemTypeNone = ''''"
definition FileSystemTypeBtrfs :: FileSystemType where [enum_defs]: "FileSystemTypeBtrfs = ''btrfs''"
definition FileSystemTypeExt4 :: FileSystemType where [enum_defs]: "FileSystemTypeExt4 = ''ext4''"
definition FileSystemTypeXfs :: FileSystemType where [enum_defs]: "FileSystemTypeXfs = ''xfs''"
definition FileSystemTypeFat32 :: FileSystemType where [enum_defs]: "FileSystemTypeFat32 = ''fat32''"
definition FileSystemTypeVfat :: FileSystemType where [enum_defs]: "FileSystemTypeVfat = ''vfat''"

type_synonym BootType = string

definition BootTypeNone :: BootType where [enum_defs]: "BootTypeNone = ''''"
definition BootTypeEfi :: BootType where [enum_defs]: "BootTypeEfi = ''efi''"
definition BootTypeLegacy :: BootType where [enum_defs]: "BootTypeLegacy = ''legacy''"

text \<open>The error of an enumeration's \<open>IsValid\<close> carries the value it refuses.\<close>

datatype enum_error = InvalidValue string

definition enum_IsValid :: "string list \<Rightarrow> string \<Rightarrow> enum_error option" where
  "enum_IsValid names v = guard (v \<notin> set names) (InvalidValue v)"

lemma enum_IsValid_None [simp, checks]: "enum_IsValid names v = None \<longleftrightarrow> v \<in> set names"
  by (simp add: enum_IsValid_def)

definition MountIdentifierType_IsValid :: "MountIdentifierType \<Rightarrow> enum_error option" where
  "MountIdentifierType_IsValid = enum_IsValid
     [MountIdentifierTypeUuid, MountIdentifierTypePartUuid, MountIdentifierTypePartLabel,
      MountIdentifierTypeDefault]"

definition FileSystemType_IsValid :: "FileSystemType \<Rightarrow> enum_error option" where
  "FileSystemType_IsValid = enum_IsValid
     [FileSystemTypeNone, FileSystemTypeBtrfs, FileSystemTypeExt4, FileSystemTypeXfs,
      FileSystemTypeFat32, FileSystemTypeVfat]"

definition BootType_IsValid :: "BootType \<Rightarrow> enum_error option" where
  "BootType_IsValid = enum_IsValid [BootTypeNone, BootTypeEfi, BootTypeLegacy]"

definition CorruptionOption_IsValid :: "string \<Rightarrow> enum_error option" where
  "CorruptionOption_IsValid = enum_IsValid ['''', ''io-error'', ''ignore'', ''panic'', ''restart'']"

definition ResetBootLoaderType_IsValid :: "string \<Rightarrow> enum_error option" where
  "ResetBootLoaderType_IsValid = enum_IsValid ['''', ''hard-reset'']"

definition ReinitializeVerityType_IsValid :: "string \<Rightarrow> enum_error option" where
  "ReinitializeVerityType_IsValid = enum_IsValid ['''', ''none'', ''all'']"

definition ResetPartitionsUuidsTypeDefault :: string where [enum_defs]: "ResetPartitionsUuidsTypeDefault = ''''"

definition ResetPartitionsUuidsType_IsValid :: "string \<Rightarrow> enum_error option" where
  "ResetPartitionsUuidsType_IsValid = enum_IsValid [ResetPartitionsUuidsTypeDefault, ''reset-all'']"

definition IdentifiedPartitionTypePartLabel :: string where
  [enum_defs]: "IdentifiedPartitionTypePartLabel = ''part-label''"

definition IdentifiedPartitionType_IsValid :: "string \<Rightarrow> enum_error option" where
  "IdentifiedPartitionType_IsValid = enum_IsValid [IdentifiedPartitionTypePartLabel]"

section \<open>Paths and mount options\<close>

datatype path_error = PathEmpty | PathInvalidChars string | PathNotAbsolute string

definition validatePath :: "string \<Rightarrow> path_error option" where
  "validatePath filePath = first_err
     [guard (filePath = []) PathEmpty,
      guard (ContainsAny filePath ([CHR '' '', CHR 0x09, CHR 0x0A] @ '':,'')) (PathInvalidChars filePath),
      guard (\<not> path_IsAbs filePath) (PathNotAbsolute filePath)]"

definition validateMountOptions :: "string \<Rightarrow> bool" where
  "validateMountOptions mountOptions = ContainsAny mountOptions [CHR '' '', CHR 0x09, CHR 0x0A]"

definition isSubDirString :: "string \<Rightarrow> string \<Rightarrow> bool" where
  "isSubDirString dir1 dir2 =
     (let cleanDir1 = TrimSuffix dir1 ''/'' @ ''/'';
          cleanDir2 = TrimSuffix dir2 ''/'' @ ''/''
      in cleanDir1 \<noteq> cleanDir2 \<and> HasPrefix cleanDir2 cleanDir1)"

record MountPoint =
  mpIdType :: MountIdentifierType
  mpOptions :: string
  mpPath :: string

datatype mount_error =
    InvalidIdType enum_error | InvalidMountPath path_error | MountOptionsWhitespace string

definition MountPoint_IsValid :: "MountPoint \<Rightarrow> mount_error option" where
  "MountPoint_IsValid p = first_err
     [map_option InvalidIdType (MountIdentifierType_IsValid (mpIdType p)),
      map_option InvalidMountPath (validatePath (mpPath p)),
      guard (validateMountOptions (mpOptions p)) (MountOptionsWhitespace (mpOptions p))]"

datatype btrfs_option_error = SubvolNotAllowed | SubvolidNotAllowed

definition validateBtrfsMountOptions :: "string \<Rightarrow> btrfs_option_error option" where
  "validateBtrfsMountOptions options =
     (if options = [] then None
      else validate_items (\<lambda>_ e. e)
        (\<lambda>opt. first_err [guard (HasPrefix opt ''subvol='') SubvolNotAllowed,
                          guard (HasPrefix opt ''subvolid='') SubvolidNotAllowed])
        (Split options CHR '',''))"

section \<open>Overlays\<close>

record Overlay =
  LowerDirs :: "string list"
  UpperDir :: string
  WorkDir :: string
  ovMountPoint :: string
  IsInitrdOverlay :: bool
  MountDependencies :: "string list"
  ovMountOptions :: string

datatype overlay_error =
    InvalidLowerDir string path_error | InvalidUpperDir string path_error
  | InvalidWorkDir string path_error | InvalidOverlayMountPoint string path_error
  | InvalidMountDependency string path_error | OverlayOptionsWhitespace string
  | UpperEqualsWork string | UpperSubdirOfWork string string | WorkSubdirOfUpper string string

definition Overlay_IsValid :: "Overlay \<Rightarrow> overlay_error option" where
  "Overlay_IsValid ov = first_err
     [validate_items (\<lambda>_ e. e) (\<lambda>d. map_option (InvalidLowerDir d) (validatePath d)) (LowerDirs ov),
      map_option (InvalidUpperDir (UpperDir ov)) (validatePath (UpperDir ov)),
      map_option (InvalidWorkDir (WorkDir ov)) (validatePath (WorkDir ov)),
      map_option (InvalidOverlayMountPoint (ovMountPoint ov)) (validatePath (ovMountPoint ov)),
      validate_items (\<lambda>_ e. e) (\<lambda>d. map_option (InvalidMountDependency d) (validatePath d)) (MountDependencies ov),
      guard (validateMountOptions (ovMountOptions ov)) (OverlayOptionsWhitespace (ovMountOptions ov)),
      guard (UpperDir ov = WorkDir ov) (UpperEqualsWork (UpperDir ov)),
      guard (isSubDirString (UpperDir ov) (WorkDir ov)) (UpperSubdirOfWork (UpperDir ov) (WorkDir ov)),
      guard (isSubDirString (WorkDir ov) (UpperDir ov)) (WorkSubdirOfUpper (WorkDir ov) (UpperDir ov))]"

section \<open>Btrfs\<close>

record BtrfsQuotaConfig =
  ReferencedLimit :: "DiskSize option"
  ExclusiveLimit :: "DiskSize option"

record BtrfsSubvolume =
  svPath :: string
  svMountPoint :: "MountPoint option"
  svQuota :: "BtrfsQuotaConfig option"

record BtrfsConfig =
  Subvolumes :: "BtrfsSubvolume list"

datatype quota_error = ReferencedLimitNotPositive DiskSize | ExclusiveLimitNotPositive DiskSize

definition BtrfsQuotaConfig_IsValid :: "BtrfsQuotaConfig \<Rightarrow> quota_error option" where
  "BtrfsQuotaConfig_IsValid q = first_err
     [(case ReferencedLimit q of Some l \<Rightarrow> guard (l \<le> 0) (ReferencedLimitNotPositive l) | None \<Rightarrow> None),
      (case ExclusiveLimit q of Some l \<Rightarrow> guard (l \<le> 0) (ExclusiveLimitNotPositive l) | None \<Rightarrow> None)]"

datatype subvol_path_error =
    SubvolEmpty | SubvolLeadingSlash | SubvolTrailingSlash | SubvolDoubleSlash | SubvolDotDot | SubvolDot

definition validateSubvolumePath :: "string \<Rightarrow> subvol_path_error option" where
  "validateSubvolumePath subvolPath = first_err
     [guard (subvolPath = []) SubvolEmpty,
      guard (HasPrefix subvolPath ''/'') SubvolLeadingSlash,
      guard (HasSuffix subvolPath ''/'') SubvolTrailingSlash,
      validate_items (\<lambda>_ e. e)
        (\<lambda>part. first_err [guard (part = []) SubvolDoubleSlash, guard (part = ''..'') SubvolDotDot,
                           guard (part = ''.'') SubvolDot])
        (Split subvolPath CHR ''/'')]"

datatype subvolume_error =
    InvalidSubvolPath subvol_path_error | InvalidSubvolMountPoint mount_error
  | InvalidSubvolOptions btrfs_option_error | InvalidQuota quota_error

definition BtrfsSubvolume_IsValid :: "BtrfsSubvolume \<Rightarrow> subvolume_error option" where
  "BtrfsSubvolume_IsValid s = first_err
     [map_option InvalidSubvolPath (validateSubvolumePath (svPath s)),
      (case svMountPoint s of
         None \<Rightarrow> None
       | Some m \<Rightarrow> first_err
           [map_option InvalidSubvolMountPoint (MountPoint_IsValid m),
            map_option InvalidSubvolOptions (validateBtrfsMountOptions (mpOptions m))]),
      (case svQuota s of None \<Rightarrow> None | Some q \<Rightarrow> map_option InvalidQuota (BtrfsQuotaConfig_IsValid q))]"

datatype btrfs_error =
    InvalidSubvolume nat subvolume_error | DuplicateSubvolPath nat string
  | SubvolMountLoop string string string string

fun validateSubvolumes :: "nat \<Rightarrow> string set \<Rightarrow> BtrfsSubvolume list \<Rightarrow> btrfs_error option" where
  "validateSubvolumes i seenPaths [] = None"
| "validateSubvolumes i seenPaths (s # ss) =
     (case BtrfsSubvolume_IsValid s of
        Some e \<Rightarrow> Some (InvalidSubvolume i e)
      | None \<Rightarrow>
          if svPath s \<in> seenPaths then Some (DuplicateSubvolPath i (svPath s))
          else validateSubvolumes (Suc i) (insert (svPath s) seenPaths) ss)"

definition subvolLoop :: "nat \<times> BtrfsSubvolume \<Rightarrow> nat \<times> BtrfsSubvolume \<Rightarrow> btrfs_error option" where
  "subvolLoop = (\<lambda>(i, a) (j, b).
     (case (svMountPoint a, svMountPoint b) of
        (Some ma, Some mb) \<Rightarrow>
          if i = j then None
          else
            let mountPointA = path_Clean (mpPath ma);
                mountPointB = path_Clean (mpPath mb);
                aMountedUnderB = HasPrefix mountPointA (mountPointB @ ''/'');
                bNestedUnderA = HasPrefix (svPath b) (svPath a @ ''/'')
            in guard (bNestedUnderA \<and> aMountedUnderB) (SubvolMountLoop (svPath a) (mpPath ma) (svPath b) (mpPath mb))
      | _ \<Rightarrow> None))"

definition validateNoSubvolumeMountPointLoops :: "BtrfsSubvolume list \<Rightarrow> btrfs_error option" where
  "validateNoSubvolumeMountPointLoops subvolumes =
     validate_items (\<lambda>_ e. e)
       (\<lambda>a. validate_items (\<lambda>_ e. e) (subvolLoop a) (enumerate 0 subvolumes))
       (enumerate 0 subvolumes)"

definition BtrfsConfig_IsValid :: "BtrfsConfig \<Rightarrow> btrfs_error option" where
  "BtrfsConfig_IsValid b = first_err
     [validateSubvolumes 0 {} (Subvolumes b), validateNoSubvolumeMountPointLoops (Subvolumes b)]"

section \<open>File systems\<close>

record FileSystem =
  DeviceId :: string
  fsType :: FileSystemType
  fsMountPoint :: "MountPoint option"
  fsBtrfs :: "BtrfsConfig option"
  PartitionId :: string
  fsSize :: uint64

datatype filesystem_error =
    DeviceIdEmpty | InvalidFileSystemType string enum_error | BtrfsOnOtherType | InvalidBtrfs btrfs_error
  | MountPointWithSubvolumes | InvalidFsMountPoint mount_error | MountPointWithoutType
  | InvalidBtrfsMountOptions btrfs_option_error

definition FileSystem_IsValid :: "FileSystem \<Rightarrow> filesystem_error option" where
  "FileSystem_IsValid f = first_err
     [guard (DeviceId f = []) DeviceIdEmpty,
      map_option (InvalidFileSystemType (DeviceId f)) (FileSystemType_IsValid (fsType f)),
      (case fsBtrfs f of
         None \<Rightarrow> None
       | Some b \<Rightarrow> first_err
           [guard (fsType f \<noteq> FileSystemTypeBtrfs) BtrfsOnOtherType,
            map_option InvalidBtrfs (BtrfsConfig_IsValid b),
            guard (0 < length (Subvolumes b) \<and> fsMountPoint f \<noteq> None) MountPointWithSubvolumes]),
      (case fsMountPoint f of
         None \<Rightarrow> None
       | Some m \<Rightarrow> first_err
           [map_option InvalidFsMountPoint (MountPoint_IsValid m),
            guard (fsType f = FileSystemTypeNone) MountPointWithoutType,
            (if fsType f = FileSystemTypeBtrfs
             then map_option InvalidBtrfsMountOptions (validateBtrfsMountOptions (mpOptions m)) else None)])]"

section \<open>Verity devices\<close>

record IdentifiedPartition =
  ipIdType :: string
  ipId :: string

datatype identified_error =
    InvalidIdentifiedIdType enum_error | IdentifiedIdEmpty | InvalidPartLabel partition_error

definition IdentifiedPartition_IsValid :: "IdentifiedPartition \<Rightarrow> identified_error option" where
  "IdentifiedPartition_IsValid i = first_err
     [map_option InvalidIdentifiedIdType (IdentifiedPartitionType_IsValid (ipIdType i)),
      guard (ipId i = []) IdentifiedIdEmpty,
      (if ipIdType i = IdentifiedPartitionTypePartLabel
       then map_option InvalidPartLabel (isGPTNameValid (ipId i)) else None)]"

record VerityMount =
  MountPath :: string
  vmMountOptions :: string
  SubvolumePath :: string
  DataSize :: uint64

record Verity =
  verityId :: string
  verityName :: string
  DataDeviceId :: string
  DataDevice :: "IdentifiedPartition option"
  DataDeviceMountIdType :: MountIdentifierType
  HashDeviceId :: string
  HashDevice :: "IdentifiedPartition option"
  HashDeviceMountIdType :: MountIdentifierType
  CorruptionOption :: string
  HashSignaturePath :: string
  verityMount :: "VerityMount option"

datatype verity_error =
    VerityIdEmpty | InvalidVerityName string | NoDataDevice | TwoDataDevices | NoHashDevice
  | TwoHashDevices | ConfigAndExistingPartitions | InvalidCorruptionOption enum_error
  | InvalidHashSignaturePath path_error | HashSignaturePathNotClean string string
  | HashSignaturePathNotUnderBoot string

definition verityNameRegex_match :: "string \<Rightarrow> bool" where
  "verityNameRegex_match s \<longleftrightarrow> s \<noteq> [] \<and> list_all (\<lambda>c. 97 \<le> byte c \<and> byte c \<le> 122) s"

definition Verity_IsValid :: "Verity \<Rightarrow> verity_error option" where
  "Verity_IsValid v =
     (let usesConfigPartitions = HashDeviceId v \<noteq> [] \<or> DataDeviceId v \<noteq> [];
          usesExistingPartitions = HashDevice v \<noteq> None \<or> DataDevice v \<noteq> None;
          sigPath = path_Clean (HashSignaturePath v)
      in first_err
     [guard (verityId v = []) VerityIdEmpty,
      guard (\<not> verityNameRegex_match (verityName v)) (InvalidVerityName (verityName v)),
      guard (DataDeviceId v = [] \<and> DataDevice v = None) NoDataDevice,
      guard (DataDeviceId v \<noteq> [] \<and> DataDevice v \<noteq> None) TwoDataDevices,
      guard (HashDeviceId v = [] \<and> HashDevice v = None) NoHashDevice,
      guard (HashDeviceId v \<noteq> [] \<and> HashDevice v \<noteq> None) TwoHashDevices,
      guard (usesConfigPartitions \<and> usesExistingPartitions) ConfigAndExistingPartitions,
      map_option InvalidCorruptionOption (CorruptionOption_IsValid (CorruptionOption v)),
      (if HashSignaturePath v \<noteq> []
       then first_err
         [map_option InvalidHashSignaturePath (validatePath (HashSignaturePath v)),
          guard (sigPath \<noteq> HashSignaturePath v) (HashSignaturePathNotClean (HashSignaturePath v) sigPath),
          guard (\<not> HasPrefix sigPath ''/boot/'') (HashSignaturePathNotUnderBoot sigPath)]
       else None)])"

definition InlineVerity :: "Verity \<Rightarrow> bool" where
  "InlineVerity v \<longleftrightarrow> DataDeviceId v \<noteq> [] \<and> DataDeviceId v = HashDeviceId v"

section \<open>Properties\<close>

text \<open>The subvolume paths accepted are exactly the relative paths whose components are joined by
  single slashes, none of them empty, \<open>.\<close> or \<open>..\<close>.\<close>

theorem validateSubvolumePath_iff:
  "validateSubvolumePath p = None \<longleftrightarrow>
     (\<exists>parts. parts \<noteq> [] \<and> p = join ''/'' parts
        \<and> list_all (\<lambda>w. CHR ''/'' \<notin> set w \<and> w \<noteq> [] \<and> w \<noteq> ''.'' \<and> w \<noteq> ''..'') parts)"
proof
  assume "validateSubvolumePath p = None"
  then have "\<forall>w \<in> set (Split p CHR ''/''). w \<noteq> [] \<and> w \<noteq> ''.'' \<and> w \<noteq> ''..''"
    by (auto simp: validateSubvolumePath_def)
  then show "\<exists>parts. parts \<noteq> [] \<and> p = join ''/'' parts
      \<and> list_all (\<lambda>w. CHR ''/'' \<notin> set w \<and> w \<noteq> [] \<and> w \<noteq> ''.'' \<and> w \<noteq> ''..'') parts"
    using join_Split [of "CHR ''/''" p] Split_mem_no_sep [of _ p "CHR ''/''"]
    by (intro exI [of _ "Split p CHR ''/''"]) (auto simp: list_all_iff)
next
  assume "\<exists>parts. parts \<noteq> [] \<and> p = join ''/'' parts
      \<and> list_all (\<lambda>w. CHR ''/'' \<notin> set w \<and> w \<noteq> [] \<and> w \<noteq> ''.'' \<and> w \<noteq> ''..'') parts"
  then obtain parts where parts: "parts \<noteq> []" "p = join ''/'' parts"
    and ok: "\<And>w. w \<in> set parts \<Longrightarrow> CHR ''/'' \<notin> set w \<and> w \<noteq> [] \<and> w \<noteq> ''.'' \<and> w \<noteq> ''..''"
    by (auto simp: list_all_iff)
  have split: "Split p CHR ''/'' = parts"
    using Split_join [of parts "CHR ''/''"] parts ok by blast
  have "p \<noteq> []" using split ok by (cases p) auto
  moreover have "\<not> HasPrefix p ''/''"
  proof
    assume "HasPrefix p ''/''"
    then obtain q where "p = CHR ''/'' # q" by (auto simp: prefix_def)
    then have "[] \<in> set (Split p CHR ''/'')" by simp
    with split ok show False by blast
  qed
  moreover have "\<not> HasSuffix p ''/''"
  proof
    assume "HasSuffix p ''/''"
    then obtain q where "p = q @ ''/''" by (auto simp: suffix_def)
    then have "[] \<in> set (Split p CHR ''/'')" by (simp add: Split_trailing)
    with split ok show False by blast
  qed
  ultimately show "validateSubvolumePath p = None"
    using split ok by (auto simp: validateSubvolumePath_def)
qed

lemma validateSubvolumes_None:
  "validateSubvolumes i seen ss = None \<longleftrightarrow>
     (\<forall>s \<in> set ss. BtrfsSubvolume_IsValid s = None \<and> svPath s \<notin> seen) \<and> distinct (map svPath ss)"
  by (induction ss arbitrary: i seen) (auto split: option.splits intro: rev_image_eqI)

definition mounted_at :: "BtrfsSubvolume \<Rightarrow> string \<Rightarrow> bool" where
  "mounted_at s d \<longleftrightarrow> (\<exists>m. svMountPoint s = Some m \<and> d = path_Clean (mpPath m))"

lemma subvolLoop_None:
  assumes "i = j \<Longrightarrow> a = b" "subvolLoop (i, a) (j, b) = None"
    and "mounted_at a da" "mounted_at b db" "HasPrefix (svPath b) (svPath a @ ''/'')"
  shows "\<not> HasPrefix da (db @ ''/'')"
proof -
  have "a \<noteq> b" using assms(5) by (auto dest: prefix_length_le)
  then have "i \<noteq> j" using assms(1) by blast
  with assms(2-) show ?thesis
    by (auto simp: subvolLoop_def mounted_at_def Let_def)
qed

lemma validateNoSubvolumeMountPointLoops_None:
  assumes "validateNoSubvolumeMountPointLoops ss = None" "a \<in> set ss" "b \<in> set ss"
    and "mounted_at a da" "mounted_at b db" "HasPrefix (svPath b) (svPath a @ ''/'')"
  shows "\<not> HasPrefix da (db @ ''/'')"
proof -
  obtain i j where i: "i < length ss" "ss ! i = a" and j: "j < length ss" "ss ! j = b"
    using assms(2,3) by (meson in_set_conv_nth)
  have "(i, a) \<in> set (enumerate 0 ss)" "(j, b) \<in> set (enumerate 0 ss)"
    using i j by (auto simp: in_set_enumerate_eq)
  then have "subvolLoop (i, a) (j, b) = None"
    using assms(1) by (simp add: validateNoSubvolumeMountPointLoops_def)
  then show ?thesis using i j assms(4-6) by (intro subvolLoop_None [of i j a b]) auto
qed

text \<open>In a valid btrfs configuration no two subvolumes share a path, every path is relative
  and clean, mount options name no subvolume, and the mount points of nested subvolumes are
  never inverted, whatever the order in which the subvolumes are listed.\<close>

theorem BtrfsConfig_valid_subvolumes:
  assumes "BtrfsConfig_IsValid c = None"
  shows "distinct (map svPath (Subvolumes c))
     \<and> (\<forall>s \<in> set (Subvolumes c). BtrfsSubvolume_IsValid s = None)
     \<and> (\<forall>a \<in> set (Subvolumes c). \<forall>b \<in> set (Subvolumes c). \<forall>da db.
          mounted_at a da \<and> mounted_at b db \<and> HasPrefix (svPath b) (svPath a @ ''/'')
            \<longrightarrow> \<not> HasPrefix da (db @ ''/''))"
proof -
  have "validateSubvolumes 0 {} (Subvolumes c) = None"
    "validateNoSubvolumeMountPointLoops (Subvolumes c) = None"
    using assms by (simp_all add: BtrfsConfig_IsValid_def)
  then show ?thesis
    using validateNoSubvolumeMountPointLoops_None by (simp add: validateSubvolumes_None)
qed

definition example_btrfs :: BtrfsConfig where
  "example_btrfs = \<lparr>Subvolumes =
     [\<lparr>svPath = ''a'', svMountPoint = Some \<lparr>mpIdType = [], mpOptions = ''ro'', mpPath = ''/x''\<rparr>, svQuota = None\<rparr>,
      \<lparr>svPath = ''a/b'', svMountPoint = Some \<lparr>mpIdType = [], mpOptions = [], mpPath = ''/x/y''\<rparr>, svQuota = None\<rparr>]\<rparr>"

theorem BtrfsConfig_valid_subvolumes_witness:
  "distinct (map svPath (Subvolumes example_btrfs))
   \<and> \<not> HasPrefix (path_Clean ''/x'') (path_Clean ''/x/y'' @ ''/'')"
proof -
  have v: "BtrfsConfig_IsValid example_btrfs = None" by code_simp
  show ?thesis
    using BtrfsConfig_valid_subvolumes [OF v]
    by (simp add: example_btrfs_def mounted_at_def)
qed

text \<open>A valid overlay has an upper and a work directory that are different strings, and neither
  lies below the other. The two may still be the same directory: a trailing slash on one of them
  is enough, for every upper directory without one.\<close>

theorem Overlay_valid_dirs:
  "(Overlay_IsValid ov = None \<longrightarrow>
      UpperDir ov \<noteq> WorkDir ov
      \<and> (TrimSuffix (UpperDir ov) ''/'' = TrimSuffix (WorkDir ov) ''/''
         \<or> \<not> HasPrefix (WorkDir ov) (TrimSuffix (UpperDir ov) ''/'' @ ''/'')
           \<and> \<not> HasPrefix (UpperDir ov) (TrimSuffix (WorkDir ov) ''/'' @ ''/'')))
   \<and> (Overlay_IsValid ov = None \<and> \<not> HasSuffix (UpperDir ov) ''/''
        \<longrightarrow> Overlay_IsValid (ov\<lparr>WorkDir := UpperDir ov @ ''/''\<rparr>) = None)"
proof -
  have pre: "HasPrefix (TrimSuffix d ''/'' @ ''/'') x" if "HasPrefix d x" for d x :: string
  proof (cases "HasSuffix d ''/''")
    case True
    then obtain q where "d = q @ ''/''" by (auto simp: suffix_def)
    with that show ?thesis by (simp add: TrimSuffix_def suffix_def)
  next
    case False
    with that show ?thesis by (simp add: TrimSuffix_def prefix_append)
  qed
  have trim: "TrimSuffix (d @ ''/'') ''/'' = d" for d :: string
    by (simp add: TrimSuffix_def suffix_def)
  have vp: "validatePath (d @ ''/'') = None" if "validatePath d = None" for d :: string
    using that by (auto simp: validatePath_def path_IsAbs_def ContainsAny_def)
  have eq: "TrimSuffix d ''/'' = d" if "\<not> HasSuffix d ''/''" for d
    using that by (simp add: TrimSuffix_def)
  have "UpperDir ov \<noteq> WorkDir ov
      \<and> (TrimSuffix (UpperDir ov) ''/'' = TrimSuffix (WorkDir ov) ''/''
         \<or> \<not> HasPrefix (WorkDir ov) (TrimSuffix (UpperDir ov) ''/'' @ ''/'')
           \<and> \<not> HasPrefix (UpperDir ov) (TrimSuffix (WorkDir ov) ''/'' @ ''/''))"
    if v: "Overlay_IsValid ov = None"
    using v pre [where d = "WorkDir ov" and x = "TrimSuffix (UpperDir ov) ''/'' @ ''/''"]
      pre [where d = "UpperDir ov" and x = "TrimSuffix (WorkDir ov) ''/'' @ ''/''"]
    by (auto simp: Overlay_IsValid_def isSubDirString_def Let_def)
  moreover have "Overlay_IsValid (ov\<lparr>WorkDir := UpperDir ov @ ''/''\<rparr>) = None"
    if "Overlay_IsValid ov = None" "\<not> HasSuffix (UpperDir ov) ''/''"
    using that vp [of "UpperDir ov"]
    by (simp add: Overlay_IsValid_def isSubDirString_def Let_def trim eq)
  ultimately show ?thesis by blast
qed

definition example_overlay :: Overlay where
  "example_overlay = \<lparr>LowerDirs = [''/etc''], UpperDir = ''/var/up'', WorkDir = ''/var/work'',
     ovMountPoint = ''/etc'', IsInitrdOverlay = False, MountDependencies = [''/var''], ovMountOptions = []\<rparr>"

theorem Overlay_valid_dirs_witness:
  "Overlay_IsValid example_overlay = None
   \<and> Overlay_IsValid (example_overlay\<lparr>WorkDir := ''/var/up/''\<rparr>) = None"
proof -
  have "Overlay_IsValid example_overlay = None" "\<not> HasSuffix (UpperDir example_overlay) ''/''"
    by code_simp+
  then show ?thesis using Overlay_valid_dirs [of example_overlay]
    by (simp add: example_overlay_def)
qed

end
