(* ===== verification/Storage.thy ===== *)
theory Storage
  imports FileSystems
begin

text \<open>
  \<open>imagecustomizerapi/storage.go\<close>: \<open>Storage.IsValid\<close>, which checks the disks, file systems and
  verity devices together and fills in what later stages read: the partition behind each file
  system, the size of an inline-verity file system and the mount of each verity device.

  The map \<open>deviceMap\<close> holds pointers to partitions and verity devices that are only read; here it
  holds their values. The map \<open>deviceParents\<close> holds pointers to file systems, which are updated,
  and to verity devices; here it holds their indexes. \<open>Storage_IsValid\<close> is \<open>None\<close> if the
  inline-verity size computation does not return.
\<close>

datatype VerityPartitionsType =
    VerityPartitionsInvalid | VerityPartitionsNone | VerityPartitionsUsesConfig
  | VerityPartitionsUsesExisting

record Storage =
  sResetPartitionsUuidsType :: string
  sBootType :: BootType
  Disks :: "Disk list"
  FileSystems :: "FileSystem list"
  sVerity :: "Verity list"
  ReinitializeVerity :: string
  sVerityPartitionsType :: VerityPartitionsType

datatype Device = DevPartition Partition | DevVerity Verity

datatype Parent = ParentFileSystem nat | ParentVerity nat

type_synonym device_map = "string \<rightharpoonup> Device"
type_synonym parent_map = "string \<rightharpoonup> Parent"

datatype device_error =
    DeviceNotFound string | DeviceInUse string | DeviceNotPartition string

datatype verity_item_error = InvalidDataDeviceId device_error | InvalidHashDeviceId device_error

datatype filesystem_item_error =
    InvalidDeviceId device_error | DuplicateMountPath string
  | DuplicateSubvolMountPath string string | PartLabelWithoutLabel string
  | SubvolPartLabelWithoutLabel string string | LabelNotUnique string
  | VerityMountIdType string | VeritySubvolMountIdType string string

datatype storage_error =
    InvalidResetUuids enum_error | InvalidBootType enum_error | MultipleDisks
  | InvalidDisk nat disk_error | InvalidVerity nat verity_error | VerityConfigAndExisting
  | InvalidFileSystem nat filesystem_error | InvalidReinitializeVerity enum_error
  | ResetUuidsWithDisks | DisksWithoutBootType | BootTypeWithoutDisks | FileSystemsWithoutDisks
  | VerityConfigWithoutDisks | VerityExistingWithDisks
  | DuplicatePartitionId nat nat string | DuplicateVerityId nat string
  | InvalidVerityItem nat verity_item_error | InvalidFileSystemItem nat filesystem_item_error
  | EspFileSystemType string | EspMountPath string | BiosFileSystemType string | BiosMountPoint string
  | EspMissing | BiosMissing | InlineVeritySize string inline_error | VerityDataNotPartition
  | MultipleVerityMounts string
  | VerityMountPath string | VerityMountName string | VerityMountNotReadOnly string

section \<open>The device maps\<close>

fun addPartitions ::
  "nat \<Rightarrow> nat \<Rightarrow> device_map \<Rightarrow> (string \<Rightarrow> nat) \<Rightarrow> Partition list
     \<Rightarrow> storage_error + (device_map \<times> (string \<Rightarrow> nat))" where
  "addPartitions i j deviceMap counts [] = Inr (deviceMap, counts)"
| "addPartitions i j deviceMap counts (p # ps) =
     (if deviceMap (partId p) \<noteq> None then Inl (DuplicatePartitionId i j (partId p))
      else addPartitions i (Suc j) (deviceMap(partId p \<mapsto> DevPartition p))
             (counts(partLabel p := counts (partLabel p) + 1)) ps)"

fun addDisks ::
  "nat \<Rightarrow> device_map \<Rightarrow> (string \<Rightarrow> nat) \<Rightarrow> Disk list
     \<Rightarrow> storage_error + (device_map \<times> (string \<Rightarrow> nat))" where
  "addDisks i deviceMap counts [] = Inr (deviceMap, counts)"
| "addDisks i deviceMap counts (d # ds) =
     (case addPartitions i 0 deviceMap counts (Partitions d) of
        Inl e \<Rightarrow> Inl e
      | Inr (deviceMap', counts') \<Rightarrow> addDisks (Suc i) deviceMap' counts' ds)"

fun addVerities :: "nat \<Rightarrow> device_map \<Rightarrow> Verity list \<Rightarrow> storage_error + device_map" where
  "addVerities i deviceMap [] = Inr deviceMap"
| "addVerities i deviceMap (v # vs) =
     (if deviceMap (verityId v) \<noteq> None then Inl (DuplicateVerityId i (verityId v))
      else addVerities (Suc i) (deviceMap(verityId v \<mapsto> DevVerity v)) vs)"

definition buildDeviceMap :: "Storage \<Rightarrow> storage_error + (device_map \<times> (string \<Rightarrow> nat))" where
  "buildDeviceMap s =
     (case addDisks 0 Map.empty (\<lambda>_. 0) (Disks s) of
        Inl e \<Rightarrow> Inl e
      | Inr (deviceMap, counts) \<Rightarrow>
          (case addVerities 0 deviceMap (sVerity s) of
             Inl e \<Rightarrow> Inl e
           | Inr deviceMap' \<Rightarrow> Inr (deviceMap', counts)))"

definition addParentToDevice ::
  "string \<Rightarrow> device_map \<Rightarrow> parent_map \<Rightarrow> Parent \<Rightarrow> device_error + (Device \<times> parent_map)" where
  "addParentToDevice deviceId deviceMap deviceParents parent =
     (case deviceMap deviceId of
        None \<Rightarrow> Inl (DeviceNotFound deviceId)
      | Some device \<Rightarrow>
          if deviceParents deviceId \<noteq> None then Inl (DeviceInUse deviceId)
          else Inr (device, deviceParents(deviceId \<mapsto> parent)))"

definition addVerityParentToDevice ::
  "string \<Rightarrow> device_map \<Rightarrow> parent_map \<Rightarrow> nat \<Rightarrow> device_error + parent_map" where
  "addVerityParentToDevice deviceId deviceMap deviceParents i =
     (case addParentToDevice deviceId deviceMap deviceParents (ParentVerity i) of
        Inl e \<Rightarrow> Inl e
      | Inr (device, deviceParents') \<Rightarrow>
          (case device of
             DevPartition _ \<Rightarrow> Inr deviceParents'
           | DevVerity _ \<Rightarrow> Inl (DeviceNotPartition deviceId)))"

definition checkDeviceTreeVerityItem ::
  "nat \<Rightarrow> Verity \<Rightarrow> device_map \<Rightarrow> parent_map \<Rightarrow> verity_item_error + parent_map" where
  "checkDeviceTreeVerityItem i v deviceMap deviceParents =
     (case (if DataDeviceId v \<noteq> []
            then addVerityParentToDevice (DataDeviceId v) deviceMap deviceParents i
            else Inr deviceParents) of
        Inl e \<Rightarrow> Inl (InvalidDataDeviceId e)
      | Inr deviceParents1 \<Rightarrow>
          if HashDeviceId v \<noteq> [] \<and> \<not> InlineVerity v
          then (case addVerityParentToDevice (HashDeviceId v) deviceMap deviceParents1 i of
                  Inl e \<Rightarrow> Inl (InvalidHashDeviceId e)
                | Inr deviceParents2 \<Rightarrow> Inr deviceParents2)
          else Inr deviceParents1)"

definition fs_subvolumes :: "FileSystem \<Rightarrow> BtrfsSubvolume list" where
  "fs_subvolumes f = (case fsBtrfs f of None \<Rightarrow> [] | Some b \<Rightarrow> Subvolumes b)"

fun addSubvolumeMountPaths ::
  "string set \<Rightarrow> BtrfsSubvolume list \<Rightarrow> filesystem_item_error + string set" where
  "addSubvolumeMountPaths mountPaths [] = Inr mountPaths"
| "addSubvolumeMountPaths mountPaths (s # ss) =
     (case svMountPoint s of
        None \<Rightarrow> addSubvolumeMountPaths mountPaths ss
      | Some m \<Rightarrow>
          if mpPath m \<in> mountPaths then Inl (DuplicateSubvolMountPath (mpPath m) (svPath s))
          else addSubvolumeMountPaths (insert (mpPath m) mountPaths) ss)"

definition addMountPaths :: "string set \<Rightarrow> FileSystem \<Rightarrow> filesystem_item_error + string set" where
  "addMountPaths mountPaths f =
     (case (case fsMountPoint f of
              None \<Rightarrow> Inr mountPaths
            | Some m \<Rightarrow>
                if mpPath m \<in> mountPaths then Inl (DuplicateMountPath (mpPath m))
                else Inr (insert (mpPath m) mountPaths)) of
        Inl e \<Rightarrow> Inl e
      | Inr mountPaths' \<Rightarrow> addSubvolumeMountPaths mountPaths' (fs_subvolumes f))"

definition has_id_type :: "MountIdentifierType \<Rightarrow> MountPoint option \<Rightarrow> bool" where
  "has_id_type t m = (case m of None \<Rightarrow> False | Some mp \<Rightarrow> mpIdType mp = t)"

text \<open>The checks on the labels of a partition that a file system is on.\<close>

definition checkLabels :: "FileSystem \<Rightarrow> Partition \<Rightarrow> (string \<Rightarrow> nat) \<Rightarrow> filesystem_item_error option" where
  "checkLabels f device counts =
     (let byLabel = has_id_type MountIdentifierTypePartLabel;
          checkDeviceLabelCount = byLabel (fsMountPoint f) \<or> list_ex (\<lambda>s. byLabel (svMountPoint s)) (fs_subvolumes f)
      in first_err
        [guard (byLabel (fsMountPoint f) \<and> partLabel device = []) (PartLabelWithoutLabel (partId device)),
         validate_items (\<lambda>_ e. e)
           (\<lambda>s. guard (byLabel (svMountPoint s) \<and> partLabel device = [])
                  (SubvolPartLabelWithoutLabel (svPath s) (partId device)))
           (fs_subvolumes f),
         guard (checkDeviceLabelCount \<and> counts (partLabel device) > 1) (LabelNotUnique (partLabel device))])"

definition checkVerityIdTypes :: "FileSystem \<Rightarrow> filesystem_item_error option" where
  "checkVerityIdTypes f =
     (let explicit = (\<lambda>m. m \<noteq> None \<and> \<not> has_id_type MountIdentifierTypeDefault m) in
      first_err
        [guard (explicit (fsMountPoint f)) (VerityMountIdType (DeviceId f)),
         validate_items (\<lambda>_ e. e)
           (\<lambda>s. guard (explicit (svMountPoint s)) (VeritySubvolMountIdType (svPath s) (DeviceId f)))
           (fs_subvolumes f)])"

definition checkDeviceTreeFileSystemItem ::
  "nat \<Rightarrow> FileSystem \<Rightarrow> device_map \<Rightarrow> parent_map \<Rightarrow> (string \<Rightarrow> nat) \<Rightarrow> string set
     \<Rightarrow> filesystem_item_error + (FileSystem \<times> parent_map \<times> string set)" where
  "checkDeviceTreeFileSystemItem i f deviceMap deviceParents counts mountPaths =
     (case addParentToDevice (DeviceId f) deviceMap deviceParents (ParentFileSystem i) of
        Inl e \<Rightarrow> Inl (InvalidDeviceId e)
      | Inr (device, deviceParents') \<Rightarrow>
          (case addMountPaths mountPaths f of
             Inl e \<Rightarrow> Inl e
           | Inr mountPaths' \<Rightarrow>
               (case device of
                  DevPartition p \<Rightarrow>
                    (case checkLabels f p counts of
                       Some e \<Rightarrow> Inl e
                     | None \<Rightarrow> Inr (f\<lparr>PartitionId := DeviceId f\<rparr>, deviceParents', mountPaths'))
                | DevVerity v \<Rightarrow>
                    (case checkVerityIdTypes f of
                       Some e \<Rightarrow> Inl e
                     | None \<Rightarrow> Inr (f\<lparr>PartitionId := DataDeviceId v\<rparr>, deviceParents', mountPaths')))))"

fun checkVerityItems ::
  "nat \<Rightarrow> device_map \<Rightarrow> parent_map \<Rightarrow> Verity list \<Rightarrow> storage_error + parent_map" where
  "checkVerityItems i deviceMap deviceParents [] = Inr deviceParents"
| "checkVerityItems i deviceMap deviceParents (v # vs) =
     (case checkDeviceTreeVerityItem i v deviceMap deviceParents of
        Inl e \<Rightarrow> Inl (InvalidVerityItem i e)
      | Inr deviceParents' \<Rightarrow> checkVerityItems (Suc i) deviceMap deviceParents' vs)"

fun checkFileSystemItems ::
  "nat \<Rightarrow> device_map \<Rightarrow> (string \<Rightarrow> nat) \<Rightarrow> parent_map \<Rightarrow> string set \<Rightarrow> FileSystem list
     \<Rightarrow> storage_error + (FileSystem list \<times> parent_map)" where
  "checkFileSystemItems i deviceMap counts deviceParents mountPaths [] = Inr ([], deviceParents)"
| "checkFileSystemItems i deviceMap counts deviceParents mountPaths (f # fs) =
     (case checkDeviceTreeFileSystemItem i f deviceMap deviceParents counts mountPaths of
        Inl e \<Rightarrow> Inl (InvalidFileSystemItem i e)
      | Inr (f', deviceParents', mountPaths') \<Rightarrow>
          (case checkFileSystemItems (Suc i) deviceMap counts deviceParents' mountPaths' fs of
             Inl e \<Rightarrow> Inl e
           | Inr (fs', deviceParents'') \<Rightarrow> Inr (f' # fs', deviceParents'')))"

definition checkDeviceTree ::
  "Storage \<Rightarrow> device_map \<Rightarrow> (string \<Rightarrow> nat) \<Rightarrow> storage_error + (FileSystem list \<times> parent_map)" where
  "checkDeviceTree s deviceMap counts =
     (case checkVerityItems 0 deviceMap Map.empty (sVerity s) of
        Inl e \<Rightarrow> Inl e
      | Inr deviceParents \<Rightarrow> checkFileSystemItems 0 deviceMap counts deviceParents {} (FileSystems s))"

section \<open>Special partitions and boot type\<close>

text \<open>The file system that a type assertion on \<open>deviceParents[id]\<close> gives.\<close>

definition parentFileSystem :: "FileSystem list \<Rightarrow> parent_map \<Rightarrow> string \<Rightarrow> FileSystem option" where
  "parentFileSystem fss deviceParents dev =
     (case deviceParents dev of
        Some (ParentFileSystem k) \<Rightarrow> if k < length fss then Some (fss ! k) else None
      | _ \<Rightarrow> None)"

text \<open>The default case of the switch on a partition's type only writes log messages.\<close>

definition checkSpecialPartition ::
  "FileSystem list \<Rightarrow> parent_map \<Rightarrow> Partition \<Rightarrow> storage_error option" where
  "checkSpecialPartition fss deviceParents p =
     (let fileSystem = parentFileSystem fss deviceParents (partId p) in
      if partType p = PartitionTypeESP then
        first_err
          [guard (case fileSystem of
                    None \<Rightarrow> True
                  | Some f \<Rightarrow> fsType f \<noteq> FileSystemTypeFat32 \<and> fsType f \<noteq> FileSystemTypeVfat)
             (EspFileSystemType (partId p)),
           guard (case fileSystem of
                    None \<Rightarrow> True
                  | Some f \<Rightarrow> (case fsMountPoint f of None \<Rightarrow> True | Some m \<Rightarrow> mpPath m \<noteq> ''/boot/efi''))
             (EspMountPath (partId p))]
      else if partType p = PartitionTypeBiosGrub then
        (case fileSystem of
           None \<Rightarrow> None
         | Some f \<Rightarrow> first_err
             [guard (fsType f \<noteq> FileSystemTypeNone) (BiosFileSystemType (partId p)),
              guard (fsMountPoint f \<noteq> None) (BiosMountPoint (partId p))])
      else None)"

definition storage_partitions :: "Storage \<Rightarrow> Partition list" where
  "storage_partitions s = concat (map Partitions (Disks s))"

definition checkBootType :: "Storage \<Rightarrow> storage_error option" where
  "checkBootType s =
     (let has = (\<lambda>t. list_ex (\<lambda>p. partType p = t) (storage_partitions s)) in
      if sBootType s = BootTypeEfi then guard (\<not> has PartitionTypeESP) EspMissing
      else if sBootType s = BootTypeLegacy then guard (\<not> has PartitionTypeBiosGrub) BiosMissing
      else None)"

section \<open>Verity mounts\<close>

definition verityMountMap :: "string \<rightharpoonup> string" where
  "verityMountMap = map_of [(''/'', ''root''), (''/usr'', ''usr'')]"

definition validateVerityMount :: "Verity \<Rightarrow> storage_error option" where
  "validateVerityMount v =
     (case verityMount v of
        None \<Rightarrow> Some (VerityMountPath (verityId v))
      | Some mount \<Rightarrow> first_err
          [guard (MountPath mount \<noteq> ''/'' \<and> MountPath mount \<noteq> ''/usr'') (VerityMountPath (verityId v)),
           guard (verityMountMap (MountPath mount) \<noteq> Some (verityName v)) (VerityMountName (verityId v)),
           guard (\<not> ContainsValue (Split (vmMountOptions mount) CHR '','') ''ro'')
             (VerityMountNotReadOnly (verityId v))])"

definition ValidateVerityMounts :: "Verity list \<Rightarrow> storage_error option" where
  "ValidateVerityMounts = validate_items (\<lambda>_ e. e) validateVerityMount"

definition verityDeviceMounts :: "uint64 \<Rightarrow> FileSystem \<Rightarrow> VerityMount list" where
  "verityDeviceMounts dataSize f =
     (case fsMountPoint f of
        None \<Rightarrow> []
      | Some m \<Rightarrow> [\<lparr>MountPath = mpPath m, vmMountOptions = mpOptions m, SubvolumePath = [], DataSize = dataSize\<rparr>])
     @ List.map_filter
         (\<lambda>s. map_option (\<lambda>m. \<lparr>MountPath = mpPath m, vmMountOptions = mpOptions m,
                               SubvolumePath = svPath s, DataSize = dataSize\<rparr>) (svMountPoint s))
         (fs_subvolumes f)"

text \<open>The size of the data section, \<open>None\<close> when the computation does not return.\<close>

definition verityDataSize :: "device_map \<Rightarrow> Verity \<Rightarrow> FileSystem \<Rightarrow> (storage_error + uint64) option" where
  "verityDataSize deviceMap v f =
     (if InlineVerity v
      then (case deviceMap (DataDeviceId v) of
              Some (DevPartition p) \<Rightarrow>
                map_option (map_sum (InlineVeritySize (DeviceId f)) id)
                  (calculateInlineVerityDataSize (psSize (partSize p)))
            | _ \<Rightarrow> Some (Inl VerityDataNotPartition))
      else Some (Inr 0))"

definition setVerityMount :: "Verity \<Rightarrow> VerityMount list \<Rightarrow> storage_error + Verity" where
  "setVerityMount v mounts =
     (case mounts of
        [] \<Rightarrow> Inr v
      | [m] \<Rightarrow> Inr (v\<lparr>verityMount := Some m\<rparr>)
      | _ \<Rightarrow> Inl (MultipleVerityMounts (verityId v)))"

definition fillVerityMount ::
  "device_map \<Rightarrow> parent_map \<Rightarrow> FileSystem list \<Rightarrow> Verity
     \<Rightarrow> (storage_error + (FileSystem list \<times> Verity)) option" where
  "fillVerityMount deviceMap deviceParents fss v =
     (case deviceParents (verityId v) of
        Some (ParentFileSystem k) \<Rightarrow>
          (case verityDataSize deviceMap v (fss ! k) of
             None \<Rightarrow> None
           | Some (Inl e) \<Rightarrow> Some (Inl e)
           | Some (Inr dataSize) \<Rightarrow>
               let fss' = (if InlineVerity v then fss[k := (fss ! k)\<lparr>fsSize := dataSize\<rparr>] else fss) in
               (case setVerityMount v (verityDeviceMounts dataSize (fss ! k)) of
                  Inl e \<Rightarrow> Some (Inl e)
                | Inr v' \<Rightarrow> Some (Inr (fss', v'))))
      | _ \<Rightarrow> Some (Inr (fss, v)))"

fun fillVerityMounts ::
  "device_map \<Rightarrow> parent_map \<Rightarrow> FileSystem list \<Rightarrow> Verity list
     \<Rightarrow> (storage_error + (FileSystem list \<times> Verity list)) option" where
  "fillVerityMounts deviceMap deviceParents fss [] = Some (Inr (fss, []))"
| "fillVerityMounts deviceMap deviceParents fss (v # vs) =
     (case fillVerityMount deviceMap deviceParents fss v of
        None \<Rightarrow> None
      | Some (Inl e) \<Rightarrow> Some (Inl e)
      | Some (Inr (fss', v')) \<Rightarrow>
          (case fillVerityMounts deviceMap deviceParents fss' vs of
             None \<Rightarrow> None
           | Some (Inl e) \<Rightarrow> Some (Inl e)
           | Some (Inr (fss'', vs')) \<Rightarrow> Some (Inr (fss'', v' # vs'))))"

section \<open>Storage.IsValid\<close>

fun validateDisks :: "nat \<Rightarrow> Disk list \<Rightarrow> storage_error + Disk list" where
  "validateDisks i [] = Inr []"
| "validateDisks i (d # ds) =
     (case Disk_IsValid d of
        Inl e \<Rightarrow> Inl (InvalidDisk i e)
      | Inr d' \<Rightarrow> (case validateDisks (Suc i) ds of Inl e \<Rightarrow> Inl e | Inr ds' \<Rightarrow> Inr (d' # ds')))"

definition getVerityPartitionsType :: "Verity list \<Rightarrow> storage_error + VerityPartitionsType" where
  "getVerityPartitionsType vs =
     (let usesConfig = list_ex (\<lambda>v. DataDeviceId v \<noteq> [] \<or> HashDeviceId v \<noteq> []) vs;
          usesExisting = list_ex (\<lambda>v. DataDevice v \<noteq> None \<or> HashDevice v \<noteq> None) vs
      in if usesConfig \<and> usesExisting then Inl VerityConfigAndExisting
         else if usesConfig then Inr VerityPartitionsUsesConfig
         else if usesExisting then Inr VerityPartitionsUsesExisting
         else Inr VerityPartitionsNone)"

text \<open>The checks on each part alone, up to the verity devices, with the disks filled in and the
  kind of verity partitions recorded.\<close>

definition checkParts :: "Storage \<Rightarrow> storage_error + Storage" where
  "checkParts s =
     (case first_err
             [map_option InvalidResetUuids (ResetPartitionsUuidsType_IsValid (sResetPartitionsUuidsType s)),
              map_option InvalidBootType (BootType_IsValid (sBootType s)),
              guard (length (Disks s) > 1) MultipleDisks] of
        Some e \<Rightarrow> Inl e
      | None \<Rightarrow>
          (case validateDisks 0 (Disks s) of
             Inl e \<Rightarrow> Inl e
           | Inr ds \<Rightarrow>
               (case validate_items InvalidVerity Verity_IsValid (sVerity s) of
                  Some e \<Rightarrow> Inl e
                | None \<Rightarrow>
                    (case getVerityPartitionsType (sVerity s) of
                       Inl e \<Rightarrow> Inl e
                     | Inr t \<Rightarrow> Inr (s\<lparr>Disks := ds, sVerityPartitionsType := t\<rparr>)))))"

definition checkCombination :: "Storage \<Rightarrow> storage_error option" where
  "checkCombination s =
     (let hasResetUuids = sResetPartitionsUuidsType s \<noteq> ResetPartitionsUuidsTypeDefault;
          hasBootType = sBootType s \<noteq> BootTypeNone;
          hasDisks = length (Disks s) > 0;
          hasFileSystems = length (FileSystems s) > 0
      in first_err
        [validate_items InvalidFileSystem FileSystem_IsValid (FileSystems s),
         map_option InvalidReinitializeVerity (ReinitializeVerityType_IsValid (ReinitializeVerity s)),
         guard (hasResetUuids \<and> hasDisks) ResetUuidsWithDisks,
         guard (\<not> hasBootType \<and> hasDisks) DisksWithoutBootType,
         guard (hasBootType \<and> \<not> hasDisks) BootTypeWithoutDisks,
         guard (hasFileSystems \<and> \<not> hasDisks) FileSystemsWithoutDisks,
         guard (sVerityPartitionsType s = VerityPartitionsUsesConfig \<and> \<not> hasDisks) VerityConfigWithoutDisks,
         guard (sVerityPartitionsType s = VerityPartitionsUsesExisting \<and> hasDisks) VerityExistingWithDisks])"

definition checkVerityMounts :: "Storage \<Rightarrow> device_map \<Rightarrow> parent_map \<Rightarrow> (storage_error + Storage) option" where
  "checkVerityMounts s deviceMap deviceParents =
     (if sVerityPartitionsType s = VerityPartitionsUsesConfig
      then (case fillVerityMounts deviceMap deviceParents (FileSystems s) (sVerity s) of
              None \<Rightarrow> None
            | Some (Inl e) \<Rightarrow> Some (Inl e)
            | Some (Inr (fss, vs)) \<Rightarrow>
                (case ValidateVerityMounts vs of
                   Some e \<Rightarrow> Some (Inl e)
                 | None \<Rightarrow> Some (Inr (s\<lparr>FileSystems := fss, sVerity := vs\<rparr>))))
      else Some (Inr s))"

definition Storage_IsValid :: "Storage \<Rightarrow> (storage_error + Storage) option" where
  "Storage_IsValid s0 =
     (case checkParts s0 of
        Inl e \<Rightarrow> Some (Inl e)
      | Inr s1 \<Rightarrow>
          (case checkCombination s1 of
             Some e \<Rightarrow> Some (Inl e)
           | None \<Rightarrow>
               (case buildDeviceMap s1 of
                  Inl e \<Rightarrow> Some (Inl e)
                | Inr (deviceMap, counts) \<Rightarrow>
                    (case checkDeviceTree s1 deviceMap counts of
                       Inl e \<Rightarrow> Some (Inl e)
                     | Inr (fss, deviceParents) \<Rightarrow>
                         let s2 = s1\<lparr>FileSystems := fss\<rparr> in
                         (case first_err
                                 [validate_items (\<lambda>_ e. e) (checkSpecialPartition fss deviceParents)
                                    (storage_partitions s2),
                                  checkBootType s2] of
                            Some e \<Rightarrow> Some (Inl e)
                          | None \<Rightarrow> checkVerityMounts s2 deviceMap deviceParents)))))"

definition CustomizePartitions :: "Storage \<Rightarrow> bool" where
  "CustomizePartitions s \<longleftrightarrow> length (Disks s) > 0"

section \<open>The device map\<close>

lemma addPartitions_aux:
  assumes "addPartitions i j dm c ps = Inr (dm', c')"
  shows "distinct (map partId ps) \<and> (\<forall>p \<in> set ps. partId p \<notin> dom dm)
    \<and> dom dm' = dom dm \<union> partId ` set ps \<and> (\<forall>p \<in> set ps. dm' (partId p) = Some (DevPartition p))
    \<and> dm \<subseteq>\<^sub>m dm'"
  using assms
proof (induction ps arbitrary: j dm c)
  case (Cons p ps)
  have new: "dm (partId p) = None"
    and rest: "addPartitions i (Suc j) (dm(partId p \<mapsto> DevPartition p)) (c(partLabel p := c (partLabel p) + 1)) ps
      = Inr (dm', c')"
    using Cons.prems by (auto split: if_splits)
  note IH = Cons.IH [OF rest]
  have "dm \<subseteq>\<^sub>m dm' \<and> dm' (partId p) = Some (DevPartition p)"
    using IH new by (intro map_le_fresh) blast+
  moreover have "\<forall>q \<in> set ps. partId q \<notin> dom dm \<and> partId q \<noteq> partId p"
    using IH by auto
  ultimately show ?case using new IH by auto
qed auto

lemma addDisks_aux:
  assumes "addDisks i dm c ds = Inr (dm', c')"
  shows "distinct (map partId (concat (map Partitions ds)))
    \<and> (\<forall>p \<in> set (concat (map Partitions ds)). partId p \<notin> dom dm)
    \<and> dom dm' = dom dm \<union> partId ` set (concat (map Partitions ds))
    \<and> (\<forall>p \<in> set (concat (map Partitions ds)). dm' (partId p) = Some (DevPartition p))
    \<and> dm \<subseteq>\<^sub>m dm'"
  using assms
proof (induction ds arbitrary: i dm c)
  case (Cons d ds)
  obtain dm1 c1 where a: "addPartitions i 0 dm c (Partitions d) = Inr (dm1, c1)"
    and b: "addDisks (Suc i) dm1 c1 ds = Inr (dm', c')"
    using Cons.prems by (auto split: sum.splits)
  note A = addPartitions_aux [OF a] and B = Cons.IH [OF b]
  have keep: "\<forall>p \<in> set (Partitions d). dm' (partId p) = Some (DevPartition p)"
  proof
    fix p assume "p \<in> set (Partitions d)"
    then have "dm1 (partId p) = Some (DevPartition p)" using A by blast
    then show "dm' (partId p) = Some (DevPartition p)" using B map_le_Some by metis
  qed
  have disj: "\<forall>q \<in> set (concat (map Partitions ds)). partId q \<notin> dom dm \<and> partId q \<notin> partId ` set (Partitions d)"
    using A B by blast
  have le: "dm \<subseteq>\<^sub>m dm'" by (rule map_le_trans [of _ dm1]) (use A B in blast)+
  have dist: "distinct (map partId (concat (map Partitions (d # ds))))"
  proof -
    have "partId ` set (Partitions d) \<inter> partId ` set (concat (map Partitions ds)) = {}"
    proof (rule equals0I)
      fix k assume k: "k \<in> partId ` set (Partitions d) \<inter> partId ` set (concat (map Partitions ds))"
      then obtain q where q: "q \<in> set (concat (map Partitions ds))" "k = partId q" by (elim IntE imageE)
      have "k \<notin> partId ` set (Partitions d)"
        using bspec [OF disj q(1)] unfolding q(2) by (rule conjunct2)
      with k show False by (elim IntE notE)
    qed
    moreover have "distinct (map partId (Partitions d))" "distinct (map partId (concat (map Partitions ds)))"
      using A B by blast+
    ultimately have "distinct (map partId (Partitions d) @ map partId (concat (map Partitions ds)))"
      by (simp only: distinct_append set_map)
    then show ?thesis by simp
  qed
  have dom: "dom dm' = dom dm \<union> partId ` set (concat (map Partitions (d # ds)))"
    using A B by auto
  have "\<forall>p \<in> set (concat (map Partitions (d # ds))). dm' (partId p) = Some (DevPartition p)"
    using keep B by auto
  moreover have "\<forall>p \<in> set (concat (map Partitions (d # ds))). partId p \<notin> dom dm"
    using disj A by auto
  ultimately show ?case using dist dom le by blast
qed auto

lemma addVerities_aux:
  assumes "addVerities i dm vs = Inr dm'"
  shows "distinct (map verityId vs) \<and> (\<forall>v \<in> set vs. verityId v \<notin> dom dm)
    \<and> dom dm' = dom dm \<union> verityId ` set vs \<and> (\<forall>v \<in> set vs. dm' (verityId v) = Some (DevVerity v))
    \<and> dm \<subseteq>\<^sub>m dm'"
  using assms
proof (induction vs arbitrary: i dm)
  case (Cons v vs)
  have new: "dm (verityId v) = None"
    and rest: "addVerities (Suc i) (dm(verityId v \<mapsto> DevVerity v)) vs = Inr dm'"
    using Cons.prems by (auto split: if_splits)
  note IH = Cons.IH [OF rest]
  have "dm \<subseteq>\<^sub>m dm' \<and> dm' (verityId v) = Some (DevVerity v)"
    using IH new by (intro map_le_fresh) blast+
  moreover have "\<forall>q \<in> set vs. verityId q \<notin> dom dm \<and> verityId q \<noteq> verityId v"
    using IH by auto
  ultimately show ?case using new IH by auto
qed auto

text \<open>The identifiers that file systems and verity devices may refer to.\<close>

definition device_ids :: "Storage \<Rightarrow> string list" where
  "device_ids s = map partId (storage_partitions s) @ map verityId (sVerity s)"

lemma buildDeviceMap_Inr:
  assumes "buildDeviceMap s = Inr (dm, c)"
  shows "distinct (device_ids s)" "dom dm = set (device_ids s)"
    "\<And>p. p \<in> set (storage_partitions s) \<Longrightarrow> dm (partId p) = Some (DevPartition p)"
    "\<And>v. v \<in> set (sVerity s) \<Longrightarrow> dm (verityId v) = Some (DevVerity v)"
proof -
  obtain dm1 where a: "addDisks 0 Map.empty (\<lambda>_. 0) (Disks s) = Inr (dm1, c)"
    and b: "addVerities 0 dm1 (sVerity s) = Inr dm"
    using assms by (auto simp: buildDeviceMap_def split: sum.splits)
  note A = addDisks_aux [OF a, folded storage_partitions_def] and B = addVerities_aux [OF b]
  have "partId p \<noteq> verityId v" if "p \<in> set (storage_partitions s)" "v \<in> set (sVerity s)" for p v
    using A B that by (metis UnCI imageI)
  then show "distinct (device_ids s)"
    using A B by (auto simp: device_ids_def)
  show "dom dm = set (device_ids s)"
    using A B by (auto simp: device_ids_def)
  show "\<And>v. v \<in> set (sVerity s) \<Longrightarrow> dm (verityId v) = Some (DevVerity v)" using B by blast
  show "dm (partId p) = Some (DevPartition p)" if "p \<in> set (storage_partitions s)" for p
    using A B that map_le_Some by metis
qed

lemma device_map_partition:
  assumes "buildDeviceMap s = Inr (dm, c)" "dm k = Some (DevPartition p)"
  shows "p \<in> set (storage_partitions s) \<and> partId p = k"
proof -
  note B = buildDeviceMap_Inr [OF assms(1)]
  have "k \<in> set (device_ids s)" using assms(2) B(2) by blast
  then show ?thesis using assms(2) B(3,4) by (auto simp: device_ids_def)
qed

lemma device_map_verity:
  assumes "buildDeviceMap s = Inr (dm, c)" "dm k = Some (DevVerity v)"
  shows "v \<in> set (sVerity s) \<and> verityId v = k"
proof -
  note B = buildDeviceMap_Inr [OF assms(1)]
  have "k \<in> set (device_ids s)" using assms(2) B(2) by blast
  then show ?thesis using assms(2) B(3,4) by (auto simp: device_ids_def)
qed

section \<open>The device tree\<close>

definition verity_uses :: "Verity \<Rightarrow> string list" where
  "verity_uses v = (if DataDeviceId v \<noteq> [] then [DataDeviceId v] else [])
     @ (if HashDeviceId v \<noteq> [] \<and> \<not> InlineVerity v then [HashDeviceId v] else [])"

lemma addParentToDevice_Inr:
  "addParentToDevice k dm dp parent = Inr (dev, dp') \<longleftrightarrow>
     dm k = Some dev \<and> dp k = None \<and> dp' = dp(k \<mapsto> parent)"
  by (auto simp: addParentToDevice_def split: option.splits)

lemma addVerityParentToDevice_Inr:
  "addVerityParentToDevice k dm dp i = Inr dp' \<longleftrightarrow>
     (\<exists>p. dm k = Some (DevPartition p)) \<and> dp k = None \<and> dp' = dp(k \<mapsto> ParentVerity i)"
  by (auto simp: addVerityParentToDevice_def addParentToDevice_def
      split: option.splits sum.splits Device.splits)

text \<open>One step of the verity loop: the devices it uses were free, are partitions, and are taken.\<close>

lemma checkDeviceTreeVerityItem_Inr:
  assumes "checkDeviceTreeVerityItem i v dm dp = Inr dp'"
  shows "distinct (verity_uses v)" "set (verity_uses v) \<inter> dom dp = {}"
    "dom dp' = dom dp \<union> set (verity_uses v)"
    "\<And>k. k \<in> set (verity_uses v) \<Longrightarrow> (\<exists>p. dm k = Some (DevPartition p)) \<and> dp' k = Some (ParentVerity i)"
    "dp \<subseteq>\<^sub>m dp'"
  using assms
  by (auto simp: checkDeviceTreeVerityItem_def verity_uses_def addVerityParentToDevice_Inr map_le_def dom_def
      split: sum.splits if_splits)

lemma checkVerityItems_Inr:
  assumes "checkVerityItems i dm dp vs = Inr dp'"
  shows "distinct (concat (map verity_uses vs)) \<and> set (concat (map verity_uses vs)) \<inter> dom dp = {}
    \<and> dom dp' = dom dp \<union> set (concat (map verity_uses vs))
    \<and> (\<forall>k \<in> set (concat (map verity_uses vs)).
          (\<exists>p. dm k = Some (DevPartition p)) \<and> (\<exists>j. dp' k = Some (ParentVerity j)))
    \<and> dp \<subseteq>\<^sub>m dp'"
  using assms
proof (induction vs arbitrary: i dp)
  case (Cons v vs)
  obtain dp1 where a: "checkDeviceTreeVerityItem i v dm dp = Inr dp1"
    and b: "checkVerityItems (Suc i) dm dp1 vs = Inr dp'"
    using Cons.prems by (auto split: sum.splits)
  note A = checkDeviceTreeVerityItem_Inr [OF a]
  note B = Cons.IH [OF b]
  have "dp' k = Some (ParentVerity i)" if "k \<in> set (verity_uses v)" for k
    using A(4) [OF that] B by (blast intro: map_le_Some)
  moreover have "dp \<subseteq>\<^sub>m dp'" by (rule map_le_trans [OF A(5)]) (use B in blast)
  moreover have "set (verity_uses v) \<inter> set (concat (map verity_uses vs)) = {}"
    using A(3) B by auto
  moreover have "set (concat (map verity_uses vs)) \<inter> dom dp = {}"
    using A(3) B by auto
  ultimately show ?case using A(1-4) B by (auto simp: Int_Un_distrib2)
qed simp

definition mount_paths :: "FileSystem \<Rightarrow> string list" where
  "mount_paths f = (case fsMountPoint f of None \<Rightarrow> [] | Some m \<Rightarrow> [mpPath m])
     @ List.map_filter (\<lambda>s. map_option mpPath (svMountPoint s)) (fs_subvolumes f)"

lemma addSubvolumeMountPaths_Inr:
  assumes "addSubvolumeMountPaths mp ss = Inr mp'"
  shows "distinct (List.map_filter (\<lambda>s. map_option mpPath (svMountPoint s)) ss)
    \<and> set (List.map_filter (\<lambda>s. map_option mpPath (svMountPoint s)) ss) \<inter> mp = {}
    \<and> mp' = mp \<union> set (List.map_filter (\<lambda>s. map_option mpPath (svMountPoint s)) ss)"
  using assms
proof (induction ss arbitrary: mp)
  case (Cons s ss)
  show ?case
  proof (cases "svMountPoint s")
    case None
    with Cons show ?thesis by (simp add: map_filter_simps)
  next
    case (Some m)
    with Cons.prems have "mpPath m \<notin> mp" "addSubvolumeMountPaths (insert (mpPath m) mp) ss = Inr mp'"
      by (simp_all split: if_splits)
    with Cons.IH [OF this(2)] Some show ?thesis by (auto simp: map_filter_simps)
  qed
qed (simp add: map_filter_simps)

lemma addMountPaths_Inr:
  assumes "addMountPaths mp f = Inr mp'"
  shows "distinct (mount_paths f) \<and> set (mount_paths f) \<inter> mp = {} \<and> mp' = mp \<union> set (mount_paths f)"
proof (cases "fsMountPoint f")
  case None
  with assms show ?thesis
    using addSubvolumeMountPaths_Inr by (simp add: addMountPaths_def mount_paths_def)
next
  case (Some m)
  with assms have "mpPath m \<notin> mp" "addSubvolumeMountPaths (insert (mpPath m) mp) (fs_subvolumes f) = Inr mp'"
    by (simp_all add: addMountPaths_def split: if_splits)
  with addSubvolumeMountPaths_Inr [OF this(2)] Some show ?thesis
    by (auto simp: mount_paths_def)
qed

text \<open>The partition recorded behind a file system.\<close>

definition backing :: "device_map \<Rightarrow> string \<Rightarrow> string" where
  "backing dm k = (case dm k of Some (DevVerity v) \<Rightarrow> DataDeviceId v | _ \<Rightarrow> k)"

lemma checkDeviceTreeFileSystemItem_Inr:
  assumes "checkDeviceTreeFileSystemItem i f dm dp c mp = Inr (f', dp', mp')"
  shows "dm (DeviceId f) \<noteq> None \<and> DeviceId f \<notin> dom dp \<and> dp' = dp(DeviceId f \<mapsto> ParentFileSystem i)
    \<and> distinct (mount_paths f) \<and> set (mount_paths f) \<inter> mp = {} \<and> mp' = mp \<union> set (mount_paths f)
    \<and> f' = f\<lparr>PartitionId := backing dm (DeviceId f)\<rparr>"
proof -
  obtain dev where dev: "addParentToDevice (DeviceId f) dm dp (ParentFileSystem i) = Inr (dev, dp')"
    using assms by (auto simp: checkDeviceTreeFileSystemItem_def
        split: sum.splits option.splits Device.splits)
  have mp: "addMountPaths mp f = Inr mp'"
    using assms dev by (auto simp: checkDeviceTreeFileSystemItem_def
        split: sum.splits option.splits Device.splits)
  have "f' = f\<lparr>PartitionId := (case dev of DevPartition _ \<Rightarrow> DeviceId f | DevVerity v \<Rightarrow> DataDeviceId v)\<rparr>"
    using assms dev mp by (cases dev) (auto simp: checkDeviceTreeFileSystemItem_def split: option.splits)
  then show ?thesis
    using dev addMountPaths_Inr [OF mp]
    by (auto simp: addParentToDevice_Inr backing_def split: Device.splits)
qed

lemma checkFileSystemItems_Inr:
  assumes "checkFileSystemItems i dm c dp mp fs = Inr (fs', dp')"
  shows "distinct (map DeviceId fs) \<and> DeviceId ` set fs \<inter> dom dp = {} \<and> DeviceId ` set fs \<subseteq> dom dm
    \<and> distinct (concat (map mount_paths fs)) \<and> set (concat (map mount_paths fs)) \<inter> mp = {}
    \<and> fs' = map (\<lambda>f. f\<lparr>PartitionId := backing dm (DeviceId f)\<rparr>) fs
    \<and> dp \<subseteq>\<^sub>m dp' \<and> dom dp' = dom dp \<union> DeviceId ` set fs
    \<and> (\<forall>k < length fs. dp' (DeviceId (fs ! k)) = Some (ParentFileSystem (i + k)))"
  using assms
proof (induction fs arbitrary: i dp mp fs')
  case (Cons f fs)
  obtain f1 dp1 mp1 fs1 where a: "checkDeviceTreeFileSystemItem i f dm dp c mp = Inr (f1, dp1, mp1)"
    and b: "checkFileSystemItems (Suc i) dm c dp1 mp1 fs = Inr (fs1, dp')" and fs': "fs' = f1 # fs1"
    using Cons.prems by (auto split: sum.splits)
  note A = checkDeviceTreeFileSystemItem_Inr [OF a]
  note B = Cons.IH [OF b]
  have sub1: "dp \<subseteq>\<^sub>m dp1" using A by (auto simp: map_le_def)
  have "dp1 (DeviceId f) = Some (ParentFileSystem i)" using A by simp
  then have "dp' (DeviceId f) = Some (ParentFileSystem i)"
    using B by (blast intro: map_le_Some)
  then have nth: "\<forall>k < length (f # fs). dp' (DeviceId ((f # fs) ! k)) = Some (ParentFileSystem (i + k))"
    using B by (auto simp: nth_Cons split: nat.splits)
  have sub: "dp \<subseteq>\<^sub>m dp'" by (rule map_le_trans [OF sub1]) (use B in blast)
  have ids: "DeviceId f \<notin> DeviceId ` set fs" "DeviceId ` set fs \<inter> dom dp = {}" using A B by auto
  have paths: "set (mount_paths f) \<inter> set (concat (map mount_paths fs)) = {}"
    "set (concat (map mount_paths fs)) \<inter> mp = {}" using A B by auto
  have d: "dom dp' = dom dp \<union> DeviceId ` set (f # fs)" using A B by auto
  have "DeviceId f \<in> dom dm" using A by auto
  then show ?case using A B fs' nth sub ids paths d by auto
qed simp

lemma checkDeviceTree_Inr:
  assumes "checkDeviceTree s dm c = Inr (fs', dp')"
  shows "distinct (concat (map verity_uses (sVerity s)) @ map DeviceId (FileSystems s))
    \<and> (\<forall>k \<in> set (concat (map verity_uses (sVerity s))).
          (\<exists>p. dm k = Some (DevPartition p)) \<and> (\<exists>j. dp' k = Some (ParentVerity j)))
    \<and> DeviceId ` set (FileSystems s) \<subseteq> dom dm
    \<and> distinct (concat (map mount_paths (FileSystems s)))
    \<and> fs' = map (\<lambda>f. f\<lparr>PartitionId := backing dm (DeviceId f)\<rparr>) (FileSystems s)
    \<and> dom dp' = set (concat (map verity_uses (sVerity s))) \<union> DeviceId ` set (FileSystems s)
    \<and> (\<forall>k < length (FileSystems s). dp' (DeviceId (FileSystems s ! k)) = Some (ParentFileSystem k))"
proof -
  obtain dp where a: "checkVerityItems 0 dm Map.empty (sVerity s) = Inr dp"
    and b: "checkFileSystemItems 0 dm c dp {} (FileSystems s) = Inr (fs', dp')"
    using assms by (auto simp: checkDeviceTree_def split: sum.splits)
  note A = checkVerityItems_Inr [OF a] and B = checkFileSystemItems_Inr [OF b]
  have up: "dp' k = Some x" if "dp k = Some x" for k x
    using B map_le_Some that by metis
  have "\<forall>k \<in> set (concat (map verity_uses (sVerity s))).
          (\<exists>p. dm k = Some (DevPartition p)) \<and> (\<exists>j. dp' k = Some (ParentVerity j))"
    using A up by blast
  moreover have "set (concat (map verity_uses (sVerity s))) \<inter> DeviceId ` set (FileSystems s) = {}"
    using A B by (simp only: dom_empty Un_empty_left) blast
  ultimately show ?thesis using A B by simp
qed

section \<open>The final pass over the verity devices\<close>

definition fs_sized :: "FileSystem \<Rightarrow> FileSystem \<Rightarrow> bool" where
  "fs_sized f f' \<longleftrightarrow> f' = f\<lparr>fsSize := fsSize f'\<rparr>"

definition verity_mounted :: "Verity \<Rightarrow> Verity \<Rightarrow> bool" where
  "verity_mounted v v' \<longleftrightarrow> v' = v\<lparr>verityMount := verityMount v'\<rparr>"

lemma fs_sized_refl [simp]: "fs_sized f f" by (simp add: fs_sized_def)

lemma verity_mounted_refl [simp]: "verity_mounted v v" by (simp add: verity_mounted_def)

lemma fs_sized_keeps:
  assumes "fs_sized f f'"
  shows "DeviceId f' = DeviceId f" "PartitionId f' = PartitionId f" "mount_paths f' = mount_paths f"
    "fsMountPoint f' = fsMountPoint f" "fsType f' = fsType f" "fs_subvolumes f' = fs_subvolumes f"
proof -
  obtain z where "f' = f\<lparr>fsSize := z\<rparr>" using assms unfolding fs_sized_def by blast
  then show "DeviceId f' = DeviceId f" "PartitionId f' = PartitionId f" "mount_paths f' = mount_paths f"
    "fsMountPoint f' = fsMountPoint f" "fsType f' = fsType f" "fs_subvolumes f' = fs_subvolumes f"
    by (simp_all add: mount_paths_def fs_subvolumes_def)
qed

lemma verity_mounted_keeps:
  assumes "verity_mounted v v'"
  shows "verityId v' = verityId v" "verity_uses v' = verity_uses v" "DataDeviceId v' = DataDeviceId v"
    "verityName v' = verityName v" "HashDeviceId v' = HashDeviceId v" "DataDevice v' = DataDevice v"
    "HashDevice v' = HashDevice v" "Verity_IsValid v' = Verity_IsValid v" "InlineVerity v' = InlineVerity v"
proof -
  obtain z where "v' = v\<lparr>verityMount := z\<rparr>" using assms unfolding verity_mounted_def by blast
  then show "verityId v' = verityId v" "verity_uses v' = verity_uses v" "DataDeviceId v' = DataDeviceId v"
    "verityName v' = verityName v" "HashDeviceId v' = HashDeviceId v" "DataDevice v' = DataDevice v"
    "HashDevice v' = HashDevice v" "Verity_IsValid v' = Verity_IsValid v" "InlineVerity v' = InlineVerity v"
    by (simp_all add: verity_uses_def InlineVerity_def Verity_IsValid_def Let_def cong: if_cong)
qed

lemma setVerityMount_Inr:
  "setVerityMount v mounts = Inr v' \<Longrightarrow> verity_mounted v v'"
  by (auto simp: setVerityMount_def verity_mounted_def split: list.splits)

lemma fillVerityMount_Inr:
  assumes "fillVerityMount dm dp fss v = Some (Inr (fss', v'))"
  shows "list_all2 fs_sized fss fss' \<and> verity_mounted v v'"
proof (cases "dp (verityId v)")
  case None
  with assms show ?thesis by (auto simp: fillVerityMount_def list_all2_refl)
next
  case (Some par)
  show ?thesis
  proof (cases par)
    case (ParentVerity j)
    with assms Some show ?thesis by (auto simp: fillVerityMount_def list_all2_refl)
  next
    case (ParentFileSystem k)
    then obtain z where z: "verityDataSize dm v (fss ! k) = Some (Inr z)"
      using assms Some by (auto simp: fillVerityMount_def split: option.splits sum.splits)
    have v: "setVerityMount v (verityDeviceMounts z (fss ! k)) = Inr v'"
      and f: "fss' = (if InlineVerity v then fss[k := (fss ! k)\<lparr>fsSize := z\<rparr>] else fss)"
      using assms Some ParentFileSystem z
      by (auto simp: fillVerityMount_def Let_def split: sum.splits)
    have "list_all2 fs_sized fss fss'"
      unfolding f
      by (cases "k < length fss") (auto simp: list_all2_conv_all_nth nth_list_update fs_sized_def list_update_beyond)
    with setVerityMount_Inr [OF v] show ?thesis by blast
  qed
qed

lemma fs_sized_trans: "fs_sized a b \<Longrightarrow> fs_sized b c \<Longrightarrow> fs_sized a c"
  by (metis (mono_tags, lifting) FileSystem.unfold_congs(6) fs_sized_def FileSystem.surjective FileSystem.update_convs(6))

lemma fillVerityMounts_Inr:
  assumes "fillVerityMounts dm dp fss vs = Some (Inr (fss', vs'))"
  shows "list_all2 fs_sized fss fss' \<and> list_all2 verity_mounted vs vs'"
  using assms
proof (induction vs arbitrary: fss vs')
  case (Cons v vs)
  obtain fss1 v1 where a: "fillVerityMount dm dp fss v = Some (Inr (fss1, v1))"
    using Cons.prems by (auto split: option.splits sum.splits)
  obtain vs1 where b: "fillVerityMounts dm dp fss1 vs = Some (Inr (fss', vs1))" and vs': "vs' = v1 # vs1"
    using Cons.prems a by (auto split: option.splits sum.splits)
  have "list_all2 fs_sized fss1 fss'" "list_all2 verity_mounted vs vs1"
    using Cons.IH [OF b] by blast+
  then show ?case
    using fillVerityMount_Inr [OF a] vs' list_all2_trans [OF fs_sized_trans] by auto
qed (simp add: list_all2_refl)

section \<open>What Storage.IsValid promises\<close>

lemma Storage_IsValid_stages:
  assumes "Storage_IsValid s0 = Some (Inr s')"
  shows "\<exists>s1 dm c fss dp. checkParts s0 = Inr s1 \<and> checkCombination s1 = None
     \<and> buildDeviceMap s1 = Inr (dm, c) \<and> checkDeviceTree s1 dm c = Inr (fss, dp)
     \<and> (\<forall>p \<in> set (storage_partitions s1). checkSpecialPartition fss dp p = None)
     \<and> checkBootType s1 = None
     \<and> checkVerityMounts (s1\<lparr>FileSystems := fss\<rparr>) dm dp = Some (Inr s')"
proof -
  obtain s1 where s1: "checkParts s0 = Inr s1"
    using assms by (auto simp: Storage_IsValid_def split: sum.splits)
  moreover have cc: "checkCombination s1 = None"
    using assms s1 by (auto simp: Storage_IsValid_def split: option.splits)
  moreover obtain dm c where bm: "buildDeviceMap s1 = Inr (dm, c)"
    using assms s1 cc by (auto simp: Storage_IsValid_def split: sum.splits)
  moreover obtain fss dp where dt: "checkDeviceTree s1 dm c = Inr (fss, dp)"
    using assms s1 cc bm by (auto simp: Storage_IsValid_def split: sum.splits)
  moreover have sp: "storage_partitions (s1\<lparr>FileSystems := fss\<rparr>) = storage_partitions s1"
    "checkBootType (s1\<lparr>FileSystems := fss\<rparr>) = checkBootType s1"
    by (simp_all add: storage_partitions_def checkBootType_def)
  moreover have chk: "first_err
     [validate_items (\<lambda>_ e. e) (checkSpecialPartition fss dp) (storage_partitions s1), checkBootType s1] = None"
    (is "?c = None")
  proof (rule ccontr)
    assume "?c \<noteq> None"
    then obtain e where "?c = Some e" by blast
    then show False using assms s1 cc bm dt sp unfolding Storage_IsValid_def by (simp add: Let_def)
  qed
  moreover have "checkVerityMounts (s1\<lparr>FileSystems := fss\<rparr>) dm dp = Some (Inr s')"
    using assms s1 cc bm dt sp chk unfolding Storage_IsValid_def by (simp add: Let_def)
  ultimately show ?thesis by auto
qed

lemma checkVerityMounts_Inr:
  assumes "checkVerityMounts s dm dp = Some (Inr s')"
  shows "Disks s' = Disks s \<and> sBootType s' = sBootType s \<and> sVerityPartitionsType s' = sVerityPartitionsType s
     \<and> list_all2 fs_sized (FileSystems s) (FileSystems s') \<and> list_all2 verity_mounted (sVerity s) (sVerity s')
     \<and> (sVerityPartitionsType s = VerityPartitionsUsesConfig
          \<longrightarrow> fillVerityMounts dm dp (FileSystems s) (sVerity s) = Some (Inr (FileSystems s', sVerity s'))
            \<and> ValidateVerityMounts (sVerity s') = None)"
proof (cases "sVerityPartitionsType s = VerityPartitionsUsesConfig")
  case True
  then obtain fss vs where "fillVerityMounts dm dp (FileSystems s) (sVerity s) = Some (Inr (fss, vs))"
    "ValidateVerityMounts vs = None" "s' = s\<lparr>FileSystems := fss, sVerity := vs\<rparr>"
    using assms by (auto simp: checkVerityMounts_def split: option.splits sum.splits)
  with fillVerityMounts_Inr show ?thesis by auto
next
  case False
  with assms show ?thesis by (simp add: checkVerityMounts_def list_all2_refl)
qed

lemma list_all2_map_eq: "list_all2 R xs ys \<Longrightarrow> (\<And>x y. R x y \<Longrightarrow> g y = g x) \<Longrightarrow> map g ys = map g xs"
  by (induction rule: list_all2_induct) auto

lemma getVerityPartitionsType_mounted:
  assumes "list_all2 verity_mounted vs vs'"
  shows "getVerityPartitionsType vs' = getVerityPartitionsType vs"
proof -
  have "list_ex P vs' = list_ex P vs" if "\<And>v v'. verity_mounted v v' \<Longrightarrow> P v' = P v" for P
    using assms by (induction rule: list_all2_induct) (auto simp: that)
  then show ?thesis by (simp add: getVerityPartitionsType_def verity_mounted_keeps)
qed

lemma checkParts_Inr:
  assumes "checkParts s0 = Inr s1"
  shows "(\<forall>v \<in> set (sVerity s1). Verity_IsValid v = None) \<and> sBootType s1 = sBootType s0
    \<and> getVerityPartitionsType (sVerity s1) = Inr (sVerityPartitionsType s1)
    \<and> validateDisks 0 (Disks s0) = Inr (Disks s1) \<and> length (Disks s0) \<le> 1"
  using assms
  by (auto simp: checkParts_def split: option.splits sum.splits)

text \<open>Everything the later stages of the validation rest on, in one place.\<close>

lemma Storage_valid_structure:
  assumes "Storage_IsValid s0 = Some (Inr s')"
  shows "distinct (device_ids s')"
    and "distinct (concat (map verity_uses (sVerity s')) @ map DeviceId (FileSystems s'))"
    and "set (concat (map verity_uses (sVerity s'))) \<subseteq> partId ` set (storage_partitions s')"
    and "DeviceId ` set (FileSystems s') \<subseteq> set (device_ids s')"
    and "distinct (concat (map mount_paths (FileSystems s')))"
    and "\<forall>f \<in> set (FileSystems s'). (PartitionId f = DeviceId f \<and> DeviceId f \<in> partId ` set (storage_partitions s'))
        \<or> (\<exists>v \<in> set (sVerity s'). verityId v = DeviceId f \<and> DataDeviceId v = PartitionId f)"
    and "FileSystems s' \<noteq> [] \<longrightarrow> sVerityPartitionsType s' \<noteq> VerityPartitionsUsesExisting"
    and "\<forall>v \<in> set (sVerity s'). Verity_IsValid v = None"
    and "getVerityPartitionsType (sVerity s') = Inr (sVerityPartitionsType s')"
proof -
  obtain s1 dm c fss dp where p: "checkParts s0 = Inr s1" and cc: "checkCombination s1 = None"
    and bm: "buildDeviceMap s1 = Inr (dm, c)" and dt: "checkDeviceTree s1 dm c = Inr (fss, dp)"
    and vm: "checkVerityMounts (s1\<lparr>FileSystems := fss\<rparr>) dm dp = Some (Inr s')"
    using Storage_IsValid_stages [OF assms] by blast
  note V = checkVerityMounts_Inr [OF vm, simplified] and T = checkDeviceTree_Inr [OF dt]
    and M = buildDeviceMap_Inr [OF bm]
  have sp: "storage_partitions s' = storage_partitions s1" using V by (simp add: storage_partitions_def)
  have l2f: "list_all2 fs_sized fss (FileSystems s')" and l2v: "list_all2 verity_mounted (sVerity s1) (sVerity s')"
    using V by auto
  have vid: "map verityId (sVerity s') = map verityId (sVerity s1)"
    and vus: "map verity_uses (sVerity s') = map verity_uses (sVerity s1)"
    by (rule list_all2_map_eq [OF l2v]; simp add: verity_mounted_keeps)+
  have fmap: "fss = map (\<lambda>f. f\<lparr>PartitionId := backing dm (DeviceId f)\<rparr>) (FileSystems s1)" using T by blast
  have fid: "map DeviceId (FileSystems s') = map DeviceId (FileSystems s1)"
    using list_all2_map_eq [OF l2f, of DeviceId] fs_sized_keeps by (simp add: fmap comp_def)
  have fmp: "map mount_paths (FileSystems s') = map mount_paths (FileSystems s1)"
    using list_all2_map_eq [OF l2f, of mount_paths] fs_sized_keeps
    by (simp add: fmap comp_def mount_paths_def fs_subvolumes_def)
  have ids: "device_ids s' = device_ids s1" using sp vid by (simp add: device_ids_def)
  show "distinct (device_ids s')" using M ids by simp
  show "distinct (concat (map verity_uses (sVerity s')) @ map DeviceId (FileSystems s'))"
    using T vus fid by simp
  show "set (concat (map verity_uses (sVerity s'))) \<subseteq> partId ` set (storage_partitions s')"
  proof
    fix k assume "k \<in> set (concat (map verity_uses (sVerity s')))"
    then have "k \<in> set (concat (map verity_uses (sVerity s1)))" by (simp only: vus)
    then obtain q where "dm k = Some (DevPartition q)" using T by blast
    then show "k \<in> partId ` set (storage_partitions s')"
      using device_map_partition [OF bm] sp by auto
  qed
  show "DeviceId ` set (FileSystems s') \<subseteq> set (device_ids s')"
  proof -
    have "DeviceId ` set (FileSystems s') = DeviceId ` set (FileSystems s1)"
      using arg_cong [OF fid, of set] by simp
    then show ?thesis using T M(2) ids by simp
  qed
  show "distinct (concat (map mount_paths (FileSystems s')))" using T fmp by simp
  show "\<forall>f \<in> set (FileSystems s'). (PartitionId f = DeviceId f \<and> DeviceId f \<in> partId ` set (storage_partitions s'))
        \<or> (\<exists>v \<in> set (sVerity s'). verityId v = DeviceId f \<and> DataDeviceId v = PartitionId f)"
  proof
    fix f assume "f \<in> set (FileSystems s')"
    then obtain i where i: "i < length (FileSystems s')" "f = FileSystems s' ! i"
      by (metis in_set_conv_nth)
    have len: "length (FileSystems s1) = length (FileSystems s')"
      using arg_cong [OF fid, of length] by simp
    define g where "g = FileSystems s1 ! i"
    have "fs_sized (fss ! i) f"
      using list_all2_nthD2 [OF l2f i(1)] i(2) by simp
    moreover have "fss ! i = g\<lparr>PartitionId := backing dm (DeviceId g)\<rparr>"
      using i(1) len by (simp add: fmap g_def)
    ultimately have g: "g \<in> set (FileSystems s1)" "DeviceId f = DeviceId g" "PartitionId f = backing dm (DeviceId g)"
      using i(1) len fs_sized_keeps(1,2) [of "fss ! i" f] by (simp_all add: g_def)
    then obtain dev where dev: "dm (DeviceId g) = Some dev" using T by blast
    show "(PartitionId f = DeviceId f \<and> DeviceId f \<in> partId ` set (storage_partitions s'))
        \<or> (\<exists>v \<in> set (sVerity s'). verityId v = DeviceId f \<and> DataDeviceId v = PartitionId f)"
    proof (cases dev)
      case (DevPartition q)
      with device_map_partition [OF bm, of "DeviceId g" q] dev g sp show ?thesis
        by (auto simp: backing_def intro: rev_image_eqI)
    next
      case (DevVerity w)
      then have w: "w \<in> set (sVerity s1)" "verityId w = DeviceId g"
        using device_map_verity [OF bm] dev by auto
      then obtain i where i: "i < length (sVerity s1)" "sVerity s1 ! i = w" by (auto simp: in_set_conv_nth)
      then have "verity_mounted w (sVerity s' ! i)" "sVerity s' ! i \<in> set (sVerity s')"
        using l2v by (auto simp: list_all2_conv_all_nth)
      then have "verityId (sVerity s' ! i) = DeviceId f" "DataDeviceId (sVerity s' ! i) = PartitionId f"
        using w g dev DevVerity verity_mounted_keeps(1,3) [of w "sVerity s' ! i"] by (simp_all add: backing_def)
      then show ?thesis using \<open>sVerity s' ! i \<in> set (sVerity s')\<close> by blast
    qed
  qed
  have "FileSystems s' \<noteq> [] \<longrightarrow> FileSystems s1 \<noteq> []" using fid by auto
  then show "FileSystems s' \<noteq> [] \<longrightarrow> sVerityPartitionsType s' \<noteq> VerityPartitionsUsesExisting"
    using cc V by (auto simp: checkCombination_def Let_def)
  have valid: "map Verity_IsValid (sVerity s') = map Verity_IsValid (sVerity s1)"
    by (rule list_all2_map_eq [OF l2v]) (simp add: verity_mounted_keeps)
  show "\<forall>v \<in> set (sVerity s'). Verity_IsValid v = None"
    using checkParts_Inr [OF p] arg_cong [OF valid, of set] by (auto simp: image_def)
  show "getVerityPartitionsType (sVerity s') = Inr (sVerityPartitionsType s')"
    using checkParts_Inr [OF p] getVerityPartitionsType_mounted [OF l2v] V by simp
qed

lemma distinct_concat_disjoint:
  "distinct (concat (map u vs)) \<Longrightarrow> v \<in> set vs \<Longrightarrow> w \<in> set vs \<Longrightarrow> v \<noteq> w \<Longrightarrow> set (u v) \<inter> set (u w) = {}"
  by (induction vs) auto

text \<open>When there are file systems, every verity device's data is on a partition of the configuration.\<close>

lemma verity_data_in_uses:
  assumes "Storage_IsValid s0 = Some (Inr s')" "FileSystems s' \<noteq> []" "v \<in> set (sVerity s')"
  shows "DataDeviceId v \<in> set (verity_uses v)"
proof -
  note S = Storage_valid_structure [OF assms(1)]
  have "DataDevice v = None"
    using S(7,9) assms(2,3) by (auto simp: getVerityPartitionsType_def Let_def list_ex_iff split: if_splits)
  moreover have "Verity_IsValid v = None" using S(8) assms(3) by blast
  ultimately have "DataDeviceId v \<noteq> []" by (auto simp: Verity_IsValid_def Let_def)
  then show ?thesis by (simp add: verity_uses_def)
qed

lemma partition_ids_distinct:
  assumes "Storage_IsValid s0 = Some (Inr s')"
  shows "distinct (map PartitionId (FileSystems s'))"
  unfolding distinct_conv_nth
proof (intro allI impI)
  note S = Storage_valid_structure [OF assms]
  let ?fs = "FileSystems s'"
  fix i j assume "i < length (map PartitionId ?fs)" "j < length (map PartitionId ?fs)" "i \<noteq> j"
  then have ij: "i < length ?fs" "j < length ?fs" "i \<noteq> j" by auto
  define f g where "f = ?fs ! i" and "g = ?fs ! j"
  have fg: "f \<in> set ?fs" "g \<in> set ?fs" using ij by (simp_all add: f_def g_def)
  have ne: "DeviceId f \<noteq> DeviceId g"
  proof -
    have "distinct (map DeviceId ?fs)" using S(2) by simp
    from nth_eq_iff_index_eq [OF this, of i j] ij show ?thesis by (simp add: f_def g_def)
  qed
  have disj: "DeviceId x \<notin> set (concat (map verity_uses (sVerity s')))" if "x \<in> set ?fs" for x
    using S(2) that by (simp only: distinct_append set_map) blast
  have uses: "DataDeviceId v \<in> set (concat (map verity_uses (sVerity s')))" if "v \<in> set (sVerity s')" for v
    using verity_data_in_uses [OF assms _ that] fg(1) that by (cases ?fs) auto
  have dist: "distinct (concat (map verity_uses (sVerity s')))" using S(2) by simp
  have "PartitionId f \<noteq> PartitionId g"
  proof (cases "PartitionId f = DeviceId f")
    case pf: True
    show ?thesis
    proof (cases "PartitionId g = DeviceId g")
      case True
      with pf ne show ?thesis by simp
    next
      case False
      then obtain w where "w \<in> set (sVerity s')" "DataDeviceId w = PartitionId g" using S(6) fg by blast
      with uses disj [OF fg(1)] pf show ?thesis by metis
    qed
  next
    case False
    then obtain v where v: "v \<in> set (sVerity s')" "verityId v = DeviceId f" "DataDeviceId v = PartitionId f"
      using S(6) fg by blast
    show ?thesis
    proof (cases "PartitionId g = DeviceId g")
      case True
      with uses [OF v(1)] disj [OF fg(2)] v show ?thesis by metis
    next
      case False
      then obtain w where w: "w \<in> set (sVerity s')" "verityId w = DeviceId g" "DataDeviceId w = PartitionId g"
        using S(6) fg by blast
      then have "v \<noteq> w" using v ne by auto
      then have "set (verity_uses v) \<inter> set (verity_uses w) = {}"
        using distinct_concat_disjoint [OF dist v(1) w(1)] by blast
      moreover have "DataDeviceId v \<in> set (verity_uses v)" "DataDeviceId w \<in> set (verity_uses w)"
        using verity_data_in_uses [OF assms] v(1) w(1) fg(1) by (cases ?fs; auto)+
      ultimately show ?thesis using v w by auto
    qed
  qed
  then show "map PartitionId ?fs ! i \<noteq> map PartitionId ?fs ! j"
    using ij by (simp add: f_def g_def)
qed

section \<open>Properties\<close>

text \<open>C1. A storage configuration that is accepted is a tree: identifiers of partitions and verity
  devices are distinct, every device a verity device or a file system refers to exists, a verity
  device sits on partitions only, and no device is used twice, whether by verity devices, by file
  systems or by one of each. No two mount points, of file systems or of subvolumes, share a path.\<close>

theorem Storage_device_tree:
  assumes "Storage_IsValid s = Some (Inr s')"
  shows "distinct (device_ids s')
    \<and> distinct (concat (map verity_uses (sVerity s')) @ map DeviceId (FileSystems s'))
    \<and> set (concat (map verity_uses (sVerity s'))) \<subseteq> partId ` set (storage_partitions s')
    \<and> DeviceId ` set (FileSystems s') \<subseteq> set (device_ids s')
    \<and> distinct (concat (map mount_paths (FileSystems s')))"
  using Storage_valid_structure(1-5) [OF assms] by blast

definition example_partition :: "string \<Rightarrow> string \<Rightarrow> PartitionSize \<Rightarrow> Partition" where
  "example_partition i t sz = \<lparr>partId = i, partLabel = [], partStart = None, partEnd = None,
     partSize = sz, partType = t, filled = False\<rparr>"

definition example_storage :: Storage where
  "example_storage = \<lparr>sResetPartitionsUuidsType = [], sBootType = ''efi'',
     Disks = [\<lparr>PartitionTableType = ''gpt'', MaxSize = Some (4096 * 1048576),
       Partitions = [example_partition ''esp'' ''esp'' \<lparr>psType = PartitionSizeTypeExplicit, psSize = 8 * 1048576\<rparr>,
         example_partition ''hash'' [] \<lparr>psType = PartitionSizeTypeExplicit, psSize = 128 * 1048576\<rparr>,
         example_partition ''data'' ''root'' \<lparr>psType = PartitionSizeTypeGrow, psSize = 0\<rparr>]\<rparr>],
     FileSystems =
       [\<lparr>DeviceId = ''esp'', fsType = ''fat32'', fsMountPoint = Some \<lparr>mpIdType = [], mpOptions = [], mpPath = ''/boot/efi''\<rparr>,
         fsBtrfs = None, PartitionId = [], fsSize = 0\<rparr>,
        \<lparr>DeviceId = ''v'', fsType = ''ext4'', fsMountPoint = Some \<lparr>mpIdType = [], mpOptions = ''ro,noatime'', mpPath = ''/''\<rparr>,
         fsBtrfs = None, PartitionId = [], fsSize = 0\<rparr>],
     sVerity =
       [\<lparr>verityId = ''v'', verityName = ''root'', DataDeviceId = ''data'', DataDevice = None,
         DataDeviceMountIdType = [], HashDeviceId = ''hash'', HashDevice = None, HashDeviceMountIdType = [],
         CorruptionOption = [], HashSignaturePath = [], verityMount = None\<rparr>],
     ReinitializeVerity = [], sVerityPartitionsType = VerityPartitionsInvalid\<rparr>"

definition storage_result :: "(storage_error + Storage) option \<Rightarrow> Storage" where
  "storage_result r = (case r of Some (Inr s) \<Rightarrow> s | _ \<Rightarrow> example_storage)"

definition storage_ok :: "(storage_error + Storage) option \<Rightarrow> bool" where
  "storage_ok r = (case r of Some (Inr s) \<Rightarrow> True | _ \<Rightarrow> False)"

lemma storage_ok_result: "storage_ok r \<Longrightarrow> r = Some (Inr (storage_result r))"
  by (auto simp: storage_ok_def storage_result_def split: option.splits sum.splits)

lemma example_storage_ok: "storage_ok (Storage_IsValid example_storage)"
  by code_simp

theorem Storage_device_tree_witness:
  "distinct (device_ids (storage_result (Storage_IsValid example_storage)))"
  using Storage_device_tree [OF storage_ok_result [OF example_storage_ok]] by blast

text \<open>C2. In an accepted configuration the partition recorded behind each file system is a partition of
  the disks: the one the file system names, or the data partition of the verity device it names;
  and no partition is recorded behind two file systems.\<close>

theorem Storage_partition_ids:
  assumes "Storage_IsValid s = Some (Inr s')"
  shows "distinct (map PartitionId (FileSystems s'))
    \<and> (\<forall>f \<in> set (FileSystems s'). PartitionId f \<in> partId ` set (storage_partitions s')
        \<and> (PartitionId f = DeviceId f
           \<or> (\<exists>v \<in> set (sVerity s'). verityId v = DeviceId f \<and> DataDeviceId v = PartitionId f)))"
proof (intro conjI ballI)
  note S = Storage_valid_structure [OF assms]
  show "distinct (map PartitionId (FileSystems s'))" by (rule partition_ids_distinct [OF assms])
  fix f assume f: "f \<in> set (FileSystems s')"
  have one: "(PartitionId f = DeviceId f \<and> DeviceId f \<in> partId ` set (storage_partitions s'))
        \<or> (\<exists>v \<in> set (sVerity s'). verityId v = DeviceId f \<and> DataDeviceId v = PartitionId f)"
    using S(6) f by blast
  then show "PartitionId f = DeviceId f
      \<or> (\<exists>v \<in> set (sVerity s'). verityId v = DeviceId f \<and> DataDeviceId v = PartitionId f)" by blast
  have "DataDeviceId v \<in> partId ` set (storage_partitions s')" if "v \<in> set (sVerity s')" for v
  proof -
    have "FileSystems s' \<noteq> []" using f by auto
    then have "DataDeviceId v \<in> set (concat (map verity_uses (sVerity s')))"
      using verity_data_in_uses [OF assms _ that] that by auto
    then show ?thesis using S(3) by blast
  qed
  with one show "PartitionId f \<in> partId ` set (storage_partitions s')" by metis
qed

theorem Storage_partition_ids_witness:
  "distinct (map PartitionId (FileSystems (storage_result (Storage_IsValid example_storage))))"
  using Storage_partition_ids [OF storage_ok_result [OF example_storage_ok]] by blast

lemma parentFileSystem_final:
  assumes "Storage_IsValid s = Some (Inr s')" "parentFileSystem fss dp k = Some f"
    and "checkDeviceTree s1 dm c = Inr (fss, dp)" "list_all2 fs_sized fss (FileSystems s')"
    and "buildDeviceMap s1 = Inr (dm, c)"
  shows "\<exists>f' \<in> set (FileSystems s'). fs_sized f f' \<and> DeviceId f = k"
proof -
  obtain i where i: "dp k = Some (ParentFileSystem i)" "i < length fss" "f = fss ! i"
    using assms(2) by (auto simp: parentFileSystem_def split: option.splits Parent.splits if_splits)
  note T = checkDeviceTree_Inr [OF assms(3)]
  have "fs_sized f (FileSystems s' ! i)" using list_all2_nthD [OF assms(4) i(2)] i(3) by simp
  moreover have "FileSystems s' ! i \<in> set (FileSystems s')"
    using i(2) assms(4) by (simp add: list_all2_lengthD)
  moreover have "DeviceId f = k"
  proof -
    have "k \<in> dom dp" using i by blast
    then have "k \<in> DeviceId ` set (FileSystems s1)" using T i(1) by (metis (no_types, lifting) Parent.distinct(1) Un_iff option.inject)
    then obtain j where j: "j < length (FileSystems s1)" "DeviceId (FileSystems s1 ! j) = k"
      by (auto simp: in_set_conv_nth)
    with T i(1) have "j = i" by auto
    with j T i show ?thesis by simp
  qed
  ultimately show ?thesis by blast
qed

lemma Storage_boot_aux:
  assumes "Storage_IsValid s = Some (Inr s')" "p \<in> set (storage_partitions s')" "partType p = PartitionTypeESP"
  shows "\<exists>f \<in> set (FileSystems s'). DeviceId f = partId p \<and> fsType f \<in> {''fat32'', ''vfat''}
    \<and> (\<exists>m. fsMountPoint f = Some m \<and> mpPath m = ''/boot/efi'')"
proof -
  obtain s1 dm c fss dp where bm: "buildDeviceMap s1 = Inr (dm, c)" and dt: "checkDeviceTree s1 dm c = Inr (fss, dp)"
    and sp: "\<forall>p \<in> set (storage_partitions s1). checkSpecialPartition fss dp p = None"
    and vm: "checkVerityMounts (s1\<lparr>FileSystems := fss\<rparr>) dm dp = Some (Inr s')"
    using Storage_IsValid_stages [OF assms(1)] by blast
  note V = checkVerityMounts_Inr [OF vm, simplified]
  have "p \<in> set (storage_partitions s1)" using V assms(2) by (simp add: storage_partitions_def)
  with sp have chk: "checkSpecialPartition fss dp p = None" by blast
  obtain f where f0: "parentFileSystem fss dp (partId p) = Some f"
    using chk assms(3) by (cases "parentFileSystem fss dp (partId p)") (simp_all add: checkSpecialPartition_def)
  obtain m where m0: "fsMountPoint f = Some m"
    using chk assms(3) f0 by (cases "fsMountPoint f") (simp_all add: checkSpecialPartition_def)
  have f: "parentFileSystem fss dp (partId p) = Some f"
    "fsType f \<in> {''fat32'', ''vfat''}" "fsMountPoint f = Some m" "mpPath m = ''/boot/efi''"
    using chk assms(3) f0 m0 by (auto simp: checkSpecialPartition_def Let_def enum_defs)
  obtain f' where f': "f' \<in> set (FileSystems s')" "fs_sized f f'" "DeviceId f = partId p"
    using parentFileSystem_final [OF assms(1) f(1) dt _ bm] V by blast
  with f fs_sized_keeps [OF f'(2)] show ?thesis by (intro bexI [of _ f']) auto
qed

lemma bios_not_mounted:
  assumes "Storage_IsValid s = Some (Inr s')" "p \<in> set (storage_partitions s')"
    and "partType p = PartitionTypeBiosGrub" "f \<in> set (FileSystems s')" "DeviceId f = partId p"
  shows "fsType f = FileSystemTypeNone \<and> fsMountPoint f = None"
proof -
  obtain s1 dm c fss dp where bm: "buildDeviceMap s1 = Inr (dm, c)" and dt: "checkDeviceTree s1 dm c = Inr (fss, dp)"
    and sp: "\<forall>p \<in> set (storage_partitions s1). checkSpecialPartition fss dp p = None"
    and vm: "checkVerityMounts (s1\<lparr>FileSystems := fss\<rparr>) dm dp = Some (Inr s')"
    using Storage_IsValid_stages [OF assms(1)] by blast
  note V = checkVerityMounts_Inr [OF vm, simplified] and T = checkDeviceTree_Inr [OF dt]
  have fss: "fss = map (\<lambda>f. f\<lparr>PartitionId := backing dm (DeviceId f)\<rparr>) (FileSystems s1)" using T by blast
  obtain k where k: "k < length (FileSystems s')" "f = FileSystems s' ! k"
    using assms(4) by (metis in_set_conv_nth)
  have l2: "list_all2 fs_sized fss (FileSystems s')" using V by blast
  then have sz: "fs_sized (fss ! k) f" and kl: "k < length fss"
    using list_all2_nthD2 [OF l2 k(1)] k by (simp_all add: list_all2_lengthD)
  have "DeviceId (FileSystems s1 ! k) = partId p"
    using fs_sized_keeps(1) [OF sz] assms(5) kl by (simp add: fss)
  then have par: "parentFileSystem fss dp (partId p) = Some (fss ! k)"
    using T kl by (auto simp: parentFileSystem_def fss)
  have "p \<in> set (storage_partitions s1)" using V assms(2) by (simp add: storage_partitions_def)
  with sp have "checkSpecialPartition fss dp p = None" by blast
  then show ?thesis
    using par assms(3) fs_sized_keeps(4,5) [OF sz] by (simp add: checkSpecialPartition_def enum_defs)
qed

lemma boot_partition_exists:
  assumes "Storage_IsValid s = Some (Inr s')"
  shows "sBootType s' = BootTypeEfi \<Longrightarrow> \<exists>p \<in> set (storage_partitions s'). partType p = PartitionTypeESP"
    and "sBootType s' = BootTypeLegacy \<Longrightarrow> \<exists>p \<in> set (storage_partitions s'). partType p = PartitionTypeBiosGrub"
proof -
  obtain s1 dm dp fss where bt: "checkBootType s1 = None"
    and vm: "checkVerityMounts (s1\<lparr>FileSystems := fss\<rparr>) dm dp = Some (Inr s')"
    using Storage_IsValid_stages [OF assms(1)] by blast
  have "sBootType s' = sBootType s1" "storage_partitions s' = storage_partitions s1"
    using checkVerityMounts_Inr [OF vm] by (simp_all add: storage_partitions_def)
  then show "sBootType s' = BootTypeEfi \<Longrightarrow> \<exists>p \<in> set (storage_partitions s'). partType p = PartitionTypeESP"
    and "sBootType s' = BootTypeLegacy \<Longrightarrow> \<exists>p \<in> set (storage_partitions s'). partType p = PartitionTypeBiosGrub"
    using bt by (auto simp: checkBootType_def Let_def list_ex_iff enum_defs)
qed

lemma esp_unique:
  assumes "Storage_IsValid s = Some (Inr s')" "p \<in> set (storage_partitions s')" "q \<in> set (storage_partitions s')"
    and "partType p = PartitionTypeESP" "partType q = PartitionTypeESP"
  shows "partId p = partId q"
proof (rule ccontr)
  assume ne: "partId p \<noteq> partId q"
  obtain f where f: "f \<in> set (FileSystems s')" "DeviceId f = partId p" "''/boot/efi'' \<in> set (mount_paths f)"
    using Storage_boot_aux [OF assms(1,2,4)] by (auto simp: mount_paths_def)
  obtain g where g: "g \<in> set (FileSystems s')" "DeviceId g = partId q" "''/boot/efi'' \<in> set (mount_paths g)"
    using Storage_boot_aux [OF assms(1,3,5)] by (auto simp: mount_paths_def)
  have "f \<noteq> g" using ne f g by auto
  then have "set (mount_paths f) \<inter> set (mount_paths g) = {}"
    using distinct_concat_disjoint [OF Storage_valid_structure(5) [OF assms(1)] f(1) g(1)] by blast
  with f g show False by blast
qed

text \<open>C4. Boot partitions: with boot type \<open>efi\<close> an accepted configuration has an EFI system partition, and
  every such partition has a FAT file system mounted at \<open>/boot/efi\<close>, so that there is only one;
  with boot type \<open>legacy\<close> it has a BIOS boot partition, and none of those is formatted or mounted.\<close>

theorem Storage_boot_partitions:
  assumes "Storage_IsValid s = Some (Inr s')"
  shows "(sBootType s' = BootTypeEfi \<longrightarrow> (\<exists>p \<in> set (storage_partitions s'). partType p = PartitionTypeESP
            \<and> (\<forall>q \<in> set (storage_partitions s'). partType q = PartitionTypeESP \<longrightarrow> partId q = partId p)
            \<and> (\<exists>f \<in> set (FileSystems s'). DeviceId f = partId p \<and> fsType f \<in> {''fat32'', ''vfat''}
                 \<and> (\<exists>m. fsMountPoint f = Some m \<and> mpPath m = ''/boot/efi''))))
    \<and> (sBootType s' = BootTypeLegacy \<longrightarrow> (\<exists>p \<in> set (storage_partitions s'). partType p = PartitionTypeBiosGrub))
    \<and> (\<forall>p \<in> set (storage_partitions s'). partType p = PartitionTypeBiosGrub
         \<longrightarrow> (\<forall>f \<in> set (FileSystems s'). DeviceId f = partId p \<longrightarrow> fsType f = FileSystemTypeNone \<and> fsMountPoint f = None))"
proof (intro conjI ballI impI)
  assume "sBootType s' = BootTypeEfi"
  then obtain p where p: "p \<in> set (storage_partitions s')" "partType p = PartitionTypeESP"
    using boot_partition_exists(1) [OF assms] by blast
  then show "\<exists>p \<in> set (storage_partitions s'). partType p = PartitionTypeESP
            \<and> (\<forall>q \<in> set (storage_partitions s'). partType q = PartitionTypeESP \<longrightarrow> partId q = partId p)
            \<and> (\<exists>f \<in> set (FileSystems s'). DeviceId f = partId p \<and> fsType f \<in> {''fat32'', ''vfat''}
                 \<and> (\<exists>m. fsMountPoint f = Some m \<and> mpPath m = ''/boot/efi''))"
    using Storage_boot_aux [OF assms p] esp_unique [OF assms _ p(1) _ p(2)] by blast
qed (use boot_partition_exists(2) [OF assms] bios_not_mounted [OF assms] in blast)+

theorem Storage_boot_partitions_witness:
  "\<exists>p \<in> set (storage_partitions (storage_result (Storage_IsValid example_storage))). partType p = PartitionTypeESP"
proof -
  have "sBootType (storage_result (Storage_IsValid example_storage)) = BootTypeEfi" by code_simp
  then show ?thesis
    using Storage_boot_partitions [OF storage_ok_result [OF example_storage_ok]] by blast
qed

text \<open>The mount recorded for a verity device is one of the file system on it.\<close>

lemma verityDeviceMounts_paths: "map MountPath (verityDeviceMounts z f) = mount_paths f"
proof -
  have "map MountPath (List.map_filter (\<lambda>s. map_option (\<lambda>m. \<lparr>MountPath = mpPath m, vmMountOptions = mpOptions m,
      SubvolumePath = svPath s, DataSize = z\<rparr>) (svMountPoint s)) ss)
    = List.map_filter (\<lambda>s. map_option mpPath (svMountPoint s)) ss" for ss
    by (induction ss) (auto simp: map_filter_simps split: option.splits)
  then show ?thesis by (auto simp: verityDeviceMounts_def mount_paths_def split: option.splits)
qed

lemma setVerityMount_path:
  assumes "setVerityMount v (verityDeviceMounts z f) = Inr v'" "verityMount v = None" "verityMount v' = Some m"
  shows "MountPath m \<in> set (mount_paths f)"
proof -
  have "m \<in> set (verityDeviceMounts z f)"
    using assms by (auto simp: setVerityMount_def split: list.splits)
  then show ?thesis unfolding verityDeviceMounts_paths [of z, symmetric] by simp
qed

lemma fillVerityMount_path:
  assumes "fillVerityMount dm dp fss v = Some (Inr (fss', v'))" "verityMount v = None" "verityMount v' = Some m"
  shows "\<exists>k. dp (verityId v) = Some (ParentFileSystem k) \<and> MountPath m \<in> set (mount_paths (fss ! k))"
  using assms setVerityMount_path
  by (auto simp: fillVerityMount_def Let_def split: option.splits Parent.splits sum.splits)

lemma fillVerityMounts_path:
  assumes "fillVerityMounts dm dp fss vs = Some (Inr (fss', vs'))"
    and "\<And>k i. dp k = Some (ParentFileSystem i) \<Longrightarrow> i < length fss"
  shows "list_all2 (\<lambda>v v'. \<forall>m. verityMount v = None \<and> verityMount v' = Some m \<longrightarrow>
     (\<exists>k. dp (verityId v) = Some (ParentFileSystem k) \<and> MountPath m \<in> set (mount_paths (fss ! k)))) vs vs'"
  using assms
proof (induction vs arbitrary: fss vs')
  case (Cons v vs)
  obtain fss1 v1 where a: "fillVerityMount dm dp fss v = Some (Inr (fss1, v1))"
    using Cons.prems by (auto split: option.splits sum.splits)
  obtain vs1 where b: "fillVerityMounts dm dp fss1 vs = Some (Inr (fss', vs1))" and vs': "vs' = v1 # vs1"
    using Cons.prems a by (auto split: option.splits sum.splits)
  have l2: "list_all2 fs_sized fss fss1" using fillVerityMount_Inr [OF a] by blast
  have "mount_paths (fss1 ! i) = mount_paths (fss ! i)" if "dp k = Some (ParentFileSystem i)" for k i
    using list_all2_nthD [OF l2 Cons.prems(2) [OF that]] by (rule fs_sized_keeps(3))
  moreover have "i < length fss1" if "dp k = Some (ParentFileSystem i)" for k i
    using Cons.prems(2) [OF that] l2 by (simp add: list_all2_lengthD)
  ultimately have "list_all2 (\<lambda>v v'. \<forall>m. verityMount v = None \<and> verityMount v' = Some m \<longrightarrow>
     (\<exists>k. dp (verityId v) = Some (ParentFileSystem k) \<and> MountPath m \<in> set (mount_paths (fss ! k)))) vs vs1"
    by (intro list_all2_mono [OF Cons.IH [OF b]]) force+
  with fillVerityMount_path [OF a] vs' show ?case by auto
qed simp

lemma parents_in_range:
  assumes "checkDeviceTree s dm c = Inr (fss, dp)" "dp k = Some (ParentFileSystem i)"
  shows "i < length fss \<and> DeviceId (fss ! i) = k"
proof -
  note T = checkDeviceTree_Inr [OF assms(1)]
  have "k \<in> dom dp" using assms(2) by blast
  moreover have "k \<notin> set (concat (map verity_uses (sVerity s)))" using T assms(2) by force
  ultimately obtain j where j: "j < length (FileSystems s)" "DeviceId (FileSystems s ! j) = k"
    using T by (auto simp: in_set_conv_nth)
  with T assms(2) have "j = i" by auto
  with j T show ?thesis by simp
qed

text \<open>C3. Verity devices that the configuration itself defines, on partitions of the configuration. (Devices on
  existing partitions of the base image are another case, \<open>VerityPartitionsUsesExisting\<close>: validation
  gives them no mount, see \<open>validateVerityMountPaths_placed\<close>.) The field \<open>mount\<close> is not read
  from the configuration, it is empty in the input. Once the storage is accepted, each such device has a mount
  recorded, which is at \<open>/\<close> for the device named \<open>root\<close> and at \<open>/usr\<close> for the
  one named \<open>usr\<close>, is read-only, and is a mount of the file system (or of a subvolume of it) on that
  device.\<close>

theorem Storage_verity_mounts:
  assumes "Storage_IsValid s = Some (Inr s')" "sVerityPartitionsType s' = VerityPartitionsUsesConfig"
    and "\<forall>v \<in> set (sVerity s). verityMount v = None"
  shows "\<forall>v \<in> set (sVerity s'). \<exists>m. verityMount v = Some m
      \<and> (MountPath m, verityName v) \<in> {(''/'', ''root''), (''/usr'', ''usr'')}
      \<and> ''ro'' \<in> set (Split (vmMountOptions m) CHR '','')
      \<and> (\<exists>f \<in> set (FileSystems s'). DeviceId f = verityId v \<and> MountPath m \<in> set (mount_paths f))"
proof
  fix v assume v: "v \<in> set (sVerity s')"
  obtain s1 dm c fss dp where p: "checkParts s = Inr s1" and dt: "checkDeviceTree s1 dm c = Inr (fss, dp)"
    and vm: "checkVerityMounts (s1\<lparr>FileSystems := fss\<rparr>) dm dp = Some (Inr s')"
    using Storage_IsValid_stages [OF assms(1)] by blast
  have init: "sVerity s1 = sVerity s"
    using p by (auto simp: checkParts_def split: option.splits sum.splits)
  note V = checkVerityMounts_Inr [OF vm, simplified]
  have fill: "fillVerityMounts dm dp fss (sVerity s) = Some (Inr (FileSystems s', sVerity s'))"
    and valid: "ValidateVerityMounts (sVerity s') = None"
    using V assms(2) init by auto
  have "validateVerityMount v = None" using valid v by (simp add: ValidateVerityMounts_def)
  then obtain m where m: "verityMount v = Some m"
    "MountPath m = ''/'' \<or> MountPath m = ''/usr''" "verityMountMap (MountPath m) = Some (verityName v)"
    "''ro'' \<in> set (Split (vmMountOptions m) CHR '','')"
    by (auto simp: validateVerityMount_def split: option.splits)
  obtain i where i: "i < length (sVerity s')" "sVerity s' ! i = v" using v by (auto simp: in_set_conv_nth)
  have l2v: "list_all2 verity_mounted (sVerity s) (sVerity s')" using V init by auto
  let ?w = "sVerity s ! i"
  have w: "?w \<in> set (sVerity s)" "verityId v = verityId ?w"
    using i list_all2_nthD2 [OF l2v i(1)] verity_mounted_keeps(1)
    by (auto simp: list_all2_lengthD [OF l2v])
  obtain k where k: "dp (verityId v) = Some (ParentFileSystem k)" "MountPath m \<in> set (mount_paths (fss ! k))"
    using list_all2_nthD2 [OF fillVerityMounts_path [OF fill] i(1)] parents_in_range [OF dt] i m assms(3) w
    by auto
  have l2: "list_all2 fs_sized fss (FileSystems s')" using V by blast
  have kl: "k < length fss" "DeviceId (fss ! k) = verityId v" using parents_in_range [OF dt k(1)] by auto
  have "fs_sized (fss ! k) (FileSystems s' ! k)" by (rule list_all2_nthD [OF l2 kl(1)])
  then have "DeviceId (FileSystems s' ! k) = verityId v" "MountPath m \<in> set (mount_paths (FileSystems s' ! k))"
    using fs_sized_keeps(1,3) kl k by auto
  moreover have "FileSystems s' ! k \<in> set (FileSystems s')"
    using kl by (simp add: list_all2_lengthD [OF l2])
  moreover have "(MountPath m, verityName v) \<in> {(''/'', ''root''), (''/usr'', ''usr'')}"
    using m(2,3) by (auto simp: verityMountMap_def)
  ultimately show "\<exists>m. verityMount v = Some m
      \<and> (MountPath m, verityName v) \<in> {(''/'', ''root''), (''/usr'', ''usr'')}
      \<and> ''ro'' \<in> set (Split (vmMountOptions m) CHR '','')
      \<and> (\<exists>f \<in> set (FileSystems s'). DeviceId f = verityId v \<and> MountPath m \<in> set (mount_paths f))"
    using m by blast
qed

theorem Storage_verity_mounts_witness:
  "list_all (\<lambda>v. \<exists>m. verityMount v = Some m) (sVerity (storage_result (Storage_IsValid example_storage)))"
proof -
  have "sVerityPartitionsType (storage_result (Storage_IsValid example_storage)) = VerityPartitionsUsesConfig"
    by code_simp
  moreover have "\<forall>v \<in> set (sVerity example_storage). verityMount v = None" by (simp add: example_storage_def)
  ultimately show ?thesis
    using Storage_verity_mounts [OF storage_ok_result [OF example_storage_ok]]
    unfolding list_all_iff by blast
qed

end
