(* ===== verification/FileScanner.thy ===== *)
theory FileScanner
  imports GoStrings
begin

text \<open>
  \<open>internal/filescanner/filescanner.go\<close>: the scanner that walks over a file one rune at a time and
  keeps its line and column. The Go object caches the rune at its index and the rune's width,
  which \<open>updateRune\<close> recomputes from \<open>content[index:]\<close> whenever the index changes; the model
  computes them from the content and the index where they are read.
\<close>

record SourceLoc =
  Col :: nat
  Line :: nat
  Index :: nat

record FileScanner =
  scContent :: string
  scCol :: nat
  scLine :: nat
  scIndex :: nat

definition NewFileScanner :: "string \<Rightarrow> FileScanner" where
  "NewFileScanner content = \<lparr>scContent = content, scCol = 1, scLine = 1, scIndex = 0\<rparr>"

definition updateRune :: "FileScanner \<Rightarrow> nat \<times> nat" where
  "updateRune s = DecodeRune (drop (scIndex s) (scContent s))"

definition Eof :: "FileScanner \<Rightarrow> bool" where
  "Eof s \<longleftrightarrow> scIndex s \<ge> length (scContent s)"

definition peek_rune :: "FileScanner \<Rightarrow> nat" where
  "peek_rune s = fst (updateRune s)"

definition Peek :: "FileScanner \<Rightarrow> nat option" where
  "Peek s = (if Eof s then None else Some (peek_rune s))"

definition Next :: "FileScanner \<Rightarrow> FileScanner" where
  "Next s = (if peek_rune s = 10 then s\<lparr>scLine := scLine s + 1, scCol := 1, scIndex := scIndex s + snd (updateRune s)\<rparr>
             else s\<lparr>scCol := scCol s + 1, scIndex := scIndex s + snd (updateRune s)\<rparr>)"

definition Loc :: "FileScanner \<Rightarrow> SourceLoc" where
  "Loc s = \<lparr>Col = scCol s, Line = scLine s, Index = scIndex s\<rparr>"

section \<open>Progress\<close>

definition in_range :: "FileScanner \<Rightarrow> bool" where
  "in_range s \<longleftrightarrow> scIndex s \<le> length (scContent s)"

lemma NewFileScanner_simps [simp]:
  "scContent (NewFileScanner c) = c" "scIndex (NewFileScanner c) = 0" "in_range (NewFileScanner c)"
  by (simp_all add: NewFileScanner_def in_range_def)

lemma Next_content [simp]: "scContent (Next s) = scContent s"
  by (simp add: Next_def)

lemma Next_index: "scIndex (Next s) = scIndex s + snd (updateRune s)"
  by (simp add: Next_def)

lemma Peek_None: "Peek s = None \<longleftrightarrow> Eof s"
  by (simp add: Peek_def)

lemma Next_progress:
  assumes "\<not> Eof s"
  shows "scIndex s < scIndex (Next s)" "scIndex (Next s) \<le> length (scContent s)"
proof -
  have "drop (scIndex s) (scContent s) \<noteq> []" using assms by (simp add: Eof_def)
  then show "scIndex s < scIndex (Next s)"
    using DecodeRune_width_pos [of "drop (scIndex s) (scContent s)"]
    by (simp add: Next_index updateRune_def)
  show "scIndex (Next s) \<le> length (scContent s)"
    using DecodeRune_width_le [of "drop (scIndex s) (scContent s)"] assms
    by (simp add: Next_index updateRune_def Eof_def)
qed

lemma Next_in_range: "\<not> Eof s \<Longrightarrow> in_range (Next s)"
  using Next_progress(2) by (simp add: in_range_def)

lemma Next_measure:
  "\<not> Eof s \<Longrightarrow> length (scContent s) - scIndex (Next s) < length (scContent s) - scIndex s"
  using Next_progress [of s] by (simp add: Eof_def diff_less_mono2)

text \<open>What is left to read; for valid UTF-8 one step of the scanner removes one encoded rune.\<close>

definition rest :: "FileScanner \<Rightarrow> string" where
  "rest s = drop (scIndex s) (scContent s)"

lemma rest_New [simp]: "rest (NewFileScanner c) = c" by (simp add: rest_def)

lemma Eof_rest: "Eof s \<longleftrightarrow> rest s = []"
  by (simp add: rest_def Eof_def)

lemma Peek_rest:
  assumes "rest s = encode_rune r @ u" "valid_rune r"
  shows "Peek s = Some r" "rest (Next s) = u" "\<not> Eof s"
proof -
  have d: "updateRune s = (r, length (encode_rune r))"
    using DecodeRune_encode_rune [OF assms(2), of u] assms(1) by (simp add: updateRune_def rest_def)
  show "\<not> Eof s" using assms(1) by (simp add: Eof_rest)
  then show "Peek s = Some r" using d by (simp add: Peek_def peek_rune_def)
  have "rest (Next s) = drop (length (encode_rune r)) (rest s)"
    using d by (simp add: rest_def Next_index add.commute)
  then show "rest (Next s) = u" using assms(1) by simp
qed

lemma Peek_ascii:
  assumes "rest s = c # u" "byte c < 128"
  shows "Peek s = Some (byte c)" "rest (Next s) = u" "\<not> Eof s"
proof -
  have "encode_rune (byte c) = [c]" using assms(2) by (simp add: encode_rune_ascii)
  then show "Peek s = Some (byte c)" "rest (Next s) = u" "\<not> Eof s"
    using Peek_rest [of s "byte c" u] assms by (simp_all add: valid_rune_def)
qed

text \<open>The loop \<open>for { c, eof := Peek(); if eof || !p(c) { break }; sb.WriteRune(c); Next() }\<close>.\<close>

function read_while :: "(nat \<Rightarrow> bool) \<Rightarrow> string \<Rightarrow> FileScanner \<Rightarrow> string \<times> FileScanner" where
  "read_while p sb s =
     (case Peek s of
        None \<Rightarrow> (sb, s)
      | Some c \<Rightarrow> if p c then read_while p (sb @ encode_rune c) (Next s) else (sb, s))"
  by pat_completeness auto
termination read_while
  by (relation "measure (\<lambda>(p, sb, s). length (scContent s) - scIndex s)")
     (auto simp: Peek_def Next_measure split: if_splits)

declare read_while.simps [simp del]

text \<open>The position only moves forward, within the same content.\<close>

definition forward :: "FileScanner \<Rightarrow> FileScanner \<Rightarrow> bool" where
  "forward s s' \<longleftrightarrow> scContent s' = scContent s \<and> scIndex s \<le> scIndex s' \<and> in_range s'"

lemma forward_refl [simp]: "forward s s \<longleftrightarrow> in_range s"
  by (simp add: forward_def)

lemma forward_trans: "forward a b \<Longrightarrow> forward b c \<Longrightarrow> forward a c"
  by (simp add: forward_def)

lemma forward_Next: "\<not> Eof s \<Longrightarrow> forward s (Next s)"
  using Next_progress by (simp add: forward_def Next_in_range less_imp_le)

lemma Peek_Some: "Peek s = Some c \<Longrightarrow> \<not> Eof s"
  by (auto simp: Peek_def split: if_splits)

lemma read_while_forward: "in_range s \<Longrightarrow> forward s (snd (read_while p sb s))"
proof (induction p sb s rule: read_while.induct)
  case (1 p sb s)
  show ?case
  proof (cases "Peek s")
    case None
    with 1 show ?thesis unfolding read_while.simps [of p sb s] by simp
  next
    case (Some c)
    then have "\<not> Eof s" by (rule Peek_Some)
    with 1 Some show ?thesis
      by (auto simp: read_while.simps [of p sb s] Next_in_range intro: forward_trans [OF forward_Next])
  qed
qed

lemma read_while_stop: "\<not> p c \<Longrightarrow> Peek s = Some c \<Longrightarrow> read_while p sb s = (sb, s)"
  by (simp add: read_while.simps [of p sb s])

lemma read_while_runes:
  assumes "rest s = encode_runes rs @ u" "list_all valid_rune rs" "list_all p rs"
    and "\<And>s'. rest s' = u \<Longrightarrow> Eof s' \<or> (\<exists>c. Peek s' = Some c \<and> \<not> p c)"
  shows "\<exists>s'. read_while p sb s = (sb @ encode_runes rs, s') \<and> rest s' = u"
  using assms(1-3)
proof (induction rs arbitrary: s sb)
  case Nil
  then have "read_while p sb s = (sb, s)"
    using assms(4) [of s] by (auto simp: read_while.simps [of p sb s] Peek_def)
  with Nil show ?case by simp
next
  case (Cons r rs)
  then have r: "rest s = encode_rune r @ (encode_runes rs @ u)" "valid_rune r" by auto
  note N = Peek_rest [OF r]
  have "read_while p sb s = read_while p (sb @ encode_rune r) (Next s)"
    using N(1) Cons.prems(3) by (simp add: read_while.simps [of p sb s])
  then show ?case using Cons.IH [OF N(2), of "sb @ encode_rune r"] Cons.prems(2,3) by simp
qed

end
