(* ===== verification/GrubTokenizer.thy ===== *)
theory GrubTokenizer
  imports FileScanner
begin

text \<open>
  \<open>internal/grub/tokentypes.go\<close> and \<open>grubtokenizer.go\<close>: the tokenizer of grub configuration files.
  Each \<open>parse\<close> method of \<open>grubConfigTokenizer\<close> is a function on the tokenizer's state (the scanner,
  the tokens so far, the sub-words of the current word) that returns the new state and the error,
  if any. The loops recurse on what is left of the content, so every one of them ends.
\<close>

section \<open>Tokens\<close>

datatype TokenType = LBRACE | RBRACE | BAR | AND_TOKEN | SEMICOLON | LT | GT | NEWLINE | WORD

datatype SubWordType = KEYWORD_STRING | STRING | VAR_EXPANSION | QUOTED_VAR_EXPANSION

record TokenLoc =
  Start :: SourceLoc
  End :: SourceLoc

record SubWord =
  swLoc :: TokenLoc
  swType :: SubWordType
  swRawContent :: string
  swValue :: string

record Token =
  tokLoc :: TokenLoc
  tokType :: TokenType
  RawContent :: string
  SubWords :: "SubWord list"

definition TokenTypeString :: "TokenType \<Rightarrow> string" where
  "TokenTypeString t =
     (case t of LBRACE \<Rightarrow> ''LBRACE'' | RBRACE \<Rightarrow> ''RBRACE'' | BAR \<Rightarrow> ''BAR'' | AND_TOKEN \<Rightarrow> ''AND''
      | SEMICOLON \<Rightarrow> ''SEMICOLON'' | LT \<Rightarrow> ''LT'' | GT \<Rightarrow> ''GT'' | NEWLINE \<Rightarrow> ''NEWLINE'' | WORD \<Rightarrow> ''WORD'')"

definition SubWordTypeString :: "SubWordType \<Rightarrow> string" where
  "SubWordTypeString t =
     (case t of KEYWORD_STRING \<Rightarrow> ''KEYWORD_STRING'' | STRING \<Rightarrow> ''STRING''
      | VAR_EXPANSION \<Rightarrow> ''VAR_EXPANSION'' | QUOTED_VAR_EXPANSION \<Rightarrow> ''QUOTED_VAR_EXPANSION'')"

datatype token_error =
    EofInDoubleQuotes nat nat | EofAfterBackslash nat nat | EofInSingleQuotes nat nat
  | EofInVarExpansion nat nat | MissingBrace nat nat | MissingVarName nat nat

record Tokenizer =
  scanner :: FileScanner
  tokens :: "Token list"
  subWords :: "SubWord list"

section \<open>Characters\<close>

abbreviation rn :: "char \<Rightarrow> nat" where "rn c \<equiv> byte c"

definition metaToken :: "nat \<Rightarrow> TokenType option" where
  "metaToken c =
     (if c = rn CHR ''{'' then Some LBRACE else if c = rn CHR ''}'' then Some RBRACE
      else if c = rn CHR ''|'' then Some BAR else if c = rn CHR ''&'' then Some AND_TOKEN
      else if c = rn CHR '';'' then Some SEMICOLON else if c = rn CHR ''<'' then Some LT
      else if c = rn CHR ''>'' then Some GT else if c = 10 then Some NEWLINE else None)"

definition is_blank :: "nat \<Rightarrow> bool" where
  "is_blank c \<longleftrightarrow> c = 32 \<or> c = 9"

definition ends_word :: "nat \<Rightarrow> bool" where
  "ends_word c \<longleftrightarrow> metaToken c \<noteq> None \<or> is_blank c"

definition ends_unquoted :: "nat \<Rightarrow> bool" where
  "ends_unquoted c \<longleftrightarrow> ends_word c \<or> c = rn CHR 0x22 \<or> c = rn CHR 0x27 \<or> c = rn CHR ''$''"

definition is_name_char :: "nat \<Rightarrow> bool" where
  "is_name_char c \<longleftrightarrow> (rn CHR ''A'' \<le> c \<and> c \<le> rn CHR ''Z'') \<or> (rn CHR ''a'' \<le> c \<and> c \<le> rn CHR ''z'')
     \<or> (rn CHR ''0'' \<le> c \<and> c \<le> rn CHR ''9'') \<or> c = rn CHR ''_''"

section \<open>The tokenizer\<close>

definition newToken :: "Tokenizer \<Rightarrow> SourceLoc \<Rightarrow> SourceLoc \<Rightarrow> TokenType \<Rightarrow> Token" where
  "newToken t locStart locEnd tokenType =
     \<lparr>tokLoc = \<lparr>Start = locStart, End = locEnd\<rparr>, tokType = tokenType,
      RawContent = substr (Index locStart) (Index locEnd) (scContent (scanner t)), SubWords = []\<rparr>"

definition newSubWord :: "Tokenizer \<Rightarrow> SourceLoc \<Rightarrow> SourceLoc \<Rightarrow> SubWordType \<Rightarrow> string \<Rightarrow> SubWord" where
  "newSubWord t locStart locEnd subWordType value =
     \<lparr>swLoc = \<lparr>Start = locStart, End = locEnd\<rparr>, swType = subWordType,
      swRawContent = substr (Index locStart) (Index locEnd) (scContent (scanner t)), swValue = value\<rparr>"

definition advance :: "Tokenizer \<Rightarrow> Tokenizer" where
  "advance t = t\<lparr>scanner := Next (scanner t)\<rparr>"

definition loc :: "Tokenizer \<Rightarrow> SourceLoc" where
  "loc t = Loc (scanner t)"

definition here :: "Tokenizer \<Rightarrow> (nat \<Rightarrow> nat \<Rightarrow> token_error) \<Rightarrow> token_error option" where
  "here t e = Some (e (scLine (scanner t)) (scCol (scanner t)))"

text \<open>\<open>addSubWord t locStart ty v\<close> appends the sub-word from \<open>locStart\<close> to the scanner's location.\<close>

definition addSubWord :: "Tokenizer \<Rightarrow> SourceLoc \<Rightarrow> SubWordType \<Rightarrow> string \<Rightarrow> Tokenizer" where
  "addSubWord t locStart subWordType value =
     t\<lparr>subWords := subWords t @ [newSubWord t locStart (loc t) subWordType value]\<rparr>"

definition parseSpace :: "Tokenizer \<Rightarrow> Tokenizer" where
  "parseSpace t = t\<lparr>scanner := snd (read_while is_blank [] (scanner t))\<rparr>"

definition parseComment :: "Tokenizer \<Rightarrow> Tokenizer" where
  "parseComment t = t\<lparr>scanner := snd (read_while (\<lambda>c. c \<noteq> 10) [] (Next (scanner t)))\<rparr>"

definition parseVariableExpansion :: "SubWordType \<Rightarrow> Tokenizer \<Rightarrow> Tokenizer \<times> token_error option" where
  "parseVariableExpansion subWordType t =
     (let locStart = loc t;
          t1 = advance t;
          usesBraces = (Peek (scanner t1) = Some (rn CHR ''{''));
          t2 = (if usesBraces then advance t1 else t1);
          (varName, sc) = read_while is_name_char [] (scanner t2);
          t3 = t2\<lparr>scanner := sc\<rparr>
      in if usesBraces
         then (case Peek sc of
                 None \<Rightarrow> (t3, here t3 EofInVarExpansion)
               | Some c \<Rightarrow>
                   if c \<noteq> rn CHR ''}'' then (t3, here t3 MissingBrace)
                   else let t4 = advance t3 in
                        if varName = [] then (t4, Some (MissingVarName (Line locStart) (Col locStart)))
                        else (addSubWord t4 locStart subWordType varName, None))
         else if varName = [] then (addSubWord t3 locStart STRING ''$'', None)
         else (addSubWord t3 locStart subWordType varName, None))"

definition parseSingleQuotedString :: "Tokenizer \<Rightarrow> Tokenizer \<times> token_error option" where
  "parseSingleQuotedString t =
     (let locStart = loc t;
          (sb, sc) = read_while (\<lambda>c. c \<noteq> rn CHR 0x27) [] (Next (scanner t));
          t1 = t\<lparr>scanner := sc\<rparr>
      in if Eof sc then (t1, here t1 EofInSingleQuotes)
         else (addSubWord (advance t1) locStart STRING sb, None))"

lemma scanner_advance [simp]: "scanner (advance t) = Next (scanner t)"
  by (simp add: advance_def)

lemma scanner_addSubWord [simp]: "scanner (addSubWord t l ty v) = scanner t"
  by (simp add: addSubWord_def)

definition left_over :: "Tokenizer \<Rightarrow> nat" where
  "left_over t = length (scContent (scanner t)) - scIndex (scanner t)"

lemma left_over_advance: "\<not> Eof (scanner t) \<Longrightarrow> left_over (advance t) < left_over t"
  by (simp add: left_over_def Next_measure)

text \<open>Between an opening and the closing double quote.\<close>

lemma forward_left_over: "forward (scanner t) (scanner t') \<Longrightarrow> left_over t' \<le> left_over t"
  by (simp add: forward_def left_over_def diff_le_mono2)

lemma read_while_forward_eq:
  assumes "read_while p sb s = (v, s')" "in_range s"
  shows "forward s s'"
  using read_while_forward [OF assms(2), of p sb] assms(1) by simp

lemma parseVariableExpansion_forward:
  assumes "\<not> Eof (scanner t)"
  shows "forward (Next (scanner t)) (scanner (fst (parseVariableExpansion ty t)))"
proof -
  let ?s1 = "Next (scanner t)"
  define s2 where "s2 = (if Peek ?s1 = Some (rn CHR ''{'') then Next ?s1 else ?s1)"
  have i1: "in_range ?s1" by (rule Next_in_range [OF assms])
  have f2: "forward ?s1 s2"
    unfolding s2_def using i1 forward_Next [OF Peek_Some] by auto
  then have i2: "in_range s2" by (simp add: forward_def)
  obtain v s3 where r: "read_while is_name_char [] s2 = (v, s3)" by (cases "read_while is_name_char [] s2")
  have f3: "forward ?s1 s3" by (rule forward_trans [OF f2 read_while_forward_eq [OF r i2]])
  have f4: "Peek s3 = Some c \<Longrightarrow> forward ?s1 (Next s3)" for c
    using forward_trans [OF f3 forward_Next [OF Peek_Some]] by blast
  show ?thesis
    using f3 f4 r unfolding s2_def
    by (auto simp: parseVariableExpansion_def Let_def addSubWord_def split: prod.splits option.splits if_splits)
qed

lemma parseVariableExpansion_left_over:
  assumes "parseVariableExpansion ty t = (t', e)" "\<not> Eof (scanner t)"
  shows "left_over t' < left_over t"
  using forward_left_over [of "advance t" t'] parseVariableExpansion_forward [OF assms(2), of ty]
    left_over_advance [OF assms(2)] assms(1) by simp

function doubleQuotedLoop :: "SourceLoc \<Rightarrow> string \<Rightarrow> Tokenizer \<Rightarrow> Tokenizer \<times> token_error option" where
  "doubleQuotedLoop locStart sb t =
     (case Peek (scanner t) of
        None \<Rightarrow> (t, here t EofInDoubleQuotes)
      | Some c \<Rightarrow>
          if c = rn CHR 0x22 then (addSubWord (advance t) locStart STRING sb, None)
          else if c = rn CHR 0x5C then
            (case Peek (scanner (advance t)) of
               None \<Rightarrow> (advance t, here (advance t) EofAfterBackslash)
             | Some d \<Rightarrow>
                 doubleQuotedLoop locStart
                   (sb @ (if d = rn CHR ''$'' \<or> d = rn CHR 0x22 \<or> d = rn CHR 0x5C then encode_rune d
                          else if d = 10 then []
                          else encode_rune (rn CHR 0x5C) @ encode_rune d))
                   (advance (advance t)))
          else if c = rn CHR ''$'' then
            (case parseVariableExpansion QUOTED_VAR_EXPANSION
                    (if Index (loc t) \<noteq> Index locStart then addSubWord t locStart STRING sb else t) of
               (t', Some e) \<Rightarrow> (t', Some e)
             | (t', None) \<Rightarrow> doubleQuotedLoop (loc t') [] t')
          else doubleQuotedLoop locStart (sb @ encode_rune c) (advance t))"
  by pat_completeness auto
termination doubleQuotedLoop
proof (relation "measure (\<lambda>(l, sb, t). left_over t)", goal_cases)
  case (2 l sb t c d)
  then have "\<not> Eof (scanner t)" "\<not> Eof (scanner (advance t))" using Peek_Some by blast+
  then show ?case using less_trans [OF left_over_advance [of "advance t"] left_over_advance [of t]] by simp
next
  case (3 l sb t c x y)
  then have "\<not> Eof (scanner t)" using Peek_Some by blast
  moreover have sc: "scanner (if b then addSubWord t l STRING sb else t) = scanner t" for b
    by simp
  ultimately have "left_over x < left_over (if Index (loc t) \<noteq> Index l then addSubWord t l STRING sb else t)"
    by (intro parseVariableExpansion_left_over [OF 3(5) [symmetric]]) simp
  then show ?case using sc by (simp add: left_over_def)
next
  case (4 l sb t c)
  then have "\<not> Eof (scanner t)" using Peek_Some by blast
  then show ?case using left_over_advance by simp
qed simp

declare doubleQuotedLoop.simps [simp del]

definition parseDoubleQuotedString :: "Tokenizer \<Rightarrow> Tokenizer \<times> token_error option" where
  "parseDoubleQuotedString t = doubleQuotedLoop (loc t) [] (advance t)"

function unquotedLoop :: "SourceLoc \<Rightarrow> string \<Rightarrow> bool \<Rightarrow> Tokenizer \<Rightarrow> Tokenizer" where
  "unquotedLoop locStart sb notFirst t =
     (case Peek (scanner t) of
        None \<Rightarrow> addSubWord t locStart (if notFirst then STRING else KEYWORD_STRING) sb
      | Some c \<Rightarrow>
          if ends_unquoted c then addSubWord t locStart (if notFirst then STRING else KEYWORD_STRING) sb
          else if c = rn CHR 0x5C then
            (let t1 = (if \<not> notFirst \<and> Index (loc t) \<noteq> Index locStart
                       then addSubWord t locStart KEYWORD_STRING sb else t);
                 locStart' = (if notFirst then locStart else loc t);
                 sb' = (if notFirst then sb else [])
             in case Peek (scanner (advance t)) of
                  None \<Rightarrow> addSubWord (advance t1) locStart' STRING (sb' @ encode_rune (rn CHR 0x5C))
                | Some d \<Rightarrow>
                    unquotedLoop locStart' (if d = 10 then sb' else sb' @ encode_rune d) True
                      (advance (advance t1)))
          else unquotedLoop locStart (sb @ encode_rune c) notFirst (advance t))"
  by pat_completeness auto
termination unquotedLoop
proof (relation "measure (\<lambda>(l, sb, nf, t). left_over t)", goal_cases)
  case (2 l sb nf t c t1 l' sb' d)
  then have "\<not> Eof (scanner t)" "\<not> Eof (scanner (advance t))" using Peek_Some by blast+
  moreover have "scanner t1 = scanner t" using 2 by simp
  ultimately show ?case
    using left_over_advance [of t] left_over_advance [of "advance t"] by (simp add: left_over_def)
next
  case (3 l sb nf t c)
  then have "\<not> Eof (scanner t)" using Peek_Some by blast
  then show ?case using left_over_advance by simp
qed simp

declare unquotedLoop.simps [simp del]

definition parseUnquotedString :: "bool \<Rightarrow> Tokenizer \<Rightarrow> Tokenizer" where
  "parseUnquotedString notFirst t = unquotedLoop (loc t) [] notFirst t"

section \<open>What every step keeps\<close>

text \<open>Sub-words tile a stretch of the content: each begins where the one before it ends, is not empty
  and holds the text between its ends.\<close>

fun tiles :: "string \<Rightarrow> nat \<Rightarrow> SubWord list \<Rightarrow> nat \<Rightarrow> bool" where
  "tiles content i [] j \<longleftrightarrow> i = j"
| "tiles content i (w # ws) j \<longleftrightarrow>
     Index (Start (swLoc w)) = i \<and> i < Index (End (swLoc w)) \<and> Index (End (swLoc w)) \<le> length content
     \<and> swRawContent w = substr i (Index (End (swLoc w))) content
     \<and> tiles content (Index (End (swLoc w))) ws j"

lemma tiles_append: "tiles c i (ws @ vs) j \<longleftrightarrow> (\<exists>k. tiles c i ws k \<and> tiles c k vs j)"
  by (induction ws arbitrary: i) auto

lemma tiles_le: "tiles c i ws j \<Longrightarrow> i \<le> j"
  by (induction ws arbitrary: i) force+

lemma tiles_raw: "tiles c i ws j \<Longrightarrow> concat (map swRawContent ws) = substr i j c"
proof (induction ws arbitrary: i)
  case (Cons w ws)
  let ?k = "Index (End (swLoc w))"
  from Cons have "concat (map swRawContent ws) = substr ?k j c" "swRawContent w = substr i ?k c"
    "i \<le> ?k" "?k \<le> j" using tiles_le by auto
  then show ?case by (simp add: substr_append)
qed simp

text \<open>\<open>grows i t r\<close>: from state \<open>t\<close> with a sub-word begun at \<open>i\<close>, the result \<open>r\<close> has moved on in the
  same content, added no token, and without error added sub-words that tile from \<open>i\<close> to where the
  scanner is.\<close>

definition grows :: "nat \<Rightarrow> Tokenizer \<Rightarrow> Tokenizer \<times> token_error option \<Rightarrow> bool" where
  "grows i t r \<longleftrightarrow> forward (scanner t) (scanner (fst r)) \<and> tokens (fst r) = tokens t
     \<and> (snd r = None \<longrightarrow> (\<exists>new. subWords (fst r) = subWords t @ new
          \<and> tiles (scContent (scanner t)) i new (scIndex (scanner (fst r)))))"

lemma grows_error: "forward (scanner t) (scanner t') \<Longrightarrow> tokens t' = tokens t \<Longrightarrow> grows i t (t', Some e)"
  by (simp add: grows_def)

lemma grows_skip:
  assumes "forward (scanner t) (scanner t1)" "tokens t1 = tokens t" "subWords t1 = subWords t" "grows i t1 r"
  shows "grows i t r"
  using assms forward_trans by (fastforce simp: grows_def forward_def)

lemma grows_seq:
  assumes "grows i t (t1, None)" "grows (scIndex (scanner t1)) t1 r"
  shows "grows i t r"
proof -
  obtain new1 where 1: "subWords t1 = subWords t @ new1"
    "tiles (scContent (scanner t)) i new1 (scIndex (scanner t1))"
    using assms(1) by (auto simp: grows_def)
  have f: "forward (scanner t) (scanner t1)" "tokens t1 = tokens t" using assms(1) by (auto simp: grows_def)
  then have c: "scContent (scanner t1) = scContent (scanner t)" by (simp add: forward_def)
  show ?thesis
    using assms(2) 1 f c unfolding grows_def
    by (auto simp: tiles_append intro: forward_trans)
qed

lemma grows_add:
  assumes "in_range (scanner t)" "Index l < scIndex (scanner t)"
  shows "grows (Index l) t (addSubWord t l ty v, None)"
  using assms
  by (simp add: grows_def addSubWord_def newSubWord_def loc_def Loc_def in_range_def)

lemma tokens_advance [simp]: "tokens (advance t) = tokens t" "subWords (advance t) = subWords t"
  by (simp_all add: advance_def)

lemma grows_advance:
  assumes "\<not> Eof (scanner t)" "grows i (advance t) r"
  shows "grows i t r"
  using grows_skip [of t "advance t" i r] assms forward_Next [OF assms(1)] by simp

lemma Peek_cases:
  obtains (eof) "Peek s = None" "Eof s" | (rune) c where "Peek s = Some c" "\<not> Eof s"
  by (cases "Peek s") (auto simp: Peek_Some Peek_None)

lemma advance_index: "\<not> Eof (scanner t) \<Longrightarrow> scIndex (scanner t) < scIndex (scanner (advance t))"
  "\<not> Eof (scanner t) \<Longrightarrow> in_range (scanner (advance t))"
  using Next_progress(1) Next_in_range by simp_all

lemma loc_Index [simp]: "Index (loc t) = scIndex (scanner t)"
  by (simp add: loc_def Loc_def)

lemma scanner_update [simp]: "tokens (t\<lparr>scanner := s\<rparr>) = tokens t" "subWords (t\<lparr>scanner := s\<rparr>) = subWords t"
  by simp_all

lemma parseVariableExpansion_grows:
  assumes "\<not> Eof (scanner t)"
  shows "grows (scIndex (scanner t)) t (parseVariableExpansion ty t)"
proof -
  let ?t1 = "advance t"
  define t2 where "t2 = (if Peek (scanner ?t1) = Some (rn CHR ''{'') then advance ?t1 else ?t1)"
  have i1: "in_range (scanner ?t1)" "scIndex (scanner t) < scIndex (scanner ?t1)"
    using advance_index [OF assms] by auto
  have f2: "forward (scanner ?t1) (scanner t2)"
    unfolding t2_def using i1 forward_Next [OF Peek_Some] by auto
  then have i2: "in_range (scanner t2)" by (simp add: forward_def)
  obtain v s3 where r: "read_while is_name_char [] (scanner t2) = (v, s3)"
    by (cases "read_while is_name_char [] (scanner t2)")
  define t3 where "t3 = t2\<lparr>scanner := s3\<rparr>"
  have f3: "forward (scanner ?t1) s3" by (rule forward_trans [OF f2 read_while_forward_eq [OF r i2]])
  have ft: "forward (scanner t) s3" using forward_trans [OF forward_Next [OF assms]] f3 by simp
  have same: "tokens t3 = tokens t" "subWords t3 = subWords t" "scanner t3 = s3"
    by (simp_all add: t3_def t2_def)
  have lt: "scIndex (scanner t) < scIndex s3" "in_range s3" using f3 i1 by (auto simp: forward_def)
  have add: "grows (scIndex (scanner t)) t (addSubWord t3 (loc t) ty' v', None)" for ty' v'
    using grows_skip [of t t3] grows_add [of t3 "loc t"] ft same lt by simp
  have add2: "grows (scIndex (scanner t)) t (addSubWord (advance t3) (loc t) ty' v', None)"
    if "Peek s3 = Some c" for ty' v' c
  proof (rule grows_skip [of t t3])
    have ne: "\<not> Eof (scanner t3)" using that same by (simp add: Peek_Some)
    show "grows (scIndex (scanner t)) t3 (addSubWord (advance t3) (loc t) ty' v', None)"
      using grows_advance [OF ne] grows_add [of "advance t3" "loc t"] advance_index [OF ne] lt same by simp
  qed (use ft same in simp_all)
  have err: "grows (scIndex (scanner t)) t (t3, Some e)" "Peek s3 = Some c \<Longrightarrow> grows (scIndex (scanner t)) t (advance t3, Some e)"
    for e c
    using ft same forward_trans [OF ft forward_Next [OF Peek_Some]] by (auto intro!: grows_error)
  show ?thesis
    using add add2 err r
    unfolding parseVariableExpansion_def Let_def t2_def [symmetric] r t3_def [symmetric]
    by (auto simp: here_def t3_def [symmetric] split: option.splits)
qed

lemma parseSingleQuotedString_grows:
  assumes "\<not> Eof (scanner t)"
  shows "grows (scIndex (scanner t)) t (parseSingleQuotedString t)"
proof -
  obtain v s1 where r: "read_while (\<lambda>c. c \<noteq> rn CHR 0x27) [] (Next (scanner t)) = (v, s1)"
    by (cases "read_while (\<lambda>c. c \<noteq> rn CHR 0x27) [] (Next (scanner t))")
  define t1 where "t1 = t\<lparr>scanner := s1\<rparr>"
  have f: "forward (Next (scanner t)) s1" by (rule read_while_forward_eq [OF r Next_in_range [OF assms]])
  then have f1: "forward (scanner t) (scanner t1)"
    using forward_trans [OF forward_Next [OF assms]] by (simp add: t1_def)
  have lt: "scIndex (scanner t) < scIndex (scanner t1)"
    using f Next_progress(1) [OF assms] by (simp add: forward_def t1_def)
  have "grows (scIndex (scanner t)) t (addSubWord (advance t1) (loc t) STRING v, None)" if ne: "\<not> Eof s1"
  proof (rule grows_skip [OF f1])
    have ne': "\<not> Eof (scanner t1)" using ne by (simp add: t1_def)
    show "grows (scIndex (scanner t)) t1 (addSubWord (advance t1) (loc t) STRING v, None)"
      using grows_advance [OF ne'] grows_add [of "advance t1" "loc t"] advance_index [OF ne'] lt by simp
  qed (simp_all add: t1_def)
  moreover have "grows (scIndex (scanner t)) t (t1, here t1 EofInSingleQuotes)"
    unfolding here_def by (rule grows_error) (simp_all add: f1 t1_def [symmetric], simp add: t1_def)
  ultimately show ?thesis
    unfolding parseSingleQuotedString_def Let_def r prod.case t1_def [symmetric] by simp
qed

text \<open>The loops: \<open>i\<close> is where the pending sub-word began.\<close>

lemma doubleQuotedLoop_grows:
  "in_range (scanner t) \<Longrightarrow> Index l \<le> scIndex (scanner t) \<Longrightarrow> grows (Index l) t (doubleQuotedLoop l sb t)"
proof (induction l sb t rule: doubleQuotedLoop.induct)
  case (1 l sb t)
  show ?case
  proof (cases rule: Peek_cases [of "scanner t"])
    case eof
    with 1(4) show ?thesis
      by (auto simp: doubleQuotedLoop.simps [of l sb t] here_def intro: grows_error)
  next
    case (rune c)
    note ai = advance_index [OF rune(2)]
    consider "c = rn CHR 0x22" | "c = rn CHR 0x5C" | "c = rn CHR ''$''"
      | "c \<noteq> rn CHR 0x22" "c \<noteq> rn CHR 0x5C" "c \<noteq> rn CHR ''$''" by blast
    then show ?thesis
    proof cases
      case c: 1
      have "grows (Index l) (advance t) (addSubWord (advance t) l STRING sb, None)"
        using grows_add [of "advance t" l] ai 1(5) by simp
      with c rune show ?thesis
        by (simp add: doubleQuotedLoop.simps [of l sb t] grows_advance)
    next
      case c: 2
      show ?thesis
      proof (cases rule: Peek_cases [of "scanner (advance t)"])
        case eof
        with c rune ai show ?thesis
          by (simp add: doubleQuotedLoop.simps [of l sb t] here_def grows_advance grows_error)
      next
        case d: (rune d)
        have "grows (Index l) (advance (advance t)) (doubleQuotedLoop l
            (sb @ (if d = rn CHR ''$'' \<or> d = rn CHR 0x22 \<or> d = rn CHR 0x5C then encode_rune d
                   else if d = 10 then [] else encode_rune (rn CHR 0x5C) @ encode_rune d)) (advance (advance t)))"
          using 1(1) [OF rune(1) _ c d(1)] c advance_index [OF d(2)] ai 1(5) by simp
        then have "grows (Index l) t (doubleQuotedLoop l
            (sb @ (if d = rn CHR ''$'' \<or> d = rn CHR 0x22 \<or> d = rn CHR 0x5C then encode_rune d
                   else if d = 10 then [] else encode_rune (rn CHR 0x5C) @ encode_rune d)) (advance (advance t)))"
          by (intro grows_advance [OF rune(2)] grows_advance [OF d(2)])
        with c rune d show ?thesis by (simp add: doubleQuotedLoop.simps [of l sb t])
      qed
    next
      case c: 3
      define t1 where "t1 = (if Index (loc t) \<noteq> Index l then addSubWord t l STRING sb else t)"
      have sc: "scanner t1 = scanner t" by (simp add: t1_def)
      have g1: "grows (Index l) t (t1, None)"
        using grows_add [of t l] 1(4,5) by (auto simp: t1_def grows_def)
      obtain t2 e where v: "parseVariableExpansion QUOTED_VAR_EXPANSION t1 = (t2, e)"
        by (cases "parseVariableExpansion QUOTED_VAR_EXPANSION t1")
      have "grows (scIndex (scanner t1)) t1 (t2, e)"
        using parseVariableExpansion_grows [of t1] rune(2) sc v by metis
      then have g2: "grows (Index l) t (t2, e)" by (rule grows_seq [OF g1])
      show ?thesis
      proof (cases e)
        case (Some err)
        with c rune v g2 show ?thesis by (simp add: doubleQuotedLoop.simps [of l sb t] t1_def)
      next
        case None
        have "in_range (scanner t2)" using g2 by (simp add: grows_def forward_def)
        then have "grows (scIndex (scanner t2)) t2 (doubleQuotedLoop (loc t2) [] t2)"
          using 1(2) [OF rune(1) _ _ c] c v None by (simp add: t1_def)
        then have "grows (Index l) t (doubleQuotedLoop (loc t2) [] t2)"
          using grows_seq g2 None by blast
        with c rune v None show ?thesis by (simp add: doubleQuotedLoop.simps [of l sb t] t1_def)
      qed
    next
      case c: 4
      have "grows (Index l) (advance t) (doubleQuotedLoop l (sb @ encode_rune c) (advance t))"
        using 1(3) [OF rune(1) c] ai 1(5) by simp
      with c rune show ?thesis by (simp add: doubleQuotedLoop.simps [of l sb t] grows_advance)
    qed
  qed
qed

lemma unquotedLoop_grows:
  "in_range (scanner t) \<Longrightarrow> Index l \<le> scIndex (scanner t)
    \<Longrightarrow> Index l < scIndex (scanner t) \<or> (\<exists>c. Peek (scanner t) = Some c \<and> \<not> ends_unquoted c)
    \<Longrightarrow> grows (Index l) t (unquotedLoop l sb nf t, None)"
proof (induction l sb nf t rule: unquotedLoop.induct)
  case (1 l sb nf t)
  show ?case
  proof (cases rule: Peek_cases [of "scanner t"])
    case eof
    with 1(3-5) show ?thesis by (simp add: unquotedLoop.simps [of l sb nf t] grows_add)
  next
    case (rune c)
    note ai = advance_index [OF rune(2)]
    consider "ends_unquoted c" | "\<not> ends_unquoted c" "c = rn CHR 0x5C" | "\<not> ends_unquoted c" "c \<noteq> rn CHR 0x5C"
      by blast
    then show ?thesis
    proof cases
      case c: 1
      with rune 1(3-5) show ?thesis by (simp add: unquotedLoop.simps [of l sb nf t] grows_add)
    next
      case c: 2
      define t1 where "t1 = (if \<not> nf \<and> Index (loc t) \<noteq> Index l then addSubWord t l KEYWORD_STRING sb else t)"
      define l' where "l' = (if nf then l else loc t)"
      define sb' where "sb' = (if nf then sb else [])"
      have sc: "scanner t1 = scanner t" by (simp add: t1_def)
      have ne1: "\<not> Eof (scanner t1)" using rune sc by simp
      note ai1 = advance_index [OF ne1]
      have l': "Index l' \<le> scIndex (scanner t)" using 1(4) by (simp add: l'_def)
      have main: "grows (Index l') t1 r \<Longrightarrow> grows (Index l) t r" for r
      proof (cases "nf \<or> Index (loc t) = Index l")
        case True
        then have "t1 = t" "Index l' = Index l" by (auto simp: t1_def l'_def)
        then show "grows (Index l') t1 r \<Longrightarrow> grows (Index l) t r" by simp
      next
        case False
        then have "Index l < scIndex (scanner t)" "t1 = addSubWord t l KEYWORD_STRING sb" "l' = loc t"
          using 1(4) by (auto simp: t1_def l'_def)
        moreover have "grows (Index l) t (addSubWord t l KEYWORD_STRING sb, None)"
          using grows_add [of t l] 1(3) calculation(1) by blast
        ultimately show "grows (Index l') t1 r \<Longrightarrow> grows (Index l) t r"
          using grows_seq by (metis loc_Index sc)
      qed
      show ?thesis
      proof (cases rule: Peek_cases [of "scanner (advance t)"])
        case eof
        have "grows (Index l') (advance t1) (addSubWord (advance t1) l' STRING (sb' @ encode_rune (rn CHR 0x5C)), None)"
          using grows_add [of "advance t1" l'] ai1 l' sc by simp
        then have "grows (Index l) t (addSubWord (advance t1) l' STRING (sb' @ encode_rune (rn CHR 0x5C)), None)"
          by (intro main grows_advance [OF ne1])
        with c rune eof show ?thesis
          by (simp add: unquotedLoop.simps [of l sb nf t] Let_def t1_def l'_def sb'_def)
      next
        case d: (rune d)
        have ned: "\<not> Eof (scanner (advance t1))" using d sc by simp
        note aid = advance_index [OF ned]
        have "grows (Index l') (advance (advance t1))
            (unquotedLoop l' (if d = 10 then sb' else sb' @ encode_rune d) True (advance (advance t1)), None)"
          using 1(1) [OF rune(1) c t1_def l'_def sb'_def d(1)] aid ai1 l' sc by simp
        then have "grows (Index l) t
            (unquotedLoop l' (if d = 10 then sb' else sb' @ encode_rune d) True (advance (advance t1)), None)"
          by (intro main grows_advance [OF ne1] grows_advance [OF ned])
        moreover have "unquotedLoop l sb nf t =
            unquotedLoop l' (if d = 10 then sb' else sb' @ encode_rune d) True (advance (advance t1))"
          using c rune d by (subst unquotedLoop.simps) (simp add: Let_def t1_def l'_def sb'_def)
        ultimately show ?thesis by simp
      qed
    next
      case c: 3
      have "grows (Index l) (advance t) (unquotedLoop l (sb @ encode_rune c) nf (advance t), None)"
        using 1(2) [OF rune(1) c] ai 1(4) by simp
      with c rune show ?thesis by (simp add: unquotedLoop.simps [of l sb nf t] grows_advance)
    qed
  qed
qed

section \<open>The interface of the sub-word parsers\<close>

text \<open>Called where the next character is one that \<open>starts\<close> its kind of sub-word, a parser moves on by at
  least one character and adds sub-words that tile what it read.\<close>

locale subword_parser =
  fixes parse :: "Tokenizer \<Rightarrow> Tokenizer \<times> token_error option" and starts :: "nat \<Rightarrow> bool"
  assumes parse_grows: "\<And>t c. Peek (scanner t) = Some c \<Longrightarrow> starts c \<Longrightarrow> grows (scIndex (scanner t)) t (parse t)"
    and parse_moves: "\<And>t c. Peek (scanner t) = Some c \<Longrightarrow> starts c
      \<Longrightarrow> scIndex (scanner t) < scIndex (scanner (fst (parse t)))"
begin

lemma forward_parse:
  assumes "Peek (scanner t) = Some c" "starts c"
  shows "forward (scanner t) (scanner (fst (parse t)))" "tokens (fst (parse t)) = tokens t"
  using parse_grows [OF assms] by (auto simp: grows_def)

lemma left_over_parse:
  assumes "Peek (scanner t) = Some c" "starts c"
  shows "left_over (fst (parse t)) < left_over t"
  using forward_parse(1) [OF assms] parse_moves [OF assms] Peek_Some [OF assms(1)]
  by (simp add: forward_def left_over_def Eof_def diff_less_mono2)

lemma parse_seq:
  assumes "Peek (scanner t) = Some c" "starts c" "parse t = (t1, None)"
    and "grows (scIndex (scanner t1)) t1 r"
  shows "grows (scIndex (scanner t)) t r"
  using grows_seq [of "scIndex (scanner t)" t t1 r] parse_grows [OF assms(1,2)] assms(3,4) by simp

end

lemma forward_first:
  assumes "\<not> Eof (scanner t)" "forward (Next (scanner t)) s'"
  shows "scIndex (scanner t) < scIndex s'"
  using Next_progress(1) [OF assms(1)] assms(2) by (simp add: forward_def)

interpretation variable: subword_parser "parseVariableExpansion ty" "\<lambda>c. c = rn CHR ''$''"
  by unfold_locales
     (blast intro: parseVariableExpansion_grows forward_first parseVariableExpansion_forward dest: Peek_Some)+

interpretation single_quoted: subword_parser parseSingleQuotedString "\<lambda>c. c = rn CHR 0x27"
proof unfold_locales
  fix t :: Tokenizer and c assume p: "Peek (scanner t) = Some c" "c = rn CHR 0x27"
  note ne = Peek_Some [OF p(1)]
  show "grows (scIndex (scanner t)) t (parseSingleQuotedString t)"
    by (rule parseSingleQuotedString_grows [OF ne])
  obtain v s1 where r: "read_while (\<lambda>c. c \<noteq> rn CHR 0x27) [] (Next (scanner t)) = (v, s1)"
    by (cases "read_while (\<lambda>c. c \<noteq> rn CHR 0x27) [] (Next (scanner t))")
  have f: "forward (Next (scanner t)) s1" by (rule read_while_forward_eq [OF r Next_in_range [OF ne]])
  have "forward (Next (scanner t)) (scanner (fst (parseSingleQuotedString t)))"
    unfolding parseSingleQuotedString_def Let_def r prod.case
    using f forward_trans [OF f forward_Next] by simp
  then show "scIndex (scanner t) < scIndex (scanner (fst (parseSingleQuotedString t)))"
    by (rule forward_first [OF ne])
qed

interpretation double_quoted: subword_parser parseDoubleQuotedString "\<lambda>c. c = rn CHR 0x22"
proof unfold_locales
  fix t :: Tokenizer and c assume "Peek (scanner t) = Some c" "c = rn CHR 0x22"
  then have ne: "\<not> Eof (scanner t)" by (simp add: Peek_Some)
  have g: "grows (scIndex (scanner t)) (advance t) (parseDoubleQuotedString t)"
    using doubleQuotedLoop_grows [of "advance t" "loc t" "[]"] advance_index [OF ne]
    by (simp add: parseDoubleQuotedString_def)
  then show "grows (scIndex (scanner t)) t (parseDoubleQuotedString t)" by (rule grows_advance [OF ne])
  show "scIndex (scanner t) < scIndex (scanner (fst (parseDoubleQuotedString t)))"
    using g by (intro forward_first [OF ne]) (simp add: grows_def)
qed

lemma unquotedLoop_adds: "length (subWords t) < length (subWords (unquotedLoop l sb nf t))"
proof (induction l sb nf t rule: unquotedLoop.induct)
  case (1 l sb nf t)
  have add: "length (subWords (addSubWord u l' ty v)) = Suc (length (subWords u))" for u l' ty v
    by (simp add: addSubWord_def)
  show ?case
  proof (cases "Peek (scanner t)")
    case None
    then show ?thesis by (subst unquotedLoop.simps) (simp add: add)
  next
    case (Some c)
    consider "ends_unquoted c" | "\<not> ends_unquoted c" "c = rn CHR 0x5C" | "\<not> ends_unquoted c" "c \<noteq> rn CHR 0x5C"
      by blast
    then show ?thesis
    proof cases
      case 1
      with Some show ?thesis by (subst unquotedLoop.simps) (simp add: add)
    next
      case c: 2
      define t1 where "t1 = (if \<not> nf \<and> Index (loc t) \<noteq> Index l then addSubWord t l KEYWORD_STRING sb else t)"
      define l' where "l' = (if nf then l else loc t)"
      define sb' where "sb' = (if nf then sb else [])"
      have t1: "length (subWords t) \<le> length (subWords t1)" by (simp add: t1_def add)
      show ?thesis
      proof (cases "Peek (scanner (advance t))")
        case None
        with Some c show ?thesis by (subst unquotedLoop.simps) (simp add: add Let_def)
      next
        case d: (Some d)
        have "unquotedLoop l sb nf t =
            unquotedLoop l' (if d = 10 then sb' else sb' @ encode_rune d) True (advance (advance t1))"
          using c Some d by (subst unquotedLoop.simps) (simp add: Let_def t1_def l'_def sb'_def)
        then show ?thesis
          using 1(1) [OF Some c t1_def l'_def sb'_def d] t1 by simp
      qed
    next
      case c: 3
      with 1(2) [OF Some c] Some show ?thesis
        by (subst unquotedLoop.simps) simp
    qed
  qed
qed

interpretation unquoted: subword_parser "\<lambda>t. (parseUnquotedString nf t, None)" "\<lambda>c. \<not> ends_unquoted c"
proof unfold_locales
  fix t :: Tokenizer and c assume p: "Peek (scanner t) = Some c" "\<not> ends_unquoted c"
  then have "in_range (scanner t)" using Peek_Some [OF p(1)] by (simp add: Eof_def in_range_def)
  then show g: "grows (scIndex (scanner t)) t (parseUnquotedString nf t, None)"
    using unquotedLoop_grows [of t "loc t" "[]" nf] p by (simp add: parseUnquotedString_def)
  then obtain new where new: "subWords (parseUnquotedString nf t) = subWords t @ new"
    "tiles (scContent (scanner t)) (scIndex (scanner t)) new (scIndex (scanner (parseUnquotedString nf t)))"
    by (auto simp: grows_def)
  then obtain w ws where "new = w # ws"
    using unquotedLoop_adds [of t "loc t" "[]" nf] by (cases new) (auto simp: parseUnquotedString_def)
  then show "scIndex (scanner t) < scIndex (scanner (fst (parseUnquotedString nf t, None)))"
    using new(2) tiles_le by fastforce
qed

section \<open>Words and the token loop\<close>

definition parseSubWord :: "bool \<Rightarrow> nat \<Rightarrow> Tokenizer \<Rightarrow> Tokenizer \<times> token_error option" where
  "parseSubWord notFirst c t =
     (if c = rn CHR 0x22 then parseDoubleQuotedString t
      else if c = rn CHR 0x27 then parseSingleQuotedString t
      else if c = rn CHR ''$'' then parseVariableExpansion VAR_EXPANSION t
      else (parseUnquotedString notFirst t, None))"

lemma parseSubWord_interface:
  assumes "Peek (scanner t) = Some c" "\<not> ends_word c"
  shows "grows (scIndex (scanner t)) t (parseSubWord nf c t)"
    "left_over (fst (parseSubWord nf c t)) < left_over t"
    "scIndex (scanner t) < scIndex (scanner (fst (parseSubWord nf c t)))"
proof -
  consider "c = rn CHR 0x22" | "c = rn CHR 0x27" | "c = rn CHR ''$''"
    | "c \<noteq> rn CHR 0x22" "c \<noteq> rn CHR 0x27" "c \<noteq> rn CHR ''$''" by blast
  then have "grows (scIndex (scanner t)) t (parseSubWord nf c t)
    \<and> left_over (fst (parseSubWord nf c t)) < left_over t
    \<and> scIndex (scanner t) < scIndex (scanner (fst (parseSubWord nf c t)))"
  proof cases
    case 1
    with assms show ?thesis
      using double_quoted.parse_grows double_quoted.left_over_parse double_quoted.parse_moves
      by (simp add: parseSubWord_def)
  next
    case 2
    with assms show ?thesis
      using single_quoted.parse_grows single_quoted.left_over_parse single_quoted.parse_moves
      by (simp add: parseSubWord_def)
  next
    case 3
    with assms show ?thesis
      using variable.parse_grows variable.left_over_parse variable.parse_moves
      by (simp add: parseSubWord_def)
  next
    case 4
    then have "\<not> ends_unquoted c" using assms(2) by (simp add: ends_unquoted_def)
    with assms 4 show ?thesis
      using unquoted.parse_grows unquoted.left_over_parse unquoted.parse_moves
      by (simp add: parseSubWord_def)
  qed
  then show "grows (scIndex (scanner t)) t (parseSubWord nf c t)"
    "left_over (fst (parseSubWord nf c t)) < left_over t"
    "scIndex (scanner t) < scIndex (scanner (fst (parseSubWord nf c t)))" by auto
qed

function wordLoop :: "bool \<Rightarrow> Tokenizer \<Rightarrow> Tokenizer \<times> token_error option" where
  "wordLoop notFirst t =
     (case Peek (scanner t) of
        None \<Rightarrow> (t, None)
      | Some c \<Rightarrow>
          if ends_word c then (t, None)
          else (case parseSubWord notFirst c t of
                  (t', Some e) \<Rightarrow> (t', Some e)
                | (t', None) \<Rightarrow> wordLoop True t'))"
  by pat_completeness auto
termination wordLoop
proof (relation "measure (\<lambda>(nf, t). left_over t)", goal_cases)
  case (2 nf t c t' e)
  then show ?case using parseSubWord_interface(2) [of t c nf] by (metis fst_conv in_measure case_prod_conv)
qed simp

declare wordLoop.simps [simp del]

definition parseWord :: "Tokenizer \<Rightarrow> Tokenizer \<times> token_error option" where
  "parseWord t =
     (case Peek (scanner t) of
        None \<Rightarrow> (t, None)
      | Some c \<Rightarrow>
          if c = rn CHR ''#'' then (parseComment t, None)
          else (case wordLoop False (t\<lparr>subWords := []\<rparr>) of
                  (t', e) \<Rightarrow>
                    (t'\<lparr>tokens := tokens t' @ [(newToken t' (loc t) (loc t') WORD)\<lparr>SubWords := subWords t'\<rparr>],
                        subWords := []\<rparr>, e)))"

lemma wordLoop_grows:
  "in_range (scanner t) \<Longrightarrow> grows (scIndex (scanner t)) t (wordLoop nf t)"
proof (induction nf t rule: wordLoop.induct)
  case (1 nf t)
  have stop: "grows (scIndex (scanner t)) t (t, None)" using 1(2) by (simp add: grows_def)
  show ?case
  proof (cases "Peek (scanner t)")
    case None
    with stop show ?thesis by (simp add: wordLoop.simps [of nf t])
  next
    case (Some c)
    show ?thesis
    proof (cases "ends_word c")
      case True
      with Some stop show ?thesis by (simp add: wordLoop.simps [of nf t])
    next
      case False
      obtain t1 e where p: "parseSubWord nf c t = (t1, e)" by (cases "parseSubWord nf c t")
      then have g: "grows (scIndex (scanner t)) t (t1, e)"
        using parseSubWord_interface(1) [OF Some False, of nf] by simp
      show ?thesis
      proof (cases e)
        case None
        have "in_range (scanner t1)" using g by (simp add: grows_def forward_def)
        with 1(1) [OF Some False p [symmetric]] None have "grows (scIndex (scanner t1)) t1 (wordLoop True t1)" by simp
        then have "grows (scIndex (scanner t)) t (wordLoop True t1)" using grows_seq g None by blast
        with Some False p None show ?thesis by (simp add: wordLoop.simps [of nf t])
      next
        case (Some err)
        with g p False \<open>Peek (scanner t) = Some c\<close> show ?thesis by (simp add: wordLoop.simps [of nf t])
      qed
    qed
  qed
qed

lemma parseWord_scanner:
  assumes "Peek (scanner t) = Some c" "\<not> ends_word c" "parseWord t = (t', e)"
  shows "scIndex (scanner t) < scIndex (scanner t') \<and> forward (scanner t) (scanner t')"
proof (cases "c = rn CHR ''#''")
  case True
  note ne = Peek_Some [OF assms(1)]
  have "forward (Next (scanner t)) (scanner t')"
    using assms(1,3) True read_while_forward [OF Next_in_range [OF ne]]
    by (auto simp: parseWord_def parseComment_def)
  then show ?thesis
    using forward_first [OF ne] forward_trans [OF forward_Next [OF ne]] by blast
next
  case False
  let ?t0 = "t\<lparr>subWords := []\<rparr>"
  obtain t1 e1 where w: "wordLoop False ?t0 = (t1, e1)" by (cases "wordLoop False ?t0")
  have t': "scanner t' = scanner t1" using assms(1,3) False w by (auto simp: parseWord_def)
  have p0: "Peek (scanner ?t0) = Some c" using assms(1) by simp
  have inr: "in_range (scanner ?t0)" using Peek_Some [OF p0] by (simp add: Eof_def in_range_def)
  have f: "forward (scanner t) (scanner t1)" using wordLoop_grows [OF inr, of False] w by (simp add: grows_def)
  obtain t2 e2 where s: "parseSubWord False c ?t0 = (t2, e2)" by (cases "parseSubWord False c ?t0")
  have lt: "scIndex (scanner t) < scIndex (scanner t2)"
    using parseSubWord_interface(3) [OF p0 assms(2), of False] s by simp
  have g2: "grows (scIndex (scanner ?t0)) ?t0 (t2, e2)"
    using parseSubWord_interface(1) [OF p0 assms(2), of False] s by simp
  have "scIndex (scanner t2) \<le> scIndex (scanner t1)"
  proof (cases e2)
    case None
    then have "wordLoop True t2 = (t1, e1)"
      using w p0 assms(2) s by (subst (asm) wordLoop.simps) simp
    moreover have "in_range (scanner t2)" using g2 by (simp add: grows_def forward_def)
    ultimately show ?thesis using wordLoop_grows [of t2 True] by (simp add: grows_def forward_def)
  next
    case (Some err)
    then show ?thesis using w p0 assms(2) s by (subst (asm) wordLoop.simps) simp
  qed
  with lt f t' show ?thesis by simp
qed

lemma left_over_less:
  "scIndex (scanner t) < scIndex (scanner t') \<Longrightarrow> forward (scanner t) (scanner t') \<Longrightarrow> left_over t' < left_over t"
  by (auto simp: forward_def left_over_def in_range_def)

lemma parseSpace_scanner:
  assumes "Peek (scanner t) = Some c" "is_blank c"
  shows "scIndex (scanner t) < scIndex (scanner (parseSpace t)) \<and> forward (scanner t) (scanner (parseSpace t))"
proof -
  note ne = Peek_Some [OF assms(1)]
  have "read_while is_blank [] (scanner t) = read_while is_blank ([] @ encode_rune c) (Next (scanner t))"
    using assms by (subst read_while.simps) simp
  then have "forward (Next (scanner t)) (scanner (parseSpace t))"
    using read_while_forward [OF Next_in_range [OF ne]] by (simp add: parseSpace_def)
  then show ?thesis using forward_first [OF ne] forward_trans [OF forward_Next [OF ne]] by blast
qed

function tokenizeLoop :: "Tokenizer \<Rightarrow> Tokenizer \<times> token_error option" where
  "tokenizeLoop t =
     (case Peek (scanner t) of
        None \<Rightarrow> (t, None)
      | Some c \<Rightarrow>
          (case metaToken c of
             Some tokenType \<Rightarrow>
               tokenizeLoop ((advance t)\<lparr>tokens := tokens t @ [newToken t (loc t) (loc (advance t)) tokenType]\<rparr>)
           | None \<Rightarrow>
               if is_blank c then tokenizeLoop (parseSpace t)
               else (case parseWord t of
                       (t', Some e) \<Rightarrow> (t', Some e)
                     | (t', None) \<Rightarrow> tokenizeLoop t')))"
  by pat_completeness auto
termination tokenizeLoop
proof (relation "measure left_over", goal_cases)
  case (2 t c)
  then show ?case using parseSpace_scanner left_over_less by simp
next
  case (3 t c t' e)
  then have "\<not> ends_word c" by (simp add: ends_word_def)
  with 3 show ?case using parseWord_scanner [of t c t' e] left_over_less by simp
next
  case (4 t c ty)
  then show ?case using left_over_advance [of t] Peek_Some by (simp add: left_over_def)
qed simp

declare tokenizeLoop.simps [simp del]

definition TokenizeConfig :: "string \<Rightarrow> Token list \<times> token_error option" where
  "TokenizeConfig configContent =
     (case tokenizeLoop \<lparr>scanner = NewFileScanner configContent, tokens = [], subWords = []\<rparr> of
        (t, e) \<Rightarrow> (tokens t, e))"

section \<open>The tokens cover the content\<close>

text \<open>What may stand between two tokens: spaces and tabs, then possibly a comment.\<close>

definition gap :: "string \<Rightarrow> bool" where
  "gap s = (let r = dropWhile (\<lambda>x. is_blank (byte x)) s in r = [] \<or> hd r = CHR ''#'' \<and> CHR 0x0A \<notin> set r)"

definition token_ok :: "string \<Rightarrow> Token \<Rightarrow> bool" where
  "token_ok content tok \<longleftrightarrow>
     (let i = Index (Start (tokLoc tok)); j = Index (End (tokLoc tok)) in
      i < j \<and> j \<le> length content \<and> RawContent tok = substr i j content
      \<and> (if tokType tok = WORD then tiles content i (SubWords tok) j
         else SubWords tok = [] \<and> (\<exists>x. RawContent tok = [x] \<and> metaToken (byte x) = Some (tokType tok))))"

fun covers :: "string \<Rightarrow> nat \<Rightarrow> Token list \<Rightarrow> nat \<Rightarrow> bool" where
  "covers content i [] j \<longleftrightarrow> i \<le> j \<and> j \<le> length content \<and> gap (substr i j content)"
| "covers content i (tok # toks) j \<longleftrightarrow>
     i \<le> Index (Start (tokLoc tok)) \<and> gap (substr i (Index (Start (tokLoc tok))) content)
     \<and> token_ok content tok \<and> covers content (Index (End (tokLoc tok))) toks j"

lemma gap_blanks: "\<forall>x \<in> set s. is_blank (byte x) \<Longrightarrow> gap s"
  by (simp add: gap_def)

lemma gap_comment: "CHR 0x0A \<notin> set s \<Longrightarrow> gap (CHR ''#'' # s)"
  by (simp add: gap_def is_blank_def Let_def)

lemma gap_no_newline: "gap s \<Longrightarrow> CHR 0x0A \<notin> set s"
proof -
  assume g: "gap s"
  have "CHR 0x0A \<notin> set (takeWhile (\<lambda>x. is_blank (byte x)) s)"
    by (auto dest!: set_takeWhileD simp: is_blank_def)
  moreover have "CHR 0x0A \<notin> set (dropWhile (\<lambda>x. is_blank (byte x)) s)"
    using g by (cases "dropWhile (\<lambda>x. is_blank (byte x)) s = []")
      (auto simp: gap_def Let_def simp del: dropWhile_eq_Nil_conv)
  ultimately show ?thesis by (metis Un_iff set_append takeWhile_dropWhile_id)
qed

lemma gap_append:
  assumes "gap x" "gap y"
  shows "gap (x @ y)"
proof (cases "\<forall>z \<in> set x. is_blank (byte z)")
  case True
  then show ?thesis using assms(2) by (simp add: gap_def dropWhile_append2)
next
  case False
  then have "dropWhile (\<lambda>z. is_blank (byte z)) (x @ y) = dropWhile (\<lambda>z. is_blank (byte z)) x @ y"
    and "dropWhile (\<lambda>z. is_blank (byte z)) x \<noteq> []"
    by (auto simp: dropWhile_append1)
  then show ?thesis using assms gap_no_newline [OF assms(2)] by (auto simp: gap_def Let_def)
qed

lemma gap_Nil [simp]: "gap []" by (simp add: gap_def)

lemma covers_snoc:
  "covers c i toks (Index (Start (tokLoc tok))) \<Longrightarrow> token_ok c tok
    \<Longrightarrow> covers c i (toks @ [tok]) (Index (End (tokLoc tok)))"
  by (induction toks arbitrary: i) (auto simp: token_ok_def Let_def)

lemma covers_extend:
  "covers c i toks j \<Longrightarrow> j \<le> k \<Longrightarrow> k \<le> length c \<Longrightarrow> gap (substr j k c) \<Longrightarrow> covers c i toks k"
proof (induction toks arbitrary: i)
  case Nil
  then have "substr i k c = substr i j c @ substr j k c" by (simp add: substr_append)
  with Nil show ?case by (simp add: gap_append)
qed simp

text \<open>The bytes a reading loop goes over.\<close>

lemma Next_text:
  assumes "Peek s = Some c"
  shows "(c < 128 \<and> substr (scIndex s) (scIndex (Next s)) (scContent s) = [char_of c])
    \<or> (128 \<le> c \<and> (\<forall>x \<in> set (substr (scIndex s) (scIndex (Next s)) (scContent s)). 128 \<le> byte x))"
proof -
  have ne: "rest s \<noteq> []" using Peek_Some [OF assms] by (simp add: Eof_rest)
  obtain w where d: "DecodeRune (rest s) = (c, w)"
    using assms by (cases "DecodeRune (rest s)") (auto simp: Peek_def peek_rune_def updateRune_def rest_def split: if_splits)
  have t: "substr (scIndex s) (scIndex (Next s)) (scContent s) = take w (rest s)"
    using d by (simp add: substr_def rest_def Next_index updateRune_def)
  obtain x u where x: "rest s = x # u" using ne by (cases "rest s") auto
  show ?thesis using DecodeRune_split [OF d ne] x by (auto simp: t)
qed

lemma read_while_text:
  assumes "\<And>c. p c \<Longrightarrow> c < 128 \<Longrightarrow> P (char_of c)" "\<And>c x. p c \<Longrightarrow> 128 \<le> c \<Longrightarrow> 128 \<le> byte x \<Longrightarrow> P x"
  shows "in_range s \<Longrightarrow> \<forall>x \<in> set (substr (scIndex s) (scIndex (snd (read_while p sb s))) (scContent s)). P x"
  using assms
proof (induction p sb s rule: read_while.induct)
  case (1 p sb s)
  show ?case
  proof (cases "\<exists>c. Peek s = Some c \<and> p c")
    case False
    then have "snd (read_while p sb s) = s"
      by (subst read_while.simps) (auto split: option.splits)
    then show ?thesis by simp
  next
    case True
    then obtain c where c: "Peek s = Some c" "p c" by blast
    note ne = Peek_Some [OF c(1)]
    have r: "read_while p sb s = read_while p (sb @ encode_rune c) (Next s)"
      using c by (subst read_while.simps) simp
    have IH: "\<forall>x \<in> set (substr (scIndex (Next s)) (scIndex (snd (read_while p sb s))) (scContent s)). P x"
      using 1(1) [OF c Next_in_range [OF ne]] 1(3,4) r by simp
    have "\<forall>x \<in> set (substr (scIndex s) (scIndex (Next s)) (scContent s)). P x"
      using Next_text [OF c(1)] 1(3) [OF c(2)] 1(4) [OF c(2)] by auto
    moreover have "scIndex s \<le> scIndex (Next s)" "scIndex (Next s) \<le> scIndex (snd (read_while p sb s))"
      using Next_progress(1) [OF ne] read_while_forward [OF Next_in_range [OF ne]] r by (auto simp: forward_def)
    ultimately show ?thesis
      using IH substr_append [of "scIndex s" "scIndex (Next s)" "scIndex (snd (read_while p sb s))" "scContent s"]
      by (metis Un_iff set_append)
  qed
qed

lemma parseSpace_gap:
  assumes "in_range (scanner t)"
  shows "gap (substr (scIndex (scanner t)) (scIndex (scanner (parseSpace t))) (scContent (scanner t)))"
  using read_while_text [of is_blank "\<lambda>x. is_blank (byte x)" "scanner t" "[]"] assms
  by (intro gap_blanks) (auto simp: parseSpace_def is_blank_def)

lemma parseComment_gap:
  assumes "Peek (scanner t) = Some (rn CHR ''#'')"
  shows "gap (substr (scIndex (scanner t)) (scIndex (scanner (parseComment t))) (scContent (scanner t)))"
proof -
  let ?s = "scanner t"
  let ?s' = "snd (read_while (\<lambda>c. c \<noteq> 10) [] (Next ?s))"
  note ne = Peek_Some [OF assms]
  have one: "substr (scIndex ?s) (scIndex (Next ?s)) (scContent ?s) = ''#''"
    using Next_text [OF assms] by (simp add: char_of_eq_iff)
  have "\<forall>x \<in> set (substr (scIndex (Next ?s)) (scIndex ?s') (scContent ?s)). x \<noteq> CHR 0x0A"
  proof -
    have 1: "char_of c \<noteq> CHR 0x0A" if "c \<noteq> 10" "c < 128" for c :: nat
      using that by (simp add: char_of_eq_iff take_bit_eq_mod)
    have 2: "x \<noteq> CHR 0x0A" if "128 \<le> byte x" for x using that by auto
    have "\<forall>x \<in> set (substr (scIndex (Next ?s)) (scIndex ?s') (scContent (Next ?s))). x \<noteq> CHR 0x0A"
      by (rule read_while_text) (rule 1 2 Next_in_range [OF ne]; assumption)+
    then show ?thesis by simp
  qed
  then have "CHR 0x0A \<notin> set (substr (scIndex (Next ?s)) (scIndex ?s') (scContent ?s))" by blast
  moreover have "scIndex ?s \<le> scIndex (Next ?s)" "scIndex (Next ?s) \<le> scIndex ?s'"
    using Next_progress(1) [OF ne] read_while_forward [OF Next_in_range [OF ne]] by (auto simp: forward_def)
  ultimately show ?thesis
    using one substr_append [of "scIndex ?s" "scIndex (Next ?s)" "scIndex ?s'" "scContent ?s"] gap_comment
    by (metis append_Cons append_Nil parseComment_def Tokenizer.select_convs(1) Tokenizer.surjective Tokenizer.update_convs(1))
qed

text \<open>One word.\<close>

lemma parseWord_covers:
  assumes p: "Peek (scanner t) = Some c" "\<not> ends_word c" "parseWord t = (t', None)"
    and cov: "covers (scContent (scanner t)) 0 (tokens t) (scIndex (scanner t))"
  shows "covers (scContent (scanner t)) 0 (tokens t') (scIndex (scanner t'))"
proof -
  note S = parseWord_scanner [OF p]
  then have f: "scIndex (scanner t') \<le> length (scContent (scanner t))" "scIndex (scanner t) \<le> scIndex (scanner t')"
    by (auto simp: forward_def in_range_def)
  show ?thesis
  proof (cases "c = rn CHR ''#''")
    case True
    then have t': "t' = parseComment t" using p by (simp add: parseWord_def)
    then have "tokens t' = tokens t" by (simp add: parseComment_def)
    then show ?thesis
      using covers_extend [OF cov f(2,1)] parseComment_gap [of t] p(1) True t' by simp
  next
    case False
    let ?t0 = "t\<lparr>subWords := []\<rparr>"
    obtain t1 where w: "wordLoop False ?t0 = (t1, None)"
      and t': "t' = t1\<lparr>tokens := tokens t1 @ [(newToken t1 (loc t) (loc t1) WORD)\<lparr>SubWords := subWords t1\<rparr>], subWords := []\<rparr>"
      using p False by (auto simp: parseWord_def split: prod.splits)
    have inr: "in_range (scanner ?t0)" using Peek_Some [OF p(1)] by (simp add: Eof_def in_range_def)
    have g: "grows (scIndex (scanner ?t0)) ?t0 (t1, None)" using wordLoop_grows [OF inr, of False] w by simp
    then have tl: "tiles (scContent (scanner t)) (scIndex (scanner t)) (subWords t1) (scIndex (scanner t1))"
      and tk: "tokens t1 = tokens t" and c1: "scContent (scanner t1) = scContent (scanner t)"
      by (auto simp: grows_def forward_def)
    let ?tok = "(newToken t1 (loc t) (loc t1) WORD)\<lparr>SubWords := subWords t1\<rparr>"
    have "token_ok (scContent (scanner t)) ?tok"
      using S f tl c1 t' by (simp add: token_ok_def newToken_def Let_def)
    then have "covers (scContent (scanner t)) 0 (tokens t @ [?tok]) (Index (End (tokLoc ?tok)))"
      using cov by (intro covers_snoc) (simp_all add: newToken_def)
    then show ?thesis using t' tk by (simp add: newToken_def)
  qed
qed

lemma metaToken_small: "metaToken c = Some ty \<Longrightarrow> c < 128 \<and> ty \<noteq> WORD"
  by (auto simp: metaToken_def split: if_splits)

lemma tokenizeLoop_covers:
  "in_range (scanner t) \<Longrightarrow> covers (scContent (scanner t)) 0 (tokens t) (scIndex (scanner t))
    \<Longrightarrow> tokenizeLoop t = (t', None)
    \<Longrightarrow> covers (scContent (scanner t)) 0 (tokens t') (length (scContent (scanner t)))"
proof (induction t arbitrary: t' rule: tokenizeLoop.induct)
  case (1 t)
  show ?case
  proof (cases rule: Peek_cases [of "scanner t"])
    case eof
    then have "t' = t" using 1(6) by (simp add: tokenizeLoop.simps [of t])
    moreover have "scIndex (scanner t) = length (scContent (scanner t))"
      using eof 1(4) by (simp add: Eof_def in_range_def)
    ultimately show ?thesis using 1(5) by simp
  next
    case (rune c)
    note ai = advance_index [OF rune(2)]
    show ?thesis
    proof (cases "metaToken c")
      case (Some ty)
      let ?tok = "newToken t (loc t) (loc (advance t)) ty"
      let ?t1 = "(advance t)\<lparr>tokens := tokens t @ [?tok]\<rparr>"
      have x: "substr (scIndex (scanner t)) (scIndex (Next (scanner t))) (scContent (scanner t)) = [char_of c]"
        using Next_text [OF rune(1)] metaToken_small [OF Some] by auto
      have "token_ok (scContent (scanner t)) ?tok"
        using ai metaToken_small [OF Some] Some x
        by (simp add: token_ok_def newToken_def Let_def in_range_def)
      then have "covers (scContent (scanner t)) 0 (tokens t @ [?tok]) (Index (End (tokLoc ?tok)))"
        using 1(5) by (intro covers_snoc) (simp_all add: newToken_def)
      then have "covers (scContent (scanner ?t1)) 0 (tokens ?t1) (scIndex (scanner ?t1))"
        by (simp add: newToken_def)
      moreover have "tokenizeLoop ?t1 = (t', None)"
        using 1(6) rune Some by (simp add: tokenizeLoop.simps [of t])
      ultimately show ?thesis using 1(3) [OF rune(1) Some] ai by simp
    next
      case None
      show ?thesis
      proof (cases "is_blank c")
        case True
        note S = parseSpace_scanner [OF rune(1) True]
        then have "covers (scContent (scanner t)) 0 (tokens t) (scIndex (scanner (parseSpace t)))"
          by (intro covers_extend [OF 1(5) _ _ parseSpace_gap [OF 1(4)]]) (auto simp: forward_def in_range_def)
        then show ?thesis
          using 1(1) [OF rune(1) None True] S 1(6) rune None True
          by (simp add: tokenizeLoop.simps [of t] forward_def parseSpace_def)
      next
        case False
        then have ew: "\<not> ends_word c" using None by (simp add: ends_word_def)
        obtain t1 e where w: "parseWord t = (t1, e)" by (cases "parseWord t")
        have e: "e = None"
        proof (rule ccontr)
          assume "e \<noteq> None"
          then obtain err where "e = Some err" by blast
          with w 1(6) rune None False show False by (simp add: tokenizeLoop.simps [of t])
        qed
        note S = parseWord_scanner [OF rune(1) ew w]
        have "covers (scContent (scanner t1)) 0 (tokens t1) (scIndex (scanner t1))"
          using parseWord_covers [OF rune(1) ew _ 1(5)] w e S by (simp add: forward_def)
        moreover have "tokenizeLoop t1 = (t', None)"
          using 1(6) rune None False w e by (simp add: tokenizeLoop.simps [of t])
        ultimately show ?thesis
          using 1(2) [OF rune(1) None False w [symmetric] e] S by (simp add: forward_def)
      qed
    qed
  qed
qed

section \<open>Properties\<close>

lemmas tokenize_eval = TokenizeConfig_def tokenizeLoop.simps Peek_def NewFileScanner_def Eof_def
  peek_rune_def updateRune_def DecodeRune_def metaToken_def is_blank_def parseWord_def wordLoop.simps
  ends_word_def parseSubWord_def parseUnquotedString_def unquotedLoop.simps ends_unquoted_def Next_def
  loc_def Loc_def addSubWord_def newSubWord_def advance_def newToken_def substr_def encode_rune_def
  valid_rune_def parseSpace_def read_while.simps

text \<open>C14. Tokenizing a grub configuration without error loses nothing: the tokens lie in order without
  overlap; each holds exactly the text between its source locations; what is left out between them
  is spaces, tabs and comments; a metacharacter token is that character; and the sub-words of a
  word tile it, so that their raw contents joined are the word's.\<close>

theorem TokenizeConfig_covers:
  assumes "TokenizeConfig content = (toks, None)"
  shows "covers content 0 toks (length content)
    \<and> (\<forall>tok \<in> set toks. tokType tok = WORD \<longrightarrow> concat (map swRawContent (SubWords tok)) = RawContent tok)"
proof -
  let ?t0 = "\<lparr>scanner = NewFileScanner content, tokens = [], subWords = []\<rparr>"
  obtain t where t: "tokenizeLoop ?t0 = (t, None)" "toks = tokens t"
    using assms by (auto simp: TokenizeConfig_def split: prod.splits)
  have cov: "covers content 0 toks (length content)"
    using tokenizeLoop_covers [OF _ _ t(1)] t(2) by simp
  have ok: "covers content i ts j \<Longrightarrow> \<forall>tok \<in> set ts. token_ok content tok" for i ts j
    by (induction ts arbitrary: i) auto
  show ?thesis
    using cov ok [OF cov] tiles_raw by (auto simp: token_ok_def Let_def)
qed

theorem TokenizeConfig_covers_witness:
  "covers ''set a'' 0 (fst (TokenizeConfig ''set a'')) 5"
proof -
  have "snd (TokenizeConfig ''set a'') = None" by (simp add: tokenize_eval)
  then have "TokenizeConfig ''set a'' = (fst (TokenizeConfig ''set a''), None)" by (simp add: prod_eq_iff)
  from TokenizeConfig_covers [OF this] show ?thesis by (simp add: eval_nat_numeral)
qed

end
