(* ===== verification/GrubUtils.thy ===== *)
theory GrubUtils
  imports GrubTokenizer
begin

text \<open>
  \<open>internal/grub/grubutils.go\<close> and \<open>commands.go\<close>: tokens grouped into lines, commands found by their
  keyword, and strings quoted for a grub configuration file. The lemmas run the tokenizer on text
  the quoting functions wrote: a quoted value, and a list of arguments, read back as themselves.
\<close>

section \<open>Lines\<close>

record GrubLine =
  Tokens :: "Token list"
  EndToken :: "Token option"

definition appendNewLine :: "GrubLine list \<Rightarrow> Token list \<Rightarrow> Token option \<Rightarrow> GrubLine list" where
  "appendNewLine ls toks endToken =
     (if length toks \<le> 0 then ls else ls @ [\<lparr>Tokens = toks, EndToken = endToken\<rparr>])"

fun splitLoop :: "GrubLine list \<Rightarrow> Token list \<Rightarrow> Token list \<Rightarrow> GrubLine list" where
  "splitLoop ls lineTokens [] = appendNewLine ls lineTokens None"
| "splitLoop ls lineTokens (tok # toks) =
     (if tokType tok = NEWLINE \<or> tokType tok = SEMICOLON
      then splitLoop (appendNewLine ls lineTokens (Some tok)) [] toks
      else splitLoop ls (lineTokens @ [tok]) toks)"

definition SplitTokensIntoLines :: "Token list \<Rightarrow> GrubLine list" where
  "SplitTokensIntoLines toks = splitLoop [] [] toks"

definition IsTokenKeyword :: "Token \<Rightarrow> string \<Rightarrow> bool" where
  "IsTokenKeyword tok keyword \<longleftrightarrow>
     tokType tok = WORD \<and> length (SubWords tok) = 1
     \<and> swType (SubWords tok ! 0) = KEYWORD_STRING \<and> swValue (SubWords tok ! 0) = keyword"

fun FindCommandAll :: "GrubLine list \<Rightarrow> string \<Rightarrow> GrubLine list" where
  "FindCommandAll [] command = []"
| "FindCommandAll (line # ls) command =
     (if length (Tokens line) \<ge> 1 \<and> IsTokenKeyword (Tokens line ! 0) command
      then line # FindCommandAll ls command else FindCommandAll ls command)"

lemma FindCommandAll_filter:
  "FindCommandAll ls command = filter (\<lambda>l. Tokens l \<noteq> [] \<and> IsTokenKeyword (hd (Tokens l)) command) ls"
  by (induction ls) (auto simp: hd_conv_nth Suc_le_eq)

definition is_separator :: "Token \<Rightarrow> bool" where
  "is_separator tok \<longleftrightarrow> tokType tok = NEWLINE \<or> tokType tok = SEMICOLON"

lemma splitLoop_acc: "splitLoop ls lt toks = ls @ splitLoop [] lt toks"
proof (induction toks arbitrary: ls lt)
  case Nil
  then show ?case by (simp add: appendNewLine_def)
next
  case (Cons tok toks)
  have "splitLoop (appendNewLine ls lt (Some tok)) [] toks = ls @ splitLoop (appendNewLine [] lt (Some tok)) [] toks"
    using Cons.IH [of "appendNewLine ls lt (Some tok)" "[]"] Cons.IH [of "appendNewLine [] lt (Some tok)" "[]"]
    by (simp add: appendNewLine_def)
  then show ?case using Cons.IH [of ls "lt @ [tok]"] by simp
qed

section \<open>Quoting\<close>

definition RequiresQuotes :: "string \<Rightarrow> bool" where
  "RequiresQuotes value \<longleftrightarrow>
     HasPrefix value ''#'' \<or> ContainsAny value (''{}|&;<> '' @ [CHR 0x09, CHR 0x0A, CHR 0x22, CHR 0x27, CHR ''$''])"

definition quote_rune :: "nat \<Rightarrow> string" where
  "quote_rune c =
     (if c = rn CHR ''$'' \<or> c = rn CHR 0x22 \<or> c = rn CHR 0x5C
      then encode_rune (rn CHR 0x5C) @ encode_rune c else encode_rune c)"

definition ForceQuoteString :: "string \<Rightarrow> string" where
  "ForceQuoteString value = [CHR 0x22] @ concat (map quote_rune (range_runes value)) @ [CHR 0x22]"

definition QuoteString :: "string \<Rightarrow> string" where
  "QuoteString value = (if RequiresQuotes value then ForceQuoteString value else value)"

section \<open>Reading a quoted string\<close>

text \<open>What a token says, without its place in the file.\<close>

definition word_view :: "Token \<Rightarrow> TokenType \<times> (SubWordType \<times> string) list" where
  "word_view tok = (tokType tok, map (\<lambda>w. (swType w, swValue w)) (SubWords tok))"

lemma encode_ascii_char: "byte c < 128 \<Longrightarrow> encode_rune (byte c) = [c]"
  by (simp add: encode_rune_ascii)

lemma encode_quote: "encode_rune (rn CHR 0x22) = [CHR 0x22]"
  by (rule encode_ascii_char) simp

lemma quote_rune_special:
  "r = rn CHR ''$'' \<or> r = rn CHR 0x22 \<or> r = rn CHR 0x5C
    \<Longrightarrow> quote_rune r = encode_rune (rn CHR 0x5C) @ encode_rune r"
  by (simp only: quote_rune_def if_True)

lemma quote_rune_plain:
  "\<not> (r = rn CHR ''$'' \<or> r = rn CHR 0x22 \<or> r = rn CHR 0x5C) \<Longrightarrow> quote_rune r = encode_rune r"
  by (simp only: quote_rune_def if_False)

text \<open>The loop between the quotes, on what \<open>quote_rune\<close> wrote.\<close>

lemma doubleQuotedLoop_reads:
  assumes "rest (scanner t) = concat (map quote_rune rs) @ encode_rune (rn CHR 0x22) @ u" "list_all valid_rune rs"
  shows "\<exists>t'. doubleQuotedLoop l sb t = (t', None) \<and> rest (scanner t') = u \<and> tokens t' = tokens t
    \<and> (\<exists>w. subWords t' = subWords t @ [w] \<and> swType w = STRING \<and> swValue w = sb @ encode_runes rs)"
  using assms
proof (induction rs arbitrary: t sb)
  case Nil
  then have r: "rest (scanner t) = encode_rune (rn CHR 0x22) @ u" "valid_rune (rn CHR 0x22)"
    by (simp_all add: valid_rune_def)
  note P = Peek_rest [OF r]
  have "doubleQuotedLoop l sb t = (addSubWord (advance t) l STRING sb, None)"
    using P(1) by (subst doubleQuotedLoop.simps) simp
  then show ?case using P(2) by (simp add: addSubWord_def newSubWord_def advance_def)
next
  case (Cons r rs)
  let ?u = "concat (map quote_rune rs) @ encode_rune (rn CHR 0x22) @ u"
  have v: "valid_rune r" "list_all valid_rune rs" using Cons.prems(2) by auto
  show ?case
  proof (cases "r = rn CHR ''$'' \<or> r = rn CHR 0x22 \<or> r = rn CHR 0x5C")
    case True
    then have e: "rest (scanner t) = encode_rune (rn CHR 0x5C) @ (encode_rune r @ ?u)"
      using Cons.prems(1) quote_rune_special [OF True] by simp
    have vb: "valid_rune (rn CHR 0x5C)" by (simp add: valid_rune_def)
    note P = Peek_rest [OF e vb]
    have e1: "rest (scanner (advance t)) = encode_rune r @ ?u" using P(2) by simp
    note Q = Peek_rest [OF e1 v(1)]
    have e2: "rest (scanner (advance (advance t))) = ?u" using Q(2) by simp
    have "doubleQuotedLoop l sb t = doubleQuotedLoop l (sb @ encode_rune r) (advance (advance t))"
      using P(1) Q(1) True by (subst doubleQuotedLoop.simps) auto
    then show ?thesis using Cons.IH [OF e2 v(2), of "sb @ encode_rune r"] by simp
  next
    case False
    then have e: "rest (scanner t) = encode_rune r @ ?u"
      using Cons.prems(1) quote_rune_plain [OF False] by simp
    note P = Peek_rest [OF e v(1)]
    have e2: "rest (scanner (advance t)) = ?u" using P(2) by simp
    have "doubleQuotedLoop l sb t = doubleQuotedLoop l (sb @ encode_rune r) (advance t)"
      using P(1) False by (subst doubleQuotedLoop.simps) simp
    then show ?thesis using Cons.IH [OF e2 v(2), of "sb @ encode_rune r"] by simp
  qed
qed

text \<open>The end of a word: the end of the content or a character that ends words.\<close>

definition word_end :: "string \<Rightarrow> bool" where
  "word_end u \<longleftrightarrow> u = [] \<or> (byte (hd u) < 128 \<and> ends_word (byte (hd u)))"

lemma wordLoop_stops:
  assumes "rest (scanner t) = u" "word_end u"
  shows "wordLoop nf t = (t, None)"
proof (cases u)
  case Nil
  then have "Peek (scanner t) = None" using assms(1) by (simp add: Peek_None Eof_rest)
  then show ?thesis by (subst wordLoop.simps) simp
next
  case (Cons c v)
  with assms have "Peek (scanner t) = Some (byte c)" "ends_word (byte c)"
    using Peek_ascii [of "scanner t" c v] by (auto simp: word_end_def)
  then show ?thesis by (subst wordLoop.simps) simp
qed

lemma parseWord_quoted:
  assumes "rest (scanner t) = ForceQuoteString (encode_runes rs) @ u" "list_all valid_rune rs" "word_end u"
  shows "\<exists>t' tok. parseWord t = (t', None) \<and> rest (scanner t') = u \<and> tokens t' = tokens t @ [tok]
    \<and> word_view tok = (WORD, [(STRING, encode_runes rs)])"
proof -
  let ?q = "rn CHR 0x22"
  let ?t0 = "t\<lparr>subWords := []\<rparr>"
  let ?u = "concat (map quote_rune rs) @ encode_rune ?q @ u"
  have vq: "valid_rune ?q" by (simp add: valid_rune_def)
  have e: "rest (scanner t) = encode_rune ?q @ ?u"
    using assms(1,2) encode_quote by (simp add: ForceQuoteString_def range_runes_encode)
  note P = Peek_rest [OF e vq]
  obtain t1 w where t1: "doubleQuotedLoop (loc ?t0) [] (advance ?t0) = (t1, None)" "rest (scanner t1) = u"
    "tokens t1 = tokens t" "subWords t1 = [w]" "swType w = STRING" "swValue w = encode_runes rs"
    using doubleQuotedLoop_reads [of "advance ?t0" rs u "loc ?t0" "[]"] P(2) assms(2) by auto
  have ew: "\<not> ends_word ?q" by (simp add: ends_word_def metaToken_def is_blank_def)
  have "parseSubWord False ?q ?t0 = (t1, None)"
    using t1(1) by (simp add: parseSubWord_def parseDoubleQuotedString_def)
  then have "wordLoop False ?t0 = wordLoop True t1"
    using P(1) ew by (subst wordLoop.simps) simp
  also have "\<dots> = (t1, None)" by (rule wordLoop_stops [OF t1(2) assms(3)])
  finally have w: "wordLoop False ?t0 = (t1, None)" .
  have "?q \<noteq> rn CHR ''#''" by simp
  then show ?thesis using P(1) w t1 by (simp add: parseWord_def word_view_def newToken_def)
qed

text \<open>The same for a word without quotes.\<close>

lemma word_end_unquoted:
  assumes "rest s = u" "word_end u"
  shows "Peek s = None \<or> (\<exists>c. Peek s = Some c \<and> ends_unquoted c)"
proof (cases u)
  case Nil
  then show ?thesis using assms(1) by (simp add: Peek_None Eof_rest)
next
  case (Cons c v)
  with assms Peek_ascii [of s c v] show ?thesis
    by (auto simp: word_end_def ends_unquoted_def)
qed

lemma unquotedLoop_reads:
  assumes "rest (scanner t) = encode_runes rs @ u" "list_all valid_rune rs" "word_end u"
    and "list_all (\<lambda>r. \<not> ends_unquoted r \<and> r \<noteq> rn CHR 0x5C) rs"
  shows "\<exists>t'. unquotedLoop l sb False t = t' \<and> rest (scanner t') = u \<and> tokens t' = tokens t
    \<and> (\<exists>w. subWords t' = subWords t @ [w] \<and> swType w = KEYWORD_STRING \<and> swValue w = sb @ encode_runes rs)"
  using assms(1,2,4)
proof (induction rs arbitrary: t sb)
  case Nil
  then have "unquotedLoop l sb False t = addSubWord t l KEYWORD_STRING sb"
    using word_end_unquoted [OF _ assms(3), of "scanner t"] by (subst unquotedLoop.simps) auto
  then show ?case using Nil by (simp add: addSubWord_def newSubWord_def)
next
  case (Cons r rs)
  then have e: "rest (scanner t) = encode_rune r @ (encode_runes rs @ u)" and v: "valid_rune r" by auto
  note P = Peek_rest [OF e v]
  have "unquotedLoop l sb False t = unquotedLoop l (sb @ encode_rune r) False (advance t)"
    using P(1) Cons.prems(3) by (subst unquotedLoop.simps) simp
  moreover have "rest (scanner (advance t)) = encode_runes rs @ u" using P(2) by simp
  ultimately show ?case using Cons.IH [of "advance t" "sb @ encode_rune r"] Cons.prems by auto
qed

lemma parseWord_plain:
  assumes "rest (scanner t) = encode_runes rs @ u" "list_all valid_rune rs" "word_end u" "rs \<noteq> []"
    and "list_all (\<lambda>r. \<not> ends_unquoted r \<and> r \<noteq> rn CHR 0x5C) rs" "hd rs \<noteq> rn CHR ''#''"
  shows "\<exists>t' tok. parseWord t = (t', None) \<and> rest (scanner t') = u \<and> tokens t' = tokens t @ [tok]
    \<and> word_view tok = (WORD, [(KEYWORD_STRING, encode_runes rs)])"
proof -
  let ?t0 = "t\<lparr>subWords := []\<rparr>"
  obtain r rs' where rs: "rs = r # rs'" using assms(4) by (cases rs) auto
  have e: "rest (scanner t) = encode_rune r @ (encode_runes rs' @ u)" and v: "valid_rune r"
    using assms(1,2) rs by auto
  note P = Peek_rest [OF e v]
  obtain t1 w where t1: "unquotedLoop (loc ?t0) [] False ?t0 = t1" "rest (scanner t1) = u"
    "tokens t1 = tokens t" "subWords t1 = [w]" "swType w = KEYWORD_STRING" "swValue w = encode_runes rs"
    using unquotedLoop_reads [of ?t0 rs u "loc ?t0" "[]"] assms(1,2,3,5) by auto
  have nr: "\<not> ends_unquoted r" using assms(5) rs by simp
  then have ew: "\<not> ends_word r" by (simp add: ends_unquoted_def)
  have "parseSubWord False r ?t0 = (t1, None)"
    using t1(1) nr by (simp add: parseSubWord_def parseUnquotedString_def ends_unquoted_def)
  then have "wordLoop False ?t0 = wordLoop True t1"
    using P(1) ew by (subst wordLoop.simps) simp
  also have "\<dots> = (t1, None)" by (rule wordLoop_stops [OF t1(2) assms(3)])
  finally have w: "wordLoop False ?t0 = (t1, None)" .
  then show ?thesis using P(1) t1 assms(6) rs by (simp add: parseWord_def word_view_def newToken_def)
qed

text \<open>A value that \<open>QuoteString\<close> protects completely: it is not empty and has no backslash, unless
  something else already makes it quoted.\<close>

definition quotable :: "string \<Rightarrow> bool" where
  "quotable v \<longleftrightarrow> RequiresQuotes v \<or> (v \<noteq> [] \<and> CHR 0x5C \<notin> set v)"

definition arg_view :: "string \<Rightarrow> TokenType \<times> (SubWordType \<times> string) list" where
  "arg_view v = (WORD, [(if RequiresQuotes v then STRING else KEYWORD_STRING, v)])"

lemma rune_in_encoding: "r \<in> set rs \<Longrightarrow> r < 128 \<Longrightarrow> char_of r \<in> set (encode_runes rs)"
  by (induction rs) (auto simp: encode_rune_ascii)

text \<open>The characters that cannot stand in an unquoted word as themselves.\<close>

definition special :: string where
  "special = ''{}|&;<> '' @ [CHR 0x09, CHR 0x0A, CHR 0x22, CHR 0x27, CHR ''$'', CHR 0x5C]"

lemma metaToken_None: "metaToken c = None \<longleftrightarrow> c \<notin> {123, 125, 124, 38, 59, 60, 62, 10}"
  by (simp add: metaToken_def)

lemma special_iff: "ends_unquoted r \<or> r = rn CHR 0x5C \<longleftrightarrow> r \<in> byte ` set special"
  unfolding ends_unquoted_def ends_word_def metaToken_None is_blank_def special_def
  by (simp, blast)

lemma not_RequiresQuotes_runes:
  assumes "\<not> RequiresQuotes (encode_runes rs)" "CHR 0x5C \<notin> set (encode_runes rs)"
  shows "list_all (\<lambda>r. \<not> ends_unquoted r \<and> r \<noteq> rn CHR 0x5C) rs"
proof -
  have "byte x \<notin> set rs" if "x \<in> set special" for x
  proof
    assume "byte x \<in> set rs"
    moreover have "byte x < 128" using that by (auto simp: special_def)
    ultimately have "char_of (byte x) \<in> set (encode_runes rs)" by (rule rune_in_encoding)
    then have "x \<in> set (encode_runes rs)" by simp
    then show False
      using assms that by (auto simp: RequiresQuotes_def ContainsAny_def list_ex_iff special_def)
  qed
  then have "\<forall>r \<in> set rs. r \<notin> byte ` set special" by auto
  then have "\<forall>r \<in> set rs. \<not> (ends_unquoted r \<or> r = rn CHR 0x5C)" unfolding special_iff .
  then show ?thesis unfolding list_all_iff by blast
qed

lemma parseWord_QuoteString:
  assumes "rest (scanner t) = QuoteString (encode_runes rs) @ u" "list_all valid_rune rs" "word_end u"
    and "quotable (encode_runes rs)"
  shows "\<exists>c t' tok. Peek (scanner t) = Some c \<and> \<not> ends_word c \<and> parseWord t = (t', None)
    \<and> rest (scanner t') = u \<and> tokens t' = tokens t @ [tok] \<and> word_view tok = arg_view (encode_runes rs)"
proof (cases "RequiresQuotes (encode_runes rs)")
  case True
  then have e: "rest (scanner t) = ForceQuoteString (encode_runes rs) @ u"
    using assms(1) by (simp add: QuoteString_def)
  then have "Peek (scanner t) = Some (rn CHR 0x22)"
    using Peek_ascii(1) [of "scanner t" "CHR 0x22"] by (simp add: ForceQuoteString_def)
  moreover have "\<not> ends_word (rn CHR 0x22)" by (simp add: ends_word_def metaToken_def is_blank_def)
  ultimately show ?thesis
    using parseWord_quoted [OF e assms(2,3)] True by (simp add: arg_view_def)
next
  case False
  then have e: "rest (scanner t) = encode_runes rs @ u" and bs: "CHR 0x5C \<notin> set (encode_runes rs)" "rs \<noteq> []"
    using assms(1,4) by (auto simp: QuoteString_def quotable_def)
  note ok = not_RequiresQuotes_runes [OF False bs(1)]
  obtain r rs' where rs: "rs = r # rs'" using bs(2) by (cases rs) auto
  have "r \<noteq> rn CHR ''#''"
  proof
    assume r: "r = rn CHR ''#''"
    have "encode_runes rs = CHR ''#'' # encode_runes rs'"
      using encode_ascii_char [of "CHR ''#''"] rs r by simp
    then show False using False by (simp add: RequiresQuotes_def)
  qed
  moreover have "Peek (scanner t) = Some r" "\<not> ends_word r"
    using Peek_rest(1) [of "scanner t" r "encode_runes rs' @ u"] e rs assms(2) ok
    by (auto simp: ends_unquoted_def)
  ultimately show ?thesis
    using parseWord_plain [OF e assms(2,3) bs(2) ok] False rs by (simp add: arg_view_def)
qed

section \<open>Lists of arguments\<close>

text \<open>\<open>GrubArgsToString\<close> of \<open>imagecustomizerlib/grubcfgutils.go\<close>.\<close>

fun GrubArgsToString :: "string list \<Rightarrow> string" where
  "GrubArgsToString [] = []"
| "GrubArgsToString [arg] = QuoteString arg"
| "GrubArgsToString (arg # args) = QuoteString arg @ '' '' @ GrubArgsToString args"

lemma QuoteString_start:
  assumes "rest s = QuoteString (encode_runes rs) @ u" "list_all valid_rune rs" "quotable (encode_runes rs)"
  shows "\<exists>c. Peek s = Some c \<and> \<not> is_blank c"
proof (cases "RequiresQuotes (encode_runes rs)")
  case True
  then have "Peek s = Some (rn CHR 0x22)"
    using assms(1) Peek_ascii(1) [of s "CHR 0x22"] by (simp add: QuoteString_def ForceQuoteString_def)
  then show ?thesis by (simp add: is_blank_def)
next
  case False
  then have e: "rest s = encode_runes rs @ u" and bs: "CHR 0x5C \<notin> set (encode_runes rs)" "rs \<noteq> []"
    using assms(1,3) by (auto simp: QuoteString_def quotable_def)
  obtain r rs' where rs: "rs = r # rs'" using bs(2) by (cases rs) auto
  have "Peek s = Some r"
    using Peek_rest(1) [of s r "encode_runes rs' @ u"] e rs assms(2) by simp
  then show ?thesis
    using not_RequiresQuotes_runes [OF False bs(1)] rs by (auto simp: ends_unquoted_def ends_word_def)
qed

lemma tokenizeLoop_word:
  assumes "Peek (scanner t) = Some c" "\<not> ends_word c" "parseWord t = (t', None)"
  shows "tokenizeLoop t = tokenizeLoop t'"
  using assms by (subst tokenizeLoop.simps) (simp add: ends_word_def)

lemma tokenizeLoop_space:
  assumes "rest (scanner t) = CHR '' '' # v" "Peek (Next (scanner t)) = Some c" "\<not> is_blank c"
  shows "tokenizeLoop t = tokenizeLoop (advance t)"
proof -
  have p: "Peek (scanner t) = Some 32"
    using Peek_ascii(1) [OF assms(1)] by simp
  have "read_while is_blank [] (scanner t) = ([] @ encode_rune 32, Next (scanner t))"
    using p assms(2,3) read_while_stop [of is_blank c "Next (scanner t)"]
    by (subst read_while.simps) (simp add: is_blank_def)
  then have "parseSpace t = advance t" by (simp add: parseSpace_def advance_def)
  then show ?thesis
    using p by (subst tokenizeLoop.simps) (simp add: metaToken_def is_blank_def)
qed

lemma tokenizeLoop_args:
  assumes "rest (scanner t) = GrubArgsToString (map encode_runes args)" "list_all (list_all valid_rune) args"
    and "list_all (\<lambda>a. quotable (encode_runes a)) args"
  shows "\<exists>t'. tokenizeLoop t = (t', None)
    \<and> map word_view (tokens t') = map word_view (tokens t) @ map (\<lambda>a. arg_view (encode_runes a)) args"
  using assms
proof (induction args arbitrary: t rule: induct_list012)
  case 1
  then have "Peek (scanner t) = None" by (simp add: Peek_None Eof_rest)
  then show ?case by (subst tokenizeLoop.simps) simp
next
  case (2 a)
  obtain c t1 tok where w: "Peek (scanner t) = Some c" "\<not> ends_word c" "parseWord t = (t1, None)"
    "rest (scanner t1) = []" "tokens t1 = tokens t @ [tok]" "word_view tok = arg_view (encode_runes a)"
    using parseWord_QuoteString [of t a "[]"] 2 by (auto simp: word_end_def)
  have "Peek (scanner t1) = None" using w(4) by (simp add: Peek_None Eof_rest)
  then have "tokenizeLoop t1 = (t1, None)" by (subst tokenizeLoop.simps) simp
  then show ?case using tokenizeLoop_word [OF w(1-3)] w(5,6) by simp
next
  case (3 a b args)
  let ?v = "GrubArgsToString (map encode_runes (b # args))"
  obtain c t1 tok where w: "Peek (scanner t) = Some c" "\<not> ends_word c" "parseWord t = (t1, None)"
    "rest (scanner t1) = CHR '' '' # ?v" "tokens t1 = tokens t @ [tok]" "word_view tok = arg_view (encode_runes a)"
    using parseWord_QuoteString [of t a "CHR '' '' # ?v"] 3(3-5)
    by (auto simp: word_end_def ends_word_def is_blank_def)
  have r: "rest (scanner (advance t1)) = ?v" using Peek_ascii(2) [OF w(4)] by simp
  obtain u where u: "?v = QuoteString (encode_runes b) @ u" by (cases args) auto
  obtain d where "Peek (Next (scanner t1)) = Some d" "\<not> is_blank d"
    using QuoteString_start [of "scanner (advance t1)" b u] r u 3(4,5) by auto
  then have "tokenizeLoop t = tokenizeLoop (advance t1)"
    using tokenizeLoop_word [OF w(1-3)] tokenizeLoop_space [OF w(4)] by simp
  then show ?case
    using 3(2) [OF r] 3(4,5) w(5,6) by auto
qed

lemma encode_runes_bytes: "\<forall>c \<in> set s. byte c < 128 \<Longrightarrow> encode_runes (map byte s) = s"
  by (induction s) (simp_all add: encode_ascii_char)

lemma quotable_bytes: "\<forall>c \<in> set s. byte c < 128 \<Longrightarrow> quotable s \<Longrightarrow> quotable (encode_runes (map byte s))"
  by (simp add: encode_runes_bytes)

section \<open>Properties\<close>

lemma splitLoop_tokens:
  "concat (map Tokens (splitLoop [] lt toks)) = lt @ filter (\<lambda>t. \<not> is_separator t) toks"
proof (induction toks arbitrary: lt)
  case Nil
  then show ?case by (simp add: appendNewLine_def)
next
  case (Cons tok toks)
  then show ?case
    using splitLoop_acc [of "appendNewLine [] lt (Some tok)" "[]" toks]
    by (simp add: is_separator_def appendNewLine_def)
qed

lemma splitLoop_lines:
  "\<forall>t \<in> set lt. \<not> is_separator t \<Longrightarrow> l \<in> set (splitLoop [] lt toks)
    \<Longrightarrow> Tokens l \<noteq> [] \<and> (\<forall>t \<in> set (Tokens l). \<not> is_separator t) \<and> (\<forall>e. EndToken l = Some e \<longrightarrow> is_separator e \<and> e \<in> set toks)"
proof (induction toks arbitrary: lt)
  case Nil
  then show ?case by (auto simp: appendNewLine_def split: if_splits)
next
  case (Cons tok toks)
  show ?case
  proof (cases "is_separator tok")
    case True
    then have "l \<in> set (appendNewLine [] lt (Some tok)) \<or> l \<in> set (splitLoop [] [] toks)"
      using Cons.prems(2) splitLoop_acc [of "appendNewLine [] lt (Some tok)" "[]" toks]
      by (auto simp: is_separator_def)
    then show ?thesis
    proof
      assume "l \<in> set (appendNewLine [] lt (Some tok))"
      then show ?thesis using Cons.prems(1) True by (auto simp: appendNewLine_def split: if_splits)
    next
      assume "l \<in> set (splitLoop [] [] toks)"
      then show ?thesis using Cons.IH [of "[]"] by auto
    qed
  next
    case False
    then have "l \<in> set (splitLoop [] (lt @ [tok]) toks)" using Cons.prems(2) by (simp add: is_separator_def)
    then show ?thesis using Cons.IH [of "lt @ [tok]"] Cons.prems(1) False by auto
  qed
qed

text \<open>Splitting tokens into lines drops exactly the newlines and semicolons: the tokens of the
  lines, joined, are the other tokens in their order; no line is empty; and the end token of a
  line, where it has one, is one of the separators dropped.\<close>

theorem SplitTokensIntoLines_partition:
  "concat (map Tokens (SplitTokensIntoLines toks)) = filter (\<lambda>t. \<not> is_separator t) toks
   \<and> list_all (\<lambda>l. Tokens l \<noteq> [] \<and> pred_option (\<lambda>e. is_separator e \<and> e \<in> set toks) (EndToken l))
       (SplitTokensIntoLines toks)"
proof
  show "concat (map Tokens (SplitTokensIntoLines toks)) = filter (\<lambda>t. \<not> is_separator t) toks"
    unfolding SplitTokensIntoLines_def splitLoop_tokens by simp
  have "Tokens l \<noteq> [] \<and> pred_option (\<lambda>e. is_separator e \<and> e \<in> set toks) (EndToken l)"
    if "l \<in> set (splitLoop [] [] toks)" for l
    using splitLoop_lines [OF _ that] by (cases "EndToken l") simp_all
  then show "list_all (\<lambda>l. Tokens l \<noteq> [] \<and> pred_option (\<lambda>e. is_separator e \<and> e \<in> set toks) (EndToken l))
       (SplitTokensIntoLines toks)"
    unfolding SplitTokensIntoLines_def list_all_iff by blast
qed

text \<open>C15. A string quoted with \<open>ForceQuoteString\<close> reads back as itself: for any sequence of runes, the
  tokenizer returns one word with one string sub-word, whose value is the string.\<close>

theorem ForceQuoteString_roundtrip:
  assumes "list_all valid_rune rs"
  shows "\<exists>tok. TokenizeConfig (ForceQuoteString (encode_runes rs)) = ([tok], None)
    \<and> word_view tok = (WORD, [(STRING, encode_runes rs)])"
proof -
  let ?t0 = "\<lparr>scanner = NewFileScanner (ForceQuoteString (encode_runes rs)), tokens = [], subWords = []\<rparr>"
  have r: "rest (scanner ?t0) = ForceQuoteString (encode_runes rs) @ []" by simp
  obtain t' tok where w: "parseWord ?t0 = (t', None)" "rest (scanner t') = []" "tokens t' = [tok]"
    "word_view tok = (WORD, [(STRING, encode_runes rs)])"
    using parseWord_quoted [OF r assms] by (auto simp: word_end_def)
  have p: "Peek (scanner ?t0) = Some (rn CHR 0x22)"
    using Peek_ascii(1) [of "scanner ?t0" "CHR 0x22"] by (simp add: ForceQuoteString_def)
  have "\<not> ends_word (rn CHR 0x22)" by (simp add: ends_word_def metaToken_def is_blank_def)
  then have "tokenizeLoop ?t0 = tokenizeLoop t'" using tokenizeLoop_word [OF p _ w(1)] by blast
  also have "\<dots> = (t', None)" using w(2) by (subst tokenizeLoop.simps) (simp add: Peek_def Eof_rest)
  finally show ?thesis using w(3,4) by (simp add: TokenizeConfig_def)
qed

theorem ForceQuoteString_roundtrip_witness:
  "\<exists>tok. TokenizeConfig (ForceQuoteString (encode_runes [97, 34, 0x20AC, 92, 36])) = ([tok], None)
    \<and> word_view tok = (WORD, [(STRING, encode_runes [97, 34, 0x20AC, 92, 36])])"
  by (rule ForceQuoteString_roundtrip) (simp add: valid_rune_def)

text \<open>C16. A list of arguments of valid runes written by \<open>GrubArgsToString\<close> reads back as that
  list, one word for each argument, when no argument is empty and backslashes occur only in arguments that some other
  character makes quoted.\<close>

theorem GrubArgsToString_roundtrip:
  assumes "list_all (list_all valid_rune) args" "list_all (\<lambda>a. quotable (encode_runes a)) args"
  shows "\<exists>toks. TokenizeConfig (GrubArgsToString (map encode_runes args)) = (toks, None)
    \<and> map word_view toks = map (\<lambda>a. arg_view (encode_runes a)) args"
  using tokenizeLoop_args [of "\<lparr>scanner = NewFileScanner (GrubArgsToString (map encode_runes args)),
      tokens = [], subWords = []\<rparr>" args] assms
  by (auto simp: TokenizeConfig_def)

theorem GrubArgsToString_roundtrip_witness:
  "\<exists>toks. TokenizeConfig (GrubArgsToString (map encode_runes [map byte ''ro'', map byte ''a=b c''])) = (toks, None)
    \<and> map word_view toks = map (\<lambda>a. arg_view (encode_runes a)) [map byte ''ro'', map byte ''a=b c'']"
proof (rule GrubArgsToString_roundtrip)
  show "list_all (list_all valid_rune) [map byte ''ro'', map byte ''a=b c'']"
    by (simp add: valid_rune_def)
  have "quotable (encode_runes (map byte ''ro''))" "quotable (encode_runes (map byte ''a=b c''))"
    by (rule quotable_bytes; simp add: quotable_def RequiresQuotes_def ContainsAny_def)+
  then show "list_all (\<lambda>a. quotable (encode_runes a)) [map byte ''ro'', map byte ''a=b c'']"
    by (simp only: list.pred_inject simp_thms)
qed

end
