(* ===== verification/GrubCfg.thy ===== *)
theory GrubCfg
  imports GrubUtils MathUtils
begin

text \<open>
  The part of \<open>imagecustomizerlib/grubcfgutils.go\<close> that works on the text of a grub configuration file:
  finding commands, and rewriting their arguments in place. A function that edits the file finds
  the tokens first and then applies its edits to the text from the last to the first, so that the
  locations it has found stay valid. Dereferencing the missing end token of a last line, which
  panics in Go, is the error \<open>PanicNilEndToken\<close>.
\<close>

datatype grub_cfg_error =
    TokenizeError token_error | CommandNotFound string | CommandNotUnique string
  | PanicNilEndToken | MissingPathArg string | UnexpectedToken TokenType | TooManyKernelOpts
  | VarExpansionInValue string | ArgNotFound string | ArgNotUnique string
  | KernelOptsVarExpansion string | UnknownSELinuxMode string
  | SetWithoutArgs | SetWithoutEquals | SetNotFound string | SetNotUnique string | PanicNoArgs

definition linuxCommand :: string where "linuxCommand = ''linux''"
definition initrdCommand :: string where "initrdCommand = ''initrd''"
definition grubKernelOpts :: string where "grubKernelOpts = ''kernelopts''"
definition selinuxArgNames :: "string list" where
  "selinuxArgNames = [''security'', ''selinux'', ''enforcing'']"

section \<open>Finding commands\<close>

definition grubLines :: "string \<Rightarrow> grub_cfg_error + GrubLine list" where
  "grubLines content =
     (case TokenizeConfig content of
        (toks, Some e) \<Rightarrow> Inl (TokenizeError e)
      | (toks, None) \<Rightarrow> Inr (SplitTokensIntoLines toks))"

definition findGrubCommandAll :: "string \<Rightarrow> string \<Rightarrow> bool \<Rightarrow> grub_cfg_error + GrubLine list" where
  "findGrubCommandAll content commandName allowMultiple =
     (case grubLines content of
        Inl e \<Rightarrow> Inl e
      | Inr ls \<Rightarrow>
          let found = FindCommandAll ls commandName in
          if length found < 1 then Inl (CommandNotFound commandName)
          else if \<not> allowMultiple \<and> length found > 1 then Inl (CommandNotUnique commandName)
          else Inr found)"

definition findLinuxOrInitrdLineAll :: "string \<Rightarrow> string \<Rightarrow> bool \<Rightarrow> grub_cfg_error + GrubLine list" where
  "findLinuxOrInitrdLineAll content commandName allowMultiple =
     (case findGrubCommandAll content commandName allowMultiple of
        Inl e \<Rightarrow> Inl e
      | Inr ls \<Rightarrow> if list_ex (\<lambda>l. length (Tokens l) < 2) ls then Inl (MissingPathArg commandName) else Inr ls)"

definition FindLinuxLine :: "string \<Rightarrow> grub_cfg_error + GrubLine" where
  "FindLinuxLine content =
     (case findLinuxOrInitrdLineAll content linuxCommand False of Inl e \<Rightarrow> Inl e | Inr ls \<Rightarrow> Inr (ls ! 0))"

definition isGrubRecoveryMenuentryTitle :: "string \<Rightarrow> bool" where
  "isGrubRecoveryMenuentryTitle title = ContainsStr (ToLower title) ''recovery''"

definition FindBlsCfg :: "GrubLine list \<Rightarrow> bool" where
  "FindBlsCfg ls = list_ex (\<lambda>l. length (Tokens l) \<ge> 1 \<and> IsTokenKeyword (Tokens l ! 0) ''blscfg'') ls"

fun nonRecoveryLoop :: "bool \<Rightarrow> GrubLine list \<Rightarrow> GrubLine list" where
  "nonRecoveryLoop inMenuEntry [] = []"
| "nonRecoveryLoop inMenuEntry (line # ls) =
     (if length (Tokens line) > 1 \<and> IsTokenKeyword (Tokens line ! 0) ''menuentry''
      then nonRecoveryLoop (\<not> isGrubRecoveryMenuentryTitle (RawContent (Tokens line ! 1))) ls
      else if inMenuEntry \<and> length (Tokens line) > 0 \<and> IsTokenKeyword (Tokens line ! 0) ''linux''
      then line # nonRecoveryLoop inMenuEntry ls
      else nonRecoveryLoop inMenuEntry ls)"

definition FindNonRecoveryLinuxLines :: "GrubLine list \<Rightarrow> GrubLine list" where
  "FindNonRecoveryLinuxLines ls = nonRecoveryLoop False ls"

section \<open>Editing from the last to the first\<close>

definition tokStart :: "Token \<Rightarrow> nat" where "tokStart t = Index (Start (tokLoc t))"
definition tokEnd :: "Token \<Rightarrow> nat" where "tokEnd t = Index (End (tokLoc t))"

definition replaceRange :: "nat \<Rightarrow> nat \<Rightarrow> string \<Rightarrow> string \<Rightarrow> string" where
  "replaceRange start end new s = take start s @ new @ drop end s"

text \<open>The loops \<open>for i := len(lines) - 1; i >= 0; i--\<close> with a step that can fail.\<close>

fun editLines :: "(GrubLine \<Rightarrow> string \<Rightarrow> grub_cfg_error + string) \<Rightarrow> GrubLine list \<Rightarrow> string
    \<Rightarrow> grub_cfg_error + string" where
  "editLines f [] s = Inr s"
| "editLines f (l # ls) s =
     (case editLines f ls s of Inl e \<Rightarrow> Inl e | Inr s' \<Rightarrow> f l s')"

text \<open>\<open>grubSearchSetTargetRegex\<close>: spaces, \<open>--set\<close>, an equals sign or spaces, and a name.\<close>

definition is_re_space :: "char \<Rightarrow> bool" where
  "is_re_space c \<longleftrightarrow> c \<in> {CHR 0x09, CHR 0x0A, CHR 0x0C, CHR 0x0D, CHR '' ''}"

definition is_word_char :: "char \<Rightarrow> bool" where
  "is_word_char c \<longleftrightarrow> (case digit_val c of Some d \<Rightarrow> True | None \<Rightarrow> c = CHR ''_'')"

definition searchTargetAt :: "string \<Rightarrow> string option" where
  "searchTargetAt s =
     (let sp = takeWhile is_re_space s; s1 = dropWhile is_re_space s in
      if sp = [] \<or> \<not> HasPrefix s1 ''--set'' then None
      else
        let s2 = drop 5 s1;
            s3 = (if HasPrefix s2 ''='' then drop 1 s2 else dropWhile is_re_space s2);
            name = takeWhile is_word_char s3
        in if length s3 = length s2 \<or> name = [] then None else Some name)"

fun findSearchTarget :: "string \<Rightarrow> string option" where
  "findSearchTarget [] = None"
| "findSearchTarget (c # s) =
     (case searchTargetAt (c # s) of Some n \<Rightarrow> Some n | None \<Rightarrow> findSearchTarget s)"

definition replaceSearchCommandAll :: "string \<Rightarrow> string \<Rightarrow> grub_cfg_error + string" where
  "replaceSearchCommandAll content volumeId =
     (case findGrubCommandAll content ''search'' True of
        Inl e \<Rightarrow> Inl e
      | Inr ls \<Rightarrow>
          editLines
            (\<lambda>line out.
               (case EndToken line of
                  None \<Rightarrow> Inl PanicNilEndToken
                | Some e \<Rightarrow>
                    let start = tokStart (Tokens line ! 0); stop = tokStart e;
                        setTarget = (case findSearchTarget (substr start stop content) of
                                       Some n \<Rightarrow> n | None \<Rightarrow> ''root'')
                    in Inr (replaceRange start stop
                              (''search --label '' @ volumeId @ '' --set '' @ setTarget) out)))
            ls content)"

definition removeCommandAll :: "string \<Rightarrow> string \<Rightarrow> grub_cfg_error + string" where
  "removeCommandAll content command =
     (case findGrubCommandAll content command True of
        Inl e \<Rightarrow> Inl e
      | Inr ls \<Rightarrow>
          editLines
            (\<lambda>line out.
               (case EndToken line of
                  None \<Rightarrow> Inl PanicNilEndToken
                | Some e \<Rightarrow> Inr (replaceRange (tokStart (Tokens line ! 0)) (tokStart e) [] out)))
            ls content)"

text \<open>\<open>replaceToken\<close>: the first place where the token, taken literally, stands between two blanks. (The
  old token is text that \<open>regexp.QuoteMeta\<close> turns into a valid pattern, as every caller's is.)\<close>

fun tokenIndex :: "string \<Rightarrow> string \<Rightarrow> nat option" where
  "tokenIndex old [] = None"
| "tokenIndex old (c # s) =
     (if is_blank (byte c) \<and> HasPrefix s old
         \<and> (case drop (length old) s of [] \<Rightarrow> False | d # _ \<Rightarrow> is_blank (byte d))
      then Some 1 else map_option Suc (tokenIndex old s))"

definition replaceToken :: "string \<Rightarrow> string \<Rightarrow> string \<Rightarrow> string" where
  "replaceToken content oldToken newTok =
     (case tokenIndex oldToken content of
        None \<Rightarrow> content
      | Some i \<Rightarrow> replaceRange i (i + length oldToken) newTok content)"

definition tokText :: "string \<Rightarrow> Token \<Rightarrow> string" where
  "tokText content t = substr (tokStart t) (tokEnd t) content"

text \<open>The old paths are collected in the order of the loop, the last command's first.\<close>

definition setLinuxOrInitrdPathAll ::
  "string \<Rightarrow> string \<Rightarrow> string \<Rightarrow> bool \<Rightarrow> grub_cfg_error + (string \<times> string list)" where
  "setLinuxOrInitrdPathAll content commandName filePath allowMultiple =
     (case findLinuxOrInitrdLineAll content commandName allowMultiple of
        Inl e \<Rightarrow> Inl e
      | Inr ls \<Rightarrow>
          (case editLines
                  (\<lambda>line out. Inr (replaceRange (tokStart (Tokens line ! 1)) (tokEnd (Tokens line ! 1))
                                     (QuoteString filePath) out))
                  ls content of
             Inl e \<Rightarrow> Inl e
           | Inr out \<Rightarrow> Inr (out, map (\<lambda>line. tokText content (Tokens line ! 1)) (rev ls))))"

definition prependLinuxOrInitrdPathAll ::
  "string \<Rightarrow> string \<Rightarrow> string \<Rightarrow> bool \<Rightarrow> grub_cfg_error + (string \<times> string list)" where
  "prependLinuxOrInitrdPathAll content commandName pre allowMultiple =
     (case findLinuxOrInitrdLineAll content commandName allowMultiple of
        Inl e \<Rightarrow> Inl e
      | Inr ls \<Rightarrow>
          (case editLines
                  (\<lambda>line out.
                     let start = tokStart (Tokens line ! 1) in
                     Inr (if \<not> HasPrefix (tokText content (Tokens line ! 1)) pre
                          then replaceRange start start pre out else out))
                  ls content of
             Inl e \<Rightarrow> Inl e
           | Inr out \<Rightarrow> Inr (out, map (\<lambda>line. tokText content (Tokens line ! 1)) (rev ls))))"

definition setLinuxPath :: "string \<Rightarrow> string \<Rightarrow> grub_cfg_error + (string \<times> string)" where
  "setLinuxPath content linuxPath =
     (case setLinuxOrInitrdPathAll content linuxCommand linuxPath False of
        Inl e \<Rightarrow> Inl e | Inr (out, olds) \<Rightarrow> Inr (out, olds ! 0))"

definition setInitrdPath :: "string \<Rightarrow> string \<Rightarrow> grub_cfg_error + (string \<times> string)" where
  "setInitrdPath content initrdPath =
     (case setLinuxOrInitrdPathAll content initrdCommand initrdPath False of
        Inl e \<Rightarrow> Inl e | Inr (out, olds) \<Rightarrow> Inr (out, olds ! 0))"

section \<open>Kernel command-line arguments\<close>

record grubConfigLinuxArg =
  ArgToken :: Token
  Arg :: string
  argName :: string
  argValue :: string
  ValueHasVarExpansion :: bool

definition is_kernelopts :: "Token \<Rightarrow> bool" where
  "is_kernelopts t \<longleftrightarrow> length (SubWords t) = 1 \<and> swType (SubWords t ! 0) = VAR_EXPANSION
     \<and> swValue (SubWords t ! 0) = grubKernelOpts"

definition findCommandLineInsertAt :: "Token list \<Rightarrow> nat \<Rightarrow> grub_cfg_error + nat" where
  "findCommandLineInsertAt argTokens defaultValue =
     (if argTokens = [] then Inr defaultValue
      else
        (case find (\<lambda>t. tokType t \<noteq> WORD) argTokens of
           Some t \<Rightarrow> Inl (UnexpectedToken (tokType t))
         | None \<Rightarrow>
             let insertAtTokens = filter is_kernelopts argTokens in
             if length insertAtTokens < 1 then Inr (tokEnd (last argTokens))
             else if length insertAtTokens > 1 then Inl TooManyKernelOpts
             else Inr (tokStart (insertAtTokens ! 0))))"

definition is_var :: "SubWord \<Rightarrow> bool" where
  "is_var w \<longleftrightarrow> swType w = QUOTED_VAR_EXPANSION \<or> swType w = VAR_EXPANSION"

text \<open>The sub-word loop: the string up to the first variable expansion, and whether there is one.\<close>

definition knownPrefix :: "Token \<Rightarrow> string \<times> bool" where
  "knownPrefix t = (concat (map swValue (takeWhile (\<lambda>w. \<not> is_var w) (SubWords t))), list_ex is_var (SubWords t))"

fun ParseCommandLineArgs :: "Token list \<Rightarrow> grub_cfg_error + grubConfigLinuxArg list" where
  "ParseCommandLineArgs [] = Inr []"
| "ParseCommandLineArgs (t # ts) =
     (if tokType t \<noteq> WORD then Inl (UnexpectedToken (tokType t))
      else
        let (argString, hasVarExpansion) = knownPrefix t;
            (name, value, foundEqSymbol) = Cut argString CHR ''=''
        in (case ParseCommandLineArgs ts of
              Inl e \<Rightarrow> Inl e
            | Inr args \<Rightarrow>
                if \<not> foundEqSymbol \<and> hasVarExpansion then Inr args
                else Inr (\<lparr>ArgToken = t, Arg = argString, argName = name,
                           argValue = (if hasVarExpansion then [] else value),
                           ValueHasVarExpansion = hasVarExpansion\<rparr> # args)))"

text \<open>A Go map built in a loop: the last argument with a name wins.\<close>

fun filterKernelArgsByName :: "grubConfigLinuxArg list \<Rightarrow> string list \<Rightarrow> (string \<rightharpoonup> string) \<Rightarrow> (string \<rightharpoonup> string)" where
  "filterKernelArgsByName [] names result = result"
| "filterKernelArgsByName (arg # args) names result =
     filterKernelArgsByName args names
       (if argValue arg \<noteq> [] \<and> ContainsValue names (argName arg) then result(argName arg \<mapsto> argValue arg)
        else result)"

definition findMatchingCommandLineArgs :: "grubConfigLinuxArg list \<Rightarrow> string list \<Rightarrow> grubConfigLinuxArg list" where
  "findMatchingCommandLineArgs args names = filter (\<lambda>a. ContainsValue names (argName a)) args"

definition findKernelCommandLineArgValue :: "grubConfigLinuxArg list \<Rightarrow> string \<Rightarrow> grub_cfg_error + string" where
  "findKernelCommandLineArgValue args name =
     (let foundArgs = findMatchingCommandLineArgs args [name] in
      if foundArgs = [] then Inr []
      else if ValueHasVarExpansion (last foundArgs) then Inl (VarExpansionInValue name)
      else Inr (argValue (last foundArgs)))"

definition getLinuxCommandLineArgs :: "string \<Rightarrow> grub_cfg_error + (grubConfigLinuxArg list \<times> nat)" where
  "getLinuxCommandLineArgs content =
     (case findLinuxOrInitrdLineAll content linuxCommand False of
        Inl e \<Rightarrow> Inl e
      | Inr ls \<Rightarrow>
          let argTokens = drop 2 (Tokens (ls ! 0)) in
          (case findCommandLineInsertAt argTokens (tokEnd (Tokens (ls ! 0) ! 1)) of
             Inl e \<Rightarrow> Inl e
           | Inr insertAt \<Rightarrow>
               (case ParseCommandLineArgs argTokens of
                  Inl e \<Rightarrow> Inl e
                | Inr args \<Rightarrow> Inr (args, insertAt))))"

definition appendKernelCommandLineArgsAll :: "string \<Rightarrow> string \<Rightarrow> grub_cfg_error + string" where
  "appendKernelCommandLineArgsAll content extraCommandLine =
     (case findLinuxOrInitrdLineAll content linuxCommand True of
        Inl e \<Rightarrow> Inl e
      | Inr ls \<Rightarrow>
          editLines
            (\<lambda>line out.
               (case findCommandLineInsertAt (drop 2 (Tokens line)) (tokEnd (Tokens line ! 1)) of
                  Inl e \<Rightarrow> Inl e
                | Inr insertAt \<Rightarrow> Inr (replaceRange insertAt insertAt ('' '' @ extraCommandLine @ '' '') out)))
            ls content)"

definition replaceKernelCommandLineArgValueAll :: "string \<Rightarrow> string \<Rightarrow> string \<Rightarrow> grub_cfg_error + string" where
  "replaceKernelCommandLineArgValueAll content name value =
     (case findLinuxOrInitrdLineAll content linuxCommand True of
        Inl e \<Rightarrow> Inl e
      | Inr ls \<Rightarrow>
          editLines
            (\<lambda>line out.
               (case ParseCommandLineArgs (drop 2 (Tokens line)) of
                  Inl e \<Rightarrow> Inl e
                | Inr args \<Rightarrow>
                    let foundArgs = findMatchingCommandLineArgs args [name] in
                    if length foundArgs < 1 then Inl (ArgNotFound name)
                    else if length foundArgs > 1 then Inl (ArgNotUnique name)
                    else let t = ArgToken (foundArgs ! 0) in
                         Inr (replaceRange (tokStart t) (tokEnd t) (QuoteString (name @ ''='' @ value)) out)))
            ls content)"

text \<open>The loop over the found arguments writes what lies between them.\<close>

fun writeBetween :: "string \<Rightarrow> nat \<Rightarrow> grubConfigLinuxArg list \<Rightarrow> string \<times> nat" where
  "writeBetween value nextIndex [] = ([], nextIndex)"
| "writeBetween value nextIndex (arg # args) =
     (let (out, n) = writeBetween value (tokEnd (ArgToken arg)) args in
      (substr nextIndex (tokStart (ArgToken arg)) value @ out, n))"

definition updateKernelCommandLineArgsHelper ::
  "string \<Rightarrow> grubConfigLinuxArg list \<Rightarrow> nat \<Rightarrow> string list \<Rightarrow> string list \<Rightarrow> string" where
  "updateKernelCommandLineArgsHelper value args insertAt argsToRemove newArgs =
     (let newArgsQuoted = GrubArgsToString newArgs;
          foundArgs = findMatchingCommandLineArgs args argsToRemove
      in if length foundArgs > 0
         then (case writeBetween value 0 foundArgs of
                 (out, nextIndex) \<Rightarrow> out @ newArgsQuoted @ drop nextIndex value)
         else substr 0 insertAt value @ '' '' @ newArgsQuoted @ '' '' @ drop insertAt value)"

definition updateLine :: "string list \<Rightarrow> string list \<Rightarrow> GrubLine \<Rightarrow> string \<Rightarrow> grub_cfg_error + string" where
  "updateLine argsToRemove newArgs line out =
     (let argTokens = drop 2 (Tokens line) in
      (case findCommandLineInsertAt argTokens (tokEnd (Tokens line ! 1)) of
         Inl e \<Rightarrow> Inl e
       | Inr insertAt \<Rightarrow>
           (case ParseCommandLineArgs argTokens of
              Inl e \<Rightarrow> Inl e
            | Inr args \<Rightarrow> Inr (updateKernelCommandLineArgsHelper out args insertAt argsToRemove newArgs))))"

definition updateKernelCommandLineArgsAll :: "string \<Rightarrow> string list \<Rightarrow> string list \<Rightarrow> grub_cfg_error + string" where
  "updateKernelCommandLineArgsAll grub2Config argsToRemove newArgs =
     (case findLinuxOrInitrdLineAll grub2Config linuxCommand True of
        Inl e \<Rightarrow> Inl e
      | Inr ls \<Rightarrow> editLines (updateLine argsToRemove newArgs) ls grub2Config)"

section \<open>Set commands\<close>

fun findInSetLines :: "GrubLine list \<Rightarrow> grub_cfg_error + string option" where
  "findInSetLines [] = Inr None"
| "findInSetLines (line # ls) =
     (case ParseCommandLineArgs (drop 1 (Tokens line)) of
        Inl e \<Rightarrow> Inl e
      | Inr args \<Rightarrow>
          (case find (\<lambda>a. argName a = grubKernelOpts) args of
             Some arg \<Rightarrow>
               if ValueHasVarExpansion arg then Inl (KernelOptsVarExpansion (RawContent (ArgToken arg)))
               else Inr (Some (argValue arg))
           | None \<Rightarrow> findInSetLines ls))"

definition findGrubCfgKernelopts :: "string \<Rightarrow> grub_cfg_error + string option" where
  "findGrubCfgKernelopts content =
     (case grubLines content of
        Inl e \<Rightarrow> Inl e
      | Inr ls \<Rightarrow> findInSetLines (FindCommandAll ls ''set''))"

fun setVarLines :: "string \<Rightarrow> GrubLine list \<Rightarrow> grub_cfg_error + GrubLine list" where
  "setVarLines varName [] = Inr []"
| "setVarLines varName (line # ls) =
     (if length (Tokens line) < 2 then Inl SetWithoutArgs
      else
        (case Cut (fst (knownPrefix (Tokens line ! 1))) CHR ''='' of
           (name, _, foundEq) \<Rightarrow>
             if \<not> foundEq then Inl SetWithoutEquals
             else (case setVarLines varName ls of
                     Inl e \<Rightarrow> Inl e
                   | Inr found \<Rightarrow> Inr (if name = varName then line # found else found))))"

definition replaceSetCommandValue :: "string \<Rightarrow> string \<Rightarrow> string \<Rightarrow> grub_cfg_error + string" where
  "replaceSetCommandValue grub2Config varName newValue =
     (case grubLines grub2Config of
        Inl e \<Rightarrow> Inl e
      | Inr ls \<Rightarrow>
          (case setVarLines varName (FindCommandAll ls ''set'') of
             Inl e \<Rightarrow> Inl e
           | Inr found \<Rightarrow>
               if length found < 1 then Inl (SetNotFound varName)
               else if length found > 1 then Inl (SetNotUnique varName)
               else let t = Tokens (found ! 0) ! 1 in
                    Inr (replaceRange (tokStart t) (tokEnd t) (varName @ ''='' @ QuoteString newValue) grub2Config)))"

section \<open>SELinux arguments\<close>

type_synonym SELinuxMode = string

definition SELinuxModeDefault :: SELinuxMode where [enum_defs]: "SELinuxModeDefault = ''''"
definition SELinuxModeDisabled :: SELinuxMode where [enum_defs]: "SELinuxModeDisabled = ''disabled''"
definition SELinuxModeEnforcing :: SELinuxMode where [enum_defs]: "SELinuxModeEnforcing = ''enforcing''"
definition SELinuxModePermissive :: SELinuxMode where [enum_defs]: "SELinuxModePermissive = ''permissive''"
definition SELinuxModeForceEnforcing :: SELinuxMode where [enum_defs]: "SELinuxModeForceEnforcing = ''force-enforcing''"

definition getCommonSELinuxArgs :: "SELinuxMode \<Rightarrow> grub_cfg_error + string list" where
  "getCommonSELinuxArgs m =
     (if m = SELinuxModeDisabled then Inr [''selinux=0'']
      else if m = SELinuxModeForceEnforcing then Inr [''security=selinux'', ''selinux=1'', ''enforcing=1'']
      else if m = SELinuxModePermissive \<or> m = SELinuxModeEnforcing then Inr [''security=selinux'', ''selinux=1'']
      else Inl (UnknownSELinuxMode m))"

definition selinuxModeToArgs :: "SELinuxMode \<Rightarrow> grub_cfg_error + string list" where
  "selinuxModeToArgs m = getCommonSELinuxArgs m"

definition selinuxModeToArgsWithPermissiveFlag :: "SELinuxMode \<Rightarrow> grub_cfg_error + string list" where
  "selinuxModeToArgsWithPermissiveFlag m =
     (case getCommonSELinuxArgs m of
        Inl e \<Rightarrow> Inl e
      | Inr args \<Rightarrow> Inr (if m = SELinuxModePermissive then args @ [''enforcing=0''] else args))"

definition updateSELinuxCommandLineHelperAll :: "string \<Rightarrow> SELinuxMode \<Rightarrow> grub_cfg_error + string" where
  "updateSELinuxCommandLineHelperAll grub2Config m =
     (case selinuxModeToArgs m of
        Inl e \<Rightarrow> Inl e
      | Inr newArgs \<Rightarrow> updateKernelCommandLineArgsAll grub2Config selinuxArgNames newArgs)"

definition getSELinuxModeFromLinuxArgs :: "grubConfigLinuxArg list \<Rightarrow> grub_cfg_error + SELinuxMode" where
  "getSELinuxModeFromLinuxArgs args =
     (case findKernelCommandLineArgValue args ''security'' of
        Inl e \<Rightarrow> Inl e
      | Inr securityValue \<Rightarrow>
          (case findKernelCommandLineArgValue args ''selinux'' of
             Inl e \<Rightarrow> Inl e
           | Inr selinuxValue \<Rightarrow>
               (case findKernelCommandLineArgValue args ''enforcing'' of
                  Inl e \<Rightarrow> Inl e
                | Inr enforcingValue \<Rightarrow>
                    Inr (if securityValue \<noteq> ''selinux'' \<or> selinuxValue \<noteq> ''1'' then SELinuxModeDisabled
                         else if enforcingValue = ''1'' then SELinuxModeForceEnforcing
                         else SELinuxModeDefault))))"

definition getSELinuxModeFromLinuxArgsDeferIfMissing ::
  "grubConfigLinuxArg list \<Rightarrow> grub_cfg_error + SELinuxMode" where
  "getSELinuxModeFromLinuxArgsDeferIfMissing args =
     (case getSELinuxModeFromLinuxArgs args of
        Inl e \<Rightarrow> Inl e
      | Inr m \<Rightarrow>
          if m \<noteq> SELinuxModeDisabled then Inr m
          else if findMatchingCommandLineArgs args selinuxArgNames = [] then Inr SELinuxModeDefault
          else Inr SELinuxModeDisabled)"

text \<open>\<open>selinuxConfigModeRegex\<close>: the first line that is \<open>SELINUX=\<close> and a name, and the mode it sets.\<close>

fun selinuxConfigMode :: "string list \<Rightarrow> string option" where
  "selinuxConfigMode [] = None"
| "selinuxConfigMode (l # ls) =
     (if HasPrefix l ''SELINUX='' \<and> drop 8 l \<noteq> [] \<and> list_all is_word_char (drop 8 l) then Some (drop 8 l)
      else selinuxConfigMode ls)"

datatype selinux_config_error = SELinuxModeNotFound | UnknownConfigMode string

definition getSELinuxModeFromConfigFile :: "string \<Rightarrow> selinux_config_error + SELinuxMode" where
  "getSELinuxModeFromConfigFile selinuxConfig =
     (case selinuxConfigMode (Split selinuxConfig CHR 0x0A) of
        None \<Rightarrow> Inl SELinuxModeNotFound
      | Some m \<Rightarrow>
          if m = ''enforcing'' then Inr SELinuxModeEnforcing
          else if m = ''permissive'' then Inr SELinuxModePermissive
          else if m = ''disabled'' then Inr SELinuxModeDisabled
          else Inl (UnknownConfigMode m))"

section \<open>Edits as one splice\<close>

text \<open>The reference: the text is copied from left to right once, with the given ranges replaced.\<close>

type_synonym edit = "nat \<times> nat \<times> string"

fun splice :: "nat \<Rightarrow> string \<Rightarrow> edit list \<Rightarrow> string" where
  "splice i s [] = drop i s"
| "splice i s ((a, b, new) # es) = substr i a s @ new @ splice b s es"

fun edits_ok :: "nat \<Rightarrow> nat \<Rightarrow> edit list \<Rightarrow> bool" where
  "edits_ok i n [] \<longleftrightarrow> i \<le> n"
| "edits_ok i n ((a, b, new) # es) \<longleftrightarrow> i \<le> a \<and> a \<le> b \<and> edits_ok b n es"

lemma edits_ok_le: "edits_ok i n es \<Longrightarrow> i \<le> n"
  by (induction es arbitrary: i) force+

lemma edits_ok_append: "edits_ok i k es \<Longrightarrow> edits_ok k n fs \<Longrightarrow> edits_ok i n (es @ fs)"
proof (induction es arbitrary: i)
  case Nil
  then show ?case by (cases fs) auto
qed auto

lemma edits_ok_mono: "edits_ok i k es \<Longrightarrow> k \<le> n \<Longrightarrow> edits_ok i n es"
  by (induction es arbitrary: i) auto

lemma edits_ok_start: "edits_ok i n es \<Longrightarrow> j \<le> i \<Longrightarrow> edits_ok j n es"
  by (cases es) auto

text \<open>Copying the part before a position first.\<close>

lemma splice_from:
  assumes "i \<le> j" "edits_ok j n es"
  shows "splice i s es = substr i j s @ splice j s es"
proof (cases es)
  case Nil
  then show ?thesis using assms(1)
    by (metis append_take_drop_id drop_drop le_add_diff_inverse2 splice.simps(1) substr_def)
next
  case (Cons e es')
  obtain a b new where e: "e = (a, b, new)" by (cases e)
  then have "j \<le> a" using assms(2) Cons by simp
  then have "substr i a s = substr i j s @ substr j a s" using assms(1) by (simp add: substr_append)
  then show ?thesis by (simp add: Cons e)
qed

lemma replaceRange_splice: "replaceRange a b new s = splice 0 s [(a, b, new)]"
  by (simp add: replaceRange_def substr_def)

section \<open>Where the tokens of the lines are\<close>

fun toks_in :: "nat \<Rightarrow> Token list \<Rightarrow> nat \<Rightarrow> bool" where
  "toks_in i [] k \<longleftrightarrow> i \<le> k"
| "toks_in i (t # ts) k \<longleftrightarrow> i \<le> tokStart t \<and> tokStart t < tokEnd t \<and> toks_in (tokEnd t) ts k"

fun lines_in :: "nat \<Rightarrow> GrubLine list \<Rightarrow> nat \<Rightarrow> bool" where
  "lines_in i [] n \<longleftrightarrow> i \<le> n"
| "lines_in i (l # ls) n \<longleftrightarrow>
     Tokens l \<noteq> []
     \<and> (\<exists>k. toks_in i (Tokens l) k \<and> (case EndToken l of None \<Rightarrow> True | Some e \<Rightarrow> k \<le> tokStart e) \<and>
            lines_in (case EndToken l of None \<Rightarrow> k | Some e \<Rightarrow> tokStart e) ls n)"

lemma toks_in_le: "toks_in i ts k \<Longrightarrow> i \<le> k"
  by (induction ts arbitrary: i) force+

lemma toks_in_start: "toks_in i ts k \<Longrightarrow> j \<le> i \<Longrightarrow> toks_in j ts k"
  by (cases ts) auto

lemma toks_in_snoc: "toks_in i ts k \<Longrightarrow> k \<le> tokStart t \<Longrightarrow> tokStart t < tokEnd t \<Longrightarrow> toks_in i (ts @ [t]) (tokEnd t)"
  by (induction ts arbitrary: i) auto

lemma lines_in_le: "lines_in i ls n \<Longrightarrow> i \<le> n"
proof (induction ls arbitrary: i)
  case (Cons l ls)
  then obtain k where k: "toks_in i (Tokens l) k" "case EndToken l of None \<Rightarrow> True | Some e \<Rightarrow> k \<le> tokStart e"
    "lines_in (case EndToken l of None \<Rightarrow> k | Some e \<Rightarrow> tokStart e) ls n" by auto
  have "(case EndToken l of None \<Rightarrow> k | Some e \<Rightarrow> tokStart e) \<le> n" by (rule Cons.IH [OF k(3)])
  then show ?case using toks_in_le [OF k(1)] k(2) by (cases "EndToken l") simp_all
qed simp

lemma lines_in_start: "lines_in i ls n \<Longrightarrow> j \<le> i \<Longrightarrow> lines_in j ls n"
  by (cases ls) (auto intro: toks_in_start)

lemma lines_in_filter: "lines_in i ls n \<Longrightarrow> lines_in i (filter P ls) n"
proof (induction ls arbitrary: i)
  case (Cons l ls)
  then obtain k where k: "toks_in i (Tokens l) k" "case EndToken l of None \<Rightarrow> True | Some e \<Rightarrow> k \<le> tokStart e"
    "lines_in (case EndToken l of None \<Rightarrow> k | Some e \<Rightarrow> tokStart e) ls n" by auto
  have IH: "lines_in (case EndToken l of None \<Rightarrow> k | Some e \<Rightarrow> tokStart e) (filter P ls) n"
    by (rule Cons.IH [OF k(3)])
  show ?case
  proof (cases "P l")
    case True
    with Cons.prems k(1,2) IH show ?thesis by auto
  next
    case False
    have "i \<le> (case EndToken l of None \<Rightarrow> k | Some e \<Rightarrow> tokStart e)"
      using toks_in_le [OF k(1)] k(2) by (auto split: option.splits)
    with False show ?thesis using lines_in_start [OF IH] by simp
  qed
qed simp

lemma covers_toks: "token_ok c t \<Longrightarrow> tokStart t < tokEnd t \<and> tokEnd t \<le> length c"
  by (simp add: token_ok_def Let_def tokStart_def tokEnd_def)

lemma splitLoop_lines_in:
  "covers c k toks j \<Longrightarrow> toks_in i lt k \<Longrightarrow> lines_in i (splitLoop [] lt toks) (length c)"
proof (induction toks arbitrary: i k lt)
  case Nil
  then have "k \<le> length c" by simp
  with Nil show ?case using toks_in_le by (force simp: appendNewLine_def)
next
  case (Cons t toks)
  then have t: "k \<le> tokStart t" "tokStart t < tokEnd t" "covers c (tokEnd t) toks j"
    using covers_toks by (auto simp: tokStart_def tokEnd_def)
  show ?case
  proof (cases "is_separator t")
    case True
    have r: "lines_in (tokEnd t) (splitLoop [] [] toks) (length c)"
      using Cons.IH [OF t(3), of "tokEnd t" "[]"] by simp
    then have r': "lines_in (tokStart t) (splitLoop [] [] toks) (length c)"
      using lines_in_start t(2) by simp
    have "splitLoop [] lt (t # toks) = appendNewLine [] lt (Some t) @ splitLoop [] [] toks"
      using True splitLoop_acc [of "appendNewLine [] lt (Some t)"] by (simp add: is_separator_def)
    moreover have "lines_in i (splitLoop [] [] toks) (length c)"
      using lines_in_start [OF r'] toks_in_le [OF Cons.prems(2)] t(1) by simp
    ultimately show ?thesis using r' Cons.prems(2) t(1) by (auto simp: appendNewLine_def)
  next
    case False
    then have "splitLoop [] lt (t # toks) = splitLoop [] (lt @ [t]) toks" by (simp add: is_separator_def)
    then show ?thesis using Cons.IH [OF t(3) toks_in_snoc [OF Cons.prems(2) t(1,2)]] by simp
  qed
qed

lemma tokenize_covers:
  assumes "TokenizeConfig content = (toks, None)"
  shows "covers content 0 toks (length content)"
proof -
  let ?t0 = "\<lparr>scanner = NewFileScanner content, tokens = [], subWords = []\<rparr>"
  obtain t where t: "tokenizeLoop ?t0 = (t, None)" "toks = tokens t"
    using assms by (auto simp: TokenizeConfig_def split: prod.splits)
  show ?thesis using tokenizeLoop_covers [OF _ _ t(1)] t(2) by simp
qed

lemma grubLines_lines_in:
  assumes "grubLines content = Inr ls"
  shows "lines_in 0 ls (length content)"
proof -
  obtain toks where t: "TokenizeConfig content = (toks, None)" "ls = SplitTokensIntoLines toks"
    using assms by (auto simp: grubLines_def split: prod.splits option.splits)
  show ?thesis
    using splitLoop_lines_in [OF tokenize_covers [OF t(1)], of 0 "[]"] t(2)
    by (simp add: SplitTokensIntoLines_def)
qed

lemma findGrubCommandAll_lines_in:
  assumes "findGrubCommandAll content c m = Inr ls"
  shows "lines_in 0 ls (length content)"
proof -
  obtain ls' where "grubLines content = Inr ls'" "ls = FindCommandAll ls' c"
    using assms by (auto simp: findGrubCommandAll_def Let_def split: sum.splits if_splits)
  then show ?thesis using lines_in_filter [OF grubLines_lines_in] by (simp add: FindCommandAll_filter)
qed

lemma findLinuxOrInitrdLineAll_lines:
  assumes "findLinuxOrInitrdLineAll content c m = Inr ls"
  shows "lines_in 0 ls (length content)" "list_all (\<lambda>l. length (Tokens l) \<ge> 2) ls"
  using assms findGrubCommandAll_lines_in
  by (auto simp: findLinuxOrInitrdLineAll_def list_ex_iff list_all_iff not_less split: sum.splits if_splits)

text \<open>Edits of each line that stay inside it, together, are edits of the text.\<close>

definition lineStop :: "GrubLine \<Rightarrow> nat \<Rightarrow> nat" where
  "lineStop l k = (case EndToken l of None \<Rightarrow> k | Some e \<Rightarrow> tokStart e)"

lemma lines_edits_ok:
  assumes "lines_in i ls n"
    and "\<And>l i k. l \<in> set ls \<Longrightarrow> Tokens l \<noteq> [] \<Longrightarrow> toks_in i (Tokens l) k \<Longrightarrow> k \<le> lineStop l k
      \<Longrightarrow> edits_ok i (lineStop l k) (g l)"
  shows "edits_ok i n (concat (map g ls))"
  using assms
proof (induction ls arbitrary: i)
  case (Cons l ls)
  then obtain k where k: "Tokens l \<noteq> []" "toks_in i (Tokens l) k" "k \<le> lineStop l k" "lines_in (lineStop l k) ls n"
    by (auto simp: lineStop_def split: option.splits)
  have "edits_ok i (lineStop l k) (g l)" using Cons.prems(2) k(1-3) by simp
  moreover have "edits_ok (lineStop l k) n (concat (map g ls))"
    using Cons.IH [OF k(4)] Cons.prems(2) by simp
  ultimately show ?case using edits_ok_append by simp
qed simp

lemma splice_splice:
  assumes "edits_ok i k es" "edits_ok k (length s) fs"
  shows "splice i (splice 0 s fs) es = splice i s (es @ fs)"
  using assms(1)
proof (induction es arbitrary: i)
  case Nil
  then have i: "i \<le> k" "k \<le> length s" using edits_ok_le [OF assms(2)] by auto
  have "splice 0 s fs = substr 0 i s @ splice i s fs"
    using splice_from [of 0 i "length s"] edits_ok_start [OF assms(2)] i(1) by simp
  then show ?case using i by (simp add: length_substr)
next
  case (Cons e es)
  obtain a b new where e: "e = (a, b, new)" by (cases e)
  then have ok: "i \<le> a" "a \<le> b" "edits_ok b k es" using Cons.prems by auto
  have k: "a \<le> k" "k \<le> length s" using edits_ok_le [OF ok(3)] ok(2) edits_ok_le [OF assms(2)] by auto
  have "splice 0 s fs = substr 0 k s @ splice k s fs" using splice_from [of 0 k, OF _ assms(2)] by simp
  then have "substr i a (splice 0 s fs) = substr i a s"
    using k ok(1) by (simp add: substr_def take_drop min_absorb1)
  then show ?case using Cons.IH [OF ok(3)] e by simp
qed

lemma editLines_splices:
  assumes "editLines f ls s = Inr out"
    and "\<And>l s' r. l \<in> set ls \<Longrightarrow> f l s' = Inr r \<Longrightarrow> r = splice 0 s' (g l)"
    and "lines_in i ls (length s)"
    and "\<And>l i k. l \<in> set ls \<Longrightarrow> Tokens l \<noteq> [] \<Longrightarrow> toks_in i (Tokens l) k \<Longrightarrow> k \<le> lineStop l k
      \<Longrightarrow> edits_ok i (lineStop l k) (g l)"
  shows "out = splice 0 s (concat (map g ls))"
  using assms
proof (induction ls arbitrary: out i)
  case Nil
  then show ?case by simp
next
  case (Cons l ls)
  obtain s' where s': "editLines f ls s = Inr s'" "f l s' = Inr out"
    using Cons.prems(1) by (auto split: sum.splits)
  obtain k where k: "Tokens l \<noteq> []" "toks_in i (Tokens l) k" "k \<le> lineStop l k"
      "lines_in (lineStop l k) ls (length s)"
    using Cons.prems(3) by (auto simp: lineStop_def split: option.splits)
  have "s' = splice 0 s (concat (map g ls))"
    using Cons.IH [OF s'(1) _ k(4)] Cons.prems(2,4) by simp
  moreover have "out = splice 0 s' (g l)" using Cons.prems(2) s'(2) by simp
  moreover have "edits_ok 0 (lineStop l k) (g l)"
    using edits_ok_start [of i] Cons.prems(4) k(1-3) by simp
  moreover have "edits_ok (lineStop l k) (length s) (concat (map g ls))"
    by (rule lines_edits_ok [OF k(4)]) (use Cons.prems(4) in simp)
  ultimately show ?case using splice_splice by simp
qed

section \<open>The ranges of one line's edits\<close>

lemma toks_in_filter: "toks_in i (map f xs) k \<Longrightarrow> toks_in i (map f (filter P xs)) k"
proof (induction xs arbitrary: i)
  case (Cons x xs)
  then have "toks_in (tokEnd (f x)) (map f (filter P xs)) k" by simp
  then show ?case using Cons.prems toks_in_start [of "tokEnd (f x)" _ k i] by auto
qed simp

lemma ParseCommandLineArgs_toks_in:
  "toks_in i ts k \<Longrightarrow> ParseCommandLineArgs ts = Inr args \<Longrightarrow> toks_in i (map ArgToken args) k"
proof (induction ts arbitrary: i args)
  case (Cons t ts)
  then obtain args' where a: "ParseCommandLineArgs ts = Inr args'"
    by (auto simp: Let_def split: if_splits sum.splits prod.splits)
  then have "toks_in (tokEnd t) (map ArgToken args') k" using Cons by simp
  then show ?case using Cons.prems a toks_in_start [of "tokEnd t" _ k i]
    by (auto simp: Let_def split: if_splits prod.splits)
qed simp

lemma toks_in_last: "toks_in i ts k \<Longrightarrow> ts \<noteq> [] \<Longrightarrow> i \<le> tokEnd (last ts) \<and> tokEnd (last ts) \<le> k"
proof (induction ts arbitrary: i)
  case (Cons t ts)
  then have t: "i \<le> tokEnd t" "toks_in (tokEnd t) ts k" by auto
  then show ?case using Cons.IH [OF t(2)] toks_in_le [OF t(2)] by (cases "ts = []") auto
qed simp

lemma toks_in_mem: "toks_in i ts k \<Longrightarrow> t \<in> set ts \<Longrightarrow> i \<le> tokStart t \<and> tokStart t < tokEnd t \<and> tokEnd t \<le> k"
  by (induction ts arbitrary: i) (fastforce dest: toks_in_le)+

lemma findCommandLineInsertAt_in:
  assumes "findCommandLineInsertAt ts d = Inr n" "toks_in d ts k"
  shows "d \<le> n \<and> n \<le> k"
proof (cases "ts = []")
  case False
  show ?thesis
  proof (cases "filter is_kernelopts ts")
    case Nil
    then show ?thesis using assms False toks_in_last [OF assms(2)]
      by (auto simp: findCommandLineInsertAt_def Let_def split: option.splits)
  next
    case (Cons t ts')
    then have "t \<in> set ts" using filter_eq_ConsD by fastforce
    moreover have "n = tokStart t" using assms(1) False Cons
      by (auto simp: findCommandLineInsertAt_def Let_def split: option.splits if_splits)
    ultimately show ?thesis using toks_in_mem [OF assms(2)] by fastforce
  qed
qed (use assms in \<open>simp add: findCommandLineInsertAt_def\<close>)

text \<open>What the argument update does to one line: the found arguments are removed and the new ones stand
  in the place of the last of them; with none found the new ones are inserted.\<close>

fun replaceFound :: "string \<Rightarrow> grubConfigLinuxArg list \<Rightarrow> edit list" where
  "replaceFound q [] = []"
| "replaceFound q [a] = [(tokStart (ArgToken a), tokEnd (ArgToken a), q)]"
| "replaceFound q (a # b # as) = (tokStart (ArgToken a), tokEnd (ArgToken a), []) # replaceFound q (b # as)"

definition argEdits :: "string list \<Rightarrow> string list \<Rightarrow> GrubLine \<Rightarrow> edit list" where
  "argEdits argsToRemove newArgs line =
     (case (findCommandLineInsertAt (drop 2 (Tokens line)) (tokEnd (Tokens line ! 1)),
            ParseCommandLineArgs (drop 2 (Tokens line))) of
        (Inr insertAt, Inr args) \<Rightarrow>
          let foundArgs = findMatchingCommandLineArgs args argsToRemove in
          if foundArgs = [] then [(insertAt, insertAt, '' '' @ GrubArgsToString newArgs @ '' '')]
          else replaceFound (GrubArgsToString newArgs) foundArgs
      | _ \<Rightarrow> [])"

lemma writeBetween_splice:
  "fs \<noteq> [] \<Longrightarrow> (case writeBetween v i fs of (out, n) \<Rightarrow> out @ q @ drop n v) = splice i v (replaceFound q fs)"
proof (induction q fs arbitrary: i rule: replaceFound.induct)
  case (3 q a b as)
  obtain out n where w: "writeBetween v (tokEnd (ArgToken a)) (b # as) = (out, n)" by (metis surj_pair)
  have "writeBetween v i (a # b # as) = (substr i (tokStart (ArgToken a)) v @ out, n)"
    by (subst writeBetween.simps) (simp only: w Let_def prod.case)
  moreover have "out @ q @ drop n v = splice (tokEnd (ArgToken a)) v (replaceFound q (b # as))"
    using 3(1) [of "tokEnd (ArgToken a)"] unfolding w by simp
  ultimately show ?case by simp
qed (simp_all add: split_def)

lemma replaceFound_ok: "toks_in i (map ArgToken fs) k \<Longrightarrow> edits_ok i k (replaceFound q fs)"
  by (induction q fs arbitrary: i rule: replaceFound.induct) auto

lemma updateLine_splice:
  assumes "updateLine rm new line s = Inr r"
  shows "r = splice 0 s (argEdits rm new line)"
proof -
  obtain n args where a: "findCommandLineInsertAt (drop 2 (Tokens line)) (tokEnd (Tokens line ! 1)) = Inr n"
    "ParseCommandLineArgs (drop 2 (Tokens line)) = Inr args"
    "r = updateKernelCommandLineArgsHelper s args n rm new"
    using assms by (auto simp: updateLine_def Let_def split: sum.splits)
  show ?thesis
  proof (cases "findMatchingCommandLineArgs args rm = []")
    case True
    then show ?thesis unfolding a(3) argEdits_def a(1,2) by (simp add: updateKernelCommandLineArgsHelper_def)
  next
    case False
    then show ?thesis
      using writeBetween_splice [OF False, where v = s and i = 0] unfolding a(3) argEdits_def a(1,2)
      by (simp add: updateKernelCommandLineArgsHelper_def Let_def)
  qed
qed

lemma line_tail_in:
  assumes "toks_in i (Tokens l) k" "length (Tokens l) \<ge> 2"
  shows "i \<le> tokStart (Tokens l ! 1)" "tokStart (Tokens l ! 1) \<le> tokEnd (Tokens l ! 1)"
    "toks_in (tokEnd (Tokens l ! 1)) (drop 2 (Tokens l)) k"
proof -
  obtain t u ts where "Tokens l = t # u # ts" using assms(2) by (cases "Tokens l"; cases "tl (Tokens l)") auto
  then show "i \<le> tokStart (Tokens l ! 1)" "tokStart (Tokens l ! 1) \<le> tokEnd (Tokens l ! 1)"
    "toks_in (tokEnd (Tokens l ! 1)) (drop 2 (Tokens l)) k" using assms(1) by auto
qed

lemma argEdits_ok:
  assumes "toks_in i (Tokens l) k" "length (Tokens l) \<ge> 2"
  shows "edits_ok i k (argEdits rm new l)"
proof -
  note t = line_tail_in [OF assms]
  let ?d = "tokEnd (Tokens l ! 1)" let ?ts = "drop 2 (Tokens l)"
  show ?thesis
  proof (cases "\<exists>n args. findCommandLineInsertAt ?ts ?d = Inr n \<and> ParseCommandLineArgs ?ts = Inr args")
    case False
    then have "argEdits rm new l = []" by (auto simp: argEdits_def split: sum.splits)
    then show ?thesis using toks_in_le [OF assms(1)] by simp
  next
    case True
    then obtain n args where a: "findCommandLineInsertAt ?ts ?d = Inr n" "ParseCommandLineArgs ?ts = Inr args"
      by auto
    have "toks_in ?d (map ArgToken (findMatchingCommandLineArgs args rm)) k"
      unfolding findMatchingCommandLineArgs_def by (rule toks_in_filter [OF ParseCommandLineArgs_toks_in [OF t(3) a(2)]])
    then have "edits_ok i k (replaceFound q (findMatchingCommandLineArgs args rm))" for q
      by (rule edits_ok_start [OF replaceFound_ok]) (use t in simp)
    then show ?thesis using findCommandLineInsertAt_in [OF a(1) t(3)] t(1,2)
      unfolding argEdits_def a by (simp add: Let_def)
  qed
qed

section \<open>Parsing arguments that were written\<close>

text \<open>A quoted argument reads back as one known string.\<close>

lemma knownPrefix_arg: "word_view t = arg_view a \<Longrightarrow> tokType t = WORD \<and> knownPrefix t = (a, False)"
  by (cases "SubWords t") (auto simp: word_view_def arg_view_def knownPrefix_def is_var_def)

definition arg_of :: "grubConfigLinuxArg \<Rightarrow> string \<times> string \<times> string \<times> bool" where
  "arg_of a = (Arg a, argName a, argValue a, ValueHasVarExpansion a)"

definition plain_arg :: "string \<Rightarrow> string \<times> string \<times> string \<times> bool" where
  "plain_arg s = (case Cut s CHR ''='' of (n, v, _) \<Rightarrow> (s, n, v, False))"

lemma arg_of_make:
  "arg_of \<lparr>ArgToken = t, Arg = a, argName = n, argValue = v, ValueHasVarExpansion = e\<rparr> = (a, n, v, e)"
  by (simp add: arg_of_def)

lemma ParseCommandLineArgs_view:
  "map word_view toks = map arg_view args \<Longrightarrow>
    \<exists>pargs. ParseCommandLineArgs toks = Inr pargs \<and> map arg_of pargs = map plain_arg args"
proof (induction toks arbitrary: args)
  case (Cons t toks)
  then obtain a args' where a: "args = a # args'" "word_view t = arg_view a" "map word_view toks = map arg_view args'"
    by (cases args) auto
  obtain pargs where p: "ParseCommandLineArgs toks = Inr pargs" "map arg_of pargs = map plain_arg args'"
    using Cons.IH [OF a(3)] by auto
  obtain n v f where c: "Cut a CHR ''='' = (n, v, f)" by (metis surj_pair)
  have "plain_arg a = (a, n, v, False)" using c by (simp add: plain_arg_def)
  then show ?case using knownPrefix_arg [OF a(2)] p c a(1)
    by (simp add: arg_of_make)
qed simp

definition found_values :: "grubConfigLinuxArg list \<Rightarrow> string \<Rightarrow> string list" where
  "found_values args name = map argValue (filter (\<lambda>a. argName a = name) args)"

lemma filter_arg_of:
  "map arg_of pargs = map plain_arg args \<Longrightarrow>
    map argValue (filter (\<lambda>a. argName a = name) pargs)
      = map (\<lambda>p. fst (snd (snd p))) (filter (\<lambda>p. fst (snd p) = name) (map plain_arg args))
    \<and> list_all (\<lambda>a. \<not> ValueHasVarExpansion a) pargs"
proof (induction args arbitrary: pargs)
  case (Cons s args)
  then obtain p ps where p: "pargs = p # ps" "arg_of p = plain_arg s" "map arg_of ps = map plain_arg args"
    by (cases pargs) auto
  show ?case using Cons.IH [OF p(3)] p(1,2) by (auto simp: arg_of_def plain_arg_def split: prod.splits)
qed simp

lemma findKernelCommandLineArgValue_plain:
  assumes "map arg_of pargs = map plain_arg args"
  shows "findKernelCommandLineArgValue pargs name =
    Inr (let vs = map (\<lambda>p. fst (snd (snd p))) (filter (\<lambda>p. fst (snd p) = name) (map plain_arg args)) in
         if vs = [] then [] else last vs)"
proof -
  note f = filter_arg_of [OF assms, of name]
  let ?fs = "filter (\<lambda>a. argName a = name) pargs"
  have fs: "findMatchingCommandLineArgs pargs [name] = ?fs"
    by (auto simp: findMatchingCommandLineArgs_def intro: filter_cong)
  show ?thesis
  proof (cases "?fs = []")
    case True
    then show ?thesis unfolding findKernelCommandLineArgValue_def fs using f by (simp add: Let_def)
  next
    case False
    then have "last ?fs \<in> set pargs" using last_in_set by force
    then have "\<not> ValueHasVarExpansion (last ?fs)" using f by (simp add: list_all_iff)
    moreover have "argValue (last ?fs) = last (map argValue ?fs)" using False by (simp add: last_map)
    ultimately show ?thesis
      unfolding findKernelCommandLineArgValue_def fs f [THEN conjunct1, symmetric] using False by (simp add: Let_def)
  qed
qed

text \<open>The text of ASCII arguments.\<close>

lemma GrubArgsToString_ascii:
  assumes "list_all (list_all (\<lambda>c. byte c < 128)) args" "list_all quotable args"
  shows "\<exists>toks. TokenizeConfig (GrubArgsToString args) = (toks, None) \<and> map word_view toks = map arg_view args"
proof -
  let ?rs = "map (map byte) args"
  have e: "map encode_runes ?rs = args" using assms(1) by (auto simp: list_all_iff encode_runes_bytes intro: map_idI)
  have v: "list_all (list_all valid_rune) ?rs"
    using assms(1) by (fastforce simp: list_all_iff valid_rune_def)
  have q: "list_all (\<lambda>a. quotable (encode_runes a)) ?rs"
    using assms by (auto simp: list_all_iff encode_runes_bytes)
  let ?t = "\<lparr>scanner = NewFileScanner (GrubArgsToString (map encode_runes ?rs)), tokens = [], subWords = []\<rparr>"
  obtain t' where "tokenizeLoop ?t = (t', None)"
    "map word_view (tokens t') = map word_view (tokens ?t) @ map (\<lambda>a. arg_view (encode_runes a)) ?rs"
    using tokenizeLoop_args [of ?t ?rs, OF _ v q] by auto
  moreover have "map (\<lambda>a. arg_view (encode_runes a)) ?rs = map arg_view (map encode_runes ?rs)" by simp
  ultimately show ?thesis unfolding e by (auto simp: TokenizeConfig_def)
qed

section \<open>Properties\<close>

text \<open>C17. Rewriting kernel arguments, although done line by line from the last to the first on a text that
  changes, is one pass over the original file: every \<open>linux\<close> line gets its own edits at the places
  found before any of them, these lie inside the text, in order and without overlap, and all the
  rest of the file is kept.\<close>

theorem updateKernelCommandLineArgsAll_splice:
  assumes "updateKernelCommandLineArgsAll content argsToRemove newArgs = Inr out"
  shows "\<exists>ls. findLinuxOrInitrdLineAll content linuxCommand True = Inr ls
    \<and> edits_ok 0 (length content) (concat (map (argEdits argsToRemove newArgs) ls))
    \<and> out = splice 0 content (concat (map (argEdits argsToRemove newArgs) ls))"
proof -
  obtain ls where ls: "findLinuxOrInitrdLineAll content linuxCommand True = Inr ls"
    "editLines (updateLine argsToRemove newArgs) ls content = Inr out"
    using assms by (auto simp: updateKernelCommandLineArgsAll_def split: sum.splits)
  note l = findLinuxOrInitrdLineAll_lines [OF ls(1)]
  have ok: "edits_ok i (lineStop l k) (argEdits argsToRemove newArgs l)"
    if "l \<in> set ls" "toks_in i (Tokens l) k" "k \<le> lineStop l k" for l i k
    using edits_ok_mono [OF argEdits_ok [OF that(2)] that(3)] l(2) that(1) by (simp add: list_all_iff)
  show ?thesis
    using ls(1) lines_edits_ok [OF l(1) ok] editLines_splices [OF ls(2) updateLine_splice l(1) ok] by blast
qed

theorem updateKernelCommandLineArgsAll_splice_witness:
  "\<exists>ls. findLinuxOrInitrdLineAll ''linux a b'' linuxCommand True = Inr ls
    \<and> splice 0 ''linux a b'' (concat (map (argEdits [''b''] [''c'']) ls)) = ''linux a c''"
proof -
  have "updateKernelCommandLineArgsAll ''linux a b'' [''b''] [''c''] = Inr ''linux a c''"
    by (simp add: tokenize_eval updateKernelCommandLineArgsAll_def findLinuxOrInitrdLineAll_def
        findGrubCommandAll_def grubLines_def SplitTokensIntoLines_def appendNewLine_def linuxCommand_def
        IsTokenKeyword_def updateLine_def findCommandLineInsertAt_def is_kernelopts_def knownPrefix_def
        is_var_def Let_def updateKernelCommandLineArgsHelper_def findMatchingCommandLineArgs_def
        QuoteString_def RequiresQuotes_def ContainsAny_def tokStart_def tokEnd_def char_of_def bit_0)
  from updateKernelCommandLineArgsAll_splice [OF this] show ?thesis by auto
qed

text \<open>Setting the path of the kernel or initrd commands is one pass over the file too: the second word of
  each such line becomes the new path, quoted, nothing else changes, and the old paths are returned
  from the last line to the first.\<close>

theorem setLinuxOrInitrdPathAll_splice:
  assumes "setLinuxOrInitrdPathAll content commandName filePath allowMultiple = Inr (out, olds)"
  shows "\<exists>ls. findLinuxOrInitrdLineAll content commandName allowMultiple = Inr ls
    \<and> (let es = map (\<lambda>l. (tokStart (Tokens l ! 1), tokEnd (Tokens l ! 1), QuoteString filePath)) ls in
       edits_ok 0 (length content) es \<and> out = splice 0 content es
       \<and> olds = rev (map (\<lambda>(a, b, new). substr a b content) es))"
proof -
  let ?g = "\<lambda>l. [(tokStart (Tokens l ! 1), tokEnd (Tokens l ! 1), QuoteString filePath)]"
  let ?f = "\<lambda>line out. Inr (replaceRange (tokStart (Tokens line ! 1)) (tokEnd (Tokens line ! 1))
                                     (QuoteString filePath) out)"
  obtain ls where ls: "findLinuxOrInitrdLineAll content commandName allowMultiple = Inr ls"
    "editLines ?f ls content = Inr out" "olds = map (\<lambda>line. tokText content (Tokens line ! 1)) (rev ls)"
    using assms by (auto simp: setLinuxOrInitrdPathAll_def split: sum.splits)
  note l = findLinuxOrInitrdLineAll_lines [OF ls(1)]
  have ok: "edits_ok i (lineStop l k) (?g l)"
    if "l \<in> set ls" "toks_in i (Tokens l) k" "k \<le> lineStop l k" for l i k
    using line_tail_in [OF that(2)] toks_in_le [of _ "drop 2 (Tokens l)" k] l(2) that(1,3)
    by (fastforce simp: list_all_iff)
  have c: "concat (map ?g ls) = map (\<lambda>l. (tokStart (Tokens l ! 1), tokEnd (Tokens l ! 1), QuoteString filePath)) ls"
    by (induction ls) auto
  have "edits_ok 0 (length content) (concat (map ?g ls))" by (rule lines_edits_ok [OF l(1) ok])
  moreover have "out = splice 0 content (concat (map ?g ls))"
    by (rule editLines_splices [OF ls(2) _ l(1) ok]) (auto simp: replaceRange_splice)
  ultimately show ?thesis
    unfolding c Let_def using ls(1,3) by (simp add: rev_map tokText_def comp_def)
qed

theorem setLinuxOrInitrdPathAll_splice_witness:
  "\<exists>ls. findLinuxOrInitrdLineAll ''linux a b'' linuxCommand True = Inr ls
    \<and> splice 0 ''linux a b'' (map (\<lambda>l. (tokStart (Tokens l ! 1), tokEnd (Tokens l ! 1), QuoteString ''c'')) ls)
      = ''linux c b''"
proof -
  have "setLinuxOrInitrdPathAll ''linux a b'' linuxCommand ''c'' True = Inr (''linux c b'', [''a''])"
    by (simp add: tokenize_eval setLinuxOrInitrdPathAll_def findLinuxOrInitrdLineAll_def
        findGrubCommandAll_def grubLines_def SplitTokensIntoLines_def appendNewLine_def linuxCommand_def
        IsTokenKeyword_def Let_def tokText_def
        QuoteString_def RequiresQuotes_def ContainsAny_def tokStart_def tokEnd_def replaceRange_def char_of_def bit_0)
  from setLinuxOrInitrdPathAll_splice [OF this] show ?thesis by (auto simp: Let_def)
qed

text \<open>C18. Removing a command panics exactly when one of the lines found is the last of a file without a final
  newline; otherwise the result is the file without those lines, up to their end tokens.\<close>

theorem removeCommandAll_cases:
  assumes "findGrubCommandAll content command True = Inr ls"
  shows "removeCommandAll content command =
    (if list_ex (\<lambda>l. EndToken l = None) ls then Inl PanicNilEndToken
     else Inr (splice 0 content (map (\<lambda>l. (tokStart (Tokens l ! 0), tokStart (the (EndToken l)), [])) ls)))"
proof -
  let ?f = "\<lambda>line out. (case EndToken line of
                  None \<Rightarrow> Inl PanicNilEndToken
                | Some e \<Rightarrow> Inr (replaceRange (tokStart (Tokens line ! 0)) (tokStart e) [] out))"
  let ?g = "\<lambda>l. [(tokStart (Tokens l ! 0), tokStart (the (EndToken l)), [])]"
  have r: "removeCommandAll content command = editLines ?f ls content"
    by (simp add: removeCommandAll_def assms)
  have c: "concat (map ?g ks) = map (\<lambda>l. (tokStart (Tokens l ! 0), tokStart (the (EndToken l)), [])) ks" for ks
    by (induction ks) auto
  show ?thesis
  proof (cases "list_ex (\<lambda>l. EndToken l = None) ls")
    case True
    then have "editLines ?f ls content = Inl PanicNilEndToken"
    proof (induction ls)
      case (Cons l ls)
      have "editLines ?f ls content = Inl PanicNilEndToken \<or> (\<exists>s. editLines ?f ls content = Inr s)"
        by (induction ls) (auto split: option.splits)
      then show ?case using Cons by auto
    qed simp
    with True show ?thesis by (simp add: r)
  next
    case False
    then have e: "list_all (\<lambda>l. EndToken l \<noteq> None) ls" by (simp add: list_ex_iff list_all_iff)
    then have "\<exists>out. editLines ?f ls content = Inr out"
      by (induction ls) (auto split: option.splits)
    then obtain out where out: "editLines ?f ls content = Inr out" by auto
    have "out = splice 0 content (concat (map ?g ls))"
    proof (rule editLines_splices [OF out _ findGrubCommandAll_lines_in [OF assms]])
      fix l i k
      assume l: "l \<in> set ls" "Tokens l \<noteq> []" "toks_in i (Tokens l) k" "k \<le> lineStop l k"
      moreover obtain d where "EndToken l = Some d" using e l(1) by (auto simp: list_all_iff)
      ultimately show "edits_ok i (lineStop l k) (?g l)"
        using toks_in_mem [OF l(3), of "Tokens l ! 0"] by (auto simp: lineStop_def)
    qed (auto simp: replaceRange_splice split: option.splits)
    with False out show ?thesis by (simp add: r c)
  qed
qed

theorem removeCommandAll_cases_witness:
  "removeCommandAll ''quiet'' ''quiet'' = Inl PanicNilEndToken"
proof -
  have "\<exists>ls. findGrubCommandAll ''quiet'' ''quiet'' True = Inr ls \<and> list_ex (\<lambda>l. EndToken l = None) ls"
    by (simp add: tokenize_eval findGrubCommandAll_def grubLines_def SplitTokensIntoLines_def appendNewLine_def
        IsTokenKeyword_def Let_def char_of_def bit_0)
  then show ?thesis using removeCommandAll_cases by auto
qed

text \<open>C19. Arguments written by \<open>GrubArgsToString\<close> parse back to themselves: one argument each,
  with the name before its first equals sign, the value after it, and no variable expansion. The arguments are ASCII
  and not empty, and backslashes occur only in arguments that some other character makes quoted
  (\<open>quotable\<close>).\<close>

theorem ParseCommandLineArgs_roundtrip:
  assumes "list_all (\<lambda>a. quotable a \<and> list_all (\<lambda>c. byte c < 128) a) args"
  shows "\<exists>toks pargs. TokenizeConfig (GrubArgsToString args) = (toks, None)
    \<and> ParseCommandLineArgs toks = Inr pargs
    \<and> map (\<lambda>p. (Arg p, argName p, argValue p, ValueHasVarExpansion p)) pargs
      = map (\<lambda>s. (s, fst (Cut s CHR ''=''), fst (snd (Cut s CHR ''='')), False)) args"
proof -
  have "list_all (list_all (\<lambda>c. byte c < 128)) args" "list_all quotable args"
    using assms by (auto simp: list_all_iff)
  from GrubArgsToString_ascii [OF this] obtain toks where
    t: "TokenizeConfig (GrubArgsToString args) = (toks, None)" "map word_view toks = map arg_view args" by auto
  have p: "plain_arg = (\<lambda>s. (s, fst (Cut s CHR ''=''), fst (snd (Cut s CHR ''='')), False))"
    by (rule ext) (simp add: plain_arg_def split_def)
  show ?thesis
    using t(1) ParseCommandLineArgs_view [OF t(2)] unfolding p arg_of_def [abs_def] by blast
qed

theorem ParseCommandLineArgs_roundtrip_witness:
  "\<exists>toks pargs. TokenizeConfig (GrubArgsToString [''root=a b'', ''ro'']) = (toks, None)
    \<and> ParseCommandLineArgs toks = Inr pargs \<and> map argName pargs = [''root'', ''ro''] \<and> map argValue pargs = [''a b'', '''']"
proof -
  have "list_all (\<lambda>a. quotable a \<and> list_all (\<lambda>c. byte c < 128) a) [''root=a b'', ''ro'']"
    by (simp add: quotable_def RequiresQuotes_def ContainsAny_def)
  from ParseCommandLineArgs_roundtrip [OF this] obtain toks pargs where
    p: "TokenizeConfig (GrubArgsToString [''root=a b'', ''ro'']) = (toks, None)" "ParseCommandLineArgs toks = Inr pargs"
    "map (\<lambda>p. (Arg p, argName p, argValue p, ValueHasVarExpansion p)) pargs
      = [(''root=a b'', ''root'', ''a b'', False), (''ro'', ''ro'', '''', False)]" by auto
  from p(3) have "map argName pargs = [''root'', ''ro'']" "map argValue pargs = [''a b'', '''']" by auto
  with p(1,2) show ?thesis by (intro exI conjI)

qed

lemma selinux_plain_args:
  "plain_arg ''selinux=0'' = (''selinux=0'', ''selinux'', ''0'', False)"
  "plain_arg ''selinux=1'' = (''selinux=1'', ''selinux'', ''1'', False)"
  "plain_arg ''security=selinux'' = (''security=selinux'', ''security'', ''selinux'', False)"
  "plain_arg ''enforcing=1'' = (''enforcing=1'', ''enforcing'', ''1'', False)"
  by (simp_all add: plain_arg_def)

text \<open>C20. The SELinux mode written to a kernel command line reads back as itself when it is disabled or
  force-enforcing, and as the default, left to the configuration file, when it is permissive or
  enforcing.\<close>

theorem selinux_args_roundtrip:
  assumes "selinuxModeToArgs m = Inr args"
  shows "\<exists>toks pargs. TokenizeConfig (GrubArgsToString args) = (toks, None) \<and> ParseCommandLineArgs toks = Inr pargs
    \<and> getSELinuxModeFromLinuxArgs pargs
      = Inr (if m = SELinuxModeDisabled \<or> m = SELinuxModeForceEnforcing then m else SELinuxModeDefault)"
proof -
  have args: "args \<in> {[''selinux=0''], [''security=selinux'', ''selinux=1'', ''enforcing=1''], [''security=selinux'', ''selinux=1'']}"
    using assms by (auto simp: selinuxModeToArgs_def getCommonSELinuxArgs_def split: if_splits)
  then have "list_all (list_all (\<lambda>c. byte c < 128)) args" "list_all quotable args"
    by (auto simp: quotable_def RequiresQuotes_def ContainsAny_def)
  from GrubArgsToString_ascii [OF this] obtain toks where
    t: "TokenizeConfig (GrubArgsToString args) = (toks, None)" "map word_view toks = map arg_view args" by auto
  obtain pargs where p: "ParseCommandLineArgs toks = Inr pargs" "map arg_of pargs = map plain_arg args"
    using ParseCommandLineArgs_view [OF t(2)] by auto
  note v = findKernelCommandLineArgValue_plain [OF p(2)]
  have "getSELinuxModeFromLinuxArgs pargs
      = Inr (if m = SELinuxModeDisabled \<or> m = SELinuxModeForceEnforcing then m else SELinuxModeDefault)"
  proof -
    consider "m = SELinuxModeDisabled" "args = [''selinux=0'']"
      | "m = SELinuxModeForceEnforcing" "args = [''security=selinux'', ''selinux=1'', ''enforcing=1'']"
      | "m \<noteq> SELinuxModeDisabled" "m \<noteq> SELinuxModeForceEnforcing" "args = [''security=selinux'', ''selinux=1'']"
      using assms by (auto simp: selinuxModeToArgs_def getCommonSELinuxArgs_def split: if_splits)
    then show ?thesis
      by cases (simp_all add: getSELinuxModeFromLinuxArgs_def v selinux_plain_args)
  qed

  then show ?thesis using t(1) p(1) by blast
qed

theorem selinux_args_roundtrip_witness:
  "\<exists>args toks pargs. selinuxModeToArgs ''force-enforcing'' = Inr args
    \<and> TokenizeConfig (GrubArgsToString args) = (toks, None) \<and> ParseCommandLineArgs toks = Inr pargs
    \<and> getSELinuxModeFromLinuxArgs pargs = Inr ''force-enforcing''"
proof -
  have "selinuxModeToArgs ''force-enforcing'' = Inr [''security=selinux'', ''selinux=1'', ''enforcing=1'']"
    by (simp add: selinuxModeToArgs_def getCommonSELinuxArgs_def enum_defs)
  from selinux_args_roundtrip [OF this] this show ?thesis
    unfolding SELinuxModeForceEnforcing_def by auto
qed

end
