(* ===== verification/OsConfig.thy ===== *)
theory OsConfig
  imports Storage GrubCfg
begin

text \<open>
  The \<open>os\<close>, \<open>scripts\<close>, \<open>iso\<close> and \<open>pxe\<close> parts of the configuration, package \<open>imagecustomizerapi\<close>:
  \<open>os.go\<close>, \<open>bootloader.go\<close>, \<open>selinux.go\<close>, \<open>kernelcommandline.go\<close>, \<open>additionalfile.go\<close>, \<open>dirconfig.go\<close>,
  \<open>filepermissions.go\<close>, \<open>user.go\<close>, \<open>group.go\<close>, \<open>password.go\<close>, \<open>service.go\<close>, \<open>module.go\<close>, \<open>uki.go\<close>,
  \<open>packages.go\<close>, \<open>packagesnapshottime.go\<close>, \<open>imagehistory.go\<close>, \<open>script.go\<close>, \<open>iso.go\<close> and \<open>pxe.go\<close>, with the
  checks of names and numbers they take from \<open>internal/userutils\<close>.

  Three library functions are arguments of the definitions that call them:
  \<open>govalidator.IsDNSName\<close>, \<open>time.Parse\<close> (whether it accepts a value in a layout) and \<open>url.Parse\<close>
  (whether it accepts a string).
\<close>

definition check_opt :: "('a \<Rightarrow> 'e option) \<Rightarrow> 'a option \<Rightarrow> 'e option" where
  "check_opt f x = (case x of None \<Rightarrow> None | Some y \<Rightarrow> f y)"

lemma check_opt_None [simp, checks]: "check_opt f x = None \<longleftrightarrow> (\<forall>y. x = Some y \<longrightarrow> f y = None)"
  by (simp add: check_opt_def split: option.splits)

section \<open>Enumerations\<close>

definition SELinuxMode_IsValid :: "SELinuxMode \<Rightarrow> enum_error option" where
  "SELinuxMode_IsValid = enum_IsValid
     [SELinuxModeDefault, SELinuxModeDisabled, SELinuxModeEnforcing, SELinuxModePermissive,
      SELinuxModeForceEnforcing]"

definition ModuleLoadModeAlways :: string where [enum_defs]: "ModuleLoadModeAlways = ''always''"
definition ModuleLoadModeAuto :: string where [enum_defs]: "ModuleLoadModeAuto = ''auto''"
definition ModuleLoadModeDisable :: string where [enum_defs]: "ModuleLoadModeDisable = ''disable''"
definition ModuleLoadModeInherit :: string where [enum_defs]: "ModuleLoadModeInherit = ''inherit''"
definition ModuleLoadModeDefault :: string where [enum_defs]: "ModuleLoadModeDefault = ''''"

definition ModuleLoadMode_IsValid :: "string \<Rightarrow> enum_error option" where
  "ModuleLoadMode_IsValid = enum_IsValid
     [ModuleLoadModeAlways, ModuleLoadModeAuto, ModuleLoadModeDisable, ModuleLoadModeInherit,
      ModuleLoadModeDefault]"

definition UkiModeCreate :: string where [enum_defs]: "UkiModeCreate = ''create''"
definition UkiModePassthrough :: string where [enum_defs]: "UkiModePassthrough = ''passthrough''"
definition UkiModeModify :: string where [enum_defs]: "UkiModeModify = ''modify''"

definition UkiMode_IsValid :: "string \<Rightarrow> enum_error option" where
  "UkiMode_IsValid = enum_IsValid ['''', UkiModeCreate, UkiModePassthrough, UkiModeModify]"

definition ImageHistory_IsValid :: "string \<Rightarrow> enum_error option" where
  "ImageHistory_IsValid = enum_IsValid ['''', ''none'']"

definition KdumpBootFilesType_IsValid :: "string \<Rightarrow> enum_error option" where
  "KdumpBootFilesType_IsValid = enum_IsValid [''none'', ''keep'']"

definition InitramfsImageTypeFullOS :: string where [enum_defs]: "InitramfsImageTypeFullOS = ''full-os''"

definition InitramfsImageType_IsValid :: "string \<Rightarrow> enum_error option" where
  "InitramfsImageType_IsValid it = guard (it \<noteq> '''' \<and> it \<notin> set [''bootstrap'', InitramfsImageTypeFullOS]) (InvalidValue it)"

definition PasswordTypeLocked :: string where [enum_defs]: "PasswordTypeLocked = ''locked''"

text \<open>The development and the production build have their own check of the password type.\<close>

definition passwordValueTypes :: "string list" where
  "passwordValueTypes = [''plain-text'', ''hashed'', ''plain-text-file'', ''hashed-file'']"

definition PasswordType_IsValid_nonprod :: "string \<Rightarrow> enum_error option" where
  "PasswordType_IsValid_nonprod = enum_IsValid (PasswordTypeLocked # passwordValueTypes)"

definition PasswordType_IsValid_prod :: "string \<Rightarrow> enum_error option" where
  "PasswordType_IsValid_prod = enum_IsValid [PasswordTypeLocked]"

section \<open>Users and groups\<close>

datatype user_error =
    NameEmpty string | UIDOutOfRange int | ExpiresOutOfRange int
  | PasswordType enum_error | LockedWithValue | PasswordValueEmpty string

definition NameIsValid :: "string \<Rightarrow> user_error option" where
  "NameIsValid name = guard (TrimSpace_empty name) (NameEmpty name)"

definition UIDIsValid :: "int \<Rightarrow> user_error option" where
  "UIDIsValid uid = guard (uid < 0 \<or> uid > 60000) (UIDOutOfRange uid)"

definition PasswordExpiresDaysIsValid :: "int \<Rightarrow> user_error option" where
  "PasswordExpiresDaysIsValid d = guard (d < - 1 \<or> d > 99999) (ExpiresOutOfRange d)"

record Password =
  pwType :: string
  pwValue :: string

definition Password_IsValid :: "bool \<Rightarrow> Password \<Rightarrow> user_error option" where
  "Password_IsValid isProd p = first_err
     [map_option PasswordType ((if isProd then PasswordType_IsValid_prod else PasswordType_IsValid_nonprod) (pwType p)),
      (if pwType p = PasswordTypeLocked then guard (pwValue p \<noteq> []) LockedWithValue
       else if pwType p \<in> set passwordValueTypes then guard (pwValue p = []) (PasswordValueEmpty (pwType p))
       else None)]"

record User =
  usName :: string
  usUID :: "int option"
  usPassword :: "Password option"
  PasswordExpiresDays :: "int option"
  SSHPublicKeyPaths :: "string list"
  SSHPublicKeys :: "string list"
  PrimaryGroup :: string
  SecondaryGroups :: "string list"
  StartupCommand :: string
  usHomeDirectory :: string

definition User_IsValid :: "bool \<Rightarrow> User \<Rightarrow> user_error option" where
  "User_IsValid isProd u = first_err
     [NameIsValid (usName u), check_opt UIDIsValid (usUID u), check_opt (Password_IsValid isProd) (usPassword u),
      check_opt PasswordExpiresDaysIsValid (PasswordExpiresDays u)]"

record Group =
  grName :: string
  grGID :: "int option"

definition Group_IsValid :: "Group \<Rightarrow> user_error option" where
  "Group_IsValid g = first_err [NameIsValid (grName g), check_opt UIDIsValid (grGID g)]"

section \<open>Files\<close>

type_synonym FilePermissions = uint32

definition FilePermissions_IsValid :: "FilePermissions \<Rightarrow> bool" where
  "FilePermissions_IsValid p \<longleftrightarrow> and p (not 0x1FF) = 0"

text \<open>The value of the YAML scalar, as a string.\<close>

definition FilePermissions_UnmarshalYAML :: "string \<Rightarrow> num_error + FilePermissions" where
  "FilePermissions_UnmarshalYAML strValue =
     (case ParseUint strValue 8 32 of Inl e \<Rightarrow> Inl e | Inr n \<Rightarrow> Inr (of_nat n))"

record AdditionalFile =
  afDestination :: string
  afSource :: string
  afContent :: "string option"
  afPermissions :: "FilePermissions option"

datatype file_error =
    DestinationEmpty | NoSourceOrContent | SourceAndContent | SourceEmpty
  | NonPermissionBits FilePermissions

definition permissions_check :: "FilePermissions \<Rightarrow> file_error option" where
  "permissions_check p = guard (\<not> FilePermissions_IsValid p) (NonPermissionBits p)"

definition AdditionalFile_IsValid :: "AdditionalFile \<Rightarrow> file_error option" where
  "AdditionalFile_IsValid f = first_err
     [guard (afDestination f = []) DestinationEmpty,
      guard (afSource f = [] \<and> afContent f = None) NoSourceOrContent,
      guard (afSource f \<noteq> [] \<and> afContent f \<noteq> None) SourceAndContent,
      check_opt permissions_check (afPermissions f)]"

definition AdditionalFileList_IsValid :: "AdditionalFile list \<Rightarrow> (nat \<times> file_error) option" where
  "AdditionalFileList_IsValid = validate_items Pair AdditionalFile_IsValid"

record DirConfig =
  dcSource :: string
  dcDestination :: string
  NewDirPermissions :: "FilePermissions option"
  MergedDirPermissions :: "FilePermissions option"
  ChildFilePermissions :: "FilePermissions option"

definition DirConfig_IsValid :: "DirConfig \<Rightarrow> file_error option" where
  "DirConfig_IsValid d = first_err
     [guard (dcSource d = []) SourceEmpty, guard (dcDestination d = []) DestinationEmpty,
      check_opt permissions_check (NewDirPermissions d), check_opt permissions_check (MergedDirPermissions d),
      check_opt permissions_check (ChildFilePermissions d)]"

definition DirConfigList_IsValid :: "DirConfig list \<Rightarrow> (nat \<times> file_error) option" where
  "DirConfigList_IsValid = validate_items Pair DirConfig_IsValid"

section \<open>Kernel command line, modules and services\<close>

datatype item_error =
    KernelArgEmpty nat | ServiceEnableEmpty nat | ServiceDisableEmpty nat
  | ModuleDuplicate string nat | InvalidModule nat module_error
and module_error =
    ModuleNameEmpty | ModuleNameSpaces string | InvalidLoadMode string enum_error
  | OptionKeyEmpty string | OptionValueEmpty string | OptionKeySpaces string string | OptionValueSpaces string string

definition KernelCommandLine_IsValid :: "string list \<Rightarrow> item_error option" where
  "KernelCommandLine_IsValid extraCommandLine =
     validate_items (\<lambda>i _. KernelArgEmpty i) (\<lambda>arg. guard (arg = []) ()) extraCommandLine"

record Services =
  svEnable :: "string list"
  svDisable :: "string list"

definition serviceNameIsValid :: "string \<Rightarrow> unit option" where
  "serviceNameIsValid name = guard (name = []) ()"

definition Services_IsValid :: "Services \<Rightarrow> item_error option" where
  "Services_IsValid s = first_err
     [validate_items (\<lambda>i _. ServiceEnableEmpty i) serviceNameIsValid (svEnable s),
      validate_items (\<lambda>i _. ServiceDisableEmpty i) serviceNameIsValid (svDisable s)]"

text \<open>The options of a module are a Go map; the list stands for the order of one iteration over it.\<close>

record Module =
  mdName :: string
  mdLoadMode :: string
  mdOptions :: "(string \<times> string) list"

definition validateModuleName :: "string \<Rightarrow> module_error option" where
  "validateModuleName moduleName = first_err
     [guard (moduleName = []) ModuleNameEmpty,
      guard (ContainsAny moduleName [CHR '' '', CHR 0x0A]) (ModuleNameSpaces moduleName)]"

definition Module_IsValid :: "Module \<Rightarrow> module_error option" where
  "Module_IsValid m = first_err
     [validateModuleName (mdName m),
      map_option (InvalidLoadMode (mdName m)) (ModuleLoadMode_IsValid (mdLoadMode m)),
      validate_items (\<lambda>_ e. e)
        (\<lambda>(optionKey, optionValue). first_err
           [guard (optionKey = []) (OptionKeyEmpty (mdName m)),
            guard (optionValue = []) (OptionValueEmpty (mdName m)),
            guard (ContainsAny optionKey [CHR '' '', CHR 0x0A]) (OptionKeySpaces (mdName m) optionKey),
            guard (ContainsAny optionValue [CHR '' '', CHR 0x0A]) (OptionValueSpaces (mdName m) optionValue)])
        (mdOptions m)]"

fun moduleLoop :: "nat \<Rightarrow> string set \<Rightarrow> Module list \<Rightarrow> item_error option" where
  "moduleLoop i moduleMap [] = None"
| "moduleLoop i moduleMap (m # ms) =
     (if mdName m \<in> moduleMap then Some (ModuleDuplicate (mdName m) i)
      else case Module_IsValid m of
             Some e \<Rightarrow> Some (InvalidModule i e)
           | None \<Rightarrow> moduleLoop (Suc i) (insert (mdName m) moduleMap) ms)"

definition ModuleList_IsValid :: "Module list \<Rightarrow> item_error option" where
  "ModuleList_IsValid ms = moduleLoop 0 {} ms"

lemma moduleLoop_None [checks]:
  "moduleLoop i seen ms = None \<longleftrightarrow>
     distinct (map mdName ms) \<and> mdName ` set ms \<inter> seen = {} \<and> (\<forall>m \<in> set ms. Module_IsValid m = None)"
  by (induction ms arbitrary: i seen) (auto split: option.splits)

section \<open>Packages\<close>

record Packages =
  UpdateExistingPackages :: bool
  InstallLists :: "string list"
  Install :: "string list"
  RemoveLists :: "string list"
  Remove :: "string list"
  UpdateLists :: "string list"
  Update :: "string list"
  SnapshotTime :: string
  RemovePackageManager :: "bool option"

definition PackageSnapshotTime_IsValid :: "(string \<Rightarrow> string \<Rightarrow> bool) \<Rightarrow> string \<Rightarrow> string option" where
  "PackageSnapshotTime_IsValid time_Parse p =
     (if p = [] then None
      else if time_Parse ''2006-01-02T15:04:05Z07:00'' p then None
      else if time_Parse ''2006-01-02'' p then None
      else Some p)"

section \<open>The operating system\<close>

record OS =
  Hostname :: string
  osPackages :: Packages
  SELinux :: SELinuxMode
  osExtraCommandLine :: "string list"
  osAdditionalFiles :: "AdditionalFile list"
  AdditionalDirs :: "DirConfig list"
  Groups :: "Group list"
  Users :: "User list"
  osServices :: Services
  Modules :: "Module list"
  Overlays :: "Overlay list option"
  BootLoaderResetType :: string
  Uki :: "string option"
  osImageHistory :: string

datatype os_error =
    InvalidResetType enum_error | InvalidHostname string | InvalidImageHistory enum_error
  | InvalidSELinux enum_error | InvalidKernelCommandLine item_error | InvalidAdditionalFiles "nat \<times> file_error"
  | InvalidAdditionalDirs "nat \<times> file_error" | InvalidUser nat user_error | InvalidGroup nat user_error
  | InvalidItems item_error | InvalidOverlay nat overlay_error | DuplicateMountPoint string nat
  | DuplicateUpperDir string nat | DuplicateWorkDir string nat | InvalidUki enum_error | InvalidSnapshotTime string

text \<open>The overlay loop and its three maps.\<close>

fun overlayLoop :: "nat \<Rightarrow> string set \<Rightarrow> string set \<Rightarrow> string set \<Rightarrow> Overlay list \<Rightarrow> os_error option" where
  "overlayLoop i mountPoints upperDirs workDirs [] = None"
| "overlayLoop i mountPoints upperDirs workDirs (ov # ovs) =
     (case first_err
        [map_option (InvalidOverlay i) (Overlay_IsValid ov),
         guard (ovMountPoint ov \<in> mountPoints) (DuplicateMountPoint (ovMountPoint ov) i),
         guard (UpperDir ov \<in> upperDirs) (DuplicateUpperDir (UpperDir ov) i),
         guard (WorkDir ov \<in> workDirs) (DuplicateWorkDir (WorkDir ov) i)] of
        Some e \<Rightarrow> Some e
      | None \<Rightarrow> overlayLoop (Suc i) (insert (ovMountPoint ov) mountPoints) (insert (UpperDir ov) upperDirs)
                  (insert (WorkDir ov) workDirs) ovs)"

lemma overlayLoop_None [checks]:
  "overlayLoop i ms us ws ovs = None \<longleftrightarrow>
     (\<forall>ov \<in> set ovs. Overlay_IsValid ov = None)
     \<and> distinct (map ovMountPoint ovs) \<and> ovMountPoint ` set ovs \<inter> ms = {}
     \<and> distinct (map UpperDir ovs) \<and> UpperDir ` set ovs \<inter> us = {}
     \<and> distinct (map WorkDir ovs) \<and> WorkDir ` set ovs \<inter> ws = {}"
  by (induction ovs arbitrary: i ms us ws) (auto split: option.splits)

definition OS_IsValid :: "(string \<Rightarrow> bool) \<Rightarrow> (string \<Rightarrow> string \<Rightarrow> bool) \<Rightarrow> bool \<Rightarrow> OS \<Rightarrow> os_error option" where
  "OS_IsValid isDNSName time_Parse isProd s = first_err
     [map_option InvalidResetType (ResetBootLoaderType_IsValid (BootLoaderResetType s)),
      guard (Hostname s \<noteq> [] \<and> (\<not> isDNSName (Hostname s) \<or> ContainsStr (Hostname s) ''_'')) (InvalidHostname (Hostname s)),
      map_option InvalidImageHistory (ImageHistory_IsValid (osImageHistory s)),
      map_option InvalidSELinux (SELinuxMode_IsValid (SELinux s)),
      map_option InvalidKernelCommandLine (KernelCommandLine_IsValid (osExtraCommandLine s)),
      map_option InvalidAdditionalFiles (AdditionalFileList_IsValid (osAdditionalFiles s)),
      map_option InvalidAdditionalDirs (DirConfigList_IsValid (AdditionalDirs s)),
      validate_items InvalidUser (User_IsValid isProd) (Users s),
      validate_items InvalidGroup Group_IsValid (Groups s),
      map_option InvalidItems (Services_IsValid (osServices s)),
      map_option InvalidItems (ModuleList_IsValid (Modules s)),
      check_opt (overlayLoop 0 {} {} {}) (Overlays s),
      map_option InvalidUki (check_opt UkiMode_IsValid (Uki s)),
      map_option InvalidSnapshotTime (PackageSnapshotTime_IsValid time_Parse (SnapshotTime (osPackages s)))]"

section \<open>Scripts, ISO and PXE\<close>

record Script =
  scPath :: string
  scContentText :: string
  scInterpreter :: string
  scArguments :: "string list"
  scEnvironment :: "(string \<times> string) list"
  scName :: string

datatype script_error = NoPathOrContent | PathAndContent

definition Script_IsValid :: "Script \<Rightarrow> script_error option" where
  "Script_IsValid s = first_err
     [guard (scPath s = [] \<and> scContentText s = []) NoPathOrContent,
      guard (scPath s \<noteq> [] \<and> scContentText s \<noteq> []) PathAndContent]"

record Scripts =
  PostCustomization :: "Script list"
  FinalizeCustomization :: "Script list"

datatype scripts_error = InvalidPostScript nat script_error | InvalidFinalizeScript nat script_error

definition Scripts_IsValid :: "Scripts \<Rightarrow> scripts_error option" where
  "Scripts_IsValid s = first_err
     [validate_items InvalidPostScript Script_IsValid (PostCustomization s),
      validate_items InvalidFinalizeScript Script_IsValid (FinalizeCustomization s)]"

datatype media_error =
    MediaKernelCommandLine item_error | MediaAdditionalFiles "nat \<times> file_error" | MediaInitramfsType enum_error
  | MediaKdumpBootFiles enum_error | BootstrapWithFullOS | BothBootstrapUrls | InvalidBootstrapBaseUrl string url_error
  | InvalidBootstrapFileUrl string url_error
and url_error = UrlParseError string | UnsupportedProtocol string

record Iso =
  isoExtraCommandLine :: "string list"
  isoAdditionalFiles :: "AdditionalFile list"
  isoInitramfsType :: string
  isoKdumpBootFiles :: "string option"

definition Iso_IsValid :: "Iso \<Rightarrow> media_error option" where
  "Iso_IsValid i = first_err
     [map_option MediaKernelCommandLine (KernelCommandLine_IsValid (isoExtraCommandLine i)),
      map_option MediaAdditionalFiles (AdditionalFileList_IsValid (isoAdditionalFiles i)),
      map_option MediaInitramfsType (InitramfsImageType_IsValid (isoInitramfsType i)),
      map_option MediaKdumpBootFiles (check_opt KdumpBootFilesType_IsValid (isoKdumpBootFiles i))]"

record Pxe =
  pxeExtraCommandLine :: "string list"
  pxeAdditionalFiles :: "AdditionalFile list"
  pxeInitramfsType :: string
  BootstrapBaseUrl :: string
  BootstrapFileUrl :: string
  pxeKdumpBootFiles :: "string option"

definition PxeIsoDownloadProtocols :: "string list" where
  "PxeIsoDownloadProtocols = [''ftp://'', ''http://'', ''https://'', ''nfs://'', ''tftp://'']"

definition IsValidPxeUrl :: "(string \<Rightarrow> bool) \<Rightarrow> string \<Rightarrow> url_error option" where
  "IsValidPxeUrl url_Parse urlString =
     (if urlString = [] then None
      else first_err
        [guard (\<not> url_Parse urlString) (UrlParseError urlString),
         guard (\<not> list_ex (HasPrefix urlString) PxeIsoDownloadProtocols) (UnsupportedProtocol urlString)])"

definition Pxe_IsValid :: "(string \<Rightarrow> bool) \<Rightarrow> Pxe \<Rightarrow> media_error option" where
  "Pxe_IsValid url_Parse p = first_err
     [map_option MediaKernelCommandLine (KernelCommandLine_IsValid (pxeExtraCommandLine p)),
      map_option MediaAdditionalFiles (AdditionalFileList_IsValid (pxeAdditionalFiles p)),
      map_option MediaInitramfsType (InitramfsImageType_IsValid (pxeInitramfsType p)),
      guard (pxeInitramfsType p = InitramfsImageTypeFullOS \<and> (BootstrapBaseUrl p \<noteq> [] \<or> BootstrapFileUrl p \<noteq> []))
        BootstrapWithFullOS,
      guard (BootstrapBaseUrl p \<noteq> [] \<and> BootstrapFileUrl p \<noteq> []) BothBootstrapUrls,
      map_option (InvalidBootstrapBaseUrl (BootstrapBaseUrl p)) (IsValidPxeUrl url_Parse (BootstrapBaseUrl p)),
      map_option (InvalidBootstrapFileUrl (BootstrapFileUrl p)) (IsValidPxeUrl url_Parse (BootstrapFileUrl p)),
      map_option MediaKdumpBootFiles (check_opt KdumpBootFilesType_IsValid (pxeKdumpBootFiles p))]"

section \<open>Properties\<close>

text \<open>The permission bits.\<close>

lemma FilePermissions_IsValid_iff: "FilePermissions_IsValid p \<longleftrightarrow> unat p < 0x200"
proof -
  have "and p (not 0x1FF) = 0 \<longleftrightarrow> and p 0x1FF = p"
  proof
    assume "and p (not 0x1FF) = 0"
    then have "or (and p 0x1FF) (and p (not 0x1FF)) = and p 0x1FF" by simp
    then show "and p 0x1FF = p" by (simp flip: bit.conj_disj_distrib)
  next
    assume "and p 0x1FF = p"
    then have "and p (not 0x1FF) = and (and p 0x1FF) (not 0x1FF)" by simp
    then show "and p (not 0x1FF) = 0" by (simp only: and.assoc bit.conj_cancel_right bit.conj_zero_right)
  qed
  moreover have "and p 0x1FF = take_bit 9 p" by (simp add: take_bit_eq_mask mask_eq_exp_minus_1)
  moreover have "take_bit 9 p = p \<longleftrightarrow> unat p < 2 ^ 9"
    by (metis take_bit_nat_eq_self_iff unsigned_take_bit_eq word_unat_eq_iff)
  ultimately show ?thesis by (simp add: FilePermissions_IsValid_def)

qed

definition user_ok :: "User \<Rightarrow> bool" where
  "user_ok u \<longleftrightarrow> usName u \<noteq> [] \<and> pred_option (\<lambda>i. 0 \<le> i \<and> i \<le> 60000) (usUID u)
     \<and> pred_option (\<lambda>p. (pwType p = PasswordTypeLocked) = (pwValue p = [])) (usPassword u)"

definition file_ok :: "AdditionalFile \<Rightarrow> bool" where
  "file_ok f \<longleftrightarrow> afDestination f \<noteq> [] \<and> (afSource f = []) = (afContent f \<noteq> None)
     \<and> pred_option (\<lambda>p. unat p < 0x200) (afPermissions f)"

lemma range_runes_nonempty: "\<not> TrimSpace_empty s \<Longrightarrow> s \<noteq> []"
  by (auto simp: TrimSpace_empty_def)

lemma User_IsValid_ok: "User_IsValid isProd u = None \<Longrightarrow> user_ok u"
  using range_runes_nonempty [of "usName u"]
  by (cases "usUID u"; cases "usPassword u")
    (auto simp: User_IsValid_def user_ok_def NameIsValid_def UIDIsValid_def Password_IsValid_def passwordValueTypes_def
      PasswordType_IsValid_prod_def PasswordType_IsValid_nonprod_def enum_defs split: if_splits)

lemma AdditionalFile_IsValid_ok: "AdditionalFile_IsValid f = None \<Longrightarrow> file_ok f"
  by (cases "afPermissions f")
    (auto simp: AdditionalFile_IsValid_def file_ok_def permissions_check_def FilePermissions_IsValid_iff)

definition overlays_of :: "OS \<Rightarrow> Overlay list" where
  "overlays_of s = (case Overlays s of None \<Rightarrow> [] | Some ovs \<Rightarrow> ovs)"

text \<open>C23. In an accepted \<open>os\<close> section no two modules have the same name, no two overlays share their mount
  point, upper or work directory, every user has a name, an id in range and a value exactly when the
  password type needs one, and every additional file has exactly one source and no bits outside the
  permission bits.\<close>

theorem OS_IsValid_accepts:
  assumes "OS_IsValid isDNSName time_Parse isProd s = None"
  shows "distinct (map mdName (Modules s))
    \<and> distinct (map ovMountPoint (overlays_of s)) \<and> distinct (map UpperDir (overlays_of s))
    \<and> distinct (map WorkDir (overlays_of s))
    \<and> list_all user_ok (Users s) \<and> list_all file_ok (osAdditionalFiles s)"
proof -
  have p: "ModuleList_IsValid (Modules s) = None" "check_opt (overlayLoop 0 {} {} {}) (Overlays s) = None"
    "\<forall>u \<in> set (Users s). User_IsValid isProd u = None" "AdditionalFileList_IsValid (osAdditionalFiles s) = None"
    using assms by (simp_all add: OS_IsValid_def)
  have "distinct (map ovMountPoint (overlays_of s))" "distinct (map UpperDir (overlays_of s))"
    "distinct (map WorkDir (overlays_of s))"
    using p(2) by (auto simp: overlays_of_def overlayLoop_None split: option.splits)
  moreover have "distinct (map mdName (Modules s))"
    using p(1) by (simp add: ModuleList_IsValid_def moduleLoop_None)
  ultimately show ?thesis
    using p(3,4) User_IsValid_ok AdditionalFile_IsValid_ok
    by (auto simp: list_all_iff AdditionalFileList_IsValid_def)
qed

definition sample_overlay :: "string \<Rightarrow> Overlay" where
  "sample_overlay m = \<lparr>LowerDirs = [m], UpperDir = ''/overlays'' @ m @ ''/upper'', WorkDir = ''/overlays'' @ m @ ''/work'',
     ovMountPoint = m, IsInitrdOverlay = False, MountDependencies = [], ovMountOptions = ''''\<rparr>"

definition sample_os :: OS where
  "sample_os = \<lparr>Hostname = ''test'', osPackages = \<lparr>UpdateExistingPackages = False, InstallLists = [], Install = [''vim''],
      RemoveLists = [], Remove = [], UpdateLists = [], Update = [], SnapshotTime = '''', RemovePackageManager = None\<rparr>,
    SELinux = '''', osExtraCommandLine = [],
    osAdditionalFiles = [\<lparr>afDestination = ''/a'', afSource = '''', afContent = Some ''abc'', afPermissions = Some 0x1A4\<rparr>],
    AdditionalDirs = [], Groups = [],
    Users = [\<lparr>usName = ''test'', usUID = Some 1001, usPassword = Some \<lparr>pwType = ''locked'', pwValue = ''''\<rparr>,
      PasswordExpiresDays = None, SSHPublicKeyPaths = [], SSHPublicKeys = [], PrimaryGroup = '''', SecondaryGroups = [],
      StartupCommand = '''', usHomeDirectory = ''''\<rparr>],
    osServices = \<lparr>svEnable = [''sshd''], svDisable = []\<rparr>,
    Modules = [\<lparr>mdName = ''br_netfilter'', mdLoadMode = ''always'', mdOptions = []\<rparr>,
      \<lparr>mdName = ''vfio'', mdLoadMode = '''', mdOptions = [(''ids'', ''0'')]\<rparr>],
    Overlays = Some [sample_overlay ''/etc'', sample_overlay ''/srv''],
    BootLoaderResetType = '''', Uki = None, osImageHistory = ''''\<rparr>"

theorem OS_IsValid_accepts_witness:
  "distinct (map ovMountPoint (overlays_of sample_os)) \<and> list_all file_ok (osAdditionalFiles sample_os)"
proof -
  have "OS_IsValid (\<lambda>s. s \<noteq> []) (\<lambda>l s. False) False sample_os = None" by code_simp
  from OS_IsValid_accepts [OF this] show ?thesis by simp
qed

end
