(* ===== verification/ImageConfig.thy ===== *)
theory ImageConfig
  imports OsConfig
begin

text \<open>
  The rest of the configuration, package \<open>imagecustomizerapi\<close>, up to the top-level \<open>Config.IsValid\<close>:
  \<open>input.go\<close>, \<open>inputImage.go\<close>, \<open>ociimage.go\<close>, \<open>ociplatform.go\<close>, \<open>azurelinuximage.go\<close>, \<open>output.go\<close>,
  \<open>outputImage.go\<close>, \<open>imageFormatType.go\<close>, \<open>cosiconfig.go\<close>, \<open>cosicompression.go\<close>, \<open>artifacts.go\<close>,
  \<open>outputartifactsitemtype.go\<close>, \<open>previewfeaturetype.go\<close>, \<open>baseconfig.go\<close>, \<open>injectfilesconfig.go\<close>,
  \<open>injectartifactmetadata.go\<close>, \<open>injectfilepartition.go\<close>, \<open>validateresourcetype.go\<close>,
  \<open>validateresourcetypes.go\<close>, \<open>config.go\<close> and \<open>checkKnownFields\<close> of \<open>utils.go\<close>.

  \<open>registry.ParseReference\<close> (whether it accepts a reference), the YAML decoder and \<open>runtime.GOARCH\<close>
  are arguments of the definitions that use them.
\<close>

section \<open>Enumerations\<close>

definition PreviewFeatureUki :: string where [enum_defs]: "PreviewFeatureUki = ''uki''"
definition PreviewFeatureOutputArtifacts :: string where [enum_defs]: "PreviewFeatureOutputArtifacts = ''output-artifacts''"
definition PreviewFeatureInjectFiles :: string where [enum_defs]: "PreviewFeatureInjectFiles = ''inject-files''"
definition PreviewFeatureReinitializeVerity :: string where
  [enum_defs]: "PreviewFeatureReinitializeVerity = ''reinitialize-verity''"
definition PreviewFeaturePackageSnapshotTime :: string where
  [enum_defs]: "PreviewFeaturePackageSnapshotTime = ''package-snapshot-time''"
definition PreviewFeatureKdumpBootFiles :: string where [enum_defs]: "PreviewFeatureKdumpBootFiles = ''kdump-boot-files''"
definition PreviewFeatureBaseConfigs :: string where [enum_defs]: "PreviewFeatureBaseConfigs = ''base-configs''"
definition PreviewFeatureInputImageOci :: string where [enum_defs]: "PreviewFeatureInputImageOci = ''input-image-oci''"
definition PreviewFeatureOutputSelinuxPolicy :: string where
  [enum_defs]: "PreviewFeatureOutputSelinuxPolicy = ''output-selinux-policy''"
definition PreviewFeatureBtrfs :: string where [enum_defs]: "PreviewFeatureBtrfs = ''btrfs''"
definition PreviewFeatureRemovePackageManager :: string where
  [enum_defs]: "PreviewFeatureRemovePackageManager = ''remove-package-manager''"

definition PreviewFeature_IsValid :: "string \<Rightarrow> enum_error option" where
  "PreviewFeature_IsValid = enum_IsValid
     [PreviewFeatureUki, PreviewFeatureOutputArtifacts, PreviewFeatureInjectFiles, PreviewFeatureReinitializeVerity,
      PreviewFeaturePackageSnapshotTime, PreviewFeatureKdumpBootFiles, ''preview-distro-version'',
      PreviewFeatureBaseConfigs, PreviewFeatureInputImageOci, PreviewFeatureOutputSelinuxPolicy, PreviewFeatureBtrfs,
      ''create'', ''unsupported-distro-version'', ''tools-dir'', PreviewFeatureRemovePackageManager]"

definition supportedImageFormatTypes :: "string list" where
  "supportedImageFormatTypes =
     [''vhd'', ''vhd-fixed'', ''vhdx'', ''qcow2'', ''raw'', ''iso'', ''pxe-dir'', ''pxe-tar'', ''cosi'', ''baremetal-image'']"

definition supportedImageFormatTypesCreate :: "string list" where
  "supportedImageFormatTypesCreate = [''vhd'', ''vhd-fixed'', ''vhdx'', ''qcow2'', ''raw'']"

definition supportedImageFormatTypesConvert :: "string list" where
  "supportedImageFormatTypesConvert = [''vhd'', ''vhd-fixed'', ''vhdx'', ''qcow2'', ''raw'', ''cosi'', ''baremetal-image'']"

definition ImageFormatType_IsValid :: "string \<Rightarrow> enum_error option" where
  "ImageFormatType_IsValid ft = guard (ft \<noteq> '''' \<and> ft \<notin> set supportedImageFormatTypes) (InvalidValue ft)"

datatype item_type_error = InvalidItemType string | UkiAddonsItem

definition OutputArtifactsItemType_IsValid :: "string \<Rightarrow> item_type_error option" where
  "OutputArtifactsItemType_IsValid i =
     (if i \<in> set [''ukis'', ''shim'', ''bootloader'', ''verity-hash'', '''']
      then None else if i = ''uki-addons'' then Some UkiAddonsItem else Some (InvalidItemType i))"

definition ValidateResourceTypeAll :: string where [enum_defs]: "ValidateResourceTypeAll = ''all''"
definition ValidateResourceTypeFiles :: string where [enum_defs]: "ValidateResourceTypeFiles = ''files''"
definition ValidateResourceTypeOci :: string where [enum_defs]: "ValidateResourceTypeOci = ''oci''"

definition ValidateResourceType_IsValid :: "string \<Rightarrow> enum_error option" where
  "ValidateResourceType_IsValid = enum_IsValid [ValidateResourceTypeFiles, ValidateResourceTypeOci, ValidateResourceTypeAll]"

fun ValidateResourceTypes_Contains :: "string list \<Rightarrow> string \<Rightarrow> bool" where
  "ValidateResourceTypes_Contains [] resourceType = False"
| "ValidateResourceTypes_Contains (t # v) resourceType =
     (if t = ValidateResourceTypeAll \<or> t = resourceType then True else ValidateResourceTypes_Contains v resourceType)"

definition ValidateFiles :: "string list \<Rightarrow> bool" where
  "ValidateFiles v = ValidateResourceTypes_Contains v ValidateResourceTypeFiles"

definition ValidateOci :: "string list \<Rightarrow> bool" where
  "ValidateOci v = ValidateResourceTypes_Contains v ValidateResourceTypeOci"

section \<open>Input\<close>

text \<open>\<open>azureLinuxVersionRegex\<close>: two or three numbers separated by dots.\<close>

record AzureLinuxImage =
  azVersion :: string
  azVariant :: string

definition is_number :: "string \<Rightarrow> bool" where
  "is_number s \<longleftrightarrow> s \<noteq> [] \<and> list_all is_digit s"

definition ParseVersion :: "AzureLinuxImage \<Rightarrow> (string \<times> string) option" where
  "ParseVersion i =
     (case Split (azVersion i) CHR ''.'' of
        [major, minor] \<Rightarrow>
          if is_number major \<and> is_number minor then Some (major @ ''.'' @ minor, []) else None
      | [major, minor, date] \<Rightarrow>
          if is_number major \<and> is_number minor \<and> is_number date then Some (major @ ''.'' @ minor, date) else None
      | _ \<Rightarrow> None)"

text \<open>\<open>variantRegexp\<close> as the automaton of the expression: the separators are a dot, one or two
  underscores, or any number of dashes.\<close>

datatype variant_state = VStart | VName | VSep | VUnderscore | VDash

definition is_lower_alnum :: "char \<Rightarrow> bool" where
  "is_lower_alnum c \<longleftrightarrow> is_digit c \<or> (97 \<le> (of_char c :: nat) \<and> (of_char c :: nat) \<le> 122)"

fun variant_run :: "variant_state \<Rightarrow> string \<Rightarrow> bool" where
  "variant_run st [] \<longleftrightarrow> st = VName"
| "variant_run st (c # cs) \<longleftrightarrow>
     (if is_lower_alnum c then variant_run VName cs
      else (case st of
              VName \<Rightarrow> if c = CHR ''.'' then variant_run VSep cs
                        else if c = CHR ''_'' then variant_run VUnderscore cs
                        else c = CHR ''-'' \<and> variant_run VDash cs
            | VUnderscore \<Rightarrow> c = CHR ''_'' \<and> variant_run VSep cs
            | VDash \<Rightarrow> c = CHR ''-'' \<and> variant_run VDash cs
            | _ \<Rightarrow> False))"

definition variantRegexp_match :: "string \<Rightarrow> bool" where
  "variantRegexp_match s = variant_run VStart s"

datatype azure_error = InvalidVariant string | InvalidVersion string

definition AzureLinuxImage_IsValid :: "AzureLinuxImage \<Rightarrow> azure_error option" where
  "AzureLinuxImage_IsValid i = first_err
     [guard (\<not> variantRegexp_match (azVariant i)) (InvalidVariant (azVariant i)),
      guard (ParseVersion i = None) (InvalidVersion (azVersion i))]"

record OciPlatform =
  opOS :: string
  opArchitecture :: string

definition OciPlatform_parseScalar :: "string \<Rightarrow> string \<Rightarrow> string + OciPlatform" where
  "OciPlatform_parseScalar goarch value =
     (let subs = Split value CHR ''/'' in
      if length subs > 2 \<or> length subs \<le> 0 then Inl value
      else Inr \<lparr>opOS = subs ! 0, opArchitecture = (if length subs \<ge> 2 then subs ! 1 else goarch)\<rparr>)"

record OciImage =
  ociUri :: string
  ociPlatform :: "OciPlatform option"

text \<open>A YAML node as the custom unmarshallers look at it: a scalar, or keys with their values.\<close>

datatype 'v yaml_node = YamlScalar string | YamlMapping "(string \<times> 'v) list"

fun checkKnownFields :: "(string \<times> 'v) list \<Rightarrow> string list \<Rightarrow> string option" where
  "checkKnownFields [] validFields = None"
| "checkKnownFields ((key, v) # content) validFields =
     (if \<not> ContainsValue validFields key then Some key else checkKnownFields content validFields)"

datatype 'e unmarshal_error = UnknownField string | DecodeError 'e

definition OciImage_UnmarshalYAML ::
  "((string \<times> 'v) list \<Rightarrow> OciImage \<Rightarrow> 'e + OciImage) \<Rightarrow> OciImage \<Rightarrow> 'v yaml_node \<Rightarrow> 'e unmarshal_error + OciImage" where
  "OciImage_UnmarshalYAML decode oi value =
     (case value of
        YamlScalar s \<Rightarrow> Inr (oi\<lparr>ociUri := s\<rparr>)
      | YamlMapping content \<Rightarrow>
          (case checkKnownFields content [''uri'', ''platform''] of
             Some key \<Rightarrow> Inl (UnknownField key)
           | None \<Rightarrow> (case decode content oi of Inl e \<Rightarrow> Inl (DecodeError e) | Inr oi' \<Rightarrow> Inr oi')))"

definition OciImage_IsValid :: "(string \<Rightarrow> bool) \<Rightarrow> OciImage \<Rightarrow> string option" where
  "OciImage_IsValid parseReference oi = guard (\<not> parseReference (ociUri oi)) (ociUri oi)"

record InputImage =
  inPath :: string
  inOci :: "OciImage option"
  inAzureLinux :: "AzureLinuxImage option"

datatype input_error = SeveralInputs | InvalidOci string | InvalidAzureLinux azure_error

definition InputImage_IsValid :: "(string \<Rightarrow> bool) \<Rightarrow> InputImage \<Rightarrow> input_error option" where
  "InputImage_IsValid parseReference ii = first_err
     [guard ((if inPath ii \<noteq> [] then 1 else 0) + (if inOci ii \<noteq> None then 1 else 0)
             + (if inAzureLinux ii \<noteq> None then 1 else 0) > (1::nat)) SeveralInputs,
      map_option InvalidOci (check_opt (OciImage_IsValid parseReference) (inOci ii)),
      map_option InvalidAzureLinux (check_opt AzureLinuxImage_IsValid (inAzureLinux ii))]"
section \<open>Output\<close>

text \<open>The compression level is a Go \<open>int\<close>, 64 bits wide; no arithmetic is done on it.\<close>

definition MinCosiCompressionLevel :: int where "MinCosiCompressionLevel = 1"
definition MaxCosiCompressionLevel :: int where "MaxCosiCompressionLevel = 22"

definition CosiCompression_IsValid :: "int option \<Rightarrow> int option" where
  "CosiCompression_IsValid level =
     check_opt (\<lambda>l. guard (l < MinCosiCompressionLevel \<or> l > MaxCosiCompressionLevel) l) level"

definition ValidateCosiCompressionLevel :: "int option \<Rightarrow> int option" where
  "ValidateCosiCompressionLevel level =
     check_opt (\<lambda>l. guard (l < MinCosiCompressionLevel \<or> l > MaxCosiCompressionLevel) l) level"

record OutputImage =
  outPath :: string
  outFormat :: string
  outCosiLevel :: "int option"

record Artifacts =
  artItems :: "string list"
  artPath :: string

record Output =
  outImage :: OutputImage
  outArtifacts :: "Artifacts option"
  SelinuxPolicyPath :: string

datatype output_error =
    InvalidFormat enum_error | InvalidCosi int | ArtifactsIncomplete | InvalidArtifactItem item_type_error

definition OutputImage_IsValid :: "OutputImage \<Rightarrow> output_error option" where
  "OutputImage_IsValid oi = first_err
     [map_option InvalidFormat (ImageFormatType_IsValid (outFormat oi)),
      map_option InvalidCosi (CosiCompression_IsValid (outCosiLevel oi))]"

definition Artifacts_IsValid :: "Artifacts \<Rightarrow> output_error option" where
  "Artifacts_IsValid a = first_err
     [guard (length (artItems a) = 0 \<or> artPath a = []) ArtifactsIncomplete,
      validate_items (\<lambda>_. InvalidArtifactItem) OutputArtifactsItemType_IsValid (artItems a)]"

definition Output_IsValid :: "Output \<Rightarrow> output_error option" where
  "Output_IsValid out = first_err [OutputImage_IsValid (outImage out), check_opt Artifacts_IsValid (outArtifacts out)]"

section \<open>Injected files\<close>

record InjectFilePartition =
  ifpIdType :: MountIdentifierType
  ifpId :: string

record InjectArtifactMetadata =
  iamPartition :: InjectFilePartition
  iamDestination :: string
  iamSource :: string
  iamType :: string

datatype inject_error =
    PartitionIdEmpty | InvalidMountIdType enum_error | SourceOrDestinationEmpty
  | InjectFilesNotEnabled | InvalidInjectFeature nat enum_error | InvalidInjectFile nat inject_error

definition InjectFilePartition_IsValid :: "InjectFilePartition \<Rightarrow> inject_error option" where
  "InjectFilePartition_IsValid p = first_err
     [guard (ifpId p = []) PartitionIdEmpty, map_option InvalidMountIdType (MountIdentifierType_IsValid (ifpIdType p))]"

definition InjectArtifactMetadata_IsValid :: "InjectArtifactMetadata \<Rightarrow> inject_error option" where
  "InjectArtifactMetadata_IsValid m = first_err
     [guard (iamSource m = [] \<or> iamDestination m = []) SourceOrDestinationEmpty,
      InjectFilePartition_IsValid (iamPartition m)]"

definition InjectFilesConfig_IsValid :: "InjectArtifactMetadata list \<Rightarrow> string list \<Rightarrow> inject_error option" where
  "InjectFilesConfig_IsValid injectFiles previewFeatures = first_err
     [guard (\<not> ContainsValue previewFeatures PreviewFeatureInjectFiles) InjectFilesNotEnabled,
      validate_items InvalidInjectFeature PreviewFeature_IsValid previewFeatures,
      validate_items InvalidInjectFile InjectArtifactMetadata_IsValid injectFiles]"

section \<open>The whole configuration\<close>

definition BaseConfig_IsValid :: "string \<Rightarrow> unit option" where
  "BaseConfig_IsValid path = guard (TrimSpace_empty path) ()"

record Config =
  cInput :: InputImage
  cStorage :: Storage
  cIso :: "Iso option"
  cPxe :: "Pxe option"
  cOS :: "OS option"
  cScripts :: Scripts
  PreviewFeatures :: "string list"
  cOutput :: Output
  BaseConfigs :: "string list option"

datatype uki_conflict =
    HardReset | SELinuxModeChange | ExtraCommandLineArgs | VerityDevices | VerityReinitialized | OverlayDirs

datatype config_error =
    InvalidInput input_error | InvalidStorage storage_error | InvalidIso media_error | InvalidPxe media_error
  | FeatureNotEnabled string | InvalidOS os_error | UkiConflicts "uki_conflict list" | InvalidScripts scripts_error
  | InvalidPreviewFeature nat enum_error | ResetTypeNeededForDisks | ResetTypeNeededForUuids
  | InvalidOutput output_error | InvalidBaseConfig nat

definition when_list :: "bool \<Rightarrow> 'a \<Rightarrow> 'a list" where
  "when_list b x = (if b then [x] else [])"

lemma when_list_Nil [simp, checks]: "when_list b x = [] \<longleftrightarrow> \<not> b"
  by (simp add: when_list_def)

definition hasOverlays :: "OS option \<Rightarrow> bool" where
  "hasOverlays os = (case os of None \<Rightarrow> False | Some s \<Rightarrow> (case Overlays s of None \<Rightarrow> False | Some ovs \<Rightarrow> length ovs > 0))"

definition os_is :: "'a option \<Rightarrow> ('a \<Rightarrow> bool) \<Rightarrow> bool" where
  "os_is os P = (case os of None \<Rightarrow> False | Some s \<Rightarrow> P s)"

definition report_conflicts :: "uki_conflict list \<Rightarrow> config_error option" where
  "report_conflicts incompatibleConfigs = guard (length incompatibleConfigs > 0) (UkiConflicts incompatibleConfigs)"

definition validateUkiModifyMode :: "Config \<Rightarrow> config_error option" where
  "validateUkiModifyMode c = report_conflicts
     (when_list (os_is (cOS c) (\<lambda>s. BootLoaderResetType s = ''hard-reset'')) HardReset
      @ when_list (length (sVerity (cStorage c)) > 0) VerityDevices
      @ when_list (hasOverlays (cOS c)) OverlayDirs)"

definition validateUkiPassthroughMode :: "Config \<Rightarrow> config_error option" where
  "validateUkiPassthroughMode c = report_conflicts
     (when_list (os_is (cOS c) (\<lambda>s. BootLoaderResetType s = ''hard-reset'')) HardReset
      @ when_list (os_is (cOS c) (\<lambda>s. SELinux s \<noteq> SELinuxModeDefault)) SELinuxModeChange
      @ when_list (os_is (cOS c) (\<lambda>s. length (osExtraCommandLine s) > 0)) ExtraCommandLineArgs
      @ when_list (length (sVerity (cStorage c)) > 0) VerityDevices
      @ when_list (ReinitializeVerity (cStorage c) = ''all'') VerityReinitialized
      @ when_list (hasOverlays (cOS c)) OverlayDirs)"

text \<open>\<open>if <used> && !slices.Contains(c.PreviewFeatures, feature) { return error }\<close>\<close>

definition need_feature :: "Config \<Rightarrow> bool \<Rightarrow> string \<Rightarrow> config_error option" where
  "need_feature c used feature = guard (used \<and> \<not> ContainsValue (PreviewFeatures c) feature) (FeatureNotEnabled feature)"

text \<open>What the checks of the \<open>os\<close> field look at, in the order of \<open>Config.IsValid\<close>. The library functions
  are bundled: DNS names, times, references and URLs.\<close>

record library =
  lib_isDNSName :: "string \<Rightarrow> bool"
  lib_time_Parse :: "string \<Rightarrow> string \<Rightarrow> bool"
  lib_parseReference :: "string \<Rightarrow> bool"
  lib_url_Parse :: "string \<Rightarrow> bool"

definition Config_OS_IsValid :: "library \<Rightarrow> bool \<Rightarrow> Config \<Rightarrow> OS \<Rightarrow> config_error option" where
  "Config_OS_IsValid lib isProd c s = first_err
     [map_option InvalidOS (OS_IsValid (lib_isDNSName lib) (lib_time_Parse lib) isProd s),
      check_opt (\<lambda>mode. first_err
        [need_feature c True PreviewFeatureUki,
         (if mode = UkiModePassthrough then validateUkiPassthroughMode c else None),
         (if mode = UkiModeModify then validateUkiModifyMode c else None)]) (Uki s),
      need_feature c (SnapshotTime (osPackages s) \<noteq> []) PreviewFeaturePackageSnapshotTime,
      need_feature c (RemovePackageManager (osPackages s) \<noteq> None) PreviewFeatureRemovePackageManager]"

definition Config_media_IsValid :: "library \<Rightarrow> Config \<Rightarrow> config_error option" where
  "Config_media_IsValid lib c = first_err
     [check_opt (\<lambda>i. first_err
        [map_option InvalidIso (Iso_IsValid i),
         need_feature c (isoKdumpBootFiles i \<noteq> None) PreviewFeatureKdumpBootFiles]) (cIso c),
      check_opt (\<lambda>p. first_err
        [map_option InvalidPxe (Pxe_IsValid (lib_url_Parse lib) p),
         need_feature c (pxeKdumpBootFiles p \<noteq> None) PreviewFeatureKdumpBootFiles]) (cPxe c)]"

definition Config_rest_IsValid :: "Config \<Rightarrow> config_error option" where
  "Config_rest_IsValid c =
     (let hasResetBootLoader = os_is (cOS c) (\<lambda>s. BootLoaderResetType s \<noteq> '''') in
      first_err
        [map_option InvalidScripts (Scripts_IsValid (cScripts c)),
         validate_items InvalidPreviewFeature PreviewFeature_IsValid (PreviewFeatures c),
         guard (CustomizePartitions (cStorage c) \<and> \<not> hasResetBootLoader) ResetTypeNeededForDisks,
         guard (sResetPartitionsUuidsType (cStorage c) \<noteq> ResetPartitionsUuidsTypeDefault \<and> \<not> hasResetBootLoader)
           ResetTypeNeededForUuids,
         map_option InvalidOutput (Output_IsValid (cOutput c)),
         need_feature c (outArtifacts (cOutput c) \<noteq> None) PreviewFeatureOutputArtifacts,
         need_feature c (SelinuxPolicyPath (cOutput c) \<noteq> []) PreviewFeatureOutputSelinuxPolicy,
         need_feature c (ContainsFunc (sVerity (cStorage c)) (\<lambda>v. HashSignaturePath v \<noteq> [])) PreviewFeatureOutputArtifacts,
         need_feature c (ReinitializeVerity (cStorage c) \<noteq> '''') PreviewFeatureReinitializeVerity,
         check_opt (\<lambda>bases. first_err
           [need_feature c True PreviewFeatureBaseConfigs,
            validate_items (\<lambda>i _. InvalidBaseConfig i) BaseConfig_IsValid bases]) (BaseConfigs c),
         need_feature c (inOci (cInput c) \<noteq> None) PreviewFeatureInputImageOci,
         need_feature c (ContainsFunc (FileSystems (cStorage c)) (\<lambda>f. fsType f = FileSystemTypeBtrfs)) PreviewFeatureBtrfs])"

text \<open>\<open>Config.IsValid\<close> fills in parts of the storage configuration, like \<open>Storage.IsValid\<close>; its result is
  the configuration as it is afterwards, or an error, or nothing if it does not return.\<close>

definition Config_IsValid :: "library \<Rightarrow> bool \<Rightarrow> Config \<Rightarrow> (config_error + Config) option" where
  "Config_IsValid lib isProd c0 =
     (case map_option InvalidInput (InputImage_IsValid (lib_parseReference lib) (cInput c0)) of
        Some e \<Rightarrow> Some (Inl e)
      | None \<Rightarrow>
          (case Storage_IsValid (cStorage c0) of
             None \<Rightarrow> None
           | Some (Inl e) \<Rightarrow> Some (Inl (InvalidStorage e))
           | Some (Inr st) \<Rightarrow>
               let c = c0\<lparr>cStorage := st\<rparr> in
               (case first_err
                  [Config_media_IsValid lib c, check_opt (Config_OS_IsValid lib isProd c) (cOS c), Config_rest_IsValid c] of
                  Some e \<Rightarrow> Some (Inl e)
                | None \<Rightarrow> Some (Inr c))))"

section \<open>The variant expression\<close>

text \<open>The language of \<open>^[a-z0-9]+((\.|_|__|-+)[a-z0-9]+)*$\<close>, as the expression reads.\<close>

definition variant_word :: "string \<Rightarrow> bool" where
  "variant_word w \<longleftrightarrow> w \<noteq> [] \<and> list_all is_lower_alnum w"

definition variant_separator :: "string \<Rightarrow> bool" where
  "variant_separator s \<longleftrightarrow> s = ''.'' \<or> s = ''_'' \<or> s = ''__'' \<or> (s \<noteq> [] \<and> list_all (\<lambda>c. c = CHR ''-'') s)"

inductive variant_name :: "string \<Rightarrow> bool" where
  one: "variant_word w \<Longrightarrow> variant_name w"
| more: "variant_name v \<Longrightarrow> variant_separator s \<Longrightarrow> variant_word w \<Longrightarrow> variant_name (v @ s @ w)"

lemma separators_not_alnum [simp]:
  "\<not> is_lower_alnum CHR ''.''" "\<not> is_lower_alnum CHR ''_''" "\<not> is_lower_alnum CHR ''-''"
  by (simp_all add: is_lower_alnum_def is_digit_def)

lemma variant_run_accepted: "variant_run st v \<Longrightarrow> variant_run st (v @ x) = variant_run VName x"
proof (induction v arbitrary: st)
  case (Cons c v)
  then show ?case by (cases st) (auto split: if_splits)
qed simp

lemma variant_run_word: "variant_word w \<Longrightarrow> variant_run st (w @ x) = variant_run VName x"
proof (induction w arbitrary: st)
  case (Cons c w)
  then show ?case by (cases "w = []") (auto simp: variant_word_def)
qed (simp add: variant_word_def)

lemma variant_run_dashes: "list_all (\<lambda>c. c = CHR ''-'') s \<Longrightarrow> variant_run VDash (s @ x) = variant_run VDash x"
  by (induction s) auto

lemma variant_run_separator:
  assumes "variant_separator s" "variant_word w"
  shows "variant_run VName (s @ w)"
proof -
  have w: "variant_run st w" for st using variant_run_word [OF assms(2), of st "[]"] by simp
  show ?thesis
  proof (cases "s \<noteq> [] \<and> list_all (\<lambda>c. c = CHR ''-'') s")
    case True
    then show ?thesis using w variant_run_dashes [of "tl s" w] by (cases s) auto
  next
    case False
    then show ?thesis using assms(1) w by (auto simp: variant_separator_def)
  qed
qed

lemma variant_name_run: "variant_name s \<Longrightarrow> variant_run VStart s"
proof (induction rule: variant_name.induct)
  case (one w)
  then show ?case using variant_run_word [of w VStart "[]"] by simp
next
  case (more v s w)
  then show ?case using variant_run_accepted [OF more.IH] variant_run_separator by simp
qed

text \<open>What has been read when the automaton is in a state.\<close>

fun variant_read :: "variant_state \<Rightarrow> string \<Rightarrow> bool" where
  "variant_read VStart p \<longleftrightarrow> p = []"
| "variant_read VName p \<longleftrightarrow> variant_name p"
| "variant_read VSep p \<longleftrightarrow> (\<exists>v. variant_name v \<and> (p = v @ ''.'' \<or> p = v @ ''__''))"
| "variant_read VUnderscore p \<longleftrightarrow> (\<exists>v. variant_name v \<and> p = v @ ''_'')"
| "variant_read VDash p \<longleftrightarrow> (\<exists>v s. variant_name v \<and> p = v @ s \<and> s \<noteq> [] \<and> list_all (\<lambda>c. c = CHR ''-'') s)"

lemma variant_word_snoc: "variant_word w \<Longrightarrow> is_lower_alnum c \<Longrightarrow> variant_word (w @ [c])"
  by (simp add: variant_word_def)

lemma variant_name_snoc: "variant_name p \<Longrightarrow> is_lower_alnum c \<Longrightarrow> variant_name (p @ [c])"
proof (induction rule: variant_name.induct)
  case (one w)
  then show ?case by (intro variant_name.one variant_word_snoc)
next
  case (more v s w)
  then show ?case using variant_name.more [OF more(1,2) variant_word_snoc [OF more(3)]] by simp
qed

lemma variant_name_separator:
  "variant_name v \<Longrightarrow> variant_separator s \<Longrightarrow> is_lower_alnum c \<Longrightarrow> variant_name (v @ s @ [c])"
  by (rule variant_name.more) (auto simp: variant_word_def)

lemma variant_read_alnum: "variant_read st p \<Longrightarrow> is_lower_alnum c \<Longrightarrow> variant_name (p @ [c])"
proof (cases st)
  case VStart
  moreover assume "variant_read st p" "is_lower_alnum c"
  ultimately show ?thesis by (auto intro!: variant_name.one simp: variant_word_def)
next
  case VSep
  moreover assume "variant_read st p" "is_lower_alnum c"
  ultimately show ?thesis
    using variant_name_separator [of _ "''.''" c] variant_name_separator [of _ "''__''" c]
    by (auto simp: variant_separator_def)
next
  case VUnderscore
  moreover assume "variant_read st p" "is_lower_alnum c"
  ultimately show ?thesis using variant_name_separator [of _ "''_''" c] by (auto simp: variant_separator_def)
next
  case VDash
  moreover assume "variant_read st p" "is_lower_alnum c"
  ultimately show ?thesis using variant_name_separator [of _ _ c] by (auto simp: variant_separator_def)
next
  case VName
  moreover assume "variant_read st p" "is_lower_alnum c"
  ultimately show ?thesis using variant_name_snoc by simp
qed

lemma variant_run_name: "variant_read st p \<Longrightarrow> variant_run st s \<Longrightarrow> variant_name (p @ s)"
proof (induction s arbitrary: st p)
  case (Cons c s)
  show ?case
  proof (cases "is_lower_alnum c")
    case True
    then have "variant_name ((p @ [c]) @ s)"
      using Cons.IH [of VName "p @ [c]"] variant_read_alnum [OF Cons.prems(1)] Cons.prems(2) by simp
    then show ?thesis by simp
  next
    case False
    have dash: "list_all (\<lambda>c. c = CHR ''-'') t \<Longrightarrow> variant_name v \<Longrightarrow> p = v @ t \<Longrightarrow> c = CHR ''-''
      \<Longrightarrow> variant_read VDash (p @ [c])" for v t
      unfolding variant_read.simps by (intro exI [of _ v] exI [of _ "t @ [c]"]) simp
    have "\<exists>st'. variant_read st' (p @ [c]) \<and> variant_run st' s"
    proof (cases st)
      case VName
      then have "c = CHR ''.'' \<and> variant_run VSep s \<or> c = CHR ''_'' \<and> variant_run VUnderscore s
        \<or> c = CHR ''-'' \<and> variant_run VDash s" "variant_name p"
        using Cons.prems False by (auto split: if_splits)
      then show ?thesis using dash [of "[]" p]
        by (elim disjE conjE; intro exI [of _ VSep] exI [of _ VUnderscore] exI [of _ VDash]) auto
    next
      case VUnderscore
      then show ?thesis using Cons.prems False by (auto intro!: exI [of _ VSep])
    next
      case VDash
      then obtain v t where "variant_name v" "p = v @ t" "list_all (\<lambda>c. c = CHR ''-'') t" "c = CHR ''-''"
        "variant_run VDash s" using Cons.prems False by auto
      then show ?thesis using dash by blast
    qed (use Cons.prems False in auto)
    then obtain st' where "variant_read st' (p @ [c])" "variant_run st' s" by blast
    then show ?thesis using Cons.IH [of st' "p @ [c]"] by simp
  qed
qed simp

text \<open>The variant of an Azure Linux image is accepted exactly when it is in the language of the regular
  expression: words of lower-case letters and digits joined by a dot, one or two underscores, or
  dashes.\<close>

theorem variantRegexp_match_iff: "variantRegexp_match s \<longleftrightarrow> variant_name s"
  unfolding variantRegexp_match_def using variant_run_name [of VStart "[]" s] variant_name_run by auto

section \<open>A configuration that is accepted\<close>

text \<open>UKIs passed through, one package to install, one user and one service.\<close>

definition sample_config :: Config where
  "sample_config = \<lparr>cInput = \<lparr>inPath = ''a.vhdx'', inOci = None, inAzureLinux = None\<rparr>,
     cStorage = \<lparr>sResetPartitionsUuidsType = '''', sBootType = '''', Disks = [], FileSystems = [], sVerity = [],
       ReinitializeVerity = '''', sVerityPartitionsType = VerityPartitionsNone\<rparr>,
     cIso = None, cPxe = None,
     cOS = Some (sample_os\<lparr>Overlays := None, Uki := Some ''passthrough''\<rparr>),
     cScripts = \<lparr>PostCustomization = [], FinalizeCustomization = []\<rparr>, PreviewFeatures = [''uki''],
     cOutput = \<lparr>outImage = \<lparr>outPath = '''', outFormat = ''vhdx'', outCosiLevel = None\<rparr>, outArtifacts = None,
       SelinuxPolicyPath = ''''\<rparr>,
     BaseConfigs = None\<rparr>"

definition sample_library :: library where
  "sample_library = \<lparr>lib_isDNSName = (\<lambda>s. s \<noteq> []), lib_time_Parse = (\<lambda>l s. False), lib_parseReference = (\<lambda>s. s \<noteq> []),
     lib_url_Parse = (\<lambda>s. True)\<rparr>"

lemma sample_accepted: "Config_IsValid sample_library False sample_config = Some (Inr sample_config)"
  by code_simp

section \<open>What an accepted configuration satisfies\<close>

text \<open>The preview features that a configuration uses, field by field.\<close>

definition features_used :: "Config \<Rightarrow> string list" where
  "features_used c =
     when_list (os_is (cOS c) (\<lambda>s. Uki s \<noteq> None)) PreviewFeatureUki
     @ when_list (os_is (cOS c) (\<lambda>s. SnapshotTime (osPackages s) \<noteq> [])) PreviewFeaturePackageSnapshotTime
     @ when_list (os_is (cOS c) (\<lambda>s. RemovePackageManager (osPackages s) \<noteq> None)) PreviewFeatureRemovePackageManager
     @ when_list (os_is (cIso c) (\<lambda>i. isoKdumpBootFiles i \<noteq> None) \<or> os_is (cPxe c) (\<lambda>p. pxeKdumpBootFiles p \<noteq> None))
         PreviewFeatureKdumpBootFiles
     @ when_list (outArtifacts (cOutput c) \<noteq> None \<or> (\<exists>v \<in> set (sVerity (cStorage c)). HashSignaturePath v \<noteq> []))
         PreviewFeatureOutputArtifacts
     @ when_list (SelinuxPolicyPath (cOutput c) \<noteq> []) PreviewFeatureOutputSelinuxPolicy
     @ when_list (ReinitializeVerity (cStorage c) \<noteq> []) PreviewFeatureReinitializeVerity
     @ when_list (BaseConfigs c \<noteq> None) PreviewFeatureBaseConfigs
     @ when_list (inOci (cInput c) \<noteq> None) PreviewFeatureInputImageOci
     @ when_list (\<exists>f \<in> set (FileSystems (cStorage c)). fsType f = FileSystemTypeBtrfs) PreviewFeatureBtrfs"

lemma need_feature_None [simp, checks]:
  "need_feature c used feature = None \<longleftrightarrow> (used \<longrightarrow> feature \<in> set (PreviewFeatures c))"
  by (auto simp: need_feature_def)

lemma os_is_Some: "os_is os P \<longleftrightarrow> (\<exists>s. os = Some s \<and> P s)"
  by (simp add: os_is_def split: option.splits)

lemma set_when_list: "set (when_list b x) \<subseteq> A \<longleftrightarrow> (b \<longrightarrow> x \<in> A)"
  by (cases b) (simp_all add: when_list_def)

lemma Config_IsValid_parts:
  assumes "Config_IsValid lib isProd c0 = Some (Inr c)"
  shows "InputImage_IsValid (lib_parseReference lib) (cInput c) = None"
    "Storage_IsValid (cStorage c0) = Some (Inr (cStorage c))"
    "c = c0\<lparr>cStorage := cStorage c\<rparr>"
    "Config_media_IsValid lib c = None" "check_opt (Config_OS_IsValid lib isProd c) (cOS c) = None"
    "Config_rest_IsValid c = None"
  using assms by (auto simp: Config_IsValid_def Let_def split: option.splits sum.splits)

text \<open>C21. An accepted configuration enables every preview feature it uses, whichever field uses it, and
  lists only features that exist.\<close>

theorem Config_features_enabled:
  assumes "Config_IsValid lib isProd c0 = Some (Inr c)"
  shows "set (features_used c) \<subseteq> set (PreviewFeatures c)
    \<and> list_all (\<lambda>f. PreviewFeature_IsValid f = None) (PreviewFeatures c)"
proof -
  note v = Config_IsValid_parts [OF assms]
  have m: "os_is (cIso c) (\<lambda>i. isoKdumpBootFiles i \<noteq> None) \<or> os_is (cPxe c) (\<lambda>p. pxeKdumpBootFiles p \<noteq> None)
      \<Longrightarrow> PreviewFeatureKdumpBootFiles \<in> set (PreviewFeatures c)"
    using v(4) by (auto simp: Config_media_IsValid_def os_is_Some)
  have os: "os_is (cOS c) (\<lambda>s. Uki s \<noteq> None) \<Longrightarrow> PreviewFeatureUki \<in> set (PreviewFeatures c)"
    "os_is (cOS c) (\<lambda>s. SnapshotTime (osPackages s) \<noteq> []) \<Longrightarrow> PreviewFeaturePackageSnapshotTime \<in> set (PreviewFeatures c)"
    "os_is (cOS c) (\<lambda>s. RemovePackageManager (osPackages s) \<noteq> None)
      \<Longrightarrow> PreviewFeatureRemovePackageManager \<in> set (PreviewFeatures c)"
    using v(5) by (auto simp: os_is_Some Config_OS_IsValid_def)
  have r: "outArtifacts (cOutput c) \<noteq> None \<or> (\<exists>v \<in> set (sVerity (cStorage c)). HashSignaturePath v \<noteq> [])
      \<Longrightarrow> PreviewFeatureOutputArtifacts \<in> set (PreviewFeatures c)"
    "SelinuxPolicyPath (cOutput c) \<noteq> [] \<Longrightarrow> PreviewFeatureOutputSelinuxPolicy \<in> set (PreviewFeatures c)"
    "ReinitializeVerity (cStorage c) \<noteq> [] \<Longrightarrow> PreviewFeatureReinitializeVerity \<in> set (PreviewFeatures c)"
    "BaseConfigs c \<noteq> None \<Longrightarrow> PreviewFeatureBaseConfigs \<in> set (PreviewFeatures c)"
    "inOci (cInput c) \<noteq> None \<Longrightarrow> PreviewFeatureInputImageOci \<in> set (PreviewFeatures c)"
    "\<exists>f \<in> set (FileSystems (cStorage c)). fsType f = FileSystemTypeBtrfs \<Longrightarrow> PreviewFeatureBtrfs \<in> set (PreviewFeatures c)"
    "\<forall>f \<in> set (PreviewFeatures c). PreviewFeature_IsValid f = None"
    using v(6) by (auto simp: Config_rest_IsValid_def Let_def)
  show ?thesis
    unfolding features_used_def set_append Un_subset_iff set_when_list list_all_iff
    using m os r by blast
qed

theorem Config_features_enabled_witness:
  "features_used sample_config = [''uki''] \<and> set (features_used sample_config) \<subseteq> set (PreviewFeatures sample_config)"
proof
  show "features_used sample_config = [''uki'']" by code_simp
  show "set (features_used sample_config) \<subseteq> set (PreviewFeatures sample_config)"
    using Config_features_enabled [OF sample_accepted] by blast
qed

definition no_conflicts :: "Config \<Rightarrow> bool" where
  "no_conflicts c \<longleftrightarrow> \<not> os_is (cOS c) (\<lambda>s. BootLoaderResetType s = ''hard-reset'') \<and> sVerity (cStorage c) = []
     \<and> \<not> hasOverlays (cOS c)"

text \<open>C22. What the modes of \<open>os.uki\<close> exclude in an accepted configuration. Passthrough and modify:
  a hard reset of the boot loader, verity devices in \<open>storage.verity\<close>, and overlays. Passthrough also: an
  SELinux mode, extra kernel arguments, and \<open>reinitializeVerity: all\<close>; modify accepts these three, and
  neither mode excludes package changes, which are checked when the image is customized. Independently of UKIs, new
  disks and reset partition ids come with a hard reset of the boot loader.\<close>

theorem Config_uki_and_reset:
  assumes "Config_IsValid lib isProd c0 = Some (Inr c)"
  shows "(os_is (cOS c) (\<lambda>s. Uki s = Some UkiModePassthrough \<or> Uki s = Some UkiModeModify) \<longrightarrow> no_conflicts c)
    \<and> (os_is (cOS c) (\<lambda>s. Uki s = Some UkiModePassthrough) \<longrightarrow>
         os_is (cOS c) (\<lambda>s. SELinux s = SELinuxModeDefault \<and> osExtraCommandLine s = [])
         \<and> ReinitializeVerity (cStorage c) \<noteq> ''all'')
    \<and> (Disks (cStorage c) \<noteq> [] \<or> sResetPartitionsUuidsType (cStorage c) \<noteq> [] \<longrightarrow>
         os_is (cOS c) (\<lambda>s. BootLoaderResetType s = ''hard-reset''))"
proof (intro conjI impI)
  note v = Config_IsValid_parts [OF assms]
  have neq: "UkiModePassthrough \<noteq> UkiModeModify" by (simp add: enum_defs)
  have os: "Config_OS_IsValid lib isProd c s = None" if "cOS c = Some s" for s using v(5) that by simp
  have p: "validateUkiPassthroughMode c = None" if "os_is (cOS c) (\<lambda>s. Uki s = Some UkiModePassthrough)"
    using that os by (auto simp: os_is_Some Config_OS_IsValid_def)
  have m: "validateUkiModifyMode c = None" if "os_is (cOS c) (\<lambda>s. Uki s = Some UkiModeModify)"
    using that os neq by (auto simp: os_is_Some Config_OS_IsValid_def)
  show "no_conflicts c" if "os_is (cOS c) (\<lambda>s. Uki s = Some UkiModePassthrough \<or> Uki s = Some UkiModeModify)"
  proof -
    have "validateUkiPassthroughMode c = None \<or> validateUkiModifyMode c = None" using that p m by (auto simp: os_is_Some)
    then show ?thesis
      by (auto simp: validateUkiPassthroughMode_def validateUkiModifyMode_def report_conflicts_def no_conflicts_def)
  qed
  assume pt: "os_is (cOS c) (\<lambda>s. Uki s = Some UkiModePassthrough)"
  then show "os_is (cOS c) (\<lambda>s. SELinux s = SELinuxModeDefault \<and> osExtraCommandLine s = [])"
    "ReinitializeVerity (cStorage c) \<noteq> ''all''"
    using p [OF pt] by (auto simp: validateUkiPassthroughMode_def report_conflicts_def os_is_Some)
next
  note v = Config_IsValid_parts [OF assms]
  assume "Disks (cStorage c) \<noteq> [] \<or> sResetPartitionsUuidsType (cStorage c) \<noteq> []"
  then have "os_is (cOS c) (\<lambda>s. BootLoaderResetType s \<noteq> [])"
    using v(6) by (auto simp: Config_rest_IsValid_def Let_def CustomizePartitions_def ResetPartitionsUuidsTypeDefault_def)
  then obtain s where s: "cOS c = Some s" "BootLoaderResetType s \<noteq> []" by (auto simp: os_is_Some)
  then have "ResetBootLoaderType_IsValid (BootLoaderResetType s) = None"
    using v(5) by (auto simp: Config_OS_IsValid_def OS_IsValid_def)
  with s show "os_is (cOS c) (\<lambda>s. BootLoaderResetType s = ''hard-reset'')"
    by (auto simp: os_is_Some ResetBootLoaderType_IsValid_def)
qed

theorem Config_uki_and_reset_witness: "no_conflicts sample_config"
proof -
  have "os_is (cOS sample_config) (\<lambda>s. Uki s = Some UkiModePassthrough \<or> Uki s = Some UkiModeModify)"
    by code_simp
  then show ?thesis using Config_uki_and_reset [OF sample_accepted] by blast
qed

end
