(* ===== verification/Paths.thy ===== *)
theory Paths
  imports GoStrings
begin

text \<open>
  The functions of Go's package \<open>path/filepath\<close> that the program uses, for Unix, and
  \<open>GetAbsPathWithBase\<close>, \<open>IsDir\<close>, \<open>IsFile\<close>, \<open>DirExists\<close> and \<open>PathExists\<close> of \<open>internal/file/file.go\<close>. The file
  system is an argument: what \<open>os.Stat\<close> says of a path.
\<close>

section \<open>Package filepath\<close>

definition path_Join :: "string list \<Rightarrow> string" where
  "path_Join elems =
     (case dropWhile (\<lambda>e. e = []) elems of
        [] \<Rightarrow> []
      | rest \<Rightarrow> path_Clean (join ''/'' rest))"

definition upto_last_slash :: "string \<Rightarrow> string" where
  "upto_last_slash p = rev (dropWhile (\<lambda>c. c \<noteq> CHR ''/'') (rev p))"

definition after_last_slash :: "string \<Rightarrow> string" where
  "after_last_slash p = rev (takeWhile (\<lambda>c. c \<noteq> CHR ''/'') (rev p))"

definition path_Dir :: "string \<Rightarrow> string" where
  "path_Dir p = path_Clean (upto_last_slash p)"

definition path_Base :: "string \<Rightarrow> string" where
  "path_Base p =
     (if p = [] then ''.''
      else let b = after_last_slash (rev (dropWhile (\<lambda>c. c = CHR ''/'') (rev p)))
           in if b = [] then ''/'' else b)"

definition path_Ext :: "string \<Rightarrow> string" where
  "path_Ext p =
     (let name = rev (after_last_slash p); ext = takeWhile (\<lambda>c. c \<noteq> CHR ''.'') name in
      if length ext < length name then CHR ''.'' # rev ext else [])"

definition path_IsLocal :: "string \<Rightarrow> bool" where
  "path_IsLocal p =
     (if path_IsAbs p \<or> p = [] then False
      else let hasDots = list_ex (\<lambda>w. w = ''.'' \<or> w = ''..'') (Split p CHR ''/'');
               q = (if hasDots then path_Clean p else p)
           in \<not> (q = ''..'' \<or> prefix ''../'' q))"

text \<open>\<open>filepath.Rel\<close> walks over the components of the two clean paths.\<close>

definition clean_components :: "string \<Rightarrow> string list" where
  "clean_components p = (if p = ''/'' then [[]] else if p = [] then [] else Split p CHR ''/'')"

fun strip_common :: "string list \<Rightarrow> string list \<Rightarrow> string list \<times> string list" where
  "strip_common (b # bs) (t # ts) = (if b = t then strip_common bs ts else (b # bs, t # ts))"
| "strip_common bs ts = (bs, ts)"

definition path_Rel :: "string \<Rightarrow> string \<Rightarrow> string option" where
  "path_Rel basePath targPath =
     (let base = path_Clean basePath; targ = path_Clean targPath in
      if targ = base then Some ''.''
      else
        let base = (if base = ''.'' then [] else base) in
        if path_IsAbs base \<noteq> path_IsAbs targ then None
        else
          (case strip_common (clean_components base) (clean_components targ) of
             (bs, ts) \<Rightarrow>
               if bs \<noteq> [] \<and> ts \<noteq> [] \<and> hd bs = ''..'' then None
               else Some (join ''/'' (replicate (length bs) ''..'' @ ts))))"

lemma path_Rel_ex:
  "path_Rel ''/'' ''/a/b'' = Some ''a/b''" "path_Rel ''/a'' ''/a/b'' = Some ''b''" "path_Rel ''/a/c/d'' ''/a/b'' = Some ''../../b''"
  "path_Rel ''/a'' ''/'' = Some ''..''" "path_Rel ''a'' ''/'' = None" "path_Rel ''/a/'' ''/a'' = Some ''.''"
  by code_simp+

lemma path_ex:
  "path_Join [''/a/b'', ''../c''] = ''/a/c''" "path_Join ['''', ''''] = ''''" "path_Dir ''/a/b.yaml'' = ''/a''" "path_Dir ''x'' = ''.''"
  "path_Base ''/a/b/'' = ''b''" "path_Base ''/'' = ''/''" "path_Ext ''/a.d/x.vhdx'' = ''.vhdx''" "path_Ext ''/a.d/x'' = ''''"
  "path_IsLocal ''a/../b''" "\<not> path_IsLocal ''a/../../b''" "\<not> path_IsLocal ''/a''"
  by code_simp+

section \<open>Lexical facts\<close>

lemma clean_step_rooted: "list_all (\<lambda>w. w \<noteq> [] \<and> w \<noteq> ''.'' \<and> w \<noteq> ''..'') st \<Longrightarrow>
    list_all (\<lambda>w. w \<noteq> [] \<and> w \<noteq> ''.'' \<and> w \<noteq> ''..'') (clean_step True st w)"
  by (cases st) auto

lemma path_Clean_IsAbs: "path_IsAbs (path_Clean p) \<longleftrightarrow> path_IsAbs p" if "p \<noteq> []"
proof (cases "path_IsAbs p")
  case True
  with that show ?thesis by (simp add: path_Clean_def path_IsAbs_def Let_def)
next
  case False
  have no: "list_all (\<lambda>w. w \<noteq> [] \<and> CHR ''/'' \<notin> set w) st \<Longrightarrow> list_all (\<lambda>w. CHR ''/'' \<notin> set w) ws \<Longrightarrow>
     list_all (\<lambda>w. w \<noteq> [] \<and> CHR ''/'' \<notin> set w) (foldl (clean_step False) st ws)" for st ws
    by (induction ws arbitrary: st) (auto split: list.splits)
  have "list_all (\<lambda>w. CHR ''/'' \<notin> set w) (Split p CHR ''/'')"
    by (auto simp: list_all_iff dest: Split_mem_no_sep)
  from no [of "[]", OF _ this]
  have "list_all (\<lambda>w. w \<noteq> [] \<and> CHR ''/'' \<notin> set w) (rev (foldl (clean_step False) [] (Split p CHR ''/'')))"
    by simp
  moreover have "\<not> path_IsAbs (join ''/'' ws)" if "list_all (\<lambda>w. w \<noteq> [] \<and> CHR ''/'' \<notin> set w) ws" for ws
    using that by (cases ws; cases "tl ws"; cases "hd ws") (auto simp: path_IsAbs_def)
  ultimately show ?thesis using False that by (simp add: path_Clean_def Let_def path_IsAbs_def)
qed

lemma path_Clean_not_Nil [simp]: "path_Clean p \<noteq> []"
  by (simp add: path_Clean_def Let_def)

section \<open>Package file\<close>

definition GetAbsPathWithBase :: "string \<Rightarrow> string \<Rightarrow> string" where
  "GetAbsPathWithBase baseDirPath inputPath =
     (if path_IsAbs inputPath then inputPath else path_Join [baseDirPath, inputPath])"

lemma GetAbsPathWithBase_IsAbs [simp, intro]:
  "path_IsAbs baseDirPath \<Longrightarrow> path_IsAbs (GetAbsPathWithBase baseDirPath inputPath)"
proof (cases "path_IsAbs inputPath")
  case False
  assume "path_IsAbs baseDirPath"
  then obtain b where "baseDirPath = CHR ''/'' # b" by (cases baseDirPath) (auto simp: path_IsAbs_def)
  with False show ?thesis
    by (simp add: GetAbsPathWithBase_def path_Join_def path_Clean_IsAbs) (simp add: path_IsAbs_def)
qed (simp add: GetAbsPathWithBase_def)

text \<open>What \<open>os.Stat\<close> says of a path: a file (or anything that is not a directory), a directory, that it
  does not exist, or that it cannot be read.\<close>

datatype stat = StatFile | StatDir | StatNotExist | StatError

type_synonym file_system = "string \<Rightarrow> stat"

text \<open>The error is the result of \<open>os.Stat\<close>: \<open>StatNotExist\<close> or \<open>StatError\<close>.\<close>

definition file_IsDir :: "file_system \<Rightarrow> string \<Rightarrow> stat + bool" where
  "file_IsDir fs p = (case fs p of StatFile \<Rightarrow> Inr False | StatDir \<Rightarrow> Inr True | e \<Rightarrow> Inl e)"

definition file_IsFile :: "file_system \<Rightarrow> string \<Rightarrow> stat + bool" where
  "file_IsFile fs p = (case fs p of StatFile \<Rightarrow> Inr True | StatDir \<Rightarrow> Inr False | e \<Rightarrow> Inl e)"

text \<open>\<open>DirExists\<close> calls \<open>stat.IsDir()\<close> on the nil result of a failed \<open>os.Stat\<close>, which panics: \<open>None\<close>.\<close>

definition file_DirExists :: "file_system \<Rightarrow> string \<Rightarrow> bool option" where
  "file_DirExists fs p =
     (case fs p of StatDir \<Rightarrow> Some True | StatFile \<Rightarrow> Some False | StatNotExist \<Rightarrow> Some False | StatError \<Rightarrow> None)"

definition file_PathExists :: "file_system \<Rightarrow> string \<Rightarrow> stat + bool" where
  "file_PathExists fs p =
     (case fs p of StatNotExist \<Rightarrow> Inr False | StatError \<Rightarrow> Inl StatError | _ \<Rightarrow> Inr True)"

end
