(* ===== verification/ConfigChain.thy ===== *)
theory ConfigChain
  imports ImageConfig Paths
begin

text \<open>
  \<open>pkg/imagecustomizerlib/baseconfigs.go\<close>: a configuration file names the configurations it is based on,
  and these their own; the chain lists them all, each after its bases, the configuration itself last.

  Reading a file (\<open>UnmarshalYamlFile\<close>) is the argument \<open>load\<close>, the validation of a loaded configuration the
  argument \<open>valid\<close>, which the program instantiates with \<open>Config_IsValid\<close>. The recursion is not bounded by
  the data: \<open>None\<close> is a run that does not return.
\<close>

section \<open>The code\<close>

record ConfigWithBasePath =
  cwConfig :: Config
  cwBasePath :: string

datatype 'e chain_error =
    CycleDetected "string list" string | LoadFailed string 'e | InvalidBaseConfigs string config_error

type_synonym 'e loader = "string \<Rightarrow> 'e + Config"
type_synonym validator = "Config \<Rightarrow> (config_error + Config) option"

definition base_paths :: "Config \<Rightarrow> string list" where
  "base_paths c = (case BaseConfigs c of None \<Rightarrow> [] | Some bs \<Rightarrow> bs)"

text \<open>The loop over \<open>cfg.BaseConfigs\<close>, with the recursive call of \<open>buildConfigChainHelper\<close> written out: the
  chain of a base is that of its own bases followed by itself. The map \<open>visited\<close> is shared by all calls
  and threaded; the stack is a slice each call appends to on its own.\<close>

partial_function (option) buildConfigChainHelper ::
  "'e loader \<Rightarrow> validator \<Rightarrow> string \<Rightarrow> string list \<Rightarrow> string set \<Rightarrow> string list
     \<Rightarrow> ('e chain_error + (ConfigWithBasePath list \<times> string set)) option" where
  "buildConfigChainHelper load valid configDir bases visited pathStack =
     (case bases of
        [] \<Rightarrow> Some (Inr ([], visited))
      | base # others \<Rightarrow>
          let absPath = GetAbsPathWithBase configDir base in
          if absPath \<in> visited then Some (Inl (CycleDetected pathStack absPath))
          else
            (case load absPath of
               Inl e \<Rightarrow> Some (Inl (LoadFailed absPath e))
             | Inr cfg \<Rightarrow>
                 Option.bind (valid cfg) (\<lambda>v.
                   case v of
                     Inl e \<Rightarrow> Some (Inl (InvalidBaseConfigs absPath e))
                   | Inr baseCfg \<Rightarrow>
                       Option.bind (buildConfigChainHelper load valid (path_Dir absPath) (base_paths baseCfg)
                                      (insert absPath visited) (pathStack @ [absPath])) (\<lambda>r.
                         case r of
                           Inl e \<Rightarrow> Some (Inl e)
                         | Inr (subChain, visited') \<Rightarrow>
                             Option.bind (buildConfigChainHelper load valid configDir others visited'
                                            (pathStack @ [absPath])) (\<lambda>r'.
                               case r' of
                                 Inl e \<Rightarrow> Some (Inl e)
                               | Inr (chain, visited'') \<Rightarrow>
                                   Some (Inr (subChain @ \<lparr>cwConfig = baseCfg, cwBasePath = path_Dir absPath\<rparr> # chain,
                                              visited'')))))))"

definition buildConfigChain ::
  "'e loader \<Rightarrow> validator \<Rightarrow> Config \<Rightarrow> string \<Rightarrow> ('e chain_error + ConfigWithBasePath list) option" where
  "buildConfigChain load valid config baseConfigPath =
     (case buildConfigChainHelper load valid baseConfigPath (base_paths config) {} [] of
        None \<Rightarrow> None
      | Some (Inl e) \<Rightarrow> Some (Inl e)
      | Some (Inr (chain, _)) \<Rightarrow> Some (Inr (chain @ [\<lparr>cwConfig = config, cwBasePath = baseConfigPath\<rparr>])))"

section \<open>Termination\<close>

lemma helper_Nil [simp]: "buildConfigChainHelper load valid d [] vis st = Some (Inr ([], vis))"
  by (subst buildConfigChainHelper.simps) simp

lemma helper_Cons:
  "buildConfigChainHelper load valid d (base # others) vis st =
     (let p = GetAbsPathWithBase d base in
      if p \<in> vis then Some (Inl (CycleDetected st p))
      else
        (case load p of
           Inl e \<Rightarrow> Some (Inl (LoadFailed p e))
         | Inr cfg \<Rightarrow>
             Option.bind (valid cfg) (\<lambda>v.
               case v of
                 Inl e \<Rightarrow> Some (Inl (InvalidBaseConfigs p e))
               | Inr c \<Rightarrow>
                   Option.bind (buildConfigChainHelper load valid (path_Dir p) (base_paths c) (insert p vis) (st @ [p]))
                     (\<lambda>r. case r of
                        Inl e \<Rightarrow> Some (Inl e)
                      | Inr (sub, vis') \<Rightarrow>
                          Option.bind (buildConfigChainHelper load valid d others vis' (st @ [p])) (\<lambda>r'.
                            case r' of
                              Inl e \<Rightarrow> Some (Inl e)
                            | Inr (chain, vis'') \<Rightarrow>
                                Some (Inr (sub @ \<lparr>cwConfig = c, cwBasePath = path_Dir p\<rparr> # chain, vis'')))))))"
  by (subst buildConfigChainHelper.simps) simp

text \<open>The files that can be read; every call that goes on removes one of them from those not visited.\<close>

definition loadable :: "'e loader \<Rightarrow> string set" where
  "loadable load = {p. \<exists>c. load p = Inr c}"

lemma loadable_decreases:
  assumes "finite (loadable load)" "load p = Inr c" "p \<notin> vis" "insert p vis \<subseteq> vis'"
  shows "card (loadable load - vis') < card (loadable load - vis)"
proof (rule psubset_card_mono)
  show "loadable load - vis' \<subset> loadable load - vis"
    using assms(2-) by (auto simp: loadable_def)
qed (use assms(1) in simp)

lemma helper_returns:
  assumes fin: "finite (loadable load)" and total: "\<And>p c. load p = Inr c \<Longrightarrow> valid c \<noteq> None"
  shows "\<exists>r. buildConfigChainHelper load valid d bases vis st = Some r
           \<and> (\<forall>chain vis'. r = Inr (chain, vis') \<longrightarrow> vis \<subseteq> vis')"
proof (induction "card (loadable load - vis)" arbitrary: d bases vis st rule: less_induct)
  case less
  show ?case
  proof (cases bases)
    case (Cons base others)
    define p where "p = GetAbsPathWithBase d base"
    show ?thesis
    proof (cases "p \<in> vis")
      case False
      show ?thesis
      proof (cases "load p")
        case (Inr cfg)
        obtain v where v: "valid cfg = Some v" using total [OF Inr] by blast
        note smaller = loadable_decreases [OF fin Inr False]
        show ?thesis
        proof (cases v)
          case (Inr c)
          obtain r where r: "buildConfigChainHelper load valid (path_Dir p) (base_paths c) (insert p vis) (st @ [p]) = Some r"
            and rv: "\<And>chain vis'. r = Inr (chain, vis') \<Longrightarrow> insert p vis \<subseteq> vis'"
            using less [OF smaller, of "insert p vis"] by blast
          show ?thesis
          proof (cases r)
            case (Inl e)
            then show ?thesis
              using Cons False \<open>load p = Inr cfg\<close> v Inr r by (simp add: helper_Cons p_def [symmetric])
          next
            fix q assume q: "r = Inr q"
            then have sub: "insert p vis \<subseteq> snd q" using rv [of "fst q" "snd q"] by simp
            obtain r' where r': "buildConfigChainHelper load valid d others (snd q) (st @ [p]) = Some r'"
              and rv': "\<And>chain vis'. r' = Inr (chain, vis') \<Longrightarrow> snd q \<subseteq> vis'"
              using less [OF smaller [OF sub]] by blast
            then show ?thesis
              using Cons False \<open>load p = Inr cfg\<close> v Inr r q sub
              by (cases q; cases r') (auto simp: helper_Cons p_def [symmetric] dest: rv')
          qed
        qed (use Cons False Inr v in \<open>simp add: helper_Cons p_def [symmetric]\<close>)
      qed (use Cons False in \<open>simp add: helper_Cons p_def [symmetric]\<close>)
    qed (use Cons in \<open>simp add: helper_Cons p_def [symmetric]\<close>)
  qed simp
qed

section \<open>The reference: the files in post-order\<close>

text \<open>\<open>chain_of load valid d bases chain ps\<close>: the bases, read from directory \<open>d\<close>, have the chain \<open>chain\<close>, and
  \<open>ps\<close> are the files in the order in which they are opened. Nothing is said of files met twice.\<close>

inductive chain_of ::
  "'e loader \<Rightarrow> validator \<Rightarrow> string \<Rightarrow> string list \<Rightarrow> ConfigWithBasePath list \<Rightarrow> string list \<Rightarrow> bool"
  for load :: "'e loader" and valid :: validator where
  chain_Nil: "chain_of load valid d [] [] []"
| chain_Cons:
    "p = GetAbsPathWithBase d base \<Longrightarrow> load p = Inr cfg \<Longrightarrow> valid cfg = Some (Inr c)
      \<Longrightarrow> chain_of load valid (path_Dir p) (base_paths c) sub ps \<Longrightarrow> chain_of load valid d others tail qs
      \<Longrightarrow> chain_of load valid d (base # others) (sub @ \<lparr>cwConfig = c, cwBasePath = path_Dir p\<rparr> # tail) (p # ps @ qs)"

inductive_cases chain_ConsE [elim!]: "chain_of load valid d (base # others) chain ps"
inductive_simps chain_Nil_iff [simp]: "chain_of load valid d [] chain ps"

lemma sum_case_Some_Inr:
  "(case y of Inl e \<Rightarrow> Some (Inl (h e)) | Inr x \<Rightarrow> g x) = Some (Inr q) \<longleftrightarrow> (\<exists>x. y = Inr x \<and> g x = Some (Inr q))"
  by (cases y) auto

definition chain_result ::
  "'e loader \<Rightarrow> validator \<Rightarrow> string \<Rightarrow> string list \<Rightarrow> string set \<Rightarrow> string list
     \<Rightarrow> 'e chain_error + (ConfigWithBasePath list \<times> string set) \<Rightarrow> bool" where
  "chain_result load valid d bases vis st r \<longleftrightarrow>
     (\<forall>chain vis'. r = Inr (chain, vis') \<longrightarrow>
        (\<exists>ps. chain_of load valid d bases chain ps \<and> distinct ps \<and> set ps \<inter> vis = {} \<and> vis' = vis \<union> set ps))"

lemma chain_of_result:
  assumes "buildConfigChainHelper load valid d bases vis st = Some r"
  shows "chain_result load valid d bases vis st r"
proof (rule buildConfigChainHelper.raw_induct [where P = chain_result, OF _ assms], goal_cases)
  case (1 f load valid d bases vis st r)
  show ?case
  proof (cases bases)
    case Nil
    then show ?thesis using 1(2) by (auto simp: chain_result_def)
  next
    case (Cons base others)
    define p where "p = GetAbsPathWithBase d base"
    show ?thesis
    proof (cases r)
      case (Inr q)
      obtain cfg c sub v1 tail v2 where steps: "p \<notin> vis" "load p = Inr cfg" "valid cfg = Some (Inr c)"
        "f load valid (path_Dir p) (base_paths c) (insert p vis) (st @ [p]) = Some (Inr (sub, v1))"
        "f load valid d others v1 (st @ [p]) = Some (Inr (tail, v2))"
        "q = (sub @ \<lparr>cwConfig = c, cwBasePath = path_Dir p\<rparr> # tail, v2)"
        using 1(2) Cons Inr
        by (auto simp: Let_def p_def [symmetric] bind_eq_Some_conv sum_case_Some_Inr split: if_split_asm)
      obtain ps where ps: "chain_of load valid (path_Dir p) (base_paths c) sub ps" "distinct ps"
        "set ps \<inter> insert p vis = {}" "v1 = insert p vis \<union> set ps"
        using 1(1) [OF steps(4)] by (auto simp: chain_result_def)
      obtain qs where qs: "chain_of load valid d others tail qs" "distinct qs" "set qs \<inter> v1 = {}" "v2 = v1 \<union> set qs"
        using 1(1) [OF steps(5)] by (auto simp: chain_result_def)
      have "chain_of load valid d bases (fst q) (p # ps @ qs)"
        using chain_Cons [OF p_def steps(2,3) ps(1) qs(1)] Cons steps(6) by simp
      moreover have "distinct (p # ps @ qs)" "set (p # ps @ qs) \<inter> vis = {}" "snd q = vis \<union> set (p # ps @ qs)"
        using steps(1,6) ps qs by auto
      ultimately show ?thesis using Inr unfolding chain_result_def by (metis fst_conv snd_conv sum.inject(2))
    qed (simp add: chain_result_def)
  qed
qed

lemma chain_of_accepted:
  assumes "chain_of load valid d bases chain ps"
  shows "buildConfigChainHelper load valid d bases vis st =
      Some (Inr (chain, vis \<union> set ps)) \<and> distinct ps \<and> set ps \<inter> vis = {}
    \<or> (\<exists>s p. buildConfigChainHelper load valid d bases vis st = Some (Inl (CycleDetected s p)))
        \<and> \<not> (distinct ps \<and> set ps \<inter> vis = {})"
  using assms
proof (induction arbitrary: vis st rule: chain_of.induct)
  case (chain_Cons p d base cfg c sub ps others tail qs)
  show ?case
  proof (cases "p \<in> vis")
    case False
    note unf = helper_Cons [where d = d and base = base and others = others and vis = vis and st = st and load = load and valid = valid]
      chain_Cons.hyps(1) [symmetric] chain_Cons.hyps(2,3)
    show ?thesis
      using chain_Cons.IH(1) [of "insert p vis" "st @ [p]"]
    proof (elim disjE)
      assume a: "buildConfigChainHelper load valid (path_Dir p) (base_paths c) (insert p vis) (st @ [p])
          = Some (Inr (sub, insert p vis \<union> set ps)) \<and> distinct ps \<and> set ps \<inter> insert p vis = {}"
      show ?thesis
        using chain_Cons.IH(2) [of "insert p vis \<union> set ps" "st @ [p]"] a False
        by (elim disjE) (auto simp: unf Let_def)
    qed (use False in \<open>auto simp: unf Let_def\<close>)
  qed (use chain_Cons.hyps(1) in \<open>simp add: helper_Cons Let_def\<close>)
qed simp

section \<open>What the chain is\<close>

text \<open>C27. The configuration chain is built, without an error, exactly when every file that is reached can be
  read and is valid and no file is reached twice, by a cycle or by two paths; it then lists the configurations
  in post-order, each after all of its bases, with the configuration itself last.\<close>

theorem buildConfigChain_iff:
  "buildConfigChain load valid config dir = Some (Inr chain) \<longleftrightarrow>
     (\<exists>sub ps. chain_of load valid dir (base_paths config) sub ps \<and> distinct ps
             \<and> chain = sub @ [\<lparr>cwConfig = config, cwBasePath = dir\<rparr>])"
    (is "?code \<longleftrightarrow> ?spec")
proof
  assume ?code
  then obtain sub vis where r: "buildConfigChainHelper load valid dir (base_paths config) {} [] = Some (Inr (sub, vis))"
    and c: "chain = sub @ [\<lparr>cwConfig = config, cwBasePath = dir\<rparr>]"
    by (auto simp: buildConfigChain_def split: option.splits sum.splits)
  from chain_of_result [OF r] show ?spec using c by (auto simp: chain_result_def)
next
  assume ?spec
  then obtain sub ps where "chain_of load valid dir (base_paths config) sub ps" "distinct ps"
    "chain = sub @ [\<lparr>cwConfig = config, cwBasePath = dir\<rparr>]" by blast
  then show ?code
    using chain_of_accepted [of load valid dir "base_paths config" sub ps "{}" "[]"] by (auto simp: buildConfigChain_def)
qed

text \<open>Two configurations that share a base, which is not a cycle.\<close>

lemma shared_base_is_reported:
  assumes "chain_of load valid dir (base_paths config) sub ps" "\<not> distinct ps"
  shows "\<exists>s p. buildConfigChain load valid config dir = Some (Inl (CycleDetected s p))"
  using chain_of_accepted [OF assms(1), of "{}" "[]"] assms(2) by (auto simp: buildConfigChain_def)

text \<open>C28. The recursion over the base configurations ends, with a chain or an error, when finitely many
  files can be read and the validation of each of them returns, whatever cycles they form.\<close>

theorem buildConfigChain_returns:
  assumes "finite {p. \<exists>c. load p = Inr c}"
    and "\<And>p c. load p = Inr c \<Longrightarrow> Config_IsValid lib isProd c \<noteq> None"
  shows "buildConfigChain load (Config_IsValid lib isProd) config dir \<noteq> None"
proof -
  have "finite (loadable load)" using assms(1) by (simp add: loadable_def)
  then obtain r where "buildConfigChainHelper load (Config_IsValid lib isProd) dir (base_paths config) {} [] = Some r"
    using helper_returns [where load = load and valid = "Config_IsValid lib isProd"] assms(2) by metis
  then show ?thesis by (cases r) (auto simp: buildConfigChain_def)
qed

text \<open>A configuration with one base in a directory above it.\<close>

definition child_config :: Config where
  "child_config = sample_config\<lparr>BaseConfigs := Some [''../base.yaml'']\<rparr>"

definition sample_loader :: "unit loader" where
  "sample_loader p = (if p = ''/c/base.yaml'' then Inr sample_config else Inl ())"

theorem buildConfigChain_returns_witness:
  "finite {p. \<exists>c. sample_loader p = Inr c}
   \<and> buildConfigChain sample_loader (Config_IsValid sample_library False) child_config ''/c/d'' \<noteq> None"
proof
  show fin: "finite {p. \<exists>c. sample_loader p = Inr c}"
    by (rule finite_subset [of _ "{''/c/base.yaml''}"]) (auto simp: sample_loader_def split: if_splits)
  show "buildConfigChain sample_loader (Config_IsValid sample_library False) child_config ''/c/d'' \<noteq> None"
    by (rule buildConfigChain_returns [OF fin]) (auto simp: sample_loader_def sample_accepted split: if_splits)
qed

end
