(* ===== verification/ConfigResolve.thy ===== *)
theory ConfigResolve
  imports ConfigChain
begin

text \<open>
  The resolution functions of \<open>pkg/imagecustomizerlib/configvalidation.go\<close>: how the fields of the
  configurations of a chain are merged into one, a configuration coming after its bases. A field either is
  overridden (the last configuration that sets it wins: the loops over \<open>slices.Backward\<close>) or is collected
  (kernel arguments, files and artifact items are appended, bases first).
\<close>

section \<open>Loops over the chain\<close>

text \<open>\<open>for _, c := range slices.Backward(chain) { if c sets it { return it } }\<close>\<close>

fun first_match :: "('a \<Rightarrow> 'b option) \<Rightarrow> 'a list \<Rightarrow> 'b option" where
  "first_match get [] = None"
| "first_match get (c # cs) = (case get c of None \<Rightarrow> first_match get cs | Some v \<Rightarrow> Some v)"

definition backward :: "('a \<Rightarrow> 'b option) \<Rightarrow> 'a list \<Rightarrow> 'b option" where
  "backward get chain = first_match get (rev chain)"

definition when_some :: "bool \<Rightarrow> 'a \<Rightarrow> 'a option" where
  "when_some b v = (if b then Some v else None)"

lemma first_match_append: "first_match get (xs @ ys) = (case first_match get xs of None \<Rightarrow> first_match get ys | Some v \<Rightarrow> Some v)"
  by (induction xs) (auto split: option.split)

lemma backward_Nil [simp]: "backward get [] = None"
  by (simp add: backward_def)

lemma backward_snoc [simp]: "backward get (cs @ [c]) = (case get c of None \<Rightarrow> backward get cs | Some v \<Rightarrow> Some v)"
  by (simp add: backward_def split: option.split)

definition chain_os :: "(OS \<Rightarrow> 'a option) \<Rightarrow> ConfigWithBasePath \<Rightarrow> 'a option" where
  "chain_os f c = Option.bind (cOS (cwConfig c)) f"

definition chain_iso :: "(Iso \<Rightarrow> 'a option) \<Rightarrow> ConfigWithBasePath \<Rightarrow> 'a option" where
  "chain_iso f c = Option.bind (cIso (cwConfig c)) f"

definition chain_pxe :: "(Pxe \<Rightarrow> 'a option) \<Rightarrow> ConfigWithBasePath \<Rightarrow> 'a option" where
  "chain_pxe f c = Option.bind (cPxe (cwConfig c)) f"

definition or_default :: "'a \<Rightarrow> 'a option \<Rightarrow> 'a" where
  "or_default d o' = (case o' of None \<Rightarrow> d | Some v \<Rightarrow> v)"

section \<open>Fields that are overridden\<close>

type_synonym config_chain = "ConfigWithBasePath list"

definition resolveHostname :: "config_chain \<Rightarrow> string" where
  "resolveHostname chain = or_default [] (backward (chain_os (\<lambda>os. when_some (Hostname os \<noteq> []) (Hostname os))) chain)"

definition resolveSeLinux :: "config_chain \<Rightarrow> SELinuxMode" where
  "resolveSeLinux chain = or_default [] (backward (chain_os (\<lambda>os. when_some (SELinux os \<noteq> []) (SELinux os))) chain)"

definition resolveUki :: "config_chain \<Rightarrow> string option" where
  "resolveUki chain = backward (chain_os Uki) chain"

text \<open>Only the hard reset ends the search.\<close>

definition resolveBootLoaderResetType :: "config_chain \<Rightarrow> string" where
  "resolveBootLoaderResetType chain =
     or_default [] (backward (chain_os (\<lambda>os. when_some (BootLoaderResetType os = ''hard-reset'') ''hard-reset'')) chain)"

definition resolveImageHistory :: "config_chain \<Rightarrow> string" where
  "resolveImageHistory chain =
     or_default [] (backward (chain_os (\<lambda>os. when_some (osImageHistory os \<noteq> []) (osImageHistory os))) chain)"

definition resolveRemovePackageManager :: "config_chain \<Rightarrow> bool" where
  "resolveRemovePackageManager chain = or_default False (backward (chain_os (\<lambda>os. RemovePackageManager (osPackages os))) chain)"

definition defaultCosiCompressionLevel :: "string \<Rightarrow> int" where
  "defaultCosiCompressionLevel fmt = (if fmt = ''baremetal-image'' then 22 else 9)"

definition defaultCosiCompressionLong :: "string \<Rightarrow> int" where
  "defaultCosiCompressionLong fmt = (if fmt = ''baremetal-image'' then 31 else 27)"

definition resolveCosiCompressionLevel :: "config_chain \<Rightarrow> int option \<Rightarrow> string \<Rightarrow> int" where
  "resolveCosiCompressionLevel chain cliLevel fmt =
     (case cliLevel of
        Some l \<Rightarrow> l
      | None \<Rightarrow> or_default (defaultCosiCompressionLevel fmt)
                  (backward (\<lambda>c. outCosiLevel (outImage (cOutput (cwConfig c)))) chain))"

section \<open>Fields that are collected\<close>

definition mergeKernelCommandLine :: "config_chain \<Rightarrow> (Config \<Rightarrow> string list) \<Rightarrow> string list" where
  "mergeKernelCommandLine chain getArgs = concat (map (\<lambda>c. getArgs (cwConfig c)) chain)"

definition resolveSource :: "string \<Rightarrow> AdditionalFile \<Rightarrow> AdditionalFile" where
  "resolveSource basePath f =
     (if afSource f \<noteq> [] then f\<lparr>afSource := GetAbsPathWithBase basePath (afSource f)\<rparr> else f)"

definition mergeAdditionalFiles :: "config_chain \<Rightarrow> (Config \<Rightarrow> AdditionalFile list) \<Rightarrow> AdditionalFile list" where
  "mergeAdditionalFiles chain getFiles =
     concat (map (\<lambda>c. map (resolveSource (cwBasePath c)) (getFiles (cwConfig c))) chain)"

definition resolveOsKernelCommandLine :: "config_chain \<Rightarrow> string list" where
  "resolveOsKernelCommandLine chain =
     mergeKernelCommandLine chain (\<lambda>c. case cOS c of None \<Rightarrow> [] | Some os \<Rightarrow> osExtraCommandLine os)"

definition resolveIsoConfig :: "config_chain \<Rightarrow> Iso" where
  "resolveIsoConfig chain =
     \<lparr>isoExtraCommandLine = mergeKernelCommandLine chain (\<lambda>c. case cIso c of None \<Rightarrow> [] | Some i \<Rightarrow> isoExtraCommandLine i),
      isoAdditionalFiles = mergeAdditionalFiles chain (\<lambda>c. case cIso c of None \<Rightarrow> [] | Some i \<Rightarrow> isoAdditionalFiles i),
      isoInitramfsType = or_default [] (backward (chain_iso (\<lambda>i. when_some (isoInitramfsType i \<noteq> []) (isoInitramfsType i))) chain),
      isoKdumpBootFiles = backward (chain_iso isoKdumpBootFiles) chain\<rparr>"

definition resolvePxeConfig :: "config_chain \<Rightarrow> Pxe" where
  "resolvePxeConfig chain =
     \<lparr>pxeExtraCommandLine = mergeKernelCommandLine chain (\<lambda>c. case cPxe c of None \<Rightarrow> [] | Some p \<Rightarrow> pxeExtraCommandLine p),
      pxeAdditionalFiles = mergeAdditionalFiles chain (\<lambda>c. case cPxe c of None \<Rightarrow> [] | Some p \<Rightarrow> pxeAdditionalFiles p),
      pxeInitramfsType = or_default [] (backward (chain_pxe (\<lambda>p. when_some (pxeInitramfsType p \<noteq> []) (pxeInitramfsType p))) chain),
      BootstrapBaseUrl = or_default [] (backward (chain_pxe (\<lambda>p. when_some (BootstrapBaseUrl p \<noteq> []) (BootstrapBaseUrl p))) chain),
      BootstrapFileUrl = or_default [] (backward (chain_pxe (\<lambda>p. when_some (BootstrapFileUrl p \<noteq> []) (BootstrapFileUrl p))) chain),
      pxeKdumpBootFiles = backward (chain_pxe pxeKdumpBootFiles) chain\<rparr>"

text \<open>The items of the first list, then those of the second, each kept where it is met first.\<close>

fun mergeLoop :: "string set \<Rightarrow> string list \<Rightarrow> string list" where
  "mergeLoop seen [] = []"
| "mergeLoop seen (i # is) = (if i \<in> seen then mergeLoop seen is else i # mergeLoop (insert i seen) is)"

definition mergeOutputArtifactTypes :: "string list \<Rightarrow> string list \<Rightarrow> string list" where
  "mergeOutputArtifactTypes base current = mergeLoop {} (base @ current)"

definition artifactsStep :: "Artifacts option \<Rightarrow> ConfigWithBasePath \<Rightarrow> Artifacts option" where
  "artifactsStep artifacts c =
     (case outArtifacts (cOutput (cwConfig c)) of
        None \<Rightarrow> artifacts
      | Some a \<Rightarrow>
          let acc = or_default \<lparr>artItems = [], artPath = []\<rparr> artifacts in
          Some \<lparr>artItems = mergeOutputArtifactTypes (artItems acc) (artItems a),
                artPath = (if artPath a \<noteq> [] then GetAbsPathWithBase (cwBasePath c) (artPath a) else artPath acc)\<rparr>)"

definition resolveOutputArtifacts :: "config_chain \<Rightarrow> Artifacts option" where
  "resolveOutputArtifacts chain = foldl artifactsStep None chain"

section \<open>The storage section\<close>

datatype resolve_error = StorageMoreThanOne

definition storage_specified :: "Storage \<Rightarrow> bool" where
  "storage_specified s \<longleftrightarrow>
     sResetPartitionsUuidsType s \<noteq> ResetPartitionsUuidsTypeDefault \<or> sBootType s \<noteq> [] \<or> length (Disks s) > 0
     \<or> length (FileSystems s) > 0 \<or> length (sVerity s) > 0 \<or> ReinitializeVerity s \<noteq> []"

definition emptyStorage :: Storage where
  "emptyStorage = \<lparr>sResetPartitionsUuidsType = '''', sBootType = '''', Disks = [], FileSystems = [], sVerity = [],
     ReinitializeVerity = '''', sVerityPartitionsType = VerityPartitionsInvalid\<rparr>"

fun storageLoop :: "config_chain \<Rightarrow> Storage \<Rightarrow> nat \<Rightarrow> Storage \<times> nat" where
  "storageLoop [] foundStorage n = (foundStorage, n)"
| "storageLoop (c # cs) foundStorage n =
     (if storage_specified (cStorage (cwConfig c)) then storageLoop cs (cStorage (cwConfig c)) (Suc n)
      else storageLoop cs foundStorage n)"

definition resolveStorage :: "config_chain \<Rightarrow> resolve_error + Storage" where
  "resolveStorage chain =
     (case storageLoop chain emptyStorage 0 of
        (foundStorage, n) \<Rightarrow> if n > 1 then Inl StorageMoreThanOne else Inr foundStorage)"

section \<open>The interface of an overridden field\<close>

text \<open>What a field of the resolved configuration promises: the last configuration that sets it decides,
  and there is a value for the case that none does.\<close>

locale overridden_field =
  fixes resolve :: "'c list \<Rightarrow> 'v" and setting :: "'c \<Rightarrow> 'v option" and unset :: 'v
  assumes resolve_Nil: "resolve [] = unset"
    and resolve_snoc: "resolve (cs @ [c]) = (case setting c of None \<Rightarrow> resolve cs | Some v \<Rightarrow> v)"
begin

lemma unset_after:
  "\<forall>d \<in> set ds. setting d = None \<Longrightarrow> resolve (cs @ ds) = resolve cs"
proof (induction ds rule: rev_induct)
  case (snoc d ds)
  then show ?case using resolve_snoc [of "cs @ ds" d] by simp
qed simp

lemma last_wins:
  "setting c = Some v \<Longrightarrow> \<forall>d \<in> set ds. setting d = None \<Longrightarrow> resolve (cs @ c # ds) = v"
  using unset_after [of ds "cs @ [c]"] resolve_snoc [of cs c] by simp

lemma none_sets: "\<forall>c \<in> set cs. setting c = None \<Longrightarrow> resolve cs = unset"
  using unset_after [of cs "[]"] by (simp add: resolve_Nil)

lemma some_sets:
  "c \<in> set cs \<Longrightarrow> setting c \<noteq> None \<Longrightarrow> \<exists>d \<in> set cs. setting d = Some (resolve cs)"
proof (induction cs rule: rev_induct)
  case (snoc d ds)
  then show ?case by (cases "setting d") (auto simp: resolve_snoc)
qed simp

end

lemma or_default_None [simp]: "or_default d None = d" and or_default_Some [simp]: "or_default d (Some v) = v"
  by (simp_all add: or_default_def)

lemma or_default_case: "or_default d (case x of None \<Rightarrow> y | Some v \<Rightarrow> Some v) = (case x of None \<Rightarrow> or_default d y | Some v \<Rightarrow> v)"
  by (cases x) simp_all

interpretation hostname: overridden_field resolveHostname "chain_os (\<lambda>os. when_some (Hostname os \<noteq> []) (Hostname os))" "[]"
  by unfold_locales (simp_all add: resolveHostname_def or_default_case split: option.split)

interpretation selinux: overridden_field resolveSeLinux "chain_os (\<lambda>os. when_some (SELinux os \<noteq> []) (SELinux os))" "[]"
  by unfold_locales (simp_all add: resolveSeLinux_def or_default_case split: option.split)

interpretation uki: overridden_field resolveUki "chain_os (\<lambda>os. map_option Some (Uki os))" None
proof unfold_locales
  fix cs c
  show "resolveUki (cs @ [c]) = (case chain_os (\<lambda>os. map_option Some (Uki os)) c of None \<Rightarrow> resolveUki cs | Some v \<Rightarrow> v)"
    by (simp add: resolveUki_def chain_os_def split: option.split bind_split)
qed (simp add: resolveUki_def)

interpretation reset_type: overridden_field resolveBootLoaderResetType
  "chain_os (\<lambda>os. when_some (BootLoaderResetType os = ''hard-reset'') ''hard-reset'')" "[]"
  by unfold_locales (simp_all add: resolveBootLoaderResetType_def or_default_case split: option.split)

interpretation history: overridden_field resolveImageHistory
  "chain_os (\<lambda>os. when_some (osImageHistory os \<noteq> []) (osImageHistory os))" "[]"
  by unfold_locales (simp_all add: resolveImageHistory_def or_default_case split: option.split)

interpretation remove_pm: overridden_field resolveRemovePackageManager "chain_os (\<lambda>os. RemovePackageManager (osPackages os))" False
  by unfold_locales (simp_all add: resolveRemovePackageManager_def or_default_case split: option.split)

interpretation cosi_level: overridden_field "\<lambda>chain. resolveCosiCompressionLevel chain None fmt"
  "\<lambda>c. outCosiLevel (outImage (cOutput (cwConfig c)))" "defaultCosiCompressionLevel fmt" for fmt
  by unfold_locales (simp_all add: resolveCosiCompressionLevel_def or_default_case split: option.split)

section \<open>Facts about the collected fields\<close>

lemma mergeKernelCommandLine_append [simp]:
  "mergeKernelCommandLine (cs @ ds) f = mergeKernelCommandLine cs f @ mergeKernelCommandLine ds f"
  by (simp add: mergeKernelCommandLine_def)

lemma mergeLoop_set: "set (mergeLoop seen is) = set is - seen"
  by (induction seen "is" rule: mergeLoop.induct) auto

lemma mergeLoop_distinct: "distinct (mergeLoop seen is)"
  by (induction seen "is" rule: mergeLoop.induct) (auto simp: mergeLoop_set)

lemma mergeLoop_append: "mergeLoop seen (xs @ ys) = mergeLoop seen xs @ mergeLoop (seen \<union> set xs) ys"
  by (induction seen xs rule: mergeLoop.induct) (auto simp: insert_absorb)

lemma mergeOutputArtifactTypes_distinct [simp]: "distinct (mergeOutputArtifactTypes xs ys)"
  by (simp add: mergeOutputArtifactTypes_def mergeLoop_distinct)

lemma mergeOutputArtifactTypes_set [simp]: "set (mergeOutputArtifactTypes xs ys) = set xs \<union> set ys"
  by (simp add: mergeOutputArtifactTypes_def mergeLoop_set)

lemma resolveOutputArtifacts_snoc: "resolveOutputArtifacts (cs @ [c]) = artifactsStep (resolveOutputArtifacts cs) c"
  by (simp add: resolveOutputArtifacts_def)

text \<open>The items of the artifacts are the union over the chain, without repetition.\<close>

definition artifact_items :: "ConfigWithBasePath \<Rightarrow> string list" where
  "artifact_items c = (case outArtifacts (cOutput (cwConfig c)) of None \<Rightarrow> [] | Some a \<Rightarrow> artItems a)"

lemma resolveOutputArtifacts_items:
  "(case resolveOutputArtifacts chain of
      None \<Rightarrow> \<forall>c \<in> set chain. outArtifacts (cOutput (cwConfig c)) = None
    | Some a \<Rightarrow> distinct (artItems a) \<and> set (artItems a) = (\<Union>c \<in> set chain. set (artifact_items c)))"
proof (induction chain rule: rev_induct)
  case (snoc c cs)
  then show ?case
    by (auto simp: resolveOutputArtifacts_snoc artifactsStep_def artifact_items_def Let_def split: option.splits)
qed (simp add: resolveOutputArtifacts_def)

section \<open>Facts about the storage\<close>

lemma storageLoop_count:
  "storageLoop cs st n =
     (let found = filter (\<lambda>c. storage_specified (cStorage (cwConfig c))) cs
      in (if found = [] then st else cStorage (cwConfig (last found)), n + length found))"
  by (induction cs st n rule: storageLoop.induct) (simp_all add: Let_def)

lemma resolveStorage_Inr:
  assumes "resolveStorage chain = Inr st"
  shows "(\<forall>c \<in> set chain. \<not> storage_specified (cStorage (cwConfig c))) \<and> st = emptyStorage
       \<or> (\<exists>cs c ds. chain = cs @ c # ds \<and> st = cStorage (cwConfig c) \<and> storage_specified st
            \<and> (\<forall>d \<in> set cs \<union> set ds. \<not> storage_specified (cStorage (cwConfig d))))"
proof -
  let ?P = "\<lambda>c. storage_specified (cStorage (cwConfig c))"
  let ?f = "filter ?P chain"
  have len: "length ?f \<le> 1" and st: "st = (if ?f = [] then emptyStorage else cStorage (cwConfig (last ?f)))"
    using assms by (auto simp: resolveStorage_def storageLoop_count Let_def split: if_splits)
  show ?thesis
  proof (cases ?f)
    case Nil
    then show ?thesis using st by (auto simp: filter_empty_conv)
  next
    case (Cons c tl)
    with len have c: "?f = [c]" by simp
    from filter_eq_ConsD [OF c] obtain cs ds where "chain = cs @ c # ds" "\<forall>d \<in> set cs. \<not> ?P d" "?P c" "filter ?P ds = []"
      by auto
    then have "chain = cs @ c # ds" "st = cStorage (cwConfig c)" "storage_specified st"
      "\<forall>d \<in> set cs \<union> set ds. \<not> ?P d"
      using st c by (auto simp: filter_empty_conv)
    then show ?thesis by blast
  qed
qed

end
