(* ===== verification/Uuid.thy ===== *)
theory Uuid
  imports GoStrings
begin

text \<open>
  \<open>internal/randomization/createuuid.go\<close>: image UUIDs and their text form. The source of random bytes
  (\<open>crypto/rand\<close>) is an argument.
\<close>

type_synonym uuid_bytes = "8 word list"

definition hex_digit :: "nat \<Rightarrow> char" where
  "hex_digit n = (if n < 10 then char_of (48 + n) else char_of (87 + n))"

text \<open>\<open>encoding/hex\<close>.\<close>

definition hex_byte :: "8 word \<Rightarrow> string" where
  "hex_byte b = [hex_digit (unat b div 16), hex_digit (unat b mod 16)]"

definition hex_encode :: "8 word list \<Rightarrow> string" where
  "hex_encode bs = concat (map hex_byte bs)"

definition from_hex :: "char \<Rightarrow> nat option" where
  "from_hex c =
     (let n = of_char c :: nat in
      if 48 \<le> n \<and> n \<le> 57 then Some (n - 48)
      else if 97 \<le> n \<and> n \<le> 102 then Some (n - 87)
      else if 65 \<le> n \<and> n \<le> 70 then Some (n - 55)
      else None)"

fun hex_decode :: "string \<Rightarrow> 8 word list option" where
  "hex_decode [] = Some []"
| "hex_decode [c] = None"
| "hex_decode (a # b # s) =
     (case (from_hex a, from_hex b) of
        (Some x, Some y) \<Rightarrow> map_option ((#) (of_nat (16 * x + y))) (hex_decode s)
      | _ \<Rightarrow> None)"

text \<open>\<open>fmt.Sprintf("%08x-%04x-%04x-%04x-%012x", ...)\<close> of byte slices.\<close>

definition convertUuidToString :: "uuid_bytes \<Rightarrow> string" where
  "convertUuidToString uuid =
     join ''-'' [hex_encode (substr 0 4 uuid), hex_encode (substr 4 6 uuid), hex_encode (substr 6 8 uuid),
                 hex_encode (substr 8 10 uuid), hex_encode (substr 10 16 uuid)]"

definition CreateUuid :: "uuid_bytes option \<Rightarrow> (uuid_bytes \<times> string) option" where
  "CreateUuid randRead = map_option (\<lambda>uuid. (uuid, convertUuidToString uuid)) randRead"

datatype uuid_error = UuidParts nat | UuidHex | UuidLength nat

definition ParseUuidString :: "string \<Rightarrow> uuid_error + uuid_bytes" where
  "ParseUuidString s =
     (let parts = Split s CHR ''-'' in
      if length parts \<noteq> 5 then Inl (UuidParts (length parts))
      else (case hex_decode (concat parts) of
              None \<Rightarrow> Inl UuidHex
            | Some bytes \<Rightarrow> if length bytes \<noteq> 16 then Inl (UuidLength (length bytes)) else Inr bytes))"

section \<open>Round trip\<close>

lemma of_char_hex_digit: "n < 16 \<Longrightarrow> of_char (hex_digit n) = (if n < 10 then 48 + n else 87 + n)"
  by (simp add: hex_digit_def)

lemma from_hex_digit [simp]: "n < 16 \<Longrightarrow> from_hex (hex_digit n) = Some n"
  by (simp add: from_hex_def of_char_hex_digit Let_def)

lemma dash_code: "of_char (CHR ''-'') = (45 :: nat)"
  by simp

lemma hex_digit_dash: "n < 16 \<Longrightarrow> CHR ''-'' \<noteq> hex_digit n"
proof
  assume "n < 16" "CHR ''-'' = hex_digit n"
  then have "(if n < 10 then 48 + n else 87 + n) = (45 :: nat)"
    using of_char_hex_digit [of n] by (metis (full_types) dash_code)
  then show False by (simp split: if_splits)
qed

lemma unat_byte: "unat (b :: 8 word) div 16 < 16" "unat (b :: 8 word) mod 16 < 16"
proof -
  have "unat b < 256" by (rule order_less_le_trans [OF unsigned_less]) simp
  then show "unat b div 16 < 16" by (simp add: less_mult_imp_div_less)
qed simp

lemma hex_decode_byte [simp]: "hex_decode (hex_byte b @ s) = map_option ((#) b) (hex_decode s)"
  using unat_byte [of b] by (simp add: hex_byte_def del: of_nat_add of_nat_mult)

lemma hex_decode_encode: "hex_decode (hex_encode bs) = Some bs"
  by (induction bs) (simp_all add: hex_encode_def)

lemma hex_encode_dash: "CHR ''-'' \<notin> set (hex_encode bs)"
  by (auto simp: hex_encode_def hex_byte_def hex_digit_dash unat_byte)

lemma substr_cover:
  assumes "length xs = 16"
  shows "substr 0 4 xs @ substr 4 6 xs @ substr 6 8 xs @ substr 8 10 xs @ substr 10 16 xs = xs"
  using assms by (simp add: substr_append) (simp add: substr_def)

lemma uuid_roundtrip:
  assumes "length uuid = 16"
  shows "ParseUuidString (convertUuidToString uuid) = Inr uuid"
proof -
  have "Split (convertUuidToString uuid) CHR ''-'' =
      [hex_encode (substr 0 4 uuid), hex_encode (substr 4 6 uuid), hex_encode (substr 6 8 uuid),
       hex_encode (substr 8 10 uuid), hex_encode (substr 10 16 uuid)]"
    unfolding convertUuidToString_def by (rule Split_join) (auto simp: hex_encode_dash)
  moreover have "hex_encode (substr 0 4 uuid) @ hex_encode (substr 4 6 uuid) @ hex_encode (substr 6 8 uuid)
      @ hex_encode (substr 8 10 uuid) @ hex_encode (substr 10 16 uuid) = hex_encode uuid"
    using arg_cong [OF substr_cover [OF assms], of hex_encode] by (simp add: hex_encode_def)
  ultimately show ?thesis using assms by (simp add: ParseUuidString_def Let_def hex_decode_encode)
qed

end
