(* ===== verification/ConfigValidation.thy ===== *)
theory ConfigValidation
  imports ConfigResolve Uuid
begin

text \<open>
  \<open>pkg/imagecustomizerlib/configvalidation.go\<close> and the option checks it starts with: \<open>ValidateConfig\<close> builds
  the chain of a configuration, checks it against the files it names, and resolves it into one
  configuration. Also \<open>imagecustomizeroptions.go\<close>, \<open>createimagevalidation.go\<close>, \<open>resolvedconfig.go\<close>,
  \<open>collectPackagesList\<close> of \<open>customizepackages.go\<close>, the parsers of \<open>downloadimageazurelinux.go\<close> and the check of RPM
  sources of \<open>rpmsourcesmounts.go\<close>.

  What comes from outside is the record \<open>env\<close>: the file system, the files that hold configurations and
  package lists, the OCI registry, the working directory, the source of random bytes and the functions of the
  bundled libraries. A nil dereference is the error \<open>NilDereference\<close>.
\<close>

section \<open>The environment and the errors\<close>

record ('d) env =
  env_fs :: file_system
  env_load :: "unit loader"
  env_package_list :: "string \<Rightarrow> unit + string list"
  env_openOci :: "OciImage \<Rightarrow> bool \<Rightarrow> string \<Rightarrow> unit + 'd"
  env_Abs :: "string \<Rightarrow> unit + string"
  env_MkdirAll :: "string \<Rightarrow> bool"
  env_randRead :: "uuid_bytes option"
  env_lib :: library
  env_isProd :: bool

datatype (plugins only: code size) validate_error =
    NilDereference
  | InvalidOutputFormat enum_error | InvalidPackageSnapshotTime string | InvalidInputImageString string
  | MultipleInputImageOptions | InvalidCosiLevel int | InvalidOptionFeature nat enum_error
  | PackageSnapshotPreviewRequired | InputImageOciPreviewRequired | ToolsDirPreviewRequired
  | ConfigInvalid config_error | ChainError "unit chain_error" | StorageError resolve_error
  | UuidError | BuildDirError string | RpmSourceFileTypeDetection string stat | RpmSourceTypeUnknown string
  | InvalidInputImageFileArg string stat | InputImageFileNotFile string | InvalidInputImageFileConfig string stat
  | InputImageOciNotFound string | InvalidInputImageAzureLinux AzureLinuxImage | InputImageAzureLinuxNotFound AzureLinuxImage
  | InputImageFileRequired
  | AdditionalFilesErrors "validate_error list" | InvalidAdditionalFilesSource string stat | AdditionalFilesSourceNotFile string
  | AdditionalDirsErrors "validate_error list" | AdditionalDirsSourceNotFound string | AdditionalDirsSourceNotReadable string
  | AdditionalDirsSourceIsFile string
  | InvalidPackageListFile string | NoRpmSourcesSpecified
  | InvalidConfigUser string validate_error | InvalidSSHPublicKeyFile string stat | SSHPublicKeyNotFile string
  | InvalidPasswordFile string stat | PasswordFileNotFile string
  | InvalidPostCustomizationScript nat validate_error | InvalidFinalizeCustomizationScript nat validate_error
  | ScriptNotUnderConfigDir string string | ScriptFileNotReadable string stat | ScriptFileNotFile string
  | OutputImageFormatRequired | OutputImageFileIsDirectory string | OutputImageFileRequired
  | InvalidOutputSelinuxPolicyPath string stat | OutputSelinuxPolicyPathIsFile string
  | RemovePackageManagerBadOutputFormat string
  | CannotGenerateOutputFormat string string | CannotCustomizePartitionsOnIso
  | CreateUnsupportedField string | CreateNotEnabled | CreateDisksRequired | CreateRpmSourcesRequired
  | CreateToolsDirRequired | CreateToolsDirMissing string | CreateToolsDirStat string | CreateToolsDirNotDir string
  | CreateNoPackages

section \<open>Options\<close>

record ImageCustomizerOptions =
  optBuildDir :: string
  optInputImageFile :: string
  optInputImage :: string
  optRpmsSources :: "string list"
  optOutputImageFile :: string
  optOutputImageFormat :: string
  optOutputSelinuxPolicyPath :: string
  optUseBaseImageRpmRepos :: bool
  optPackageSnapshotTime :: string
  optImageCacheDir :: string
  optCosiCompressionLevel :: "int option"
  optToolsDir :: string
  optSetFilesContext :: string
  optPreviewFeatures :: "string list"

definition emptyInputImage :: InputImage where
  "emptyInputImage = \<lparr>inPath = '''', inOci = None, inAzureLinux = None\<rparr>"

definition parseInputImageAzureLinuxValue :: "string \<Rightarrow> InputImage option" where
  "parseInputImageAzureLinuxValue value =
     (case Cut value CHR '':'' of (variant, version, splitOk) \<Rightarrow>
        if \<not> splitOk then None
        else let az = \<lparr>azVersion = version, azVariant = variant\<rparr> in
          if AzureLinuxImage_IsValid az \<noteq> None then None else Some (emptyInputImage\<lparr>inAzureLinux := Some az\<rparr>))"

definition parseInputImageHelper :: "(string \<Rightarrow> bool) \<Rightarrow> string \<Rightarrow> InputImage option" where
  "parseInputImageHelper parseReference inputImage =
     (case Cut inputImage CHR '':'' of (resourceType, value, found) \<Rightarrow>
        if \<not> found then None
        else if resourceType = ''oci'' then
          (let oci = \<lparr>ociUri = value, ociPlatform = None\<rparr> in
           if OciImage_IsValid parseReference oci \<noteq> None then None else Some (emptyInputImage\<lparr>inOci := Some oci\<rparr>))
        else if resourceType = ''azurelinux'' then parseInputImageAzureLinuxValue value
        else None)"

definition parseInputImage :: "(string \<Rightarrow> bool) \<Rightarrow> string \<Rightarrow> validate_error + InputImage" where
  "parseInputImage parseReference s =
     (case parseInputImageHelper parseReference s of None \<Rightarrow> Inl (InvalidInputImageString s) | Some i \<Rightarrow> Inr i)"

definition err_of :: "'e + 'a \<Rightarrow> 'e option" where
  "err_of r = (case r of Inl e \<Rightarrow> Some e | Inr _ \<Rightarrow> None)"

definition Options_IsValid :: "library \<Rightarrow> ImageCustomizerOptions \<Rightarrow> validate_error option" where
  "Options_IsValid lib opts = first_err
     [map_option InvalidOutputFormat (ImageFormatType_IsValid (optOutputImageFormat opts)),
      map_option InvalidPackageSnapshotTime (PackageSnapshotTime_IsValid (lib_time_Parse lib) (optPackageSnapshotTime opts)),
      (if optInputImage opts \<noteq> [] then err_of (parseInputImage (lib_parseReference lib) (optInputImage opts)) else None),
      guard (optInputImageFile opts \<noteq> [] \<and> optInputImage opts \<noteq> []) MultipleInputImageOptions,
      map_option InvalidCosiLevel (ValidateCosiCompressionLevel (optCosiCompressionLevel opts)),
      validate_items InvalidOptionFeature PreviewFeature_IsValid (optPreviewFeatures opts)]"

definition verifyPreviewFeatures :: "ImageCustomizerOptions \<Rightarrow> string list \<Rightarrow> validate_error option" where
  "verifyPreviewFeatures opts previewFeatures = first_err
     [guard (optPackageSnapshotTime opts \<noteq> [] \<and> \<not> ContainsValue previewFeatures PreviewFeaturePackageSnapshotTime)
        PackageSnapshotPreviewRequired,
      guard (optInputImage opts \<noteq> [] \<and> \<not> ContainsValue previewFeatures PreviewFeatureInputImageOci)
        InputImageOciPreviewRequired,
      guard (optToolsDir opts \<noteq> [] \<and> \<not> ContainsValue previewFeatures ''tools-dir'') ToolsDirPreviewRequired]"

definition getRpmSourceFileType :: "file_system \<Rightarrow> string \<Rightarrow> validate_error + string" where
  "getRpmSourceFileType fs rpmSourcePath =
     (case file_IsDir fs rpmSourcePath of
        Inl e \<Rightarrow> Inl (RpmSourceFileTypeDetection rpmSourcePath e)
      | Inr isDir \<Rightarrow>
          if isDir then Inr ''dir''
          else
            let filename = path_Base rpmSourcePath;
                ext = takeWhile (\<lambda>c. c \<noteq> CHR ''.'') (rev filename);
                fileExt = (if length ext < length filename then CHR ''.'' # rev ext else [])
            in if fileExt = ''.repo'' then Inr ''repo'' else Inl (RpmSourceTypeUnknown rpmSourcePath))"

definition ValidateRpmSources :: "file_system \<Rightarrow> string list \<Rightarrow> validate_error option" where
  "ValidateRpmSources fs rpmsSources = first_err (map (\<lambda>s. err_of (getRpmSourceFileType fs s)) rpmsSources)"

section \<open>Input\<close>

definition generateAzureLinuxOciUri :: "AzureLinuxImage \<Rightarrow> OciImage option" where
  "generateAzureLinuxOciUri i =
     (case ParseVersion i of
        None \<Rightarrow> None
      | Some (majorMinor, date) \<Rightarrow>
          let tag = (if date \<noteq> [] then majorMinor @ ''.'' @ date else ''latest'') in
          Some \<lparr>ociUri = ''mcr.microsoft.com/azurelinux/'' @ majorMinor @ ''/image/'' @ azVariant i @ '':'' @ tag, ociPlatform = None\<rparr>)"

text \<open>What one configuration of the chain says of the input: nothing, or the result.\<close>

definition inputOfConfig ::
  "'d env \<Rightarrow> string \<Rightarrow> bool \<Rightarrow> bool \<Rightarrow> ConfigWithBasePath \<Rightarrow> (validate_error + (InputImage \<times> 'd option)) option" where
  "inputOfConfig env buildDir validateFiles validateOci c =
     (let ii = cInput (cwConfig c) in
      if inPath ii \<noteq> [] then
        (let p = GetAbsPathWithBase (cwBasePath c) (inPath ii);
             ok = Inr (emptyInputImage\<lparr>inPath := p\<rparr>, None)
         in Some (if validateFiles then
                    (case file_IsFile (env_fs env) p of
                       Inl e \<Rightarrow> Inl (InvalidInputImageFileConfig (inPath ii) e)
                     | Inr yes \<Rightarrow> if \<not> yes then Inl (InputImageFileNotFile (inPath ii)) else ok)
                  else ok))
      else
        (case inOci ii of
           Some oci \<Rightarrow>
             let ok = (\<lambda>d. Inr (emptyInputImage\<lparr>inOci := Some oci\<rparr>, d)) in
             Some (if validateOci then
                     (case env_openOci env oci False [] of
                        Inl e \<Rightarrow> Inl (InputImageOciNotFound (ociUri oci))
                      | Inr d \<Rightarrow> ok (Some d))
                   else ok None)
         | None \<Rightarrow>
             (case inAzureLinux ii of
                Some az \<Rightarrow>
                  let ok = (\<lambda>d. Inr (emptyInputImage\<lparr>inAzureLinux := Some az\<rparr>, d)) in
                  Some (if validateOci then
                          (case generateAzureLinuxOciUri az of
                             None \<Rightarrow> Inl (InvalidInputImageAzureLinux az)
                           | Some oci \<Rightarrow>
                               (case env_openOci env oci True buildDir of
                                  Inl e \<Rightarrow> Inl (InputImageAzureLinuxNotFound az)
                                | Inr d \<Rightarrow> ok (Some d)))
                        else ok None)
              | None \<Rightarrow> None)))"

definition validateInput ::
  "'d env \<Rightarrow> string \<Rightarrow> config_chain \<Rightarrow> string \<Rightarrow> string \<Rightarrow> bool \<Rightarrow> bool \<Rightarrow> bool
     \<Rightarrow> validate_error + (InputImage \<times> 'd option)" where
  "validateInput env buildDir chain inputImageFile inputImage validateFiles validateOci allowPartialConfig =
     (if inputImageFile \<noteq> [] then
        (let ok = Inr (emptyInputImage\<lparr>inPath := inputImageFile\<rparr>, None) in
         if validateFiles then
           (case file_IsFile (env_fs env) inputImageFile of
              Inl e \<Rightarrow> Inl (InvalidInputImageFileArg inputImageFile e)
            | Inr yes \<Rightarrow> if \<not> yes then Inl (InputImageFileNotFile inputImageFile) else ok)
         else ok)
      else if inputImage \<noteq> [] then
        (case parseInputImage (lib_parseReference (env_lib env)) inputImage of Inl e \<Rightarrow> Inl e | Inr i \<Rightarrow> Inr (i, None))
      else
        (case backward (inputOfConfig env buildDir validateFiles validateOci) chain of
           Some r \<Rightarrow> r
         | None \<Rightarrow> if allowPartialConfig then Inr (emptyInputImage, None) else Inl InputImageFileRequired))"

section \<open>Files named by the configuration\<close>

definition join_errors :: "(validate_error list \<Rightarrow> validate_error) \<Rightarrow> validate_error option list \<Rightarrow> validate_error option" where
  "join_errors wrap results =
     (let errs = List.map_filter id results in if errs = [] then None else Some (wrap errs))"

lemma join_errors_None [simp]: "join_errors wrap rs = None \<longleftrightarrow> (\<forall>r \<in> set rs. r = None)"
  by (auto simp: join_errors_def Let_def List.map_filter_def filter_empty_conv)

definition validateAdditionalFile :: "file_system \<Rightarrow> string \<Rightarrow> AdditionalFile \<Rightarrow> validate_error option" where
  "validateAdditionalFile fs basePath f =
     (if afSource f = [] then None
      else (case file_IsFile fs (GetAbsPathWithBase basePath (afSource f)) of
              Inl e \<Rightarrow> Some (InvalidAdditionalFilesSource (afSource f) e)
            | Inr yes \<Rightarrow> guard (\<not> yes) (AdditionalFilesSourceNotFile (afSource f))))"

definition validateAdditionalFiles :: "file_system \<Rightarrow> string \<Rightarrow> AdditionalFile list \<Rightarrow> bool \<Rightarrow> validate_error option" where
  "validateAdditionalFiles fs basePath files validateFiles =
     (if \<not> validateFiles then None else join_errors AdditionalFilesErrors (map (validateAdditionalFile fs basePath) files))"

definition validateAdditionalDir :: "file_system \<Rightarrow> string \<Rightarrow> DirConfig \<Rightarrow> validate_error option" where
  "validateAdditionalDir fs basePath d =
     (if dcSource d = [] then None
      else (case file_IsFile fs (GetAbsPathWithBase basePath (dcSource d)) of
              Inl e \<Rightarrow> if e = StatNotExist then Some (AdditionalDirsSourceNotFound (dcSource d))
                       else Some (AdditionalDirsSourceNotReadable (dcSource d))
            | Inr isFile \<Rightarrow> guard isFile (AdditionalDirsSourceIsFile (dcSource d))))"

definition validateAdditionalDirs :: "file_system \<Rightarrow> string \<Rightarrow> DirConfig list \<Rightarrow> bool \<Rightarrow> validate_error option" where
  "validateAdditionalDirs fs basePath dirs validateFiles =
     (if \<not> validateFiles then None else join_errors AdditionalDirsErrors (map (validateAdditionalDir fs basePath) dirs))"

definition validateIsoConfig :: "file_system \<Rightarrow> string \<Rightarrow> Iso option \<Rightarrow> bool \<Rightarrow> validate_error option" where
  "validateIsoConfig fs basePath config validateFiles =
     check_opt (\<lambda>i. validateAdditionalFiles fs basePath (isoAdditionalFiles i) validateFiles) config"

definition validateIsoConfigChain :: "file_system \<Rightarrow> config_chain \<Rightarrow> bool \<Rightarrow> validate_error option" where
  "validateIsoConfigChain fs chain validateFiles =
     first_err (map (\<lambda>c. validateIsoConfig fs (cwBasePath c) (cIso (cwConfig c)) validateFiles) chain)"

definition validatePxeConfig :: "file_system \<Rightarrow> string \<Rightarrow> Pxe option \<Rightarrow> bool \<Rightarrow> validate_error option" where
  "validatePxeConfig fs basePath config validateFiles =
     check_opt (\<lambda>p. validateAdditionalFiles fs basePath (pxeAdditionalFiles p) validateFiles) config"

definition validatePxeConfigChain :: "file_system \<Rightarrow> config_chain \<Rightarrow> bool \<Rightarrow> validate_error option" where
  "validatePxeConfigChain fs chain validateFiles =
     first_err (map (\<lambda>c. validatePxeConfig fs (cwBasePath c) (cPxe (cwConfig c)) validateFiles) chain)"

definition validateUser :: "file_system \<Rightarrow> string \<Rightarrow> User \<Rightarrow> bool \<Rightarrow> validate_error option" where
  "validateUser fs basePath u validateFiles =
     (if \<not> validateFiles then None
      else first_err
        [first_err (map (\<lambda>p. case file_IsFile fs (GetAbsPathWithBase basePath p) of
                            Inl e \<Rightarrow> Some (InvalidSSHPublicKeyFile p e)
                          | Inr isFile \<Rightarrow> guard (\<not> isFile) (SSHPublicKeyNotFile p)) (SSHPublicKeyPaths u)),
         check_opt (\<lambda>pw. if pwType pw = ''plain-text-file'' \<or> pwType pw = ''hashed-file''
            then (case file_IsFile fs (GetAbsPathWithBase basePath (pwValue pw)) of
                    Inl e \<Rightarrow> Some (InvalidPasswordFile (pwValue pw) e)
                  | Inr isFile \<Rightarrow> guard (\<not> isFile) (PasswordFileNotFile (pwValue pw)))
            else None) (usPassword u)])"

definition validateUsers :: "file_system \<Rightarrow> string \<Rightarrow> User list \<Rightarrow> bool \<Rightarrow> validate_error option" where
  "validateUsers fs basePath users validateFiles =
     first_err (map (\<lambda>u. map_option (InvalidConfigUser (usName u)) (validateUser fs basePath u validateFiles)) users)"

definition validateScript :: "file_system \<Rightarrow> string \<Rightarrow> Script \<Rightarrow> bool \<Rightarrow> validate_error option" where
  "validateScript fs basePath s validateFiles =
     (if scPath s = [] then None
      else if \<not> path_IsLocal (scPath s) then Some (ScriptNotUnderConfigDir (scPath s) basePath)
      else if validateFiles then
        (case file_IsFile fs (path_Join [basePath, scPath s]) of
           Inl e \<Rightarrow> Some (ScriptFileNotReadable (scPath s) e)
         | Inr isFile \<Rightarrow> guard (\<not> isFile) (ScriptFileNotFile (scPath s)))
      else None)"

definition validateScripts :: "file_system \<Rightarrow> string \<Rightarrow> Scripts \<Rightarrow> bool \<Rightarrow> validate_error option" where
  "validateScripts fs basePath s validateFiles = first_err
     [validate_items InvalidPostCustomizationScript (\<lambda>x. validateScript fs basePath x validateFiles) (PostCustomization s),
      validate_items InvalidFinalizeCustomizationScript (\<lambda>x. validateScript fs basePath x validateFiles) (FinalizeCustomization s)]"

definition validateScriptsConfigChain :: "file_system \<Rightarrow> config_chain \<Rightarrow> bool \<Rightarrow> validate_error option" where
  "validateScriptsConfigChain fs chain validateFiles =
     first_err (map (\<lambda>c. validateScripts fs (cwBasePath c) (cScripts (cwConfig c)) validateFiles) chain)"

section \<open>The os section\<close>

fun readPackageLists :: "(string \<Rightarrow> unit + string list) \<Rightarrow> string \<Rightarrow> string list \<Rightarrow> validate_error + string list" where
  "readPackageLists readList basePath [] = Inr []"
| "readPackageLists readList basePath (l # ls) =
     (let p = GetAbsPathWithBase basePath l in
      (case readList p of
         Inl e \<Rightarrow> Inl (InvalidPackageListFile p)
       | Inr packages \<Rightarrow>
           (case readPackageLists readList basePath ls of Inl e \<Rightarrow> Inl e | Inr listed \<Rightarrow> Inr (packages @ listed))))"

definition collectPackagesList ::
  "(string \<Rightarrow> unit + string list) \<Rightarrow> string \<Rightarrow> string list \<Rightarrow> string list \<Rightarrow> validate_error + string list" where
  "collectPackagesList readList basePath packageLists packages =
     (case readPackageLists readList basePath packageLists of Inl e \<Rightarrow> Inl e | Inr listed \<Rightarrow> Inr (listed @ packages))"

definition validatePackageLists ::
  "(string \<Rightarrow> unit + string list) \<Rightarrow> string \<Rightarrow> OS \<Rightarrow> string list \<Rightarrow> bool \<Rightarrow> bool \<Rightarrow> validate_error + OS" where
  "validatePackageLists readList basePath os rpmsSources useBaseImageRpmRepos allowPartialConfig =
     (let p = osPackages os in
      (case collectPackagesList readList basePath (RemoveLists p) (Remove p) of
         Inl e \<Rightarrow> Inl e
       | Inr allRemove \<Rightarrow>
      (case collectPackagesList readList basePath (InstallLists p) (Install p) of
         Inl e \<Rightarrow> Inl e
       | Inr allInstall \<Rightarrow>
      (case collectPackagesList readList basePath (UpdateLists p) (Update p) of
         Inl e \<Rightarrow> Inl e
       | Inr allUpdate \<Rightarrow>
           let needRpmsSources = length allInstall > 0 \<or> length allUpdate > 0 \<or> UpdateExistingPackages p;
               hasRpmSources = length rpmsSources > 0 \<or> useBaseImageRpmRepos
           in if needRpmsSources \<and> \<not> hasRpmSources \<and> \<not> allowPartialConfig then Inl NoRpmSourcesSpecified
              else Inr (os\<lparr>osPackages := p\<lparr>Remove := allRemove, Install := allInstall, Update := allUpdate,
                                            RemoveLists := [], InstallLists := [], UpdateLists := []\<rparr>\<rparr>)))))"

definition emptyOS :: OS where
  "emptyOS = \<lparr>Hostname = [],
     osPackages = \<lparr>UpdateExistingPackages = False, InstallLists = [], Install = [], RemoveLists = [], Remove = [],
       UpdateLists = [], Update = [], SnapshotTime = [], RemovePackageManager = None\<rparr>,
     SELinux = [], osExtraCommandLine = [], osAdditionalFiles = [], AdditionalDirs = [], Groups = [], Users = [],
     osServices = \<lparr>svEnable = [], svDisable = []\<rparr>, Modules = [], Overlays = None, BootLoaderResetType = [],
     Uki = None, osImageHistory = []\<rparr>"

text \<open>The configuration is updated in place; the result is its \<open>os\<close> section afterwards.\<close>

definition validateOsConfig ::
  "'d env \<Rightarrow> string \<Rightarrow> OS \<Rightarrow> string list \<Rightarrow> bool \<Rightarrow> bool \<Rightarrow> bool \<Rightarrow> validate_error + OS" where
  "validateOsConfig env basePath os rpmsSources useBaseImageRpmRepos validateFiles allowPartialConfig =
     (case validatePackageLists (env_package_list env) basePath os rpmsSources useBaseImageRpmRepos allowPartialConfig of
        Inl e \<Rightarrow> Inl e
      | Inr os' \<Rightarrow>
          (case first_err
             [validateAdditionalFiles (env_fs env) basePath (osAdditionalFiles os') validateFiles,
              validateAdditionalDirs (env_fs env) basePath (AdditionalDirs os') validateFiles,
              validateUsers (env_fs env) basePath (Users os') validateFiles] of
             Some e \<Rightarrow> Inl e
           | None \<Rightarrow> Inr os'))"

fun validateOsConfigChain ::
  "'d env \<Rightarrow> config_chain \<Rightarrow> string list \<Rightarrow> bool \<Rightarrow> bool \<Rightarrow> bool \<Rightarrow> validate_error + config_chain" where
  "validateOsConfigChain env [] rpmsSources useBaseImageRpmRepos validateFiles allowPartialConfig = Inr []"
| "validateOsConfigChain env (c # cs) rpmsSources useBaseImageRpmRepos validateFiles allowPartialConfig =
     (let os = (case cOS (cwConfig c) of None \<Rightarrow> emptyOS | Some os \<Rightarrow> os) in
      (case validateOsConfig env (cwBasePath c) os rpmsSources useBaseImageRpmRepos validateFiles allowPartialConfig of
         Inl e \<Rightarrow> Inl e
       | Inr os' \<Rightarrow>
           (case validateOsConfigChain env cs rpmsSources useBaseImageRpmRepos validateFiles allowPartialConfig of
              Inl e \<Rightarrow> Inl e
            | Inr cs' \<Rightarrow> Inr (c\<lparr>cwConfig := (cwConfig c)\<lparr>cOS := Some os'\<rparr>\<rparr> # cs'))))"

section \<open>Output\<close>

definition validateOutputImageFormat :: "config_chain \<Rightarrow> string \<Rightarrow> bool \<Rightarrow> validate_error + string" where
  "validateOutputImageFormat chain cliFormat allowPartialConfig =
     (if cliFormat \<noteq> [] then Inr cliFormat
      else (case backward (\<lambda>c. let f = outFormat (outImage (cOutput (cwConfig c))) in when_some (f \<noteq> []) f) chain of
              Some f \<Rightarrow> Inr f
            | None \<Rightarrow> if allowPartialConfig then Inr [] else Inl OutputImageFormatRequired))"

definition checkOutputImageFile :: "file_system \<Rightarrow> bool \<Rightarrow> string \<Rightarrow> string \<Rightarrow> validate_error option" where
  "checkOutputImageFile fs check p shown =
     (if check then
        (case file_DirExists fs p of
           None \<Rightarrow> Some NilDereference
         | Some isDir \<Rightarrow> guard isDir (OutputImageFileIsDirectory shown))
      else None)"

definition validateOutputImageFile ::
  "file_system \<Rightarrow> config_chain \<Rightarrow> string \<Rightarrow> string \<Rightarrow> bool \<Rightarrow> bool \<Rightarrow> validate_error + string" where
  "validateOutputImageFile fs chain cliFile fmt validateFiles allowPartialConfig =
     (let check = (validateFiles \<and> fmt \<noteq> ''pxe-dir'') in
      if cliFile \<noteq> [] then (case checkOutputImageFile fs check cliFile cliFile of Some e \<Rightarrow> Inl e | None \<Rightarrow> Inr cliFile)
      else
        (case backward (\<lambda>c. let p = outPath (outImage (cOutput (cwConfig c))) in
                           when_some (p \<noteq> []) (p, GetAbsPathWithBase (cwBasePath c) p)) chain of
           Some (shown, p) \<Rightarrow> (case checkOutputImageFile fs check p shown of Some e \<Rightarrow> Inl e | None \<Rightarrow> Inr p)
         | None \<Rightarrow> if allowPartialConfig then Inr [] else Inl OutputImageFileRequired))"

definition checkSelinuxPolicyPath :: "file_system \<Rightarrow> bool \<Rightarrow> string \<Rightarrow> string \<Rightarrow> validate_error option" where
  "checkSelinuxPolicyPath fs validateFiles p shown =
     (if validateFiles then
        (case file_IsFile fs p of
           Inl e \<Rightarrow> if e = StatNotExist then None else Some (InvalidOutputSelinuxPolicyPath shown e)
         | Inr isFile \<Rightarrow> guard isFile (OutputSelinuxPolicyPathIsFile shown))
      else None)"

definition validateOutputSelinuxPolicyPath :: "file_system \<Rightarrow> config_chain \<Rightarrow> string \<Rightarrow> bool \<Rightarrow> validate_error + string" where
  "validateOutputSelinuxPolicyPath fs chain cliPath validateFiles =
     (if cliPath \<noteq> [] then (case checkSelinuxPolicyPath fs validateFiles cliPath cliPath of Some e \<Rightarrow> Inl e | None \<Rightarrow> Inr cliPath)
      else
        (case backward (\<lambda>c. let p = SelinuxPolicyPath (cOutput (cwConfig c)) in
                           when_some (p \<noteq> []) (p, GetAbsPathWithBase (cwBasePath c) p)) chain of
           Some (shown, p) \<Rightarrow> (case checkSelinuxPolicyPath fs validateFiles p shown of Some e \<Rightarrow> Inl e | None \<Rightarrow> Inr p)
         | None \<Rightarrow> Inr []))"

section \<open>The resolved configuration\<close>

record 'd ResolvedConfig =
  rcOptions :: ImageCustomizerOptions
  rcCustomizeOSPartitions :: bool
  rcPreviewFeatures :: "string list"
  rcStorage :: Storage
  rcImageUuid :: uuid_bytes
  rcImageUuidStr :: string
  rcBuildDirAbs :: string
  rcInputImage :: InputImage
  rcInputImageOciDescriptor :: "'d option"
  rcOutputArtifacts :: "Artifacts option"
  rcOutputSelinuxPolicyPath :: string
  rcOutputImageFile :: string
  rcOutputImageFormat :: string
  rcRawImageFile :: string
  rcHostname :: string
  rcSELinux :: SELinuxMode
  rcBootLoader :: string
  rcOsKernelCommandLine :: "string list"
  rcUki :: "string option"
  rcCosiCompressionLevel :: int
  rcCosiCompressionLong :: int
  rcConfigChain :: config_chain
  rcIso :: Iso
  rcPxe :: Pxe
  rcImageHistory :: string
  rcRemovePackageManager :: bool

definition InputFileExt :: "'d ResolvedConfig \<Rightarrow> string" where
  "InputFileExt rc = dropWhile (\<lambda>c. c = CHR ''.'') (path_Ext (inPath (rcInputImage rc)))"

definition InputIsIso :: "'d ResolvedConfig \<Rightarrow> bool" where
  "InputIsIso rc \<longleftrightarrow> InputFileExt rc = ''iso''"

definition OutputIsIso :: "'d ResolvedConfig \<Rightarrow> bool" where
  "OutputIsIso rc \<longleftrightarrow> rcOutputImageFormat rc = ''iso''"

definition OutputIsPxe :: "'d ResolvedConfig \<Rightarrow> bool" where
  "OutputIsPxe rc \<longleftrightarrow> rcOutputImageFormat rc = ''pxe-dir'' \<or> rcOutputImageFormat rc = ''pxe-tar''"

definition HasPackageSnapshotTime :: "'d ResolvedConfig \<Rightarrow> bool" where
  "HasPackageSnapshotTime rc \<longleftrightarrow>
     optPackageSnapshotTime (rcOptions rc) \<noteq> []
     \<or> ContainsFunc (rcConfigChain rc) (\<lambda>c. os_is (cOS (cwConfig c)) (\<lambda>os. SnapshotTime (osPackages os) \<noteq> []))"

definition validateIsoPxeCustomization :: "'d ResolvedConfig \<Rightarrow> validate_error option" where
  "validateIsoPxeCustomization rc =
     (if InputIsIso rc
      then first_err
        [guard (\<not> OutputIsIso rc \<and> \<not> OutputIsPxe rc) (CannotGenerateOutputFormat (rcOutputImageFormat rc) (InputFileExt rc)),
         guard (CustomizePartitions (rcStorage rc)) CannotCustomizePartitionsOnIso]
      else None)"

definition ValidateConfigPostImageDownload :: "'d ResolvedConfig \<Rightarrow> validate_error option" where
  "ValidateConfigPostImageDownload rc = validateIsoPxeCustomization rc"

section \<open>ValidateConfig\<close>

text \<open>A sequence of steps of which the first error ends the function.\<close>

definition and_then :: "'e + 'a \<Rightarrow> ('a \<Rightarrow> 'e + 'b) \<Rightarrow> 'e + 'b" where
  "and_then r f = (case r of Inl e \<Rightarrow> Inl e | Inr x \<Rightarrow> f x)"

definition check :: "'e option \<Rightarrow> 'e + unit" where
  "check e = (case e of None \<Rightarrow> Inr () | Some err \<Rightarrow> Inl err)"

lemma and_then_Inr [simp]: "and_then r f = Inr y \<longleftrightarrow> (\<exists>x. r = Inr x \<and> f x = Inr y)"
  by (cases r) (auto simp: and_then_def)

lemma check_Inr [simp]: "check e = Inr u \<longleftrightarrow> e = None"
  by (cases e) (auto simp: check_def)

text \<open>Whether any configuration of the chain changes the OS partitions.\<close>

definition customizesOS :: "config_chain \<Rightarrow> Storage \<Rightarrow> bool" where
  "customizesOS chain st \<longleftrightarrow> CustomizePartitions st \<or>
     ContainsFunc chain (\<lambda>c. cOS (cwConfig c) \<noteq> None
       \<or> length (PostCustomization (cScripts (cwConfig c))) > 0 \<or> length (FinalizeCustomization (cScripts (cwConfig c))) > 0)"

definition resolveBuildDir :: "'d env \<Rightarrow> string \<Rightarrow> validate_error + string" where
  "resolveBuildDir env buildDir =
     (if buildDir = [] then Inr []
      else (case env_Abs env buildDir of
              Inl e \<Rightarrow> Inl (BuildDirError buildDir)
            | Inr p \<Rightarrow> if env_MkdirAll env p then Inr p else Inl (BuildDirError p)))"

definition bad_for_removed_package_manager :: "string list" where
  "bad_for_removed_package_manager = [''iso'', ''pxe-dir'', ''pxe-tar'', ''cosi'', ''baremetal-image'']"

definition resolveChain ::
  "'d env \<Rightarrow> bool \<Rightarrow> bool \<Rightarrow> string list \<Rightarrow> ImageCustomizerOptions \<Rightarrow> config_chain \<Rightarrow> validate_error + 'd ResolvedConfig" where
  "resolveChain env newImage allowPartialConfig validateResources opts chain =
     (let validateFiles = ValidateFiles validateResources; validateOci = ValidateOci validateResources; fs = env_fs env;
          previewFeatures = optPreviewFeatures opts @ concat (map (\<lambda>c. PreviewFeatures (cwConfig c)) chain) in
      and_then (check (verifyPreviewFeatures opts previewFeatures)) (\<lambda>_.
      and_then (map_sum StorageError id (resolveStorage chain)) (\<lambda>st.
      and_then (case CreateUuid (env_randRead env) of None \<Rightarrow> Inl UuidError | Some u \<Rightarrow> Inr u) (\<lambda>(uuid, uuidStr).
      and_then (resolveBuildDir env (optBuildDir opts)) (\<lambda>buildDirAbs.
      and_then (check (ValidateRpmSources fs (optRpmsSources opts))) (\<lambda>_.
      and_then (if newImage then Inr (emptyInputImage, None)
                else validateInput env buildDirAbs chain (optInputImageFile opts) (optInputImage opts)
                       validateFiles validateOci allowPartialConfig) (\<lambda>(inputImage, descriptor).
      and_then (check (validateIsoConfigChain fs chain validateFiles)) (\<lambda>_.
      and_then (check (validatePxeConfigChain fs chain validateFiles)) (\<lambda>_.
      and_then (validateOsConfigChain env chain (optRpmsSources opts) (optUseBaseImageRpmRepos opts)
                  validateFiles allowPartialConfig) (\<lambda>chain'.
      and_then (check (validateScriptsConfigChain fs chain' validateFiles)) (\<lambda>_.
      and_then (validateOutputImageFormat chain' (optOutputImageFormat opts) allowPartialConfig) (\<lambda>fmt.
      and_then (validateOutputImageFile fs chain' (optOutputImageFile opts) fmt validateFiles allowPartialConfig) (\<lambda>outFile.
      and_then (validateOutputSelinuxPolicyPath fs chain' (optOutputSelinuxPolicyPath opts) validateFiles) (\<lambda>policyPath.
      and_then (check (guard (resolveRemovePackageManager chain' \<and> fmt \<in> set bad_for_removed_package_manager)
                         (RemovePackageManagerBadOutputFormat fmt))) (\<lambda>_.
      Inr \<lparr>rcOptions = opts,
           rcCustomizeOSPartitions = customizesOS chain st,
           rcPreviewFeatures = previewFeatures,
           rcStorage = st,
           rcImageUuid = uuid,
           rcImageUuidStr = uuidStr,
           rcBuildDirAbs = buildDirAbs,
           rcInputImage = inputImage,
           rcInputImageOciDescriptor = descriptor,
           rcOutputArtifacts = resolveOutputArtifacts chain',
           rcOutputSelinuxPolicyPath = policyPath,
           rcOutputImageFile = outFile,
           rcOutputImageFormat = fmt,
           rcRawImageFile = path_Join [buildDirAbs, ''image.raw''],
           rcHostname = resolveHostname chain',
           rcSELinux = resolveSeLinux chain',
           rcBootLoader = resolveBootLoaderResetType chain',
           rcOsKernelCommandLine = resolveOsKernelCommandLine chain',
           rcUki = resolveUki chain',
           rcCosiCompressionLevel = resolveCosiCompressionLevel chain' (optCosiCompressionLevel opts) fmt,
           rcCosiCompressionLong = defaultCosiCompressionLong fmt,
           rcConfigChain = chain',
           rcIso = resolveIsoConfig chain,
           rcPxe = resolvePxeConfig chain,
           rcImageHistory = resolveImageHistory chain',
           rcRemovePackageManager = resolveRemovePackageManager chain'\<rparr>)))))))))))))))"

definition ValidateConfig ::
  "'d env \<Rightarrow> string \<Rightarrow> Config \<Rightarrow> bool \<Rightarrow> bool \<Rightarrow> string list \<Rightarrow> ImageCustomizerOptions
     \<Rightarrow> (validate_error + 'd ResolvedConfig) option" where
  "ValidateConfig env baseConfigPath config newImage allowPartialConfig validateResources opts =
     (case Options_IsValid (env_lib env) opts of
        Some e \<Rightarrow> Some (Inl e)
      | None \<Rightarrow>
          (case Config_IsValid (env_lib env) (env_isProd env) config of
             None \<Rightarrow> None
           | Some (Inl e) \<Rightarrow> Some (Inl (ConfigInvalid e))
           | Some (Inr config') \<Rightarrow>
               (case buildConfigChain (env_load env) (Config_IsValid (env_lib env) (env_isProd env)) config' baseConfigPath of
                  None \<Rightarrow> None
                | Some (Inl e) \<Rightarrow> Some (Inl (ChainError e))
                | Some (Inr chain) \<Rightarrow>
                    Some (resolveChain env newImage allowPartialConfig validateResources opts chain))))"

section \<open>The create subcommand\<close>

text \<open>A nil slice and an empty one are both the empty list here; the code compares \<open>storage.Verity\<close> with nil.\<close>

definition validateCreateImageSupportedOsFields :: "OS \<Rightarrow> validate_error option" where
  "validateCreateImageSupportedOsFields os = first_err
     [guard (length (osAdditionalFiles os) > 0) (CreateUnsupportedField ''os.additionalFiles''),
      guard (length (AdditionalDirs os) > 0) (CreateUnsupportedField ''os.additionalDirectories''),
      guard (length (Modules os) > 0) (CreateUnsupportedField ''os.modules''),
      guard (Overlays os \<noteq> None) (CreateUnsupportedField ''os.overlay'')]"

definition validateCreateImageSupportedFields :: "'d ResolvedConfig \<Rightarrow> validate_error option" where
  "validateCreateImageSupportedFields rc = first_err
     ([guard (rcInputImage rc \<noteq> emptyInputImage) (CreateUnsupportedField ''input''),
       guard (sResetPartitionsUuidsType (rcStorage rc) \<noteq> []) (CreateUnsupportedField ''resetPartitionsUuids''),
       guard (sVerity (rcStorage rc) \<noteq> []) (CreateUnsupportedField ''storage.verity''),
       guard (rcUki rc \<noteq> None) (CreateUnsupportedField ''uki''),
       guard (rcSELinux rc \<noteq> []) (CreateUnsupportedField ''selinux'')]
      @ map (\<lambda>c. check_opt validateCreateImageSupportedOsFields (cOS (cwConfig c))) (rcConfigChain rc))"

definition validateToolsDir :: "file_system \<Rightarrow> string \<Rightarrow> validate_error option" where
  "validateToolsDir fs toolsDir =
     (case fs toolsDir of
        StatNotExist \<Rightarrow> Some (CreateToolsDirMissing toolsDir)
      | StatError \<Rightarrow> Some (CreateToolsDirStat toolsDir)
      | StatFile \<Rightarrow> Some (CreateToolsDirNotDir toolsDir)
      | StatDir \<Rightarrow> None)"

definition validateCreateImageMandatoryFields :: "file_system \<Rightarrow> 'd ResolvedConfig \<Rightarrow> validate_error option" where
  "validateCreateImageMandatoryFields fs rc = first_err
     [guard (length (Disks (rcStorage rc)) = 0) CreateDisksRequired,
      guard (length (optRpmsSources (rcOptions rc)) = 0) CreateRpmSourcesRequired,
      guard (optToolsDir (rcOptions rc) = []) CreateToolsDirRequired,
      validateToolsDir fs (optToolsDir (rcOptions rc))]"

record ImageCreateOptions =
  croBuildDir :: string
  croToolsDir :: string
  croRpmsSources :: "string list"
  croOutputImageFile :: string
  croOutputImageFormat :: string
  croPackageSnapshotTime :: string
  croPreviewFeatures :: "string list"

definition createOptions :: "ImageCreateOptions \<Rightarrow> ImageCustomizerOptions" where
  "createOptions opts =
     \<lparr>optBuildDir = croBuildDir opts, optInputImageFile = [], optInputImage = [], optRpmsSources = croRpmsSources opts,
      optOutputImageFile = croOutputImageFile opts, optOutputImageFormat = croOutputImageFormat opts,
      optOutputSelinuxPolicyPath = [], optUseBaseImageRpmRepos = False,
      optPackageSnapshotTime = croPackageSnapshotTime opts, optImageCacheDir = [], optCosiCompressionLevel = None,
      optToolsDir = croToolsDir opts, optSetFilesContext = [], optPreviewFeatures = croPreviewFeatures opts\<rparr>"

text \<open>The last check reads \<open>config.OS.Packages\<close>: \<open>config\<close> is the object that the chain ends with, as the
  validation has left it. Without an \<open>os\<close> section that would be a nil dereference.\<close>

definition checkCreateImage :: "'d env \<Rightarrow> 'd ResolvedConfig \<Rightarrow> validate_error option" where
  "checkCreateImage env rc = first_err
     [guard (\<not> ContainsValue (rcPreviewFeatures rc) ''create'') CreateNotEnabled,
      validateCreateImageSupportedFields rc,
      validateCreateImageMandatoryFields (env_fs env) rc,
      (case cOS (cwConfig (last (rcConfigChain rc))) of
         None \<Rightarrow> Some NilDereference
       | Some os \<Rightarrow> guard (length (Install (osPackages os)) = 0) CreateNoPackages)]"

definition validateCreateImageConfig ::
  "'d env \<Rightarrow> string \<Rightarrow> Config \<Rightarrow> ImageCreateOptions \<Rightarrow> (validate_error + 'd ResolvedConfig) option" where
  "validateCreateImageConfig env baseConfigPath config opts =
     (case ValidateConfig env baseConfigPath config True False [ValidateResourceTypeAll] (createOptions opts) of
        None \<Rightarrow> None
      | Some (Inl e) \<Rightarrow> Some (Inl e)
      | Some (Inr rc) \<Rightarrow>
          (case checkCreateImage env rc of Some e \<Rightarrow> Some (Inl e) | None \<Rightarrow> Some (Inr rc)))"

section \<open>The chain after the validation\<close>

text \<open>The validation of the \<open>os\<close> sections replaces a missing one by an empty one and the package lists by the
  packages they name; it changes nothing else.\<close>

definition os_or_empty :: "Config \<Rightarrow> OS" where
  "os_or_empty c = (case cOS c of None \<Rightarrow> emptyOS | Some os \<Rightarrow> os)"

definition os_filled :: "ConfigWithBasePath \<Rightarrow> ConfigWithBasePath \<Rightarrow> bool" where
  "os_filled c c' \<longleftrightarrow>
     (\<exists>p. c' = c\<lparr>cwConfig := (cwConfig c)\<lparr>cOS := Some ((os_or_empty (cwConfig c))\<lparr>osPackages := p\<rparr>)\<rparr>\<rparr>
        \<and> SnapshotTime p = SnapshotTime (osPackages (os_or_empty (cwConfig c)))
        \<and> RemovePackageManager p = RemovePackageManager (osPackages (os_or_empty (cwConfig c)))
        \<and> InstallLists p = [] \<and> RemoveLists p = [] \<and> UpdateLists p = [])"

lemma validatePackageLists_Inr:
  assumes "validatePackageLists readList d os srcs useBase allowPartial = Inr os'"
  shows "\<exists>p. os' = os\<lparr>osPackages := p\<rparr> \<and> SnapshotTime p = SnapshotTime (osPackages os)
     \<and> RemovePackageManager p = RemovePackageManager (osPackages os)
     \<and> InstallLists p = [] \<and> RemoveLists p = [] \<and> UpdateLists p = []"
  using assms by (auto simp: validatePackageLists_def Let_def split: sum.splits if_splits)

lemma validateOsConfig_Inr:
  assumes "validateOsConfig env d os srcs useBase validateFiles allowPartial = Inr os'"
  shows "validatePackageLists (env_package_list env) d os srcs useBase allowPartial = Inr os'
     \<and> validateAdditionalFiles (env_fs env) d (osAdditionalFiles os') validateFiles = None
     \<and> validateAdditionalDirs (env_fs env) d (AdditionalDirs os') validateFiles = None
     \<and> validateUsers (env_fs env) d (Users os') validateFiles = None"
  using assms by (auto simp: validateOsConfig_def first_err_None_iff split: sum.splits option.splits)

lemma validateOsConfigChain_Inr:
  assumes "validateOsConfigChain env cs srcs useBase validateFiles allowPartial = Inr cs'"
  shows "list_all2 os_filled cs cs'"
    and "\<forall>c \<in> set cs'. \<exists>os. cOS (cwConfig c) = Some os
       \<and> validateAdditionalFiles (env_fs env) (cwBasePath c) (osAdditionalFiles os) validateFiles = None
       \<and> validateAdditionalDirs (env_fs env) (cwBasePath c) (AdditionalDirs os) validateFiles = None
       \<and> validateUsers (env_fs env) (cwBasePath c) (Users os) validateFiles = None"
  using assms
proof (induction cs arbitrary: cs')
  case (Cons c cs)
  let ?os = "case cOS (cwConfig c) of None \<Rightarrow> emptyOS | Some os \<Rightarrow> os"
  {
    case 1
    then obtain os' ds where o': "validateOsConfig env (cwBasePath c) ?os srcs useBase validateFiles allowPartial = Inr os'"
      and "validateOsConfigChain env cs srcs useBase validateFiles allowPartial = Inr ds"
      and "cs' = c\<lparr>cwConfig := (cwConfig c)\<lparr>cOS := Some os'\<rparr>\<rparr> # ds"
      by (auto simp: Let_def split: sum.splits)
    then show ?case
      using Cons.IH(1) validateOsConfig_Inr [OF o'] validatePackageLists_Inr [of "env_package_list env"]
      by (fastforce simp: os_filled_def os_or_empty_def)
  next
    case 2
    then obtain os' ds where o': "validateOsConfig env (cwBasePath c) ?os srcs useBase validateFiles allowPartial = Inr os'"
      and "validateOsConfigChain env cs srcs useBase validateFiles allowPartial = Inr ds"
      and "cs' = c\<lparr>cwConfig := (cwConfig c)\<lparr>cOS := Some os'\<rparr>\<rparr> # ds"
      by (auto simp: Let_def split: sum.splits)
    then show ?case using Cons.IH(2) validateOsConfig_Inr [OF o'] by simp
  }
qed simp_all

lemma map_sum_Inr [simp]: "map_sum f id r = Inr x \<longleftrightarrow> r = Inr x"
  by (cases r) auto

lemma resolveChain_Inr:
  assumes "resolveChain env newImage allowPartial res opts chain = Inr rc"
  shows "resolveStorage chain = Inr (rcStorage rc)"
    "validateOsConfigChain env chain (optRpmsSources opts) (optUseBaseImageRpmRepos opts) (ValidateFiles res) allowPartial
       = Inr (rcConfigChain rc)"
    "rcOptions rc = opts" "rcHostname rc = resolveHostname (rcConfigChain rc)" "rcSELinux rc = resolveSeLinux (rcConfigChain rc)"
    "rcUki rc = resolveUki (rcConfigChain rc)" "rcBootLoader rc = resolveBootLoaderResetType (rcConfigChain rc)"
    "rcImageHistory rc = resolveImageHistory (rcConfigChain rc)" "rcRemovePackageManager rc = resolveRemovePackageManager (rcConfigChain rc)"
    "rcOsKernelCommandLine rc = resolveOsKernelCommandLine (rcConfigChain rc)" "rcOutputArtifacts rc = resolveOutputArtifacts (rcConfigChain rc)"
    "rcIso rc = resolveIsoConfig chain" "rcPxe rc = resolvePxeConfig chain"
    "rcPreviewFeatures rc = optPreviewFeatures opts @ concat (map (\<lambda>c. PreviewFeatures (cwConfig c)) chain)"
    "verifyPreviewFeatures opts (rcPreviewFeatures rc) = None"
    "validateIsoConfigChain (env_fs env) chain (ValidateFiles res) = None"
    "validatePxeConfigChain (env_fs env) chain (ValidateFiles res) = None"
    "validateScriptsConfigChain (env_fs env) (rcConfigChain rc) (ValidateFiles res) = None"
    "validateOutputImageFormat (rcConfigChain rc) (optOutputImageFormat opts) allowPartial = Inr (rcOutputImageFormat rc)"
    "validateOutputImageFile (env_fs env) (rcConfigChain rc) (optOutputImageFile opts) (rcOutputImageFormat rc) (ValidateFiles res) allowPartial
       = Inr (rcOutputImageFile rc)"
    "\<not> (rcRemovePackageManager rc \<and> rcOutputImageFormat rc \<in> set bad_for_removed_package_manager)"
  using assms unfolding resolveChain_def Let_def
  by (auto split: option.splits)

lemma Config_IsValid_keeps:
  assumes "Config_IsValid lib isProd c = Some (Inr c')"
  shows "cOS c' = cOS c" "BaseConfigs c' = BaseConfigs c"
  using assms by (auto simp: Config_IsValid_def Let_def split: option.splits sum.splits)

lemma buildConfigChain_snoc:
  assumes "buildConfigChain load valid config dir = Some (Inr chain)"
  obtains bases where "chain = bases @ [\<lparr>cwConfig = config, cwBasePath = dir\<rparr>]"
  using assms by (auto simp: buildConfigChain_def split: option.splits sum.splits prod.splits)

lemma ValidateConfig_Inr:
  assumes "ValidateConfig env dir config newImage allowPartial res opts = Some (Inr rc)"
  obtains config' chain where
    "Config_IsValid (env_lib env) (env_isProd env) config = Some (Inr config')"
    "buildConfigChain (env_load env) (Config_IsValid (env_lib env) (env_isProd env)) config' dir = Some (Inr chain)"
    "resolveChain env newImage allowPartial res opts chain = Inr rc"
  using assms by (auto simp: ValidateConfig_def split: option.splits sum.splits)

section \<open>What the validated configuration is\<close>

lemma os_filled_os:
  assumes "os_filled c c'"
  shows "\<exists>p. cOS (cwConfig c') = Some ((os_or_empty (cwConfig c))\<lparr>osPackages := p\<rparr>)"
    and "cwBasePath c' = cwBasePath c" and "cOutput (cwConfig c') = cOutput (cwConfig c)"
    and "cScripts (cwConfig c') = cScripts (cwConfig c)" and "cStorage (cwConfig c') = cStorage (cwConfig c)"
    and "cIso (cwConfig c') = cIso (cwConfig c)" and "cPxe (cwConfig c') = cPxe (cwConfig c)"
  using assms by (auto simp: os_filled_def)

lemmas resolve_snoc_simps =
  hostname.resolve_snoc selinux.resolve_snoc uki.resolve_snoc reset_type.resolve_snoc history.resolve_snoc

lemma resolveOsKernelCommandLine_snoc:
  "resolveOsKernelCommandLine (cs @ [c]) = resolveOsKernelCommandLine cs
     @ (case cOS (cwConfig c) of None \<Rightarrow> [] | Some os \<Rightarrow> osExtraCommandLine os)"
  by (simp add: resolveOsKernelCommandLine_def) (simp add: mergeKernelCommandLine_def)

lemma ValidateConfig_overrides_chain:
  assumes "ValidateConfig env dir config newImage allowPartial res opts = Some (Inr rc)"
  shows "\<exists>bases top. rcConfigChain rc = bases @ [top] \<and> (\<exists>os. cOS (cwConfig top) = Some os)"
proof -
  obtain config' chain where b: "buildConfigChain (env_load env) (Config_IsValid (env_lib env) (env_isProd env)) config' dir
      = Some (Inr chain)"
    and r: "resolveChain env newImage allowPartial res opts chain = Inr rc"
    by (rule ValidateConfig_Inr [OF assms])
  obtain cs where "chain = cs @ [\<lparr>cwConfig = config', cwBasePath = dir\<rparr>]" by (rule buildConfigChain_snoc [OF b])
  then show ?thesis
    using validateOsConfigChain_Inr(1) [OF resolveChain_Inr(2) [OF r]] os_filled_os(1)
    by (fastforce simp: list_all2_append1 list_all2_Cons1)
qed

text \<open>C29. The configuration that is validated overrides its bases: each setting of its \<open>os\<close> section is the
  resolved one, and where it leaves one out the bases decide; its kernel arguments come after theirs.\<close>

theorem ValidateConfig_overrides:
  assumes "ValidateConfig env dir config newImage allowPartial res opts = Some (Inr rc)"
  shows "\<exists>bases top os. rcConfigChain rc = bases @ [top] \<and> cwBasePath top = dir \<and> os = os_or_empty config
     \<and> rcHostname rc = (if Hostname os \<noteq> [] then Hostname os else resolveHostname bases)
     \<and> rcSELinux rc = (if SELinux os \<noteq> [] then SELinux os else resolveSeLinux bases)
     \<and> rcUki rc = (if Uki os \<noteq> None then Uki os else resolveUki bases)
     \<and> rcBootLoader rc = (if BootLoaderResetType os = ''hard-reset'' then ''hard-reset'' else resolveBootLoaderResetType bases)
     \<and> rcImageHistory rc = (if osImageHistory os \<noteq> [] then osImageHistory os else resolveImageHistory bases)
     \<and> rcOsKernelCommandLine rc = resolveOsKernelCommandLine bases @ osExtraCommandLine os"
proof -
  obtain config' chain where c: "Config_IsValid (env_lib env) (env_isProd env) config = Some (Inr config')"
    and b: "buildConfigChain (env_load env) (Config_IsValid (env_lib env) (env_isProd env)) config' dir = Some (Inr chain)"
    and r: "resolveChain env newImage allowPartial res opts chain = Inr rc"
    by (rule ValidateConfig_Inr [OF assms])
  obtain cs where cs: "chain = cs @ [\<lparr>cwConfig = config', cwBasePath = dir\<rparr>]" by (rule buildConfigChain_snoc [OF b])
  note facts = resolveChain_Inr [OF r]
  obtain bases top where rc: "rcConfigChain rc = bases @ [top]" and f: "os_filled \<lparr>cwConfig = config', cwBasePath = dir\<rparr> top"
    using validateOsConfigChain_Inr(1) [OF facts(2)] cs by (auto simp: list_all2_append1 list_all2_Cons1)
  have "cOS config' = cOS config"
    by (rule Config_IsValid_keeps(1) [OF c])
  then have e: "os_or_empty config' = os_or_empty config" by (simp add: os_or_empty_def)
  obtain p where os: "cOS (cwConfig top) = Some ((os_or_empty config)\<lparr>osPackages := p\<rparr>)" and dir: "cwBasePath top = dir"
    using os_filled_os(1,2) [OF f] e by auto
  show ?thesis
    by (intro exI [of _ bases] exI [of _ top] exI [of _ "os_or_empty config"])
      (simp add: facts rc os dir resolve_snoc_simps resolveOsKernelCommandLine_snoc chain_os_def when_some_def
        split: option.split)
qed

text \<open>The files that a configuration names. Scripts are found relative to the directory of the configuration.\<close>

definition config_additional_files :: "ConfigWithBasePath \<Rightarrow> AdditionalFile list" where
  "config_additional_files c =
     osAdditionalFiles (os_or_empty (cwConfig c))
     @ (case cIso (cwConfig c) of None \<Rightarrow> [] | Some i \<Rightarrow> isoAdditionalFiles i)
     @ (case cPxe (cwConfig c) of None \<Rightarrow> [] | Some p \<Rightarrow> pxeAdditionalFiles p)"

definition config_scripts :: "ConfigWithBasePath \<Rightarrow> Script list" where
  "config_scripts c = PostCustomization (cScripts (cwConfig c)) @ FinalizeCustomization (cScripts (cwConfig c))"

definition password_files :: "User \<Rightarrow> string list" where
  "password_files u =
     (case usPassword u of
        None \<Rightarrow> []
      | Some pw \<Rightarrow> if pwType pw = ''plain-text-file'' \<or> pwType pw = ''hashed-file'' then [pwValue pw] else [])"

definition named_files :: "ConfigWithBasePath \<Rightarrow> string list" where
  "named_files c =
     map (\<lambda>f. GetAbsPathWithBase (cwBasePath c) (afSource f)) (filter (\<lambda>f. afSource f \<noteq> []) (config_additional_files c))
     @ map (\<lambda>s. path_Join [cwBasePath c, scPath s]) (filter (\<lambda>s. scPath s \<noteq> []) (config_scripts c))
     @ map (GetAbsPathWithBase (cwBasePath c))
         (concat (map (\<lambda>u. SSHPublicKeyPaths u @ password_files u) (Users (os_or_empty (cwConfig c)))))"

definition named_dirs :: "ConfigWithBasePath \<Rightarrow> string list" where
  "named_dirs c =
     map (\<lambda>d. GetAbsPathWithBase (cwBasePath c) (dcSource d))
       (filter (\<lambda>d. dcSource d \<noteq> []) (AdditionalDirs (os_or_empty (cwConfig c))))"

definition named_package_lists :: "ConfigWithBasePath \<Rightarrow> string list" where
  "named_package_lists c =
     (let p = osPackages (os_or_empty (cwConfig c)) in
      map (GetAbsPathWithBase (cwBasePath c)) (RemoveLists p @ InstallLists p @ UpdateLists p))"

lemma must_be_file [simp]:
  "(case file_IsFile fs p of Inl e \<Rightarrow> Some (f e) | Inr yes \<Rightarrow> guard (\<not> yes) g) = None \<longleftrightarrow> fs p = StatFile"
  by (auto simp: file_IsFile_def split: stat.splits)

lemma validateScript_None:
  assumes "validateScript fs d s True = None" "scPath s \<noteq> []"
  shows "path_IsLocal (scPath s) \<and> fs (path_Join [d, scPath s]) = StatFile"
  using assms by (simp add: validateScript_def split: if_splits)

lemma validateScripts_None:
  assumes "validateScripts fs d ss True = None" "s \<in> set (PostCustomization ss @ FinalizeCustomization ss)"
  shows "validateScript fs d s True = None"
  using assms by (auto simp: validateScripts_def first_err_None_iff)

lemma validateAdditionalFiles_None:
  assumes "validateAdditionalFiles fs d files True = None" "f \<in> set files" "afSource f \<noteq> []"
  shows "fs (GetAbsPathWithBase d (afSource f)) = StatFile"
proof -
  have "validateAdditionalFile fs d f = None" using assms(1,2) by (simp add: validateAdditionalFiles_def)
  then show ?thesis using assms(3) by (simp add: validateAdditionalFile_def)
qed

lemma validateAdditionalDirs_None:
  assumes "validateAdditionalDirs fs d dirs True = None" "x \<in> set dirs" "dcSource x \<noteq> []"
  shows "fs (GetAbsPathWithBase d (dcSource x)) = StatDir"
proof -
  have "validateAdditionalDir fs d x = None" using assms(1,2) by (simp add: validateAdditionalDirs_def)
  then show ?thesis using assms(3)
    by (auto simp: validateAdditionalDir_def file_IsFile_def split: stat.splits if_splits)
qed

lemma validateUsers_None:
  assumes "validateUsers fs d users True = None" "u \<in> set users" "k \<in> set (SSHPublicKeyPaths u @ password_files u)"
  shows "fs (GetAbsPathWithBase d k) = StatFile"
proof -
  have "validateUser fs d u True = None" using assms(1,2) by (simp add: validateUsers_def first_err_None_iff)
  then show ?thesis using assms(3)
    by (cases "usPassword u") (auto simp: validateUser_def first_err_None_iff password_files_def split: if_splits)
qed

lemma readPackageLists_Inr:
  "readPackageLists readList d ls = Inr ps \<Longrightarrow> l \<in> set ls \<Longrightarrow> \<exists>xs. readList (GetAbsPathWithBase d l) = Inr xs"
  by (induction ls arbitrary: ps) (auto simp: Let_def split: sum.splits)

lemma collectPackagesList_Inr:
  "collectPackagesList readList d ls packages = Inr ps \<Longrightarrow> l \<in> set ls \<Longrightarrow> \<exists>xs. readList (GetAbsPathWithBase d l) = Inr xs"
  using readPackageLists_Inr by (fastforce simp: collectPackagesList_def split: sum.splits)

lemma validatePackageLists_read:
  assumes "validatePackageLists readList d os srcs useBase allowPartial = Inr os'"
    and "l \<in> set (RemoveLists (osPackages os) @ InstallLists (osPackages os) @ UpdateLists (osPackages os))"
  shows "\<exists>xs. readList (GetAbsPathWithBase d l) = Inr xs"
  using assms collectPackagesList_Inr [of readList d]
  by (auto simp: validatePackageLists_def Let_def split: sum.splits if_splits)

text \<open>The checks of every \<open>os\<close> section, over the configurations as they were before it.\<close>

lemma validateOsConfigChain_checks:
  assumes "validateOsConfigChain env cs srcs useBase validateFiles allowPartial = Inr cs'" "c \<in> set cs"
  shows "\<exists>os'. validatePackageLists (env_package_list env) (cwBasePath c) (os_or_empty (cwConfig c)) srcs useBase allowPartial = Inr os'"
    and "validateAdditionalFiles (env_fs env) (cwBasePath c) (osAdditionalFiles (os_or_empty (cwConfig c))) validateFiles = None"
    and "validateAdditionalDirs (env_fs env) (cwBasePath c) (AdditionalDirs (os_or_empty (cwConfig c))) validateFiles = None"
    and "validateUsers (env_fs env) (cwBasePath c) (Users (os_or_empty (cwConfig c))) validateFiles = None"
proof -
  from assms obtain os' where v: "validateOsConfig env (cwBasePath c) (os_or_empty (cwConfig c)) srcs useBase validateFiles allowPartial = Inr os'"
    by (induction cs arbitrary: cs') (auto simp: Let_def os_or_empty_def split: sum.splits)
  note f = validateOsConfig_Inr [OF v]
  then obtain p where "os' = (os_or_empty (cwConfig c))\<lparr>osPackages := p\<rparr>" using validatePackageLists_Inr by blast
  with f show "\<exists>os'. validatePackageLists (env_package_list env) (cwBasePath c) (os_or_empty (cwConfig c)) srcs useBase allowPartial = Inr os'"
    "validateAdditionalFiles (env_fs env) (cwBasePath c) (osAdditionalFiles (os_or_empty (cwConfig c))) validateFiles = None"
    "validateAdditionalDirs (env_fs env) (cwBasePath c) (AdditionalDirs (os_or_empty (cwConfig c))) validateFiles = None"
    "validateUsers (env_fs env) (cwBasePath c) (Users (os_or_empty (cwConfig c))) validateFiles = None"
    by auto
qed

text \<open>The path of the input image is that of the command line or of the last configuration that has one.\<close>

lemma backward_Some: "backward f xs = Some y \<Longrightarrow> \<exists>x \<in> set xs. f x = Some y"
  by (induction xs rule: rev_induct) (auto split: option.splits)

lemma parseInputImage_path: "parseInputImage ref s = Inr i \<Longrightarrow> inPath i = []"
  by (auto simp: parseInputImage_def parseInputImageHelper_def parseInputImageAzureLinuxValue_def emptyInputImage_def Let_def
      split: option.splits prod.splits if_splits)

lemma inputOfConfig_path:
  assumes "inputOfConfig env bd True validateOci c = Some (Inr (img, descriptor))" "inPath img \<noteq> []"
  shows "env_fs env (inPath img) = StatFile"
proof (cases "inPath (cInput (cwConfig c)) = []")
  case True
  with assms(1) have "inPath img = []"
    by (cases "inOci (cInput (cwConfig c))"; cases "inAzureLinux (cInput (cwConfig c))")
      (simp_all add: inputOfConfig_def Let_def emptyInputImage_def split: if_splits sum.splits option.splits, (elim conjE; force)+)
  with assms(2) show ?thesis by simp
next
  case False
  with assms(1) show ?thesis
    by (simp add: inputOfConfig_def Let_def emptyInputImage_def file_IsFile_def split: stat.splits if_splits, elim conjE) force
qed

lemma validateInput_path:
  assumes "validateInput env bd chain f i True validateOci allowPartial = Inr (img, descriptor)" "inPath img \<noteq> []"
  shows "env_fs env (inPath img) = StatFile"
proof (cases "f = [] \<and> i = []")
  case True
  with assms(1) have "(case backward (inputOfConfig env bd True validateOci) chain of
           Some r \<Rightarrow> r
         | None \<Rightarrow> if allowPartial then Inr (emptyInputImage, None) else Inl InputImageFileRequired) = Inr (img, descriptor)"
    by (simp add: validateInput_def)
  with assms(2) have "backward (inputOfConfig env bd True validateOci) chain = Some (Inr (img, descriptor))"
    by (cases "backward (inputOfConfig env bd True validateOci) chain") (auto simp: emptyInputImage_def split: if_splits)
  from backward_Some [OF this] obtain c where "inputOfConfig env bd True validateOci c = Some (Inr (img, descriptor))" by auto
  from inputOfConfig_path [OF this assms(2)] show ?thesis .
next
  case False
  show ?thesis
  proof (cases "f = []")
    case True
    with False assms(1) obtain i' where "parseInputImage (lib_parseReference (env_lib env)) i = Inr i'" "i' = img"
      by (auto simp: validateInput_def split: sum.splits)
    with parseInputImage_path assms(2) show ?thesis by metis
  next
    case False
    with assms(1) have "env_fs env f = StatFile" "emptyInputImage\<lparr>inPath := f\<rparr> = img"
      by (cases "env_fs env f"; simp add: validateInput_def file_IsFile_def Let_def)+
    then show ?thesis by force
  qed
qed

lemma resolveChain_input:
  assumes "resolveChain env newImage allowPartial res opts chain = Inr rc" "ValidateFiles res" "inPath (rcInputImage rc) \<noteq> []"
  shows "env_fs env (inPath (rcInputImage rc)) = StatFile"
proof -
  have "\<exists>bd d. (if newImage then Inr (emptyInputImage, None)
      else validateInput env bd chain (optInputImageFile opts) (optInputImage opts) (ValidateFiles res) (ValidateOci res) allowPartial)
        = Inr (rcInputImage rc, d)"
    using assms(1) unfolding resolveChain_def Let_def by (clarsimp simp del: if_split split del: if_split) blast
  then obtain bd d where i: "(if newImage then Inr (emptyInputImage, None)
      else validateInput env bd chain (optInputImageFile opts) (optInputImage opts) True (ValidateOci res) allowPartial)
        = Inr (rcInputImage rc, d)" unfolding eqTrueI [OF assms(2)] by blast
  show ?thesis
  proof (cases newImage)
    case True
    with i have "rcInputImage rc = emptyInputImage" by simp
    with assms(3) show ?thesis by (simp add: emptyInputImage_def)
  next
    case False
    with i have "validateInput env bd chain (optInputImageFile opts) (optInputImage opts) True (ValidateOci res) allowPartial
        = Inr (rcInputImage rc, d)" by simp
    from validateInput_path [OF this assms(3)] show ?thesis .
  qed
qed

text \<open>C30. When files are validated, every configuration of the chain (the one given and its bases, as they were read)
  names only what exists: the sources of its additional files, in \<open>os\<close>, \<open>iso\<close> and \<open>pxe\<close>, its scripts, SSH keys and
  password files are files, the sources of its additional directories are directories, its package lists can be read, and
  its scripts lie under its directory. The input img that is used, if it is a file, is one; an \<open>input.img.path\<close> of a
  base that another configuration or the command line overrides is not looked at.\<close>

theorem ValidateConfig_files_exist:
  assumes "ValidateConfig env dir config newImage allowPartial res opts = Some (Inr rc)" and "ValidateFiles res"
  shows "\<exists>config' chain. Config_IsValid (env_lib env) (env_isProd env) config = Some (Inr config')
     \<and> buildConfigChain (env_load env) (Config_IsValid (env_lib env) (env_isProd env)) config' dir = Some (Inr chain)
     \<and> (\<forall>c \<in> set chain.
          (\<forall>p \<in> set (named_files c). env_fs env p = StatFile)
          \<and> (\<forall>p \<in> set (named_dirs c). env_fs env p = StatDir)
          \<and> (\<forall>p \<in> set (named_package_lists c). \<exists>packages. env_package_list env p = Inr packages)
          \<and> (\<forall>s \<in> set (config_scripts c). scPath s \<noteq> [] \<longrightarrow> path_IsLocal (scPath s)))
     \<and> (inPath (rcInputImage rc) \<noteq> [] \<longrightarrow> env_fs env (inPath (rcInputImage rc)) = StatFile)"
proof -
  obtain config' chain where c: "Config_IsValid (env_lib env) (env_isProd env) config = Some (Inr config')"
    and b: "buildConfigChain (env_load env) (Config_IsValid (env_lib env) (env_isProd env)) config' dir = Some (Inr chain)"
    and r: "resolveChain env newImage allowPartial res opts chain = Inr rc"
    by (rule ValidateConfig_Inr [OF assms(1)])
  note facts = resolveChain_Inr [OF r, unfolded eqTrueI [OF assms(2)]]
  have all: "(\<forall>p \<in> set (named_files c). env_fs env p = StatFile) \<and> (\<forall>p \<in> set (named_dirs c). env_fs env p = StatDir)
      \<and> (\<forall>p \<in> set (named_package_lists c). \<exists>packages. env_package_list env p = Inr packages)
      \<and> (\<forall>s \<in> set (config_scripts c). scPath s \<noteq> [] \<longrightarrow> path_IsLocal (scPath s))" if m: "c \<in> set chain" for c
  proof -
    note os = validateOsConfigChain_checks [OF facts(2) m]
    obtain c' where "c' \<in> set (rcConfigChain rc)" "os_filled c c'"
      using validateOsConfigChain_Inr(1) [OF facts(2)] m by (metis in_set_conv_nth list_all2_conv_all_nth)
    with facts(18) have scripts: "validateScripts (env_fs env) (cwBasePath c) (cScripts (cwConfig c)) True = None"
      by (auto simp: validateScriptsConfigChain_def first_err_None_iff os_filled_os dest: os_filled_os(2,4))
    have iso: "validateAdditionalFiles (env_fs env) (cwBasePath c) (isoAdditionalFiles i) True = None" if "cIso (cwConfig c) = Some i" for i
      using facts(16) m that by (auto simp: validateIsoConfigChain_def validateIsoConfig_def first_err_None_iff)
    have pxe: "validateAdditionalFiles (env_fs env) (cwBasePath c) (pxeAdditionalFiles i) True = None" if "cPxe (cwConfig c) = Some i" for i
      using facts(17) m that by (auto simp: validatePxeConfigChain_def validatePxeConfig_def first_err_None_iff)
    have files: "\<forall>f \<in> set (config_additional_files c). afSource f \<noteq> [] \<longrightarrow> env_fs env (GetAbsPathWithBase (cwBasePath c) (afSource f)) = StatFile"
      using validateAdditionalFiles_None [OF os(2)] validateAdditionalFiles_None [OF iso] validateAdditionalFiles_None [OF pxe]
      by (cases "cIso (cwConfig c)"; cases "cPxe (cwConfig c)") (auto simp: config_additional_files_def)
    have script: "\<forall>s \<in> set (config_scripts c). scPath s \<noteq> [] \<longrightarrow> path_IsLocal (scPath s) \<and> env_fs env (path_Join [cwBasePath c, scPath s]) = StatFile"
      using validateScript_None [OF validateScripts_None [OF scripts]] by (auto simp: config_scripts_def)
    have "\<forall>p \<in> set (named_package_lists c). \<exists>packages. env_package_list env p = Inr packages"
      using os(1) validatePackageLists_read by (fastforce simp: named_package_lists_def Let_def)
    with files script validateUsers_None [OF os(4)] validateAdditionalDirs_None [OF os(3)] show ?thesis
      by (auto simp: named_files_def named_dirs_def)
  qed
  show ?thesis using c b all resolveChain_input [OF r assms(2)] by blast
qed

section \<open>A configuration that passes\<close>

definition sample_env :: "unit env" where
  "sample_env = \<lparr>env_fs = (\<lambda>p. if p = ''/c/a.vhdx'' then StatFile else StatNotExist), env_load = (\<lambda>p. Inl ()),
     env_package_list = (\<lambda>p. Inl ()), env_openOci = (\<lambda>i c d. Inl ()), env_Abs = Inr, env_MkdirAll = (\<lambda>p. True),
     env_randRead = Some (replicate 16 0), env_lib = sample_library, env_isProd = False\<rparr>"

definition sample_options :: ImageCustomizerOptions where
  "sample_options = \<lparr>optBuildDir = ''/b'', optInputImageFile = [], optInputImage = [], optRpmsSources = [],
      optOutputImageFile = ''/out.vhdx'', optOutputImageFormat = [], optOutputSelinuxPolicyPath = [],
      optUseBaseImageRpmRepos = True, optPackageSnapshotTime = [], optImageCacheDir = [], optCosiCompressionLevel = None,
      optToolsDir = [], optSetFilesContext = [], optPreviewFeatures = []\<rparr>"

definition sample_chain :: config_chain where
  "sample_chain = [\<lparr>cwConfig = sample_config, cwBasePath = ''/c''\<rparr>]"

lemma sample_chain_built: "buildConfigChain load valid sample_config ''/c'' = Some (Inr sample_chain)"
  by (simp add: buildConfigChain_def base_paths_def sample_config_def sample_chain_def)

definition is_Inr :: "'e + 'a \<Rightarrow> bool" where
  "is_Inr r = (case r of Inl e \<Rightarrow> False | Inr x \<Rightarrow> True)"

lemma is_Inr_iff: "is_Inr r \<longleftrightarrow> (\<exists>x. r = Inr x)"
  by (cases r) (simp_all add: is_Inr_def)

lemma sample_resolved: "is_Inr (resolveChain sample_env False False [''all''] sample_options sample_chain)"
  by code_simp

lemma sample_options_valid: "Options_IsValid sample_library sample_options = None"
  by code_simp

lemma sample_validates:
  obtains rc where "ValidateConfig sample_env ''/c'' sample_config False False [''all''] sample_options = Some (Inr rc)"
proof -
  have "env_lib sample_env = sample_library" "env_isProd sample_env = False" by (simp_all add: sample_env_def)
  then show thesis
    using sample_resolved that
    by (auto simp: is_Inr_iff ValidateConfig_def sample_options_valid sample_accepted sample_chain_built)
qed

theorem ValidateConfig_overrides_witness:
  "\<exists>rc. ValidateConfig sample_env ''/c'' sample_config False False [''all''] sample_options = Some (Inr rc)
     \<and> rcHostname rc = ''test'' \<and> rcUki rc = Some ''passthrough''"
proof -
  obtain rc where rc: "ValidateConfig sample_env ''/c'' sample_config False False [''all''] sample_options = Some (Inr rc)"
    by (rule sample_validates)
  have "Hostname (os_or_empty sample_config) = ''test''" "Uki (os_or_empty sample_config) = Some ''passthrough''"
    by (simp_all add: os_or_empty_def sample_config_def sample_os_def)
  then show ?thesis using ValidateConfig_overrides [OF rc] rc by auto
qed

lemma sample_env_lib: "env_lib sample_env = sample_library" "env_isProd sample_env = False"
  by (simp_all add: sample_env_def)

theorem ValidateConfig_files_exist_witness:
  "\<exists>rc. ValidateConfig sample_env ''/c'' sample_config False False [''all''] sample_options = Some (Inr rc)
     \<and> (inPath (rcInputImage rc) \<noteq> [] \<longrightarrow> env_fs sample_env (inPath (rcInputImage rc)) = StatFile)
     \<and> list_all (\<lambda>p. env_fs sample_env p = StatFile) (named_files \<lparr>cwConfig = sample_config, cwBasePath = ''/c''\<rparr>)"
proof -
  obtain rc where rc: "ValidateConfig sample_env ''/c'' sample_config False False [''all''] sample_options = Some (Inr rc)"
    by (rule sample_validates)
  have "ValidateFiles [''all'']" by code_simp
  from ValidateConfig_files_exist [OF rc this] obtain config' chain where
    c: "Config_IsValid sample_library False sample_config = Some (Inr config')"
    and b: "buildConfigChain (env_load sample_env) (Config_IsValid sample_library False) config' ''/c'' = Some (Inr chain)"
    and f: "\<forall>c \<in> set chain. \<forall>p \<in> set (named_files c). env_fs sample_env p = StatFile"
    and i: "inPath (rcInputImage rc) \<noteq> [] \<longrightarrow> env_fs sample_env (inPath (rcInputImage rc)) = StatFile"
    unfolding sample_env_lib by blast
  from c b have "chain = sample_chain" by (simp add: sample_accepted sample_chain_built)
  with f have "list_all (\<lambda>p. env_fs sample_env p = StatFile) (named_files \<lparr>cwConfig = sample_config, cwBasePath = ''/c''\<rparr>)"
    by (simp add: sample_chain_def list_all_iff)
  with rc i show ?thesis by blast
qed

section \<open>Creating an image\<close>

text \<open>C31. The configuration accepted by the create subcommand is well formed: the preview feature \<open>create\<close> is enabled,
  it has an \<open>os\<close> section with packages to install, a disk, package sources and a tools directory that is one; the resolved
  configuration has no reset of partition ids, no verity device, no UKI and no SELinux setting; and no configuration of the
  chain has additional files or directories, modules or overlays. The field \<open>input\<close>, which the code also means to refuse,
  is not covered: the input is not resolved for a new image, so that the check sees an empty one and a configuration
  with \<open>input.image.path\<close> is accepted (\<open>create_accepts_input\<close>).\<close>

theorem validateCreateImageConfig_wellformed:
  assumes "validateCreateImageConfig env dir config copts = Some (Inr rc)"
  shows "\<exists>os. cOS (cwConfig (last (rcConfigChain rc))) = Some os \<and> Install (osPackages os) \<noteq> []
     \<and> ''create'' \<in> set (rcPreviewFeatures rc) \<and> Disks (rcStorage rc) \<noteq> []
     \<and> sResetPartitionsUuidsType (rcStorage rc) = [] \<and> sVerity (rcStorage rc) = [] \<and> rcUki rc = None \<and> rcSELinux rc = []
     \<and> optRpmsSources (rcOptions rc) \<noteq> [] \<and> env_fs env (optToolsDir (rcOptions rc)) = StatDir
     \<and> (\<forall>c \<in> set (rcConfigChain rc). \<exists>o'. cOS (cwConfig c) = Some o' \<and> osAdditionalFiles o' = [] \<and> AdditionalDirs o' = []
          \<and> Modules o' = [] \<and> Overlays o' = None)"
proof -
  have v: "ValidateConfig env dir config True False [ValidateResourceTypeAll] (createOptions copts) = Some (Inr rc)"
    and e: "ContainsValue (rcPreviewFeatures rc) ''create''" "validateCreateImageSupportedFields rc = None" "validateCreateImageMandatoryFields (env_fs env) rc = None"
      "(case cOS (cwConfig (last (rcConfigChain rc))) of None \<Rightarrow> Some NilDereference
         | Some os \<Rightarrow> guard (length (Install (osPackages os)) = 0) CreateNoPackages) = None"
    using assms by (auto simp: validateCreateImageConfig_def checkCreateImage_def first_err_None_iff split: option.splits sum.splits)
  obtain chain where r: "resolveChain env True False [ValidateResourceTypeAll] (createOptions copts) chain = Inr rc"
    by (rule ValidateConfig_Inr [OF v])
  have os: "\<forall>c \<in> set (rcConfigChain rc). \<exists>o'. cOS (cwConfig c) = Some o'"
    using validateOsConfigChain_Inr(2) [OF resolveChain_Inr(2) [OF r]] by blast
  have "\<forall>c \<in> set (rcConfigChain rc). check_opt validateCreateImageSupportedOsFields (cOS (cwConfig c)) = None"
    using e(2) by (auto simp: validateCreateImageSupportedFields_def first_err_None_iff)
  with os have u: "\<forall>c \<in> set (rcConfigChain rc). \<exists>o'. cOS (cwConfig c) = Some o' \<and> osAdditionalFiles o' = []
      \<and> AdditionalDirs o' = [] \<and> Modules o' = [] \<and> Overlays o' = None"
    by (fastforce simp: validateCreateImageSupportedOsFields_def)
  show ?thesis
    using e u
    by (auto simp: validateCreateImageSupportedFields_def validateCreateImageMandatoryFields_def validateToolsDir_def
        first_err_None_iff ContainsValue_iff split: option.splits stat.splits)
qed

text \<open>One disk with a boot partition and a root file system, and one package.\<close>

definition create_config :: "InputImage \<Rightarrow> Config" where
  "create_config input = sample_config\<lparr>cInput := input,
     cStorage := \<lparr>sResetPartitionsUuidsType = [], sBootType = ''efi'',
       Disks = [\<lparr>PartitionTableType = ''gpt'', MaxSize = Some (4096 * 1048576),
         Partitions = [example_partition ''esp'' ''esp'' \<lparr>psType = PartitionSizeTypeExplicit, psSize = 8 * 1048576\<rparr>,
           example_partition ''root'' [] \<lparr>psType = PartitionSizeTypeGrow, psSize = 0\<rparr>]\<rparr>],
       FileSystems =
         [\<lparr>DeviceId = ''esp'', fsType = ''fat32'', fsMountPoint = Some \<lparr>mpIdType = [], mpOptions = [], mpPath = ''/boot/efi''\<rparr>,
           fsBtrfs = None, PartitionId = [], fsSize = 0\<rparr>,
          \<lparr>DeviceId = ''root'', fsType = ''ext4'', fsMountPoint = Some \<lparr>mpIdType = [], mpOptions = [], mpPath = ''/''\<rparr>,
           fsBtrfs = None, PartitionId = [], fsSize = 0\<rparr>],
       sVerity = [], ReinitializeVerity = [], sVerityPartitionsType = VerityPartitionsInvalid\<rparr>,
     cOS := Some (emptyOS\<lparr>osPackages := (osPackages emptyOS)\<lparr>Install := [''filesystem'']\<rparr>,
       BootLoaderResetType := ''hard-reset''\<rparr>),
     PreviewFeatures := [''create'', ''tools-dir'']\<rparr>"

definition create_env :: "unit env" where
  "create_env = sample_env\<lparr>env_fs := (\<lambda>p. if p = ''/tools'' \<or> p = ''/rpms'' then StatDir else StatNotExist)\<rparr>"

definition create_options :: ImageCreateOptions where
  "create_options = \<lparr>croBuildDir = ''/b'', croToolsDir = ''/tools'', croRpmsSources = [''/rpms''],
     croOutputImageFile = ''/out.vhdx'', croOutputImageFormat = ''vhdx'', croPackageSnapshotTime = [],
     croPreviewFeatures = []\<rparr>"

definition accepted :: "('e + 'a) option \<Rightarrow> bool" where
  "accepted r = (case r of Some (Inr x) \<Rightarrow> True | _ \<Rightarrow> False)"

lemma accepted_iff: "accepted r \<longleftrightarrow> (\<exists>x. r = Some (Inr x))"
  by (auto simp: accepted_def split: option.splits sum.splits)

text \<open>With no input, and with an input image that no other check looks at.\<close>

definition create_inputs :: "InputImage list" where
  "create_inputs = [emptyInputImage, emptyInputImage\<lparr>inPath := ''missing.vhdx''\<rparr>]"

definition create_valid :: "InputImage \<Rightarrow> Config" where
  "create_valid i = (case Config_IsValid sample_library False (create_config i) of Some (Inr c) \<Rightarrow> c | _ \<Rightarrow> create_config i)"

lemma create_config_valid: "list_all (\<lambda>i. accepted (Config_IsValid sample_library False (create_config i))) create_inputs"
  by code_simp

lemma create_config_result:
  "i \<in> set create_inputs \<Longrightarrow> Config_IsValid sample_library False (create_config i) = Some (Inr (create_valid i))"
  using create_config_valid by (auto simp: accepted_iff create_valid_def list_all_iff split: option.splits sum.splits)

lemma create_chain:
  assumes "i \<in> set create_inputs"
  shows "buildConfigChain load valid (create_valid i) d = Some (Inr [\<lparr>cwConfig = create_valid i, cwBasePath = d\<rparr>])"
proof -
  have "BaseConfigs (create_valid i) = None"
    using Config_IsValid_keeps(2) [OF create_config_result [OF assms]] by (simp add: create_config_def sample_config_def)
  then show ?thesis by (simp add: buildConfigChain_def base_paths_def)
qed

definition create_resolved :: "InputImage \<Rightarrow> validate_error + unit ResolvedConfig" where
  "create_resolved i = resolveChain create_env True False [ValidateResourceTypeAll] (createOptions create_options)
     [\<lparr>cwConfig = create_valid i, cwBasePath = ''/c''\<rparr>]"

lemma create_resolved_ok:
  "list_all (\<lambda>i. case create_resolved i of Inl e \<Rightarrow> False | Inr rc \<Rightarrow> checkCreateImage create_env rc = None) create_inputs"
  by code_simp

lemma create_options_ok: "Options_IsValid sample_library (createOptions create_options) = None"
  by code_simp

lemma create_accepted:
  assumes "i \<in> set create_inputs"
  shows "accepted (validateCreateImageConfig create_env ''/c'' (create_config i) create_options)"
proof -
  have "env_lib create_env = sample_library" "env_isProd create_env = False" by (simp_all add: create_env_def sample_env_def)
  then have v: "ValidateConfig create_env ''/c'' (create_config i) True False [ValidateResourceTypeAll]
      (createOptions create_options) = Some (create_resolved i)"
    by (simp add: ValidateConfig_def create_options_ok create_config_result [OF assms] create_chain [OF assms] create_resolved_def)
  have ok: "case create_resolved i of Inl e \<Rightarrow> False | Inr rc \<Rightarrow> checkCreateImage create_env rc = None"
    using create_resolved_ok assms by (simp add: list_all_iff)
  then obtain rc where r: "create_resolved i = Inr rc" "checkCreateImage create_env rc = None" by (cases "create_resolved i") simp_all
  show ?thesis unfolding accepted_iff validateCreateImageConfig_def v r(1) by (simp add: r(2))
qed

text \<open>The input of a configuration for a new image is not refused, nor looked at.\<close>

lemma create_accepts_input:
  "accepted (validateCreateImageConfig create_env ''/c'' (create_config (emptyInputImage\<lparr>inPath := ''missing.vhdx''\<rparr>)) create_options)"
  by (rule create_accepted) (simp add: create_inputs_def)

theorem validateCreateImageConfig_wellformed_witness:
  "\<exists>rc. validateCreateImageConfig create_env ''/c'' (create_config emptyInputImage) create_options = Some (Inr rc)
     \<and> Disks (rcStorage rc) \<noteq> []"
  using create_accepted [of emptyInputImage]
    validateCreateImageConfig_wellformed [of create_env "''/c''" "create_config emptyInputImage" create_options]
  unfolding accepted_iff create_inputs_def by force

end
