(* ===== verification/DefaultGrub.thy ===== *)
theory DefaultGrub
  imports GrubCfg
begin

text \<open>
  \<open>pkg/imagecustomizerlib/defaultgrubutils.go\<close>: finding, reading and rewriting the variable assignments of
  \<open>/etc/default/grub\<close>. The file is a shell script that is read with the tokenizer of grub configurations.
\<close>

section \<open>The code\<close>

definition grubMkconfigHeader :: string where "grubMkconfigHeader = ''automatically generated by grub''"
definition defaultGrubFileVarNameCmdlineLinux :: string where "defaultGrubFileVarNameCmdlineLinux = ''GRUB_CMDLINE_LINUX''"
definition defaultGrubFileVarNameCmdlineLinuxDefault :: string where
  "defaultGrubFileVarNameCmdlineLinuxDefault = ''GRUB_CMDLINE_LINUX_DEFAULT''"
definition defaultGrubFileVarNameCmdlineForSELinux :: string where
  "defaultGrubFileVarNameCmdlineForSELinux = defaultGrubFileVarNameCmdlineLinux"

record defaultGrubFileVarAssign =
  vaToken :: Token
  vaLine :: GrubLine
  vaName :: string
  vaValue :: string

datatype default_grub_error =
    DgGrub grub_cfg_error | UnexpectedQuotedExpansion string | UnexpectedVarExpansion string
  | DefaultGrubFileVarNotFound string

text \<open>The string of a word: variables are not expanded, except that a quoted \<open>$kernelopts\<close> is put back.\<close>

fun assignString :: "SubWord list \<Rightarrow> default_grub_error + string" where
  "assignString [] = Inr []"
| "assignString (w # ws) =
     (case swType w of
        QUOTED_VAR_EXPANSION \<Rightarrow>
          if swValue w \<noteq> grubKernelOpts then Inl (UnexpectedQuotedExpansion (swValue w))
          else map_sum id ((@) (''$'' @ grubKernelOpts)) (assignString ws)
      | VAR_EXPANSION \<Rightarrow> Inl (UnexpectedVarExpansion (swValue w))
      | _ \<Rightarrow> map_sum id ((@) (swValue w)) (assignString ws))"

text \<open>One line: no assignment (\<open>None\<close>), or one, or an error.\<close>

definition lineAssign :: "GrubLine \<Rightarrow> default_grub_error + defaultGrubFileVarAssign option" where
  "lineAssign line =
     (if length (Tokens line) \<noteq> 1 then Inr None
      else
        let argToken = Tokens line ! 0 in
        if \<not> (length (SubWords argToken) \<ge> 1 \<and> swType (SubWords argToken ! 0) = KEYWORD_STRING
              \<and> CHR ''='' \<in> set (swValue (SubWords argToken ! 0)))
        then Inr None
        else
          (case assignString (SubWords argToken) of
             Inl e \<Rightarrow> Inl e
           | Inr argString \<Rightarrow>
               (case Cut argString CHR ''='' of (name, value, foundEqSymbol) \<Rightarrow>
                  if \<not> foundEqSymbol then Inr None
                  else Inr (Some \<lparr>vaToken = argToken, vaLine = line, vaName = name, vaValue = value\<rparr>))))"

fun linesAssigns :: "GrubLine list \<Rightarrow> default_grub_error + defaultGrubFileVarAssign list" where
  "linesAssigns [] = Inr []"
| "linesAssigns (line # ls) =
     (case lineAssign line of
        Inl e \<Rightarrow> Inl e
      | Inr a \<Rightarrow>
          (case linesAssigns ls of
             Inl e \<Rightarrow> Inl e
           | Inr vs \<Rightarrow> Inr (case a of None \<Rightarrow> vs | Some v \<Rightarrow> v # vs)))"

definition findDefaultGrubFileVarAssigns :: "string \<Rightarrow> default_grub_error + defaultGrubFileVarAssign list" where
  "findDefaultGrubFileVarAssigns content =
     (case grubLines content of Inl e \<Rightarrow> Inl (DgGrub e) | Inr ls \<Rightarrow> linesAssigns ls)"

definition findDefaultGrubFileVarAssign ::
  "defaultGrubFileVarAssign list \<Rightarrow> string \<Rightarrow> default_grub_error + defaultGrubFileVarAssign" where
  "findDefaultGrubFileVarAssign varAssigns name =
     (case FindValueFunc varAssigns (\<lambda>v. vaName v = name) of
        Some v \<Rightarrow> Inr v
      | None \<Rightarrow> Inl (DefaultGrubFileVarNotFound name))"

definition tokenizeArgs :: "string \<Rightarrow> default_grub_error + Token list" where
  "tokenizeArgs s = (case TokenizeConfig s of (toks, Some e) \<Rightarrow> Inl (DgGrub (TokenizeError e)) | (toks, None) \<Rightarrow> Inr toks)"

definition GetDefaultGrubFileLinuxArgs ::
  "string \<Rightarrow> string \<Rightarrow> default_grub_error + (defaultGrubFileVarAssign \<times> grubConfigLinuxArg list \<times> nat)" where
  "GetDefaultGrubFileLinuxArgs content varName =
     (case findDefaultGrubFileVarAssigns content of
        Inl e \<Rightarrow> Inl e
      | Inr varAssigns \<Rightarrow>
     (case findDefaultGrubFileVarAssign varAssigns varName of
        Inl e \<Rightarrow> Inl e
      | Inr v \<Rightarrow>
     (case tokenizeArgs (vaValue v) of
        Inl e \<Rightarrow> Inl e
      | Inr grubTokens \<Rightarrow>
     (case findCommandLineInsertAt grubTokens (length (vaValue v)) of
        Inl e \<Rightarrow> Inl (DgGrub e)
      | Inr insertAt \<Rightarrow>
     (case ParseCommandLineArgs grubTokens of
        Inl e \<Rightarrow> Inl (DgGrub e)
      | Inr args \<Rightarrow> Inr (v, args, insertAt))))))"

text \<open>A variable that is missing or cannot be parsed is skipped.\<close>

definition GetDefaultGrubFileLinuxArgsFromMultipleVars :: "string \<Rightarrow> grubConfigLinuxArg list" where
  "GetDefaultGrubFileLinuxArgsFromMultipleVars content =
     concat (map (\<lambda>varName. case GetDefaultGrubFileLinuxArgs content varName of Inl e \<Rightarrow> [] | Inr (_, args, _) \<Rightarrow> args)
       [defaultGrubFileVarNameCmdlineLinuxDefault, defaultGrubFileVarNameCmdlineLinux])"

text \<open>The value, the arguments and the insertion point of a variable, or those of an empty value.\<close>

definition getDefaultGrubFileLinuxArgsOrEmpty ::
  "string \<Rightarrow> string \<Rightarrow> default_grub_error + (string \<times> grubConfigLinuxArg list \<times> nat)" where
  "getDefaultGrubFileLinuxArgsOrEmpty content varName =
     (case GetDefaultGrubFileLinuxArgs content varName of
        Inr (v, args, insertAt) \<Rightarrow> Inr (vaValue v, args, insertAt)
      | Inl e \<Rightarrow> (case e of DefaultGrubFileVarNotFound _ \<Rightarrow> Inr ([], [], 0) | _ \<Rightarrow> Inl e))"

definition replaceDefaultGrubFileVarAssign :: "string \<Rightarrow> defaultGrubFileVarAssign \<Rightarrow> string \<Rightarrow> string" where
  "replaceDefaultGrubFileVarAssign content v newValue =
     replaceRange (tokStart (vaToken v)) (tokEnd (vaToken v)) (vaName v @ ''='' @ ForceQuoteString newValue) content"

text \<open>Where a new line goes, and whether it needs a newline before it.\<close>

definition insertPosition :: "GrubLine option \<Rightarrow> nat \<times> bool" where
  "insertPosition insertAfterLine =
     (case insertAfterLine of
        None \<Rightarrow> (0, False)
      | Some line \<Rightarrow>
          (case EndToken line of
             Some t \<Rightarrow> (tokEnd t, tokType t = SEMICOLON)
           | None \<Rightarrow> (tokEnd (last (Tokens line)), True)))"

definition insertDefaultGrubFileVarAssign :: "string \<Rightarrow> GrubLine option \<Rightarrow> string \<Rightarrow> string \<Rightarrow> string" where
  "insertDefaultGrubFileVarAssign content insertAfterLine varName newValue =
     (case insertPosition insertAfterLine of (insertAt, newlineBefore) \<Rightarrow>
        take insertAt content @ (if newlineBefore then [CHR 0x0A] else [])
        @ varName @ ''='' @ ForceQuoteString newValue @ [CHR 0x0A] @ drop insertAt content)"

definition UpdateDefaultGrubFileVariable :: "string \<Rightarrow> string \<Rightarrow> string \<Rightarrow> default_grub_error + string" where
  "UpdateDefaultGrubFileVariable content varName newValue =
     (case findDefaultGrubFileVarAssigns content of
        Inl e \<Rightarrow> Inl e
      | Inr varAssigns \<Rightarrow>
          (case FindValueFunc varAssigns (\<lambda>v. vaName v = varName) of
             Some v \<Rightarrow> Inr (replaceDefaultGrubFileVarAssign content v newValue)
           | None \<Rightarrow>
               Inr (insertDefaultGrubFileVarAssign content
                      (if length varAssigns > 1 then Some (vaLine (last varAssigns)) else None) varName newValue)))"

definition addExtraCommandLineToDefaultGrubFile :: "string \<Rightarrow> string \<Rightarrow> default_grub_error + string" where
  "addExtraCommandLineToDefaultGrubFile content extraCommandLine =
     (case getDefaultGrubFileLinuxArgsOrEmpty content defaultGrubFileVarNameCmdlineLinuxDefault of
        Inl e \<Rightarrow> Inl e
      | Inr (argsString, _, insertAt) \<Rightarrow>
          UpdateDefaultGrubFileVariable content defaultGrubFileVarNameCmdlineLinuxDefault
            (take insertAt argsString @ '' '' @ extraCommandLine @ '' '' @ drop insertAt argsString))"

definition updateDefaultGrubFileKernelCommandLineArgs ::
  "string \<Rightarrow> string \<Rightarrow> string list \<Rightarrow> string list \<Rightarrow> default_grub_error + string" where
  "updateDefaultGrubFileKernelCommandLineArgs content varName argsToRemove newArgs =
     (case getDefaultGrubFileLinuxArgsOrEmpty content varName of
        Inl e \<Rightarrow> Inl e
      | Inr (value, args, insertAt) \<Rightarrow>
          UpdateDefaultGrubFileVariable content varName
            (updateKernelCommandLineArgsHelper value args insertAt argsToRemove newArgs))"

definition isGrubMkconfigConfig :: "string \<Rightarrow> bool" where
  "isGrubMkconfigConfig grub2Config = ContainsStr grub2Config grubMkconfigHeader"

section \<open>An update edits one place\<close>

text \<open>An update of a variable keeps the text before and after one place: the first assignment of the
  variable, which is replaced, or the place where a new line is put.\<close>

lemma linesAssigns_mem:
  "linesAssigns ls = Inr vs \<Longrightarrow> v \<in> set vs \<Longrightarrow> \<exists>line \<in> set ls. lineAssign line = Inr (Some v)"
  by (induction ls arbitrary: vs) (fastforce split: sum.splits option.splits)+

lemma lineAssign_Some:
  "lineAssign line = Inr (Some v) \<Longrightarrow> vaLine v = line \<and> Tokens line = [vaToken v]"
  by (cases "Tokens line"; cases "tl (Tokens line)")
    (auto simp: lineAssign_def Let_def split: if_splits sum.splits prod.splits)

lemma UpdateDefaultGrubFileVariable_edit:
  assumes "UpdateDefaultGrubFileVariable content varName newValue = Inr out"
  shows "\<exists>i j pre post. out = take i content @ pre @ varName @ ''='' @ ForceQuoteString newValue @ post @ drop j content
     \<and> (pre = [] \<or> pre = [CHR 0x0A]) \<and> (post = [] \<or> post = [CHR 0x0A]) \<and> (post \<noteq> [] \<longrightarrow> i = j)"
proof -
  obtain vs where vs: "findDefaultGrubFileVarAssigns content = Inr vs"
    using assms by (cases "findDefaultGrubFileVarAssigns content") (simp_all add: UpdateDefaultGrubFileVariable_def)
  show ?thesis
  proof (cases "FindValueFunc vs (\<lambda>v. vaName v = varName)")
    case (Some v)
    then have "out = take (tokStart (vaToken v)) content @ [] @ varName @ ''='' @ ForceQuoteString newValue @ []
        @ drop (tokEnd (vaToken v)) content"
      using assms vs FindValueFunc_Some [OF Some]
      by (simp add: UpdateDefaultGrubFileVariable_def replaceDefaultGrubFileVarAssign_def replaceRange_def)
    then show ?thesis by blast
  next
    case None
    obtain i nl where p: "insertPosition (if length vs > 1 then Some (vaLine (last vs)) else None) = (i, nl)" by force
    have "out = take i content @ (if nl then [CHR 0x0A] else []) @ varName @ ''='' @ ForceQuoteString newValue @ [CHR 0x0A]
        @ drop i content"
      using assms vs None p by (simp add: UpdateDefaultGrubFileVariable_def insertDefaultGrubFileVarAssign_def)
    then show ?thesis by (intro exI [of _ i] exI [of _ "if nl then [CHR 0x0A] else []"] exI [of _ "[CHR 0x0A]"]) auto
  qed
qed

end
