(* ===== verification/TextUtils.thy ===== *)
theory TextUtils
  imports GoStrings
begin

text \<open>
  More of Go's package \<open>strings\<close>: \<open>TrimSpace\<close>, \<open>TrimLeft\<close>, \<open>TrimRight\<close>, \<open>TrimPrefix\<close>, \<open>Fields\<close>, \<open>LastIndex\<close> and \<open>Replace\<close>,
  which the program applies to command lines and configuration files.
\<close>

section \<open>A string as runes with their bytes\<close>

function rune_segments :: "string \<Rightarrow> (nat \<times> string) list" where
  "rune_segments s =
     (if s = [] then []
      else (case DecodeRune s of (r, w) \<Rightarrow> (r, take w s) # rune_segments (drop w s)))"
  by pat_completeness auto
termination rune_segments
proof (relation "measure length", goal_cases)
  case (2 s r w)
  then have "0 < w" using DecodeRune_width_pos [of s] by (metis snd_conv)
  with 2 show ?case by simp
qed simp

declare rune_segments.simps [simp del]

lemma rune_segments_Nil [simp]: "rune_segments [] = []"
  by (simp add: rune_segments.simps)

lemma concat_rune_segments: "concat (map snd (rune_segments s)) = s"
proof (induction s rule: rune_segments.induct)
  case (1 s)
  show ?case
  proof (cases "s = []")
    case False
    obtain r w where d: "DecodeRune s = (r, w)" by force
    with 1 [OF False d [symmetric]] False show ?thesis by (simp add: rune_segments.simps [of s])
  qed simp
qed

lemma rune_segments_ascii: "list_all (\<lambda>c. byte c < 0x80) s \<Longrightarrow> rune_segments s = map (\<lambda>c. (byte c, [c])) s"
proof (induction s)
  case (Cons c s)
  then show ?case by (simp add: rune_segments.simps [of "c # s"] DecodeRune_ascii)
qed simp

section \<open>Trimming\<close>

text \<open>A space rune starts with a byte that no earlier rune can contain, so trimming from the right finds the
  same runes as reading from the left.\<close>

definition trim_right :: "('a \<Rightarrow> bool) \<Rightarrow> 'a list \<Rightarrow> 'a list" where
  "trim_right P xs = rev (dropWhile P (rev xs))"

definition TrimSpace :: "string \<Rightarrow> string" where
  "TrimSpace s = concat (map snd (trim_right (\<lambda>(r, _). IsSpace r) (dropWhile (\<lambda>(r, _). IsSpace r) (rune_segments s))))"

definition TrimLeft :: "string \<Rightarrow> string \<Rightarrow> string" where
  "TrimLeft s cutset = dropWhile (\<lambda>c. c \<in> set cutset) s"

definition TrimRight :: "string \<Rightarrow> string \<Rightarrow> string" where
  "TrimRight s cutset = trim_right (\<lambda>c. c \<in> set cutset) s"

definition TrimPrefix :: "string \<Rightarrow> string \<Rightarrow> string" where
  "TrimPrefix s pre = (if prefix pre s then drop (length pre) s else s)"

definition CutPrefix :: "string \<Rightarrow> string \<Rightarrow> (string \<times> bool)" where
  "CutPrefix s pre = (if prefix pre s then (drop (length pre) s, True) else (s, False))"

lemma trim_right_append: "\<exists>zs. xs = trim_right P xs @ zs \<and> list_all P zs"
proof -
  have "rev xs = takeWhile P (rev xs) @ dropWhile P (rev xs)" by simp
  then have "xs = rev (dropWhile P (rev xs)) @ rev (takeWhile P (rev xs))" by (metis rev_append rev_rev_ident)
  then show ?thesis
    unfolding trim_right_def by (intro exI [of _ "rev (takeWhile P (rev xs))"]) (auto simp: list_all_iff dest: set_takeWhileD)
qed

lemma trim_right_last: "trim_right P xs = [] \<or> \<not> P (last (trim_right P xs))"
  unfolding trim_right_def
  by (cases "dropWhile P (rev xs)") (auto simp: last_rev dest: dropWhile_eq_Cons_conv [THEN iffD1])

lemma trim_right_id: "xs = [] \<or> \<not> P (last xs) \<Longrightarrow> trim_right P xs = xs"
  by (cases xs rule: rev_cases) (auto simp: trim_right_def)

lemma TrimSpace_id_ascii:
  assumes "list_all (\<lambda>c. byte c < 0x80) s" "s = [] \<or> (\<not> IsSpace (byte (hd s)) \<and> \<not> IsSpace (byte (last s)))"
  shows "TrimSpace s = s"
proof (cases "s = []")
  case False
  let ?m = "map (\<lambda>c. (byte c, [c])) s"
  have d: "dropWhile (\<lambda>(r, _). IsSpace r) ?m = ?m" using assms(2) False by (cases s) auto
  have t: "trim_right (\<lambda>(r, _). IsSpace r) ?m = ?m"
    by (rule trim_right_id) (use assms(2) False in \<open>auto simp: last_map\<close>)
  show ?thesis unfolding TrimSpace_def rune_segments_ascii [OF assms(1)] d t by (simp add: comp_def)
qed (simp add: TrimSpace_def trim_right_def)

section \<open>Fields and replacement\<close>

fun fields_of :: "(nat \<times> string) list \<Rightarrow> string \<Rightarrow> string list" where
  "fields_of [] w = (if w = [] then [] else [w])"
| "fields_of ((r, b) # segs) w =
     (if IsSpace r then (if w = [] then fields_of segs [] else w # fields_of segs []) else fields_of segs (w @ b))"

definition Fields :: "string \<Rightarrow> string list" where
  "Fields s = fields_of (rune_segments s) []"

lemma Fields_nonempty: "[] \<notin> set (fields_of segs w)"
  by (induction segs w rule: fields_of.induct) auto

text \<open>\<open>strings.Replace(s, old, new, n)\<close> with a non-empty \<open>old\<close>; \<open>ReplaceAll\<close> has no bound.\<close>

function Replace :: "string \<Rightarrow> string \<Rightarrow> string \<Rightarrow> nat \<Rightarrow> string" where
  "Replace s old new n =
     (if s = [] \<or> n = 0 \<or> old = [] then s
      else if prefix old s then new @ Replace (drop (length old) s) old new (n - 1)
      else hd s # Replace (tl s) old new n)"
  by pat_completeness auto
termination Replace by (relation "measure (\<lambda>(s, _). length s)") auto

declare Replace.simps [simp del]

definition ReplaceAll :: "string \<Rightarrow> string \<Rightarrow> string \<Rightarrow> string" where
  "ReplaceAll s old new = Replace s old new (length s)"

lemma text_ex:
  "TrimSpace '' a b  '' = ''a b''" "Fields ''  ab  c '' = [''ab'', ''c'']" "ReplaceAll ''a-b-c'' ''-'' ''+'' = ''a+b+c''"
  "TrimRight ''ab00'' ''0'' = ''ab''" "CutPrefix ''UUID=5'' ''UUID='' = (''5'', True)"
  by code_simp+

end
