(* ===== verification/BootCustomizer.thy ===== *)
theory BootCustomizer
  imports DefaultGrub TextUtils Paths
begin

text \<open>
  \<open>pkg/imagecustomizerlib/bootcustomizer.go\<close> and \<open>handleSELinux\<close> of \<open>customizeselinux.go\<close>: the object that holds
  the boot configuration of the image while it is customized. It keeps the texts of \<open>grub.cfg\<close> and
  \<open>/etc/default/grub\<close>, and how the image boots decides which of them an operation edits: the default file, from
  which \<open>grub-mkconfig\<close> generates \<open>grub.cfg\<close>; \<open>grub.cfg\<close> itself; or, for unified kernel images, the command lines
  saved in \<open>uki-kernel-info.json\<close>.

  The state of a run is the object together with the files it reads and writes. The JSON file is its decoded
  value, a list of kernels in the order in which the map is visited; \<open>None\<close> is a file that cannot be
  read. Writing a file can fail: the record \<open>boot_io\<close> says when, and what is then in the file. The distribution's
  reading of the SELinux arguments is an argument.
\<close>

section \<open>State\<close>

datatype bootConfigType = bootConfigTypeGrubMkconfig | bootConfigTypeGrubLegacy | bootConfigTypeUki

record UkiKernelInfo =
  Cmdline :: string
  Initramfs :: string

type_synonym kernel_info = "(string \<times> UkiKernelInfo) list"

record BootCustomizer =
  grubCfgContent :: string
  defaultGrubFileContent :: string
  bcConfigType :: bootConfigType
  bcUkiMode :: string
  ukiKernelInfoPath :: string

record boot_files =
  file_grubCfg :: string
  file_defaultGrub :: string
  file_kernelInfo :: "kernel_info option"

text \<open>Writing a content: \<open>None\<close> is success, after which the content is in the file; \<open>Some left\<close> is a failure that leaves
  \<open>left\<close> in it. \<open>io_mkconfig\<close> is \<open>grub-mkconfig\<close> on a default file: the new \<open>grub.cfg\<close>, or a failure with what it left
  of the old one.\<close>

record boot_io =
  io_defaultGrub :: "string \<Rightarrow> string option"
  io_grubCfg :: "string \<Rightarrow> string option"
  io_kernelInfo :: "kernel_info \<Rightarrow> kernel_info option option"
  io_mkconfig :: "string \<Rightarrow> string \<Rightarrow> string + string"

datatype boot_error =
    BootNoConfigFound | UkiPassthroughCmdlineModified | KernelInfoPathNotSet | KernelInfoUnreadable
  | UkiCmdlineTokenize string token_error | UkiCmdlineParse string grub_cfg_error
  | BootDefaultGrub default_grub_error | BootGrubCfg grub_cfg_error | GrubMkconfigFailed
  | NoUkiCmdlines | SELinuxConfigUnreadable | BootSELinuxConfig selinux_config_error | SELinuxNotSupported
  | SELinuxConfigUpdateFailed | DefaultGrubWriteFailed | GrubCfgWriteFailed | KernelInfoWriteFailed

section \<open>Construction\<close>

text \<open>An unreadable file that does not exist counts as empty; \<open>ukiFiles\<close> are the UKIs of the ESP.\<close>

definition determineBootConfigType :: "string \<Rightarrow> string list option \<Rightarrow> boot_error + bootConfigType" where
  "determineBootConfigType grubCfg ukiFiles =
     (if grubCfg = [] then
        (case ukiFiles of
           None \<Rightarrow> Inl BootNoConfigFound
         | Some files \<Rightarrow> if length files > 0 then Inr bootConfigTypeUki else Inl BootNoConfigFound)
      else if isGrubMkconfigConfig grubCfg then Inr bootConfigTypeGrubMkconfig
      else Inr bootConfigTypeGrubLegacy)"

definition UkiKernelInfoFile :: "string \<Rightarrow> string" where
  "UkiKernelInfoFile buildDir = path_Join [buildDir, ''UkiBuildDir'', ''uki-kernel-info.json'']"

definition NewBootCustomizer ::
  "boot_files \<Rightarrow> string list option \<Rightarrow> string option \<Rightarrow> string \<Rightarrow> boot_error + BootCustomizer" where
  "NewBootCustomizer files ukiFiles uki buildDir =
     (case determineBootConfigType (file_grubCfg files) ukiFiles of
        Inl e \<Rightarrow> Inl e
      | Inr t \<Rightarrow>
          let ukiMode = (case uki of None \<Rightarrow> [] | Some m \<Rightarrow> m) in
          Inr \<lparr>grubCfgContent = file_grubCfg files, defaultGrubFileContent = file_defaultGrub files, bcConfigType = t,
               bcUkiMode = ukiMode,
               ukiKernelInfoPath = (if uki \<noteq> None \<and> (ukiMode = ''modify'' \<or> ukiMode = ''create'')
                                    then UkiKernelInfoFile buildDir else [])\<rparr>)"

section \<open>The UKI command lines\<close>

definition readUkiKernelInfo :: "BootCustomizer \<Rightarrow> boot_files \<Rightarrow> boot_error + kernel_info" where
  "readUkiKernelInfo b files =
     (if ukiKernelInfoPath b = [] then Inl KernelInfoPathNotSet
      else (case file_kernelInfo files of None \<Rightarrow> Inl KernelInfoUnreadable | Some info \<Rightarrow> Inr info))"

definition writeUkiKernelInfoFile :: "boot_io \<Rightarrow> boot_files \<Rightarrow> kernel_info \<Rightarrow> boot_error option \<times> boot_files" where
  "writeUkiKernelInfoFile io files info =
     (case io_kernelInfo io info of
        None \<Rightarrow> (None, files\<lparr>file_kernelInfo := Some info\<rparr>)
      | Some left \<Rightarrow> (Some KernelInfoWriteFailed, files\<lparr>file_kernelInfo := left\<rparr>))"

definition appendToUkiCmdlineFile :: "boot_io \<Rightarrow> BootCustomizer \<Rightarrow> boot_files \<Rightarrow> string \<Rightarrow> boot_error option \<times> boot_files" where
  "appendToUkiCmdlineFile io b files args =
     (case readUkiKernelInfo b files of
        Inl e \<Rightarrow> (Some e, files)
      | Inr info \<Rightarrow>
          writeUkiKernelInfoFile io files (map (\<lambda>(kname, i). (kname, i\<lparr>Cmdline := TrimSpace (Cmdline i) @ '' '' @ args\<rparr>)) info))"

definition updateUkiCmdline :: "string \<Rightarrow> string list \<Rightarrow> string list \<Rightarrow> string \<Rightarrow> boot_error + string" where
  "updateUkiCmdline kname argsToRemove newArgs cmdline =
     (case TokenizeConfig (TrimSpace cmdline) of
        (toks, Some e) \<Rightarrow> Inl (UkiCmdlineTokenize kname e)
      | (toks, None) \<Rightarrow>
          (case ParseCommandLineArgs toks of
             Inl e \<Rightarrow> Inl (UkiCmdlineParse kname e)
           | Inr args \<Rightarrow>
               Inr (GrubArgsToString (map Arg (filter (\<lambda>a. argName a \<notin> set argsToRemove) args) @ newArgs))))"

fun updateUkiCmdlines :: "string list \<Rightarrow> string list \<Rightarrow> kernel_info \<Rightarrow> boot_error + kernel_info" where
  "updateUkiCmdlines argsToRemove newArgs [] = Inr []"
| "updateUkiCmdlines argsToRemove newArgs ((kname, i) # infos) =
     (case updateUkiCmdline kname argsToRemove newArgs (Cmdline i) of
        Inl e \<Rightarrow> Inl e
      | Inr cmdline \<Rightarrow>
          map_sum id ((#) (kname, i\<lparr>Cmdline := cmdline\<rparr>)) (updateUkiCmdlines argsToRemove newArgs infos))"

definition updateUkiCmdlineFile ::
  "boot_io \<Rightarrow> BootCustomizer \<Rightarrow> boot_files \<Rightarrow> string list \<Rightarrow> string list \<Rightarrow> boot_error option \<times> boot_files" where
  "updateUkiCmdlineFile io b files argsToRemove newArgs =
     (case readUkiKernelInfo b files of
        Inl e \<Rightarrow> (Some e, files)
      | Inr info \<Rightarrow>
          (case updateUkiCmdlines argsToRemove newArgs info of
             Inl e \<Rightarrow> (Some e, files)
           | Inr info' \<Rightarrow> writeUkiKernelInfoFile io files info'))"

section \<open>Operations\<close>

type_synonym boot_state = "BootCustomizer \<times> boot_files"

text \<open>The result of an operation: its error, if any, and the state after it.\<close>

type_synonym boot_result = "boot_error option \<times> boot_state"

definition with_defaultGrub :: "boot_state \<Rightarrow> default_grub_error + string \<Rightarrow> boot_result" where
  "with_defaultGrub st r =
     (case r of
        Inl e \<Rightarrow> (Some (BootDefaultGrub e), st)
      | Inr content \<Rightarrow> (None, ((fst st)\<lparr>defaultGrubFileContent := content\<rparr>, snd st)))"

definition with_grubCfg :: "boot_state \<Rightarrow> grub_cfg_error + string \<Rightarrow> boot_result" where
  "with_grubCfg st r =
     (case r of
        Inl e \<Rightarrow> (Some (BootGrubCfg e), st)
      | Inr content \<Rightarrow> (None, ((fst st)\<lparr>grubCfgContent := content\<rparr>, snd st)))"

definition AddKernelCommandLine :: "boot_io \<Rightarrow> boot_state \<Rightarrow> string list \<Rightarrow> boot_result" where
  "AddKernelCommandLine io st extraCommandLine =
     (case st of (b, files) \<Rightarrow>
        if length extraCommandLine \<le> 0 then (None, st)
        else
          let combinedArgs = GrubArgsToString extraCommandLine in
          (case bcConfigType b of
             bootConfigTypeGrubMkconfig \<Rightarrow>
               with_defaultGrub st (addExtraCommandLineToDefaultGrubFile (defaultGrubFileContent b) combinedArgs)
           | bootConfigTypeGrubLegacy \<Rightarrow>
               with_grubCfg st (appendKernelCommandLineArgsAll (grubCfgContent b) combinedArgs)
           | bootConfigTypeUki \<Rightarrow>
               if bcUkiMode b \<noteq> ''modify'' \<and> bcUkiMode b \<noteq> ''create'' then (Some UkiPassthroughCmdlineModified, st)
               else map_prod id (Pair b) (appendToUkiCmdlineFile io b files combinedArgs)))"

definition UpdateKernelCommandLineArgs ::
  "boot_io \<Rightarrow> boot_state \<Rightarrow> string \<Rightarrow> string list \<Rightarrow> string list \<Rightarrow> boot_result" where
  "UpdateKernelCommandLineArgs io st varName argsToRemove newArgs =
     (case st of (b, files) \<Rightarrow>
        (case bcConfigType b of
           bootConfigTypeGrubMkconfig \<Rightarrow>
             with_defaultGrub st (updateDefaultGrubFileKernelCommandLineArgs (defaultGrubFileContent b) varName argsToRemove newArgs)
         | bootConfigTypeGrubLegacy \<Rightarrow>
             with_grubCfg st (updateKernelCommandLineArgsAll (grubCfgContent b) argsToRemove newArgs)
         | bootConfigTypeUki \<Rightarrow>
             if bcUkiMode b \<noteq> ''modify'' then (Some UkiPassthroughCmdlineModified, st)
             else map_prod id (Pair b) (updateUkiCmdlineFile io b files argsToRemove newArgs)))"

definition UpdateSELinuxCommandLine :: "boot_io \<Rightarrow> boot_state \<Rightarrow> SELinuxMode \<Rightarrow> boot_result" where
  "UpdateSELinuxCommandLine io st m =
     (case selinuxModeToArgs m of
        Inl e \<Rightarrow> (Some (BootGrubCfg e), st)
      | Inr newArgs \<Rightarrow> UpdateKernelCommandLineArgs io st defaultGrubFileVarNameCmdlineForSELinux selinuxArgNames newArgs)"

definition UpdateSELinuxCommandLineForEMU :: "boot_io \<Rightarrow> boot_state \<Rightarrow> SELinuxMode \<Rightarrow> boot_result" where
  "UpdateSELinuxCommandLineForEMU io st m =
     (case selinuxModeToArgsWithPermissiveFlag m of
        Inl e \<Rightarrow> (Some (BootGrubCfg e), st)
      | Inr newArgs \<Rightarrow> UpdateKernelCommandLineArgs io st defaultGrubFileVarNameCmdlineForSELinux selinuxArgNames newArgs)"

definition PrepareForVerity :: "boot_state \<Rightarrow> boot_result" where
  "PrepareForVerity st =
     (case st of (b, files) \<Rightarrow>
        (case bcConfigType b of
           bootConfigTypeGrubMkconfig \<Rightarrow>
             (case UpdateDefaultGrubFileVariable (defaultGrubFileContent b) ''GRUB_DISABLE_UUID'' ''true'' of
                Inl e \<Rightarrow> (Some (BootDefaultGrub e), st)
              | Inr content \<Rightarrow> with_defaultGrub st (UpdateDefaultGrubFileVariable content ''GRUB_DEVICE'' ''/dev/mapper/root''))
         | bootConfigTypeGrubLegacy \<Rightarrow> (None, st)
         | bootConfigTypeUki \<Rightarrow> (None, st)))"

definition SetRootDevice :: "boot_state \<Rightarrow> string \<Rightarrow> boot_result" where
  "SetRootDevice st rootDevice =
     with_defaultGrub st (UpdateDefaultGrubFileVariable (defaultGrubFileContent (fst st)) ''GRUB_DEVICE'' rootDevice)"

text \<open>The default file is written before \<open>grub-mkconfig\<close> runs on it.\<close>

definition WriteToFile :: "boot_io \<Rightarrow> boot_state \<Rightarrow> boot_result" where
  "WriteToFile io st =
     (case st of (b, files) \<Rightarrow>
        (case bcConfigType b of
           bootConfigTypeGrubMkconfig \<Rightarrow>
             (case io_defaultGrub io (defaultGrubFileContent b) of
                Some left \<Rightarrow> (Some DefaultGrubWriteFailed, (b, files\<lparr>file_defaultGrub := left\<rparr>))
              | None \<Rightarrow>
                  let files' = files\<lparr>file_defaultGrub := defaultGrubFileContent b\<rparr> in
                  (case io_mkconfig io (defaultGrubFileContent b) (file_grubCfg files) of
                     Inl left \<Rightarrow> (Some GrubMkconfigFailed, (b, files'\<lparr>file_grubCfg := left\<rparr>))
                   | Inr cfg \<Rightarrow> (None, (b, files'\<lparr>file_grubCfg := cfg\<rparr>))))
         | bootConfigTypeGrubLegacy \<Rightarrow>
             (case io_grubCfg io (grubCfgContent b) of
                Some left \<Rightarrow> (Some GrubCfgWriteFailed, (b, files\<lparr>file_grubCfg := left\<rparr>))
              | None \<Rightarrow> (None, (b, files\<lparr>file_grubCfg := grubCfgContent b\<rparr>)))
         | bootConfigTypeUki \<Rightarrow> (None, st)))"

section \<open>The SELinux mode\<close>

text \<open>The first entry of the map stands for whichever the map iteration gives.\<close>

definition parseFirstCmdlineFromUkiMap :: "(string \<times> string) list \<Rightarrow> boot_error + grubConfigLinuxArg list" where
  "parseFirstCmdlineFromUkiMap kernelToArgs =
     (case kernelToArgs of
        [] \<Rightarrow> Inl NoUkiCmdlines
      | (kname, cmdline) # _ \<Rightarrow>
          (case TokenizeConfig cmdline of
             (toks, Some e) \<Rightarrow> Inl (UkiCmdlineTokenize kname e)
           | (toks, None) \<Rightarrow>
               (case ParseCommandLineArgs toks of Inl e \<Rightarrow> Inl (UkiCmdlineParse kname e) | Inr args \<Rightarrow> Inr args)))"

definition getSELinuxModeFromCmdline ::
  "(grubConfigLinuxArg list \<Rightarrow> grub_cfg_error + SELinuxMode) \<Rightarrow> boot_error + (string \<times> string) list
     \<Rightarrow> BootCustomizer \<Rightarrow> boot_error + SELinuxMode" where
  "getSELinuxModeFromCmdline readMode ukiCmdlines b =
     (case (case bcConfigType b of
              bootConfigTypeGrubMkconfig \<Rightarrow> Inr (GetDefaultGrubFileLinuxArgsFromMultipleVars (defaultGrubFileContent b))
            | bootConfigTypeGrubLegacy \<Rightarrow>
                (case getLinuxCommandLineArgs (grubCfgContent b) of Inl e \<Rightarrow> Inl (BootGrubCfg e) | Inr (args, _) \<Rightarrow> Inr args)
            | bootConfigTypeUki \<Rightarrow>
                (case ukiCmdlines of Inl e \<Rightarrow> Inl e | Inr kernelToArgs \<Rightarrow> parseFirstCmdlineFromUkiMap kernelToArgs)) of
        Inl e \<Rightarrow> Inl e
      | Inr args \<Rightarrow> map_sum BootGrubCfg id (readMode args))"

text \<open>\<open>selinuxConfig\<close> is the text of the SELinux configuration file, \<open>None\<close> where it cannot be read.\<close>

definition GetSELinuxMode ::
  "(grubConfigLinuxArg list \<Rightarrow> grub_cfg_error + SELinuxMode) \<Rightarrow> boot_error + (string \<times> string) list \<Rightarrow> string option
     \<Rightarrow> BootCustomizer \<Rightarrow> boot_error + SELinuxMode" where
  "GetSELinuxMode readMode ukiCmdlines selinuxConfig b =
     (case getSELinuxModeFromCmdline readMode ukiCmdlines b of
        Inl e \<Rightarrow> Inl e
      | Inr m \<Rightarrow>
          if m \<noteq> SELinuxModeDefault then Inr m
          else (case selinuxConfig of
                  None \<Rightarrow> Inl SELinuxConfigUnreadable
                | Some text \<Rightarrow> map_sum BootSELinuxConfig id (getSELinuxModeFromConfigFile text)))"

text \<open>What a distribution contributes to \<open>handleSELinux\<close>: how it reads the mode from the arguments, whether it
  supports SELinux, and the update of its SELinux configuration file (its new text, or a failure).\<close>

record selinux_handler =
  shReadMode :: "grubConfigLinuxArg list \<Rightarrow> grub_cfg_error + SELinuxMode"
  shSupported :: bool
  shUpdateConfig :: "SELinuxMode \<Rightarrow> bool"

definition handleSELinux ::
  "selinux_handler \<Rightarrow> boot_io \<Rightarrow> boot_error + (string \<times> string) list \<Rightarrow> string option
     \<Rightarrow> string list option \<Rightarrow> string option \<Rightarrow> string \<Rightarrow> SELinuxMode \<Rightarrow> string \<Rightarrow> boot_files
     \<Rightarrow> (boot_error + SELinuxMode) \<times> boot_files" where
  "handleSELinux h io ukiCmdlines selinuxConfig ukiFiles uki buildDir selinuxMode resetType files =
     (case NewBootCustomizer files ukiFiles uki buildDir of
        Inl e \<Rightarrow> (Inl e, files)
      | Inr b \<Rightarrow>
          if selinuxMode = SELinuxModeDefault then (GetSELinuxMode (shReadMode h) ukiCmdlines selinuxConfig b, files)
          else if \<not> shSupported h then (Inl SELinuxNotSupported, files)
          else
            (case (if resetType = ''hard-reset'' then (None, files)
                   else (case UpdateSELinuxCommandLine io (b, files) selinuxMode of
                           (Some e, (_, files')) \<Rightarrow> (Some e, files')
                         | (None, st) \<Rightarrow> (case WriteToFile io st of (e, (_, files')) \<Rightarrow> (e, files')))) of
               (Some e, files') \<Rightarrow> (Inl e, files')
             | (None, files') \<Rightarrow>
                 if shUpdateConfig h selinuxMode then (Inr selinuxMode, files') else (Inl SELinuxConfigUpdateFailed, files')))"

section \<open>Runs\<close>

text \<open>The operations on a boot customizer, and the states they reach from one as long as they succeed.\<close>

inductive boot_step :: "boot_io \<Rightarrow> boot_state \<Rightarrow> boot_state \<Rightarrow> bool" for io where
  step_add: "AddKernelCommandLine io st args = (None, st') \<Longrightarrow> boot_step io st st'"
| step_update: "UpdateKernelCommandLineArgs io st var rm new = (None, st') \<Longrightarrow> boot_step io st st'"
| step_selinux: "UpdateSELinuxCommandLine io st m = (None, st') \<Longrightarrow> boot_step io st st'"
| step_selinux_emu: "UpdateSELinuxCommandLineForEMU io st m = (None, st') \<Longrightarrow> boot_step io st st'"
| step_verity: "PrepareForVerity st = (None, st') \<Longrightarrow> boot_step io st st'"
| step_root: "SetRootDevice st dev = (None, st') \<Longrightarrow> boot_step io st st'"

inductive boot_run :: "boot_io \<Rightarrow> boot_state \<Rightarrow> boot_state \<Rightarrow> bool" for io where
  run_refl: "boot_run io st st"
| run_step: "boot_run io st st' \<Longrightarrow> boot_step io st' st'' \<Longrightarrow> boot_run io st st''"

text \<open>What the operations leave alone.\<close>

definition kernels_of :: "boot_files \<Rightarrow> (string \<times> string) list option" where
  "kernels_of files = map_option (map (\<lambda>(k, i). (k, Initramfs i))) (file_kernelInfo files)"

definition uki_editable :: "BootCustomizer \<Rightarrow> bool" where
  "uki_editable b \<longleftrightarrow> bcConfigType b = bootConfigTypeUki \<and> (bcUkiMode b = ''modify'' \<or> bcUkiMode b = ''create'')"

definition boot_frame :: "boot_state \<Rightarrow> boot_state \<Rightarrow> bool" where
  "boot_frame st st' \<longleftrightarrow>
     (case (st, st') of ((b, files), (b', files')) \<Rightarrow>
        bcConfigType b' = bcConfigType b \<and> bcUkiMode b' = bcUkiMode b \<and> ukiKernelInfoPath b' = ukiKernelInfoPath b
        \<and> file_grubCfg files' = file_grubCfg files \<and> file_defaultGrub files' = file_defaultGrub files
        \<and> kernels_of files' = kernels_of files
        \<and> (bcConfigType b \<noteq> bootConfigTypeGrubLegacy \<longrightarrow> grubCfgContent b' = grubCfgContent b)
        \<and> (\<not> uki_editable b \<longrightarrow> files' = files))"

lemma boot_frame_refl: "boot_frame st st"
  by (cases st) (simp add: boot_frame_def)

lemma boot_frame_trans: "boot_frame st st' \<Longrightarrow> boot_frame st' st'' \<Longrightarrow> boot_frame st st''"
  by (cases st; cases st'; cases st'') (auto simp: boot_frame_def uki_editable_def)

lemma map_sum_Inr_iff: "map_sum f g r = Inr y \<longleftrightarrow> (\<exists>x. r = Inr x \<and> y = g x)"
  by (cases r) auto

lemma updateUkiCmdlines_kernels:
  "updateUkiCmdlines rm new info = Inr info' \<Longrightarrow>
     map (\<lambda>(k, i). (k, Initramfs i)) info' = map (\<lambda>(k, i). (k, Initramfs i)) info"
  by (induction rm new info arbitrary: info' rule: updateUkiCmdlines.induct)
    (auto simp: map_sum_Inr_iff split: sum.splits)

lemma writeUkiKernelInfoFile_frame:
  assumes "writeUkiKernelInfoFile io files info = (None, files')" "file_kernelInfo files = Some info0"
    and "map (\<lambda>(k, i). (k, Initramfs i)) info = map (\<lambda>(k, i). (k, Initramfs i)) info0"
  shows "file_grubCfg files' = file_grubCfg files \<and> file_defaultGrub files' = file_defaultGrub files
     \<and> kernels_of files' = kernels_of files"
  using assms by (auto simp: writeUkiKernelInfoFile_def kernels_of_def split: option.splits)

lemma appendToUkiCmdlineFile_frame:
  assumes "appendToUkiCmdlineFile io b files args = (None, files')"
  shows "file_grubCfg files' = file_grubCfg files \<and> file_defaultGrub files' = file_defaultGrub files
     \<and> kernels_of files' = kernels_of files"
proof -
  from assms obtain info where w: "file_kernelInfo files = Some info"
    "writeUkiKernelInfoFile io files (map (\<lambda>(kname, i). (kname, i\<lparr>Cmdline := TrimSpace (Cmdline i) @ '' '' @ args\<rparr>)) info) = (None, files')"
    by (auto simp: appendToUkiCmdlineFile_def readUkiKernelInfo_def split: sum.splits if_splits option.splits)
  show ?thesis by (rule writeUkiKernelInfoFile_frame [OF w(2,1)]) (simp add: case_prod_beta comp_def)
qed

lemma updateUkiCmdlineFile_frame:
  assumes "updateUkiCmdlineFile io b files rm new = (None, files')"
  shows "file_grubCfg files' = file_grubCfg files \<and> file_defaultGrub files' = file_defaultGrub files
     \<and> kernels_of files' = kernels_of files"
proof -
  from assms obtain info info' where w: "file_kernelInfo files = Some info" "updateUkiCmdlines rm new info = Inr info'"
    "writeUkiKernelInfoFile io files info' = (None, files')"
    by (auto simp: updateUkiCmdlineFile_def readUkiKernelInfo_def split: sum.splits if_splits option.splits)
  from writeUkiKernelInfoFile_frame [OF w(3,1) updateUkiCmdlines_kernels [OF w(2)]] show ?thesis .
qed

lemma uki_frame:
  assumes "map_prod id (Pair b) r = (None, st')" "bcConfigType b = bootConfigTypeUki" "bcUkiMode b = ''modify'' \<or> bcUkiMode b = ''create''"
    and "\<And>files'. r = (None, files') \<Longrightarrow> file_grubCfg files' = file_grubCfg files \<and> file_defaultGrub files' = file_defaultGrub files
     \<and> kernels_of files' = kernels_of files"
  shows "boot_frame (b, files) st'"
  using assms by (cases r) (auto simp: boot_frame_def uki_editable_def)

lemma with_frame:
  "with_defaultGrub st r = (None, st') \<Longrightarrow> boot_frame st st'"
  "with_grubCfg st r' = (None, st') \<Longrightarrow> bcConfigType (fst st) = bootConfigTypeGrubLegacy \<Longrightarrow> boot_frame st st'"
  by (cases st; auto simp: with_defaultGrub_def with_grubCfg_def boot_frame_def split: sum.splits)+

lemma UpdateKernelCommandLineArgs_frame:
  assumes "UpdateKernelCommandLineArgs io st var rm new = (None, st')"
  shows "boot_frame st st'"
proof (cases st)
  case (Pair b files)
  show ?thesis
  proof (cases "bcConfigType b")
    case bootConfigTypeUki
    with assms have m: "bcUkiMode b = ''modify''" "map_prod id (Pair b) (updateUkiCmdlineFile io b files rm new) = (None, st')"
      by (auto simp: UpdateKernelCommandLineArgs_def Pair split: if_splits)
    show ?thesis unfolding Pair
      by (rule uki_frame [OF m(2) bootConfigTypeUki]) (use m(1) updateUkiCmdlineFile_frame in simp_all)
  qed (use assms Pair in \<open>auto simp: UpdateKernelCommandLineArgs_def intro: with_frame\<close>)
qed

lemma AddKernelCommandLine_frame:
  assumes "AddKernelCommandLine io st args = (None, st')"
  shows "boot_frame st st'"
proof (cases st)
  case (Pair b files)
  show ?thesis
  proof (cases "args = []")
    case True
    with assms boot_frame_refl show ?thesis by (auto simp: AddKernelCommandLine_def split: prod.splits)
  next
    case False
    show ?thesis
    proof (cases "bcConfigType b")
      case bootConfigTypeUki
      with assms False have m: "bcUkiMode b = ''modify'' \<or> bcUkiMode b = ''create''"
        "map_prod id (Pair b) (appendToUkiCmdlineFile io b files (GrubArgsToString args)) = (None, st')"
        by (auto simp: AddKernelCommandLine_def Pair Let_def split: if_splits)
      show ?thesis unfolding Pair
        by (rule uki_frame [OF m(2) bootConfigTypeUki m(1)]) (rule appendToUkiCmdlineFile_frame)
    qed (use assms Pair False in \<open>auto simp: AddKernelCommandLine_def Let_def intro: with_frame\<close>)
  qed
qed

lemma boot_step_frame: "boot_step io st st' \<Longrightarrow> boot_frame st st'"
proof (induction rule: boot_step.induct)
  case (step_verity st st')
  then show ?case
    by (cases st) (auto simp: PrepareForVerity_def boot_frame_refl split: bootConfigType.splits sum.splits dest: with_frame(1))
qed (auto simp: UpdateSELinuxCommandLine_def UpdateSELinuxCommandLineForEMU_def SetRootDevice_def
      intro: AddKernelCommandLine_frame UpdateKernelCommandLineArgs_frame with_frame(1) split: sum.splits)

lemma boot_run_frame: "boot_run io st st' \<Longrightarrow> boot_frame st st'"
  by (induction rule: boot_run.induct) (auto intro: boot_frame_refl boot_frame_trans boot_step_frame)

text \<open>C32. Whatever operations succeed on a boot customizer, in any order, writing it touches only the files that belong
  to how the image boots. The boot type stays. An image that boots from a \<open>grub.cfg\<close> configured by hand has at most that
  file changed, and after a write that succeeds it is the edited text; the default file and the saved UKI command lines
  are as before. With \<open>grub-mkconfig\<close> the saved UKI command lines are as before, a failed write of the default file leaves
  \<open>grub.cfg\<close> alone, and after success the default file is the edited text and \<open>grub.cfg\<close> what \<open>grub-mkconfig\<close> makes of it.
  With UKIs both grub files are as before, writing never fails, nothing at all changes when the UKIs are passed through,
  and the kernels with their initramfs images are always the same.\<close>

theorem boot_run_writes:
  assumes "boot_run io (b, files) (b', files')" and "WriteToFile io (b', files') = (e, (b'', out))"
  shows "b'' = b' \<and> bcConfigType b' = bcConfigType b \<and> kernels_of out = kernels_of files
     \<and> (bcConfigType b = bootConfigTypeGrubLegacy \<longrightarrow>
          out = files\<lparr>file_grubCfg := file_grubCfg out\<rparr> \<and> (e = None \<longrightarrow> file_grubCfg out = grubCfgContent b'))
     \<and> (bcConfigType b = bootConfigTypeUki \<longrightarrow>
          e = None \<and> file_grubCfg out = file_grubCfg files \<and> file_defaultGrub out = file_defaultGrub files
          \<and> (bcUkiMode b \<noteq> ''modify'' \<and> bcUkiMode b \<noteq> ''create'' \<longrightarrow> out = files))
     \<and> (bcConfigType b = bootConfigTypeGrubMkconfig \<longrightarrow>
          file_kernelInfo out = file_kernelInfo files
          \<and> (e = Some DefaultGrubWriteFailed \<longrightarrow> file_grubCfg out = file_grubCfg files)
          \<and> (e = None \<longrightarrow> file_defaultGrub out = defaultGrubFileContent b'
               \<and> io_mkconfig io (defaultGrubFileContent b') (file_grubCfg files) = Inr (file_grubCfg out)))"
  using boot_run_frame [OF assms(1)] assms(2)
  by (cases "bcConfigType b")
    (auto simp: boot_frame_def uki_editable_def WriteToFile_def kernels_of_def Let_def split: option.splits sum.splits)

definition sample_boot :: BootCustomizer where
  "sample_boot = \<lparr>grubCfgContent = [], defaultGrubFileContent = [], bcConfigType = bootConfigTypeUki, bcUkiMode = ''modify'',
     ukiKernelInfoPath = ''/b/UkiBuildDir/uki-kernel-info.json''\<rparr>"

definition sample_files :: boot_files where
  "sample_files = \<lparr>file_grubCfg = [], file_defaultGrub = [],
     file_kernelInfo = Some [(''vmlinuz-6.6'', \<lparr>Cmdline = ''root=/dev/sda2'', Initramfs = ''initramfs-6.6.img''\<rparr>)]\<rparr>"

definition sample_io :: boot_io where
  "sample_io = \<lparr>io_defaultGrub = (\<lambda>_. None), io_grubCfg = (\<lambda>_. None), io_kernelInfo = (\<lambda>_. None), io_mkconfig = (\<lambda>d _. Inr d)\<rparr>"

theorem boot_run_writes_witness:
  "\<exists>b files. boot_run sample_io (sample_boot, sample_files) (b, files) \<and> file_kernelInfo files \<noteq> file_kernelInfo sample_files
     \<and> kernels_of (snd (snd (WriteToFile sample_io (b, files)))) = kernels_of sample_files"
proof -
  have t: "TrimSpace ''root=/dev/sda2'' = ''root=/dev/sda2''"
    by (rule TrimSpace_id_ascii) (simp_all add: IsSpace_def)
  obtain files where a: "AddKernelCommandLine sample_io (sample_boot, sample_files) [''quiet''] = (None, (sample_boot, files))"
    and n: "file_kernelInfo files \<noteq> file_kernelInfo sample_files"
    by (simp add: AddKernelCommandLine_def sample_boot_def sample_files_def sample_io_def appendToUkiCmdlineFile_def
        writeUkiKernelInfoFile_def readUkiKernelInfo_def t)
  have r: "boot_run sample_io (sample_boot, sample_files) (sample_boot, files)"
    by (rule run_step [OF run_refl step_add [OF a]])
  obtain e b'' out where w: "WriteToFile sample_io (sample_boot, files) = (e, (b'', out))" by (metis prod.exhaust)
  show ?thesis using boot_run_writes [OF r w] r n w by force
qed

end
