(* ===== verification/TargetOs.thy ===== *)
theory TargetOs
  imports GrubCfg
begin

text \<open>
  \<open>internal/version/version.go\<close>, \<open>internal/envfile/envfile.go\<close> and the pure part of
  \<open>internal/targetos/targetos.go\<close>: dotted version numbers, files of variable assignments such as
  \<open>os-release\<close>, and the distribution and version they name.
\<close>

section \<open>Versions\<close>

text \<open>A Go \<open>[]int\<close>; the parts of a parsed version are never negative.\<close>

type_synonym Version = "int list"

datatype version_error = VersionFormat string | VersionNumber num_error

definition basicVersionRegex_match :: "string \<Rightarrow> bool" where
  "basicVersionRegex_match s \<longleftrightarrow> list_all (\<lambda>p. p \<noteq> [] \<and> list_all is_digit p) (Split s CHR ''.'')"

fun parseParts :: "string list \<Rightarrow> version_error + Version" where
  "parseParts [] = Inr []"
| "parseParts (p # ps) =
     (case Atoi p of
        Inl e \<Rightarrow> Inl (VersionNumber e)
      | Inr n \<Rightarrow> (case parseParts ps of Inl e \<Rightarrow> Inl e | Inr ns \<Rightarrow> Inr (n # ns)))"

definition ParseBasicVersion :: "string \<Rightarrow> version_error + Version" where
  "ParseBasicVersion s =
     (if \<not> basicVersionRegex_match s then Inl (VersionFormat s) else parseParts (Split s CHR ''.''))"

text \<open>\<open>v[i]\<close>, or 0 past the end.\<close>

definition part :: "Version \<Rightarrow> nat \<Rightarrow> int" where
  "part v i = (if i < length v then v ! i else 0)"

fun cmpLoop :: "Version \<Rightarrow> Version \<Rightarrow> nat list \<Rightarrow> int" where
  "cmpLoop v other [] = 0"
| "cmpLoop v other (i # is) =
     (if part v i > part other i then 1 else if part v i < part other i then - 1 else cmpLoop v other is)"

definition Cmp :: "Version \<Rightarrow> Version \<Rightarrow> int" where
  "Cmp v other = cmpLoop v other [0..<max (length v) (length other)]"

definition Gt :: "Version \<Rightarrow> Version \<Rightarrow> bool" where "Gt v other \<longleftrightarrow> Cmp v other > 0"
definition Ge :: "Version \<Rightarrow> Version \<Rightarrow> bool" where "Ge v other \<longleftrightarrow> Cmp v other \<ge> 0"
definition Lt :: "Version \<Rightarrow> Version \<Rightarrow> bool" where "Lt v other \<longleftrightarrow> Cmp v other < 0"
definition Le :: "Version \<Rightarrow> Version \<Rightarrow> bool" where "Le v other \<longleftrightarrow> Cmp v other \<le> 0"
definition Eq :: "Version \<Rightarrow> Version \<Rightarrow> bool" where "Eq v other \<longleftrightarrow> Cmp v other = 0"

definition Version_String :: "Version \<Rightarrow> string" where
  "Version_String v = join ''.'' (map int_dec v)"

section \<open>Environment files\<close>

datatype env_error =
    EnvTokenize token_error | MultipleWords SourceLoc | NotAssignment SourceLoc | InvalidCharacters SourceLoc
  | PanicNoSubWords

fun envValue :: "SubWord list \<Rightarrow> env_error + string" where
  "envValue [] = Inr []"
| "envValue (w # ws) =
     (if swType w = KEYWORD_STRING \<or> swType w = STRING
      then (case envValue ws of Inl e \<Rightarrow> Inl e | Inr v \<Rightarrow> Inr (swValue w @ v))
      else Inl (InvalidCharacters (Start (swLoc w))))"

text \<open>The condition on the first word is the source's: \<open>&&\<close> where the comment before it calls for \<open>||\<close>.
  Indexing the sub-words of a token that has none panics.\<close>

definition envLine :: "GrubLine \<Rightarrow> env_error + (string \<times> string)" where
  "envLine line =
     (if length (Tokens line) > 2 then Inl (MultipleWords (Start (tokLoc (Tokens line ! 1))))
      else
        let token = Tokens line ! 0 in
        (case SubWords token of
           [] \<Rightarrow> Inl PanicNoSubWords
         | first # words \<Rightarrow>
             if tokType token \<noteq> WORD \<and> swType first \<noteq> KEYWORD_STRING then Inl (NotAssignment (Start (tokLoc token)))
             else
               (case Cut (swValue first) CHR ''='' of
                  (name, value, foundEq) \<Rightarrow>
                    if \<not> foundEq then Inl (NotAssignment (Start (tokLoc token)))
                    else (case envValue words of Inl e \<Rightarrow> Inl e | Inr v \<Rightarrow> Inr (name, value @ v)))))"

fun envLines :: "GrubLine list \<Rightarrow> (string \<rightharpoonup> string) \<Rightarrow> env_error + (string \<rightharpoonup> string)" where
  "envLines [] result = Inr result"
| "envLines (line # ls) result =
     (case envLine line of Inl e \<Rightarrow> Inl e | Inr (name, value) \<Rightarrow> envLines ls (result(name \<mapsto> value)))"

definition ParseEnv :: "string \<Rightarrow> env_error + (string \<rightharpoonup> string)" where
  "ParseEnv content =
     (case TokenizeConfig content of
        (toks, Some e) \<Rightarrow> Inl (EnvTokenize e)
      | (toks, None) \<Rightarrow> envLines (SplitTokensIntoLines toks) Map.empty)"

section \<open>Distributions\<close>

type_synonym Distro = string

definition AzureLinux :: Distro where "AzureLinux = ''azurelinux''"
definition AzureContainerLinux :: Distro where "AzureContainerLinux = ''azurecontainerlinux''"
definition Fedora :: Distro where "Fedora = ''fedora''"
definition Ubuntu :: Distro where "Ubuntu = ''ubuntu''"

record TargetOs =
  tosDistro :: Distro
  VersionId :: string
  tosVersion :: "Version option"

text \<open>The version is nil when the text is no version.\<close>

definition versionOrNil :: "string \<Rightarrow> Version option" where
  "versionOrNil s = (case ParseBasicVersion s of Inl e \<Rightarrow> None | Inr v \<Rightarrow> Some v)"

definition NewTargetOs :: "Distro \<Rightarrow> string \<Rightarrow> TargetOs" where
  "NewTargetOs d versionId = \<lparr>tosDistro = d, VersionId = versionId, tosVersion = versionOrNil versionId\<rparr>"

definition cleanAclVersionId :: "string \<Rightarrow> Version option \<Rightarrow> string" where
  "cleanAclVersionId versionId version =
     (case version of None \<Rightarrow> versionId | Some v \<Rightarrow> Version_String (take 2 v))"

text \<open>Reading a missing key of a Go map gives the empty string.\<close>

definition env_get :: "(string \<rightharpoonup> string) \<Rightarrow> string \<Rightarrow> string" where
  "env_get env k = (case env k of None \<Rightarrow> [] | Some v \<Rightarrow> v)"

definition GetInstalledTargetOsFromEnvFields :: "(string \<rightharpoonup> string) \<Rightarrow> string + TargetOs" where
  "GetInstalledTargetOsFromEnvFields env =
     (let distroId = env_get env ''ID'';
          versionId = env_get env ''VERSION_ID'';
          version = versionOrNil versionId;
          result = (\<lambda>d vid. Inr \<lparr>tosDistro = d, VersionId = vid, tosVersion = version\<rparr>)
      in if distroId = ''mariner'' then result AzureLinux versionId
         else if distroId = ''azurelinux''
         then (if env_get env ''VARIANT_ID'' = ''azurecontainerlinux''
               then result AzureContainerLinux (cleanAclVersionId versionId version)
               else result AzureLinux versionId)
         else if distroId = ''fedora'' then result Fedora versionId
         else if distroId = ''ubuntu'' then result Ubuntu versionId
         else Inl distroId)"

datatype target_os_error = ReleaseFileMissing | ReleaseFileError string env_error | UnknownId string

text \<open>The root file system: the content of a path, or nothing where there is no file.\<close>

definition OsReleaseFileCandidates :: "string list" where
  "OsReleaseFileCandidates = [''/etc/os-release'', ''/usr/lib/os-release'']"

fun firstEnvFile :: "(string \<rightharpoonup> string) \<Rightarrow> string list \<Rightarrow> target_os_error + (string \<rightharpoonup> string)" where
  "firstEnvFile fs [] = Inl ReleaseFileMissing"
| "firstEnvFile fs (candidate # cs) =
     (case fs candidate of
        None \<Rightarrow> firstEnvFile fs cs
      | Some content \<Rightarrow>
          (case ParseEnv content of Inl e \<Rightarrow> Inl (ReleaseFileError candidate e) | Inr env \<Rightarrow> Inr env))"

definition GetInstalledTargetOs :: "(string \<rightharpoonup> string) \<Rightarrow> target_os_error + TargetOs" where
  "GetInstalledTargetOs fs =
     (case firstEnvFile fs OsReleaseFileCandidates of
        Inl e \<Rightarrow> Inl e
      | Inr env \<Rightarrow>
          (case GetInstalledTargetOsFromEnvFields env of Inl d \<Rightarrow> Inl (UnknownId d) | Inr t \<Rightarrow> Inr t))"

section \<open>Comparing versions\<close>

text \<open>The reference: versions padded with zeros to the same length, compared lexicographically.\<close>

definition pad :: "nat \<Rightarrow> Version \<Rightarrow> Version" where
  "pad n v = v @ replicate (n - length v) 0"

lemma length_pad [simp]: "length v \<le> n \<Longrightarrow> length (pad n v) = n"
  by (simp add: pad_def)

lemma nth_pad: "i < n \<Longrightarrow> pad n v ! i = part v i"
  by (auto simp: pad_def part_def nth_append)

lemma cmpLoop_values: "cmpLoop v w is \<in> {- 1, 0, 1}"
  by (induction "is") auto

lemma cmpLoop_swap: "cmpLoop w v is = - cmpLoop v w is"
  by (induction "is") auto

lemma cmpLoop_zero: "cmpLoop v w is = 0 \<longleftrightarrow> (\<forall>i \<in> set is. part v i = part w i)"
  by (induction "is") auto

lemma cmpLoop_less:
  "cmpLoop v w is = - 1 \<longleftrightarrow> (map (part v) is, map (part w) is) \<in> lexord {(a, b). a < b}"
  by (induction "is") auto

lemma map_part_pad: "length v \<le> n \<Longrightarrow> map (part v) [0..<n] = pad n v"
  by (intro nth_equalityI) (simp_all add: nth_pad)

definition common :: "Version \<Rightarrow> Version \<Rightarrow> nat" where
  "common v w = max (length v) (length w)"

text \<open>Versions compare as the lists of their parts, padded with zeros to the same length, compare
  lexicographically; equal means equal after padding, and swapping the arguments negates the result.\<close>

theorem Cmp_lexicographic:
  "(Lt v w \<longleftrightarrow> (pad (common v w) v, pad (common v w) w) \<in> lexord {(a, b). a < b})
   \<and> (Eq v w \<longleftrightarrow> pad (common v w) v = pad (common v w) w)
   \<and> (Gt v w \<longleftrightarrow> Lt w v) \<and> (Ge v w \<longleftrightarrow> \<not> Lt v w) \<and> (Le v w \<longleftrightarrow> \<not> Gt v w)"
proof -
  let ?is = "[0..<common v w]"
  have c: "Cmp v w = cmpLoop v w ?is" "Cmp w v = cmpLoop w v ?is"
    by (simp_all add: Cmp_def common_def max.commute)
  have p: "map (part v) ?is = pad (common v w) v" "map (part w) ?is = pad (common v w) w"
    by (rule map_part_pad, simp add: common_def)+
  have "Lt v w \<longleftrightarrow> cmpLoop v w ?is = - 1" using cmpLoop_values [of v w ?is] by (auto simp: Lt_def c)
  then have "Lt v w \<longleftrightarrow> (pad (common v w) v, pad (common v w) w) \<in> lexord {(a, b). a < b}"
    by (simp only: cmpLoop_less p)
  moreover have "Eq v w \<longleftrightarrow> map (part v) ?is = map (part w) ?is" by (simp add: Eq_def c cmpLoop_zero)
  moreover have "Gt v w \<longleftrightarrow> Lt w v" using cmpLoop_swap [of w v ?is] by (simp add: Gt_def Lt_def c)
  moreover have "Ge v w \<longleftrightarrow> \<not> Lt v w" "Le v w \<longleftrightarrow> \<not> Gt v w" by (auto simp: Ge_def Lt_def Le_def Gt_def)
  ultimately show ?thesis unfolding p by blast
qed

lemma int_dec_digits:
  assumes "0 \<le> i"
  shows "int_dec i \<noteq> [] \<and> list_all is_digit (int_dec i) \<and> CHR ''.'' \<notin> set (int_dec i)"
proof -
  have e: "int_dec i = nat_dec (nat i)" using assms by (simp add: int_dec_def)
  have "\<not> is_digit CHR ''.''" by (simp add: is_digit_def)
  then show ?thesis unfolding e list_all_iff using nat_dec_digits by auto
qed

lemma parseParts_int_dec:
  "list_all (\<lambda>i. 0 \<le> i \<and> i < 2 ^ 63) v \<Longrightarrow> parseParts (map int_dec v) = Inr v"
proof (induction v)
  case (Cons i v)
  then have "Atoi (int_dec i) = Inr i" by (intro Atoi_int_dec) auto
  with Cons show ?case by simp
qed simp

text \<open>A version printed by \<open>String\<close> parses back to itself.\<close>

theorem ParseBasicVersion_String:
  assumes "v \<noteq> []" "list_all (\<lambda>i. 0 \<le> i \<and> i < 2 ^ 63) v"
  shows "ParseBasicVersion (Version_String v) = Inr v"
proof -
  have s: "Split (Version_String v) CHR ''.'' = map int_dec v"
    unfolding Version_String_def
    by (rule Split_join) (use assms int_dec_digits in \<open>auto simp: list_all_iff\<close>)
  have "basicVersionRegex_match (Version_String v)"
    unfolding basicVersionRegex_match_def s using assms(2) int_dec_digits by (fastforce simp: list_all_iff)
  then show ?thesis using parseParts_int_dec [OF assms(2)] by (simp add: ParseBasicVersion_def s)
qed

theorem ParseBasicVersion_String_witness: "ParseBasicVersion (Version_String [3, 0, 20260421]) = Inr [3, 0, 20260421]"
  by (rule ParseBasicVersion_String) simp_all

text \<open>A second word on a line of an environment file is silently dropped, although only a line of one
  word is an assignment: \<open>A=1 B=2\<close> is read as the assignment of 1 to A. And a line that starts with a
  metacharacter panics.\<close>

theorem ParseEnv_second_word:
  "ParseEnv ''A=1 B=2'' = Inr (Map.empty(''A'' \<mapsto> ''1'')) \<and> ParseEnv ''{'' = Inl PanicNoSubWords"
  by (simp add: ParseEnv_def tokenize_eval SplitTokensIntoLines_def appendNewLine_def envLine_def Let_def char_of_def bit_0)

end
