(* ===== verification/UserFiles.thy ===== *)
theory UserFiles
  imports GoStrings MathUtils
begin

text \<open>
  \<open>internal/userutils\<close>: reading \<open>/etc/passwd\<close>, \<open>/etc/group\<close> and \<open>/etc/shadow\<close>, looking entries up, and
  replacing a user's password in the shadow file. A file is its content; \<open>file.ReadLines\<close> is
  modelled with the limit of \<open>bufio.Scanner\<close>, which refuses a line of 64 KiB.
\<close>

section \<open>Lines of a file\<close>

definition drop_cr :: "string \<Rightarrow> string" where
  "drop_cr l = (if l \<noteq> [] \<and> last l = CHR 0x0D then butlast l else l)"

definition raw_lines :: "string \<Rightarrow> string list" where
  "raw_lines content =
     (let ws = Split content CHR 0x0A in if last ws = [] then butlast ws else ws)"

definition scanLines :: "string \<Rightarrow> string list" where
  "scanLines content = map drop_cr (raw_lines content)"

datatype user_file_error =
    ShadowFileUnreadable | ShadowFileWriteFailed |
    LineTooLong | FieldCount nat nat | InvalidNumber nat string num_error | InvalidLine nat user_file_error
  | EntryNotFound string

definition ReadLines :: "string \<Rightarrow> user_file_error + string list" where
  "ReadLines content =
     (if list_ex (\<lambda>l. length l \<ge> 64 * 1024) (raw_lines content) then Inl LineTooLong else Inr (scanLines content))"

text \<open>The loop that parses every line.\<close>

fun parseLines :: "(string \<Rightarrow> user_file_error + 'a) \<Rightarrow> nat \<Rightarrow> string list \<Rightarrow> user_file_error + 'a list" where
  "parseLines parse i [] = Inr []"
| "parseLines parse i (line # ls) =
     (case parse line of
        Inl e \<Rightarrow> Inl (InvalidLine i e)
      | Inr entry \<Rightarrow>
          (case parseLines parse (Suc i) ls of Inl e \<Rightarrow> Inl e | Inr entries \<Rightarrow> Inr (entry # entries)))"

definition parseField :: "string list \<Rightarrow> nat \<Rightarrow> user_file_error + int" where
  "parseField fields i = (case Atoi (fields ! i) of Inl e \<Rightarrow> Inl (InvalidNumber i (fields ! i) e) | Inr n \<Rightarrow> Inr n)"

section \<open>The passwd file\<close>

record PasswdEntry =
  pwdName :: string
  pwdUid :: int
  pwdGid :: int
  pwdDescription :: string
  pwdHomeDirectory :: string
  pwdShell :: string

definition parsePasswdFileEntry :: "string \<Rightarrow> user_file_error + PasswdEntry" where
  "parsePasswdFileEntry line =
     (let fields = Split line CHR '':'' in
      if length fields \<noteq> 7 then Inl (FieldCount (length fields) 7)
      else (case parseField fields 2 of
              Inl e \<Rightarrow> Inl e
            | Inr uid \<Rightarrow>
                (case parseField fields 3 of
                   Inl e \<Rightarrow> Inl e
                 | Inr gid \<Rightarrow>
                     Inr \<lparr>pwdName = fields ! 0, pwdUid = uid, pwdGid = gid, pwdDescription = fields ! 4,
                          pwdHomeDirectory = fields ! 5, pwdShell = fields ! 6\<rparr>)))"

definition parsePasswdFile :: "string list \<Rightarrow> user_file_error + PasswdEntry list" where
  "parsePasswdFile = parseLines parsePasswdFileEntry 0"

definition ReadPasswdFile :: "string \<Rightarrow> user_file_error + PasswdEntry list" where
  "ReadPasswdFile content = (case ReadLines content of Inl e \<Rightarrow> Inl e | Inr ls \<Rightarrow> parsePasswdFile ls)"

definition GetPasswdFileEntryForUser :: "string \<Rightarrow> string \<Rightarrow> user_file_error + PasswdEntry" where
  "GetPasswdFileEntryForUser content user =
     (case ReadPasswdFile content of
        Inl e \<Rightarrow> Inl e
      | Inr entries \<Rightarrow>
          (case FindValueFunc entries (\<lambda>e. pwdName e = user) of None \<Rightarrow> Inl (EntryNotFound user) | Some e \<Rightarrow> Inr e))"

definition UserHomeDirectory :: "string \<Rightarrow> string \<Rightarrow> user_file_error + string" where
  "UserHomeDirectory content user =
     (case GetPasswdFileEntryForUser content user of Inl e \<Rightarrow> Inl e | Inr e \<Rightarrow> Inr (pwdHomeDirectory e))"

section \<open>The group file\<close>

record GroupEntry =
  geName :: string
  gePassword :: string
  geGID :: int
  UserList :: "string list"

definition parseGroupFileEntry :: "string \<Rightarrow> user_file_error + GroupEntry" where
  "parseGroupFileEntry line =
     (let fields = Split line CHR '':'' in
      if length fields \<noteq> 4 then Inl (FieldCount (length fields) 4)
      else (case parseField fields 2 of
              Inl e \<Rightarrow> Inl e
            | Inr gid \<Rightarrow>
                Inr \<lparr>geName = fields ! 0, gePassword = fields ! 1, geGID = gid,
                     UserList = Split (fields ! 3) CHR '',''\<rparr>))"

definition parseGroupFile :: "string list \<Rightarrow> user_file_error + GroupEntry list" where
  "parseGroupFile = parseLines parseGroupFileEntry 0"

definition ReadGroupFile :: "string \<Rightarrow> user_file_error + GroupEntry list" where
  "ReadGroupFile content = (case ReadLines content of Inl e \<Rightarrow> Inl e | Inr ls \<Rightarrow> parseGroupFile ls)"

definition GetUserGroups :: "string \<Rightarrow> string \<Rightarrow> user_file_error + string list" where
  "GetUserGroups content username =
     (case ReadGroupFile content of
        Inl e \<Rightarrow> Inl e
      | Inr groups \<Rightarrow> Inr (map geName (filter (\<lambda>g. ContainsValue (UserList g) username) groups)))"

definition GetGroupEntry :: "string \<Rightarrow> string \<Rightarrow> user_file_error + GroupEntry" where
  "GetGroupEntry content name =
     (case ReadGroupFile content of
        Inl e \<Rightarrow> Inl e
      | Inr entries \<Rightarrow>
          (case FindValueFunc entries (\<lambda>e. geName e = name) of None \<Rightarrow> Inl (EntryNotFound name) | Some e \<Rightarrow> Inr e))"

section \<open>The shadow file\<close>

record ShadowEntry =
  shName :: string
  EncryptedPassword :: string
  LastPasswordChange :: "int option"
  MinPasswordAge :: "int option"
  MaxPasswordAge :: "int option"
  PasswordWarningPeriod :: "int option"
  PasswordInactivityPeriod :: "int option"
  AccountExpirationDate :: "int option"

definition parseOptionalInt :: "string \<Rightarrow> num_error + int option" where
  "parseOptionalInt value =
     (if value = [] then Inr None else (case Atoi value of Inl e \<Rightarrow> Inl e | Inr a \<Rightarrow> Inr (Some a)))"

fun parseOptionalInts :: "nat \<Rightarrow> string list \<Rightarrow> user_file_error + int option list" where
  "parseOptionalInts i [] = Inr []"
| "parseOptionalInts i (v # vs) =
     (case parseOptionalInt v of
        Inl e \<Rightarrow> Inl (InvalidNumber i v e)
      | Inr n \<Rightarrow> (case parseOptionalInts (Suc i) vs of Inl e \<Rightarrow> Inl e | Inr ns \<Rightarrow> Inr (n # ns)))"

definition parseShadowFileEntry :: "string \<Rightarrow> user_file_error + ShadowEntry" where
  "parseShadowFileEntry line =
     (let fields = Split line CHR '':'' in
      if length fields \<noteq> 9 then Inl (FieldCount (length fields) 9)
      else (case parseOptionalInts 2 (take 6 (drop 2 fields)) of
              Inl e \<Rightarrow> Inl e
            | Inr ns \<Rightarrow>
                Inr \<lparr>shName = fields ! 0, EncryptedPassword = fields ! 1, LastPasswordChange = ns ! 0,
                     MinPasswordAge = ns ! 1, MaxPasswordAge = ns ! 2, PasswordWarningPeriod = ns ! 3,
                     PasswordInactivityPeriod = ns ! 4, AccountExpirationDate = ns ! 5\<rparr>))"

definition parseShadowFile :: "string list \<Rightarrow> user_file_error + ShadowEntry list" where
  "parseShadowFile = parseLines parseShadowFileEntry 0"

definition ReadShadowFile :: "string \<Rightarrow> user_file_error + ShadowEntry list" where
  "ReadShadowFile content = (case ReadLines content of Inl e \<Rightarrow> Inl e | Inr ls \<Rightarrow> parseShadowFile ls)"

definition GetShadowFileEntryForUser :: "string \<Rightarrow> string \<Rightarrow> user_file_error + ShadowEntry" where
  "GetShadowFileEntryForUser content user =
     (case ReadShadowFile content of
        Inl e \<Rightarrow> Inl e
      | Inr entries \<Rightarrow>
          (case FindValueFunc entries (\<lambda>e. shName e = user) of None \<Rightarrow> Inl (EntryNotFound user) | Some e \<Rightarrow> Inr e))"

text \<open>\<open>(?m)^user:[^:]*:\<close>, with the name taken literally: the text before and after the first match. As in
  Go, the characters between the colons may include a newline.\<close>

definition matchUserEntry :: "string \<Rightarrow> string \<Rightarrow> string option" where
  "matchUserEntry username s =
     (if HasPrefix s (username @ '':'')
      then (case Cut (drop (length username + 1) s) CHR '':'' of (_, after, found) \<Rightarrow> if found then Some after else None)
      else None)"

fun findUserEntry :: "string \<Rightarrow> bool \<Rightarrow> string \<Rightarrow> (string \<times> string) option" where
  "findUserEntry username bol [] = None"
| "findUserEntry username bol (c # s) =
     (case (if bol then matchUserEntry username (c # s) else None) of
        Some after \<Rightarrow> Some ([], after)
      | None \<Rightarrow> map_option (\<lambda>(before, after). (c # before, after)) (findUserEntry username (c = CHR 0x0A) s))"

definition newShadowFile :: "string \<Rightarrow> string \<Rightarrow> string \<Rightarrow> user_file_error + string" where
  "newShadowFile shadowFile username hashedPassword =
     (let hashedPassword = (if hashedPassword = [] then ''*'' else hashedPassword) in
      (case findUserEntry username True shadowFile of
         None \<Rightarrow> Inl (EntryNotFound username)
       | Some (before, after) \<Rightarrow> Inr (before @ username @ '':'' @ hashedPassword @ '':'' @ after)))"

text \<open>The file, \<open>None\<close> when it cannot be read, is read and written. \<open>write\<close> says whether writing a content succeeds
  (\<open>None\<close>) or fails, and what a failed write leaves in the file.\<close>

definition UpdateUserPassword ::
  "(string \<Rightarrow> string option) \<Rightarrow> string option \<Rightarrow> string \<Rightarrow> string \<Rightarrow> user_file_error option \<times> string option" where
  "UpdateUserPassword write file username hashedPassword =
     (case file of
        None \<Rightarrow> (Some ShadowFileUnreadable, None)
      | Some shadowFile \<Rightarrow>
          (case newShadowFile shadowFile username hashedPassword of
             Inl e \<Rightarrow> (Some e, file)
           | Inr new \<Rightarrow>
               (case write new of
                  None \<Rightarrow> (None, Some new)
                | Some left \<Rightarrow> (Some ShadowFileWriteFailed, Some left))))"

section \<open>Replacing a password, line by line\<close>

text \<open>The reference: the first line of the user gets the new password field.\<close>

definition name_field :: "string \<Rightarrow> string" where
  "name_field w = fst (Cut w CHR '':'')"

definition set_password :: "string \<Rightarrow> string \<Rightarrow> string" where
  "set_password pw w =
     (case Cut w CHR '':'' of (name, w1, _) \<Rightarrow>
        (case Cut w1 CHR '':'' of (_, after, _) \<Rightarrow> name @ '':'' @ pw @ '':'' @ after))"

definition two_colons :: "string \<Rightarrow> bool" where
  "two_colons w \<longleftrightarrow> (\<exists>n p r. w = n @ '':'' @ p @ '':'' @ r \<and> CHR '':'' \<notin> set n \<and> CHR '':'' \<notin> set p)"

fun update_lines :: "string \<Rightarrow> string \<Rightarrow> string list \<Rightarrow> string list" where
  "update_lines u pw [] = []"
| "update_lines u pw (w # ws) =
     (if w \<noteq> [] \<and> name_field w = u then set_password pw w # ws else w # update_lines u pw ws)"

lemma two_colons_E:
  assumes "two_colons w"
  obtains n p r where "w = n @ CHR '':'' # p @ CHR '':'' # r" "CHR '':'' \<notin> set n" "CHR '':'' \<notin> set p"
    "name_field w = n" "\<And>pw. set_password pw w = n @ CHR '':'' # pw @ CHR '':'' # r"
proof -
  obtain n p r where w: "w = n @ CHR '':'' # p @ CHR '':'' # r" "CHR '':'' \<notin> set n" "CHR '':'' \<notin> set p"
    using assms by (auto simp: two_colons_def)
  have "Cut w CHR '':'' = (n, p @ CHR '':'' # r, True)" using Cut_append_sep [OF w(2)] w(1) by simp
  moreover have "Cut (p @ CHR '':'' # r) CHR '':'' = (p, r, True)" using Cut_append_sep [OF w(3)] by simp
  ultimately show thesis using that [OF w] by (simp add: name_field_def set_password_def)
qed

lemma findUserEntry_skip:
  "CHR 0x0A \<notin> set l \<Longrightarrow>
    findUserEntry u False (l @ x) = map_option (\<lambda>(b, a). (l @ b, a)) (findUserEntry u False x)"
  by (induction l) (auto simp: option.map_comp comp_def split_def option.map_ident)

lemma findUserEntry_newline:
  "findUserEntry u False (CHR 0x0A # x) = map_option (\<lambda>(b, a). (CHR 0x0A # b, a)) (findUserEntry u True x)"
  by simp

lemma findUserEntry_no_match:
  assumes "CHR 0x0A \<notin> set l" "l = [] \<or> matchUserEntry u (l @ x) = None" "l = [] \<longrightarrow> matchUserEntry u x = None"
    "x = [] \<or> hd x = CHR 0x0A"
  shows "findUserEntry u True (l @ x) =
    (case x of [] \<Rightarrow> None | c # x' \<Rightarrow> map_option (\<lambda>(b, a). (l @ CHR 0x0A # b, a)) (findUserEntry u True x'))"
proof -
  have f: "findUserEntry u False (l' @ x) =
    (case x of [] \<Rightarrow> None | c # x' \<Rightarrow> map_option (\<lambda>(b, a). (l' @ CHR 0x0A # b, a)) (findUserEntry u True x'))"
    if "CHR 0x0A \<notin> set l'" for l'
    using findUserEntry_skip [OF that, of u x] assms(4)
    by (cases x) (auto simp: findUserEntry_newline option.map_comp comp_def split_def)
  show ?thesis
  proof (cases l)
    case Nil
    then show ?thesis using assms(3,4) by (cases x) (auto simp: option.map_comp comp_def split_def)
  next
    case (Cons c l')
    then have "findUserEntry u True (l @ x) = map_option (\<lambda>(b, a). (c # b, a)) (findUserEntry u False (l' @ x))"
      using assms(1,2) by auto
    then show ?thesis using f [of l'] Cons assms(1)
      by (cases x) (auto simp: option.map_comp comp_def split_def)
  qed
qed

lemma matchUserEntry_line:
  assumes "CHR '':'' \<notin> set n" "CHR '':'' \<notin> set p" "CHR '':'' \<notin> set u"
  shows "matchUserEntry u (n @ CHR '':'' # p @ CHR '':'' # r) = (if n = u then Some r else None)"
proof (cases "n = u")
  case True
  then show ?thesis using Cut_append_sep [OF assms(2), of r] by (simp add: matchUserEntry_def)
next
  case False
  have "\<not> prefix (u @ '':'') (n @ CHR '':'' # p @ CHR '':'' # r)"
  proof
    assume "prefix (u @ '':'') (n @ CHR '':'' # p @ CHR '':'' # r)"
    then obtain z where "n @ CHR '':'' # p @ CHR '':'' # r = u @ CHR '':'' # z" by (auto simp: prefix_def)
    then show False
      using Cut_append_sep [OF assms(1), of "p @ CHR '':'' # r"] Cut_append_sep [OF assms(3), of z] False by simp
  qed

  then show ?thesis using False by (simp add: matchUserEntry_def)
qed

lemma matchUserEntry_newline:
  assumes "CHR 0x0A \<notin> set u" "x = [] \<or> hd x = CHR 0x0A"
  shows "matchUserEntry u x = None"
  using assms by (cases u; cases x) (auto simp: matchUserEntry_def)

lemma findUserEntry_lines:
  assumes "\<forall>w \<in> set ws. CHR 0x0A \<notin> set w \<and> (w = [] \<or> two_colons w)" "CHR '':'' \<notin> set u" "CHR 0x0A \<notin> set u"
  shows "case findUserEntry u True (join [CHR 0x0A] ws) of
      None \<Rightarrow> \<forall>w \<in> set ws. w \<noteq> [] \<longrightarrow> name_field w \<noteq> u
    | Some (before, after) \<Rightarrow> (\<exists>w \<in> set ws. w \<noteq> [] \<and> name_field w = u)
        \<and> before @ u @ '':'' @ pw @ '':'' @ after = join [CHR 0x0A] (update_lines u pw ws)"
  using assms(1)
proof (induction ws)
  case (Cons w ws)
  define x where "x = (case ws of [] \<Rightarrow> [] | _ \<Rightarrow> CHR 0x0A # join [CHR 0x0A] ws)"
  have j: "join [CHR 0x0A] (v # ws) = v @ x" for v by (cases ws) (simp_all add: x_def)
  have j': "ws \<noteq> [] \<Longrightarrow> join [CHR 0x0A] (v # update_lines u pw ws) = v @ CHR 0x0A # join [CHR 0x0A] (update_lines u pw ws)" for v
    by (cases ws) simp_all
  have x: "x = [] \<or> hd x = CHR 0x0A" by (cases ws) (simp_all add: x_def)
  show ?case
  proof (cases "w \<noteq> [] \<and> name_field w = u")
    case True
    then have "two_colons w" using Cons.prems by simp
    then obtain p r where w: "w = u @ CHR '':'' # p @ CHR '':'' # r" "CHR '':'' \<notin> set u" "CHR '':'' \<notin> set p"
      "set_password pw w = u @ CHR '':'' # pw @ CHR '':'' # r" using True by (metis two_colons_E)
    have "matchUserEntry u (w @ x) = Some (r @ x)"
      using matchUserEntry_line [OF w(2,3,2), of "r @ x"] w(1) by simp
    moreover obtain c w' where "w = c # w'" using True by (cases w) auto
    ultimately have "findUserEntry u True (w @ x) = Some ([], r @ x)" by simp
    then show ?thesis using True j [of "set_password pw w"] w(4) by (auto simp: j)
  next
    case False
    have "w = [] \<or> matchUserEntry u (w @ x) = None"
    proof (cases "w = []")
      case False
      then have "two_colons w" using Cons.prems by simp
      then obtain n p r where w: "w = n @ CHR '':'' # p @ CHR '':'' # r" "CHR '':'' \<notin> set n" "CHR '':'' \<notin> set p"
        "name_field w = n" by (metis two_colons_E)
      then show ?thesis
        using matchUserEntry_line [OF w(2,3) assms(2), of "r @ x"] \<open>\<not> (w \<noteq> [] \<and> name_field w = u)\<close> False by simp
    qed simp
    then have f: "findUserEntry u True (w @ x) =
      (case x of [] \<Rightarrow> None | c # x' \<Rightarrow> map_option (\<lambda>(b, a). (w @ CHR 0x0A # b, a)) (findUserEntry u True x'))"
      using findUserEntry_no_match [of w u x] Cons.prems matchUserEntry_newline [OF assms(3) x] x by simp
    show ?thesis
    proof (cases ws)
      case Nil
      then show ?thesis using False f by (auto simp: x_def j)
    next
      case (Cons v vs)
      then have "x = CHR 0x0A # join [CHR 0x0A] ws" by (simp add: x_def)
      then show ?thesis
        using Cons.IH Cons.prems False f j' Cons by (auto simp: j split: option.splits)
    qed
  qed
qed simp

section \<open>Replacing a password, entry by entry\<close>

fun update_entries :: "string \<Rightarrow> string \<Rightarrow> ShadowEntry list \<Rightarrow> ShadowEntry list" where
  "update_entries u pw [] = []"
| "update_entries u pw (e # es) =
     (if shName e = u then e\<lparr>EncryptedPassword := pw\<rparr> # es else e # update_entries u pw es)"

lemma drop_cr_append: "r \<noteq> [] \<Longrightarrow> drop_cr (l @ r) = l @ drop_cr r"
  by (auto simp: drop_cr_def butlast_append)

lemma drop_cr_line: "drop_cr (n @ CHR '':'' # p @ CHR '':'' # r) = n @ CHR '':'' # p @ CHR '':'' # drop_cr r"
proof (cases r)
  case Nil
  then show ?thesis by (simp add: drop_cr_def)
next
  case (Cons c r')
  then show ?thesis using drop_cr_append [of r "n @ CHR '':'' # p @ '':''"] by simp
qed

lemma drop_cr_cases: "w = drop_cr w \<or> w = drop_cr w @ [CHR 0x0D]"
  by (cases w rule: rev_cases) (auto simp: drop_cr_def)

lemma Split_line:
  assumes "CHR '':'' \<notin> set n" "CHR '':'' \<notin> set p"
  shows "Split (n @ CHR '':'' # p @ CHR '':'' # r) CHR '':'' = n # p # Split r CHR '':''"
  using Split_append_sep [OF assms(1)] Split_append_sep [OF assms(2)] by simp

lemma Split_three:
  assumes "length (Split w CHR '':'') \<ge> 3"
  shows "two_colons w"
proof -
  obtain n p f fs where s: "Split w CHR '':'' = n # p # f # fs"
    using assms by (auto simp: numeral_3_eq_3 Suc_le_length_iff)
  then have "w = n @ CHR '':'' # p @ CHR '':'' # join [CHR '':''] (f # fs)"
    using join_Split [of "CHR '':''" w] by simp
  moreover have "CHR '':'' \<notin> set n" "CHR '':'' \<notin> set p"
    using s Split_mem_no_sep [of _ w "CHR '':''"] by auto
  ultimately show ?thesis unfolding two_colons_def by auto
qed

lemma parsed_two_colons: "parseShadowFileEntry (drop_cr w) = Inr e \<Longrightarrow> two_colons w"
proof -
  assume "parseShadowFileEntry (drop_cr w) = Inr e"
  then have "length (Split (drop_cr w) CHR '':'') = 9"
    by (auto simp: parseShadowFileEntry_def Let_def split: if_splits)
  then have "two_colons (drop_cr w)" by (intro Split_three) simp
  then obtain n p r where "drop_cr w = n @ '':'' @ p @ '':'' @ r" "CHR '':'' \<notin> set n" "CHR '':'' \<notin> set p"
    by (auto simp: two_colons_def)
  then show "two_colons w" using drop_cr_cases [of w] unfolding two_colons_def by (metis append.assoc)
qed

lemma parseShadowFileEntry_set_password:
  assumes "parseShadowFileEntry (drop_cr w) = Inr e" "CHR '':'' \<notin> set pw"
  shows "parseShadowFileEntry (drop_cr (set_password pw w)) = Inr (e\<lparr>EncryptedPassword := pw\<rparr>)" "shName e = name_field w"
proof -
  obtain n p r where w: "w = n @ CHR '':'' # p @ CHR '':'' # r" "CHR '':'' \<notin> set n" "CHR '':'' \<notin> set p"
    "name_field w = n" "set_password pw w = n @ CHR '':'' # pw @ CHR '':'' # r"
    using parsed_two_colons [OF assms(1)] by (metis two_colons_E)
  have s1: "Split (drop_cr w) CHR '':'' = n # p # Split (drop_cr r) CHR '':''"
    unfolding w(1) drop_cr_line by (rule Split_line [OF w(2,3)])
  have s2: "Split (drop_cr (set_password pw w)) CHR '':'' = n # pw # Split (drop_cr r) CHR '':''"
    unfolding w(5) drop_cr_line by (rule Split_line [OF w(2) assms(2)])
  show "parseShadowFileEntry (drop_cr (set_password pw w)) = Inr (e\<lparr>EncryptedPassword := pw\<rparr>)" "shName e = name_field w"
    using assms(1) unfolding parseShadowFileEntry_def s1 s2 w(4)
    by (auto simp: Let_def split: if_splits sum.splits)
qed

lemma parseLines_update:
  assumes "parseLines parseShadowFileEntry i (map drop_cr ws) = Inr es" "CHR '':'' \<notin> set pw"
  shows "parseLines parseShadowFileEntry i (map drop_cr (update_lines u pw ws)) = Inr (update_entries u pw es)
    \<and> ((\<exists>w \<in> set ws. w \<noteq> [] \<and> name_field w = u) \<longleftrightarrow> (\<exists>e \<in> set es. shName e = u))
    \<and> (\<forall>w \<in> set ws. w \<noteq> [] \<and> two_colons w)"
  using assms(1)
proof (induction ws arbitrary: i es)
  case (Cons w ws)
  obtain e es' where e: "parseShadowFileEntry (drop_cr w) = Inr e"
    "parseLines parseShadowFileEntry (Suc i) (map drop_cr ws) = Inr es'" "es = e # es'"
    using Cons.prems by (auto split: sum.splits)
  note t = parsed_two_colons [OF e(1)]
  then have "w \<noteq> []" by (auto simp: two_colons_def)
  then show ?case
    using Cons.IH [OF e(2)] parseShadowFileEntry_set_password [OF e(1) assms(2)] e t by auto
qed simp

lemma update_lines_append: "update_lines u pw (ws @ [[]]) = update_lines u pw ws @ [[]]"
  by (induction ws) auto

lemma update_lines_nonempty [simp]: "update_lines u pw ws = [] \<longleftrightarrow> ws = []"
  by (cases ws) auto

lemma raw_lines_mem: "w \<in> set (Split content CHR 0x0A) \<Longrightarrow> w \<noteq> [] \<Longrightarrow> w \<in> set (raw_lines content)"
proof (cases "last (Split content CHR 0x0A) = []")
  case True
  moreover assume "w \<in> set (Split content CHR 0x0A)" "w \<noteq> []"
  moreover have "set (Split content CHR 0x0A) = set (butlast (Split content CHR 0x0A)) \<union> {last (Split content CHR 0x0A)}"
    by (metis Split_nonempty append_butlast_last_id set_append list.set(1,2))
  ultimately show ?thesis by (auto simp: raw_lines_def Let_def)
qed (simp add: raw_lines_def)

lemma raw_lines_subset: "w \<in> set (raw_lines content) \<Longrightarrow> w \<in> set (Split content CHR 0x0A)"
  using in_set_butlastD by (fastforce simp: raw_lines_def Let_def split: if_splits)

lemma update_lines_last:
  "ws \<noteq> [] \<Longrightarrow> last ws \<noteq> [] \<Longrightarrow> last (update_lines u pw ws) \<noteq> []"
  by (induction ws) (auto simp: set_password_def split_def)

lemma update_lines_mem:
  assumes "w' \<in> set (update_lines u pw ws)" "\<forall>w \<in> set ws. CHR 0x0A \<notin> set w \<and> (w = [] \<or> two_colons w)" "CHR 0x0A \<notin> set pw"
  shows "CHR 0x0A \<notin> set w'"
  using assms(1,2)
proof (induction ws)
  case (Cons w ws)
  have "CHR 0x0A \<notin> set (set_password pw w)" if "w \<noteq> []"
  proof -
    have "two_colons w" using Cons.prems(2) that by simp
    then obtain n p r where "w = n @ CHR '':'' # p @ CHR '':'' # r"
      "set_password pw w = n @ CHR '':'' # pw @ CHR '':'' # r" by (metis two_colons_E)
    then show ?thesis using Cons.prems(2) assms(3) by auto
  qed
  then show ?case using Cons by (auto split: if_splits)
qed simp

text \<open>The text of the file: if it parses, then the new one parses to the entries with the password replaced.\<close>

lemma newShadowFile_entries:
  assumes "parseShadowFile (scanLines content) = Inr es"
    and "CHR '':'' \<notin> set u" "CHR 0x0A \<notin> set u" "CHR '':'' \<notin> set pw" "CHR 0x0A \<notin> set pw"
  shows "case newShadowFile content u pw of
      Inl e \<Rightarrow> e = EntryNotFound u \<and> list_all (\<lambda>e. shName e \<noteq> u) es
    | Inr content' \<Rightarrow> list_ex (\<lambda>e. shName e = u) es
        \<and> parseShadowFile (scanLines content') = Inr (update_entries u (if pw = [] then ''*'' else pw) es)"
proof -
  define pw' where pw': "pw' = (if pw = [] then ''*'' else pw)"
  let ?ws = "Split content CHR 0x0A"
  have pw: "CHR '':'' \<notin> set pw'" "CHR 0x0A \<notin> set pw'" using assms(4,5) by (auto simp: pw')
  have upd: "newShadowFile content u pw = (case findUserEntry u True content of
      None \<Rightarrow> Inl (EntryNotFound u) | Some (before, after) \<Rightarrow> Inr (before @ u @ '':'' @ pw' @ '':'' @ after))"
    unfolding newShadowFile_def Let_def pw' ..
  have p: "parseLines parseShadowFileEntry 0 (map drop_cr (raw_lines content)) = Inr es"
    using assms(1) by (simp add: parseShadowFile_def scanLines_def)
  note l = parseLines_update [OF p pw(1), of u]
  have ws: "\<forall>w \<in> set ?ws. CHR 0x0A \<notin> set w \<and> (w = [] \<or> two_colons w)"
  proof
    fix w assume w: "w \<in> set ?ws"
    moreover have "w = [] \<or> two_colons w"
      using raw_lines_mem [OF w] l [THEN conjunct2, THEN conjunct2] by auto
    ultimately show "CHR 0x0A \<notin> set w \<and> (w = [] \<or> two_colons w)" using Split_mem_no_sep by auto
  qed
  have ex: "(\<exists>w \<in> set ?ws. w \<noteq> [] \<and> name_field w = u) \<longleftrightarrow> (\<exists>e \<in> set es. shName e = u)"
    unfolding l [THEN conjunct2, THEN conjunct1, symmetric] using raw_lines_mem raw_lines_subset by auto

  note f = findUserEntry_lines [OF ws assms(2,3), of pw', unfolded join_Split]
  have "case newShadowFile content u pw of
      Inl e \<Rightarrow> e = EntryNotFound u \<and> list_all (\<lambda>e. shName e \<noteq> u) es
    | Inr content' \<Rightarrow> list_ex (\<lambda>e. shName e = u) es
        \<and> parseShadowFile (scanLines content') = Inr (update_entries u pw' es)"
  proof (cases "findUserEntry u True content")
    case None
    then show ?thesis using f ex by (auto simp: upd list_all_iff)
  next
    case (Some ba)
    obtain b a where ba: "ba = (b, a)" by (cases ba)
    let ?c = "b @ u @ '':'' @ pw' @ '':'' @ a"
    have c: "?c = join [CHR 0x0A] (update_lines u pw' ?ws)" using f unfolding Some ba by simp
    have s: "Split ?c CHR 0x0A = update_lines u pw' ?ws"
      unfolding c by (rule Split_join) (use update_lines_mem [OF _ ws pw(2)] in auto)
    have "raw_lines ?c = update_lines u pw' (raw_lines content)"
    proof (cases "last ?ws = []")
      case True
      then have "?ws = butlast ?ws @ [[]]" by (metis Split_nonempty append_butlast_last_id)
      then have "update_lines u pw' ?ws = update_lines u pw' (butlast ?ws) @ [[]]"
        by (metis update_lines_append)
      then show ?thesis using True unfolding raw_lines_def s by (simp add: Let_def)
    next
      case False
      then show ?thesis using update_lines_last [of ?ws u pw'] unfolding raw_lines_def s by (simp add: Let_def)
    qed
    moreover have "list_ex (\<lambda>e. shName e = u) es" using f Some ba ex by (auto simp: list_ex_iff)
    ultimately show ?thesis
      using l Some ba by (simp add: upd parseShadowFile_def scanLines_def)
  qed
  then show ?thesis unfolding pw' .
qed

text \<open>C24. Replacing a password in the shadow file replaces it in the entries: for a file that parses, and a user name and
  an encrypted password without colons and line breaks, \<open>UpdateUserPassword\<close> fails without touching the file exactly when
  no entry has the name; otherwise, unless the write fails, the file parses to the same entries with the password of
  the first entry of that name replaced, an empty one by an asterisk. The code checks neither condition on the name and the
  password: the content of a \<open>hashed-file\<close> is used as it is read, with the line break at its end.\<close>

theorem UpdateUserPassword_entries:
  assumes "parseShadowFile (scanLines content) = Inr es"
    and "CHR '':'' \<notin> set u" "CHR 0x0A \<notin> set u" "CHR '':'' \<notin> set pw" "CHR 0x0A \<notin> set pw"
  shows "case UpdateUserPassword write (Some content) u pw of (err, file') \<Rightarrow>
      if list_all (\<lambda>e. shName e \<noteq> u) es then err = Some (EntryNotFound u) \<and> file' = Some content
      else case err of
        Some e \<Rightarrow> e = ShadowFileWriteFailed
      | None \<Rightarrow> \<exists>content'. file' = Some content'
          \<and> parseShadowFile (scanLines content') = Inr (update_entries u (if pw = [] then ''*'' else pw) es)"
  using newShadowFile_entries [OF assms]
  by (auto simp: UpdateUserPassword_def list_all_iff list_ex_iff split: sum.splits option.splits)

text \<open>The line break of a password file splits the entry, and the shadow file no longer parses.\<close>

lemma UpdateUserPassword_newline:
  "\<exists>content'. UpdateUserPassword (\<lambda>_. None) (Some ''root:x:1::::::'') ''root'' (''$6$h'' @ [CHR 0x0A]) = (None, Some content')
     \<and> isl (parseShadowFile (scanLines content'))"
  by (simp add: UpdateUserPassword_def newShadowFile_def scanLines_def raw_lines_def drop_cr_def parseShadowFile_def
      parseShadowFileEntry_def matchUserEntry_def)

theorem UpdateUserPassword_entries_witness:
  "\<exists>content'. UpdateUserPassword (\<lambda>_. None) (Some ''root:x:1::::::'') ''root'' [] = (None, Some content')
    \<and> map_sum id (map EncryptedPassword) (parseShadowFile (scanLines content')) = Inr [''*'']"
proof -
  have p: "parseShadowFile (scanLines ''root:x:1::::::'') =
    Inr [\<lparr>shName = ''root'', EncryptedPassword = ''x'', LastPasswordChange = Some 1, MinPasswordAge = None,
      MaxPasswordAge = None, PasswordWarningPeriod = None, PasswordInactivityPeriod = None, AccountExpirationDate = None\<rparr>]"
    by (simp add: scanLines_def raw_lines_def drop_cr_def parseShadowFile_def parseShadowFileEntry_def
        parseOptionalInt_def Atoi_def ParseUint_def digit_val_def)
  obtain content' where c: "UpdateUserPassword (\<lambda>_. None) (Some ''root:x:1::::::'') ''root'' [] = (None, Some content')"
    by (simp add: UpdateUserPassword_def newShadowFile_def matchUserEntry_def)
  from UpdateUserPassword_entries [OF p, of "''root''" "[]" "\<lambda>_. None"] c
  show ?thesis by auto
qed

end
