(* ===== verification/Bls.thy ===== *)
theory Bls
  imports UserFiles OsConfig
begin

text \<open>
  Boot Loader Specification entries: the parser of \<open>internal/bls/bls.go\<close> and the functions of
  \<open>imagecustomizerlib/blsutils.go\<close> that read, render and rewrite the entries of a boot directory.
  A directory is the list of its entries in the order of \<open>os.ReadDir\<close>; an entry has a name, a flag
  for a directory, and its content, or nothing if reading it fails.
\<close>

section \<open>Lines of an entry\<close>

record BlsField =
  bfKey :: string
  bfValue :: string

record BlsLine = BlsField +
  ContentStart :: nat
  ContentEnd :: nat

abbreviation blank :: "char \<Rightarrow> bool" where
  "blank c \<equiv> c = CHR '' '' \<or> c = CHR 0x09"

definition rstrip :: "string \<Rightarrow> string" where
  "rstrip l = rev (dropWhile (\<lambda>c. blank c \<or> c = CHR 0x0D) (rev l))"

text \<open>One round of the loop of \<open>ParseLines\<close>: the line from a position up to the newline.\<close>

definition parseLine :: "nat \<Rightarrow> string \<Rightarrow> BlsLine" where
  "parseLine pos l =
     (let trimmed = rstrip l;
          body = dropWhile blank trimmed;
          isField = (body \<noteq> [] \<and> hd body \<noteq> CHR ''#'')
      in \<lparr>bfKey = (if isField then takeWhile (\<lambda>c. \<not> blank c) body else []),
          bfValue = (if isField then dropWhile blank (dropWhile (\<lambda>c. \<not> blank c) body) else []),
          ContentStart = pos + (length trimmed - length body),
          ContentEnd = pos + length trimmed\<rparr>)"

fun parseFrom :: "nat \<Rightarrow> string list \<Rightarrow> BlsLine list" where
  "parseFrom pos [] = []"
| "parseFrom pos (l # ls) = parseLine pos l # parseFrom (pos + length l + 1) ls"

definition BlsParseLines :: "string \<Rightarrow> BlsLine list" where
  "BlsParseLines content = parseFrom 0 (raw_lines content)"

definition field_of :: "BlsLine \<Rightarrow> BlsField" where
  "field_of l = \<lparr>bfKey = bfKey l, bfValue = bfValue l\<rparr>"

definition BlsParseFields :: "string \<Rightarrow> BlsField list" where
  "BlsParseFields content = map field_of (filter (\<lambda>l. bfKey l \<noteq> []) (BlsParseLines content))"

definition IsRescueEntryTitle :: "string \<Rightarrow> bool" where
  "IsRescueEntryTitle title = ContainsStr (ToLower title) ''rescue''"

section \<open>The kernel command line of an entry\<close>

fun splitOptions :: "bool \<Rightarrow> string \<Rightarrow> string \<Rightarrow> string list" where
  "splitOptions inQuotes cur [] = (if cur = [] then [] else [cur])"
| "splitOptions inQuotes cur (c # s) =
     (if c = CHR 0x22 then splitOptions (\<not> inQuotes) cur s
      else if \<not> inQuotes \<and> blank c then (if cur = [] then [] else [cur]) @ splitOptions inQuotes [] s
      else splitOptions inQuotes (cur @ [c]) s)"

text \<open>The arguments carry no token: it is the zero value.\<close>

definition zero_loc :: SourceLoc where "zero_loc = \<lparr>Col = 0, Line = 0, Index = 0\<rparr>"

definition zero_token :: Token where
  "zero_token = \<lparr>tokLoc = \<lparr>Start = zero_loc, End = zero_loc\<rparr>, tokType = LBRACE, RawContent = [], SubWords = []\<rparr>"

definition blsArg :: "string \<Rightarrow> grubConfigLinuxArg" where
  "blsArg tok = (case Cut tok CHR ''='' of (name, val, _) \<Rightarrow>
     \<lparr>ArgToken = zero_token, Arg = tok, argName = name, argValue = val, ValueHasVarExpansion = False\<rparr>)"

definition parseBLSOptionsValue :: "string \<Rightarrow> grubConfigLinuxArg list" where
  "parseBLSOptionsValue value = map blsArg (splitOptions False [] value)"

section \<open>Reading the entries\<close>

record dir_entry =
  deName :: string
  deIsDir :: bool
  deContent :: "string option"

datatype bls_error =
    EntryUnreadable string | DuplicateKey string string | EmptyLinux string | UnsupportedKey string string
  | MissingLinux string | DuplicateKernel string | SeveralEntries nat | NoEntries | KeyNotFound string
  | UnsupportedInitramfs string | BlsSELinux grub_cfg_error

definition is_conf :: "dir_entry \<Rightarrow> bool" where
  "is_conf e \<longleftrightarrow> \<not> deIsDir e \<and> HasSuffix (deName e) ''.conf''"

record entry_scan =
  scanLinux :: string
  scanTitle :: string
  scanTitleSeen :: bool
  scanArgs :: "grubConfigLinuxArg list"

definition path_Base_kernel :: "string \<Rightarrow> string" where
  "path_Base_kernel p =
     (if p = [] then ''.''
      else let t = rev (dropWhile (\<lambda>c. c = CHR ''/'') (rev p)) in
           if t = [] then ''/'' else last (Split t CHR ''/''))"

fun scanFields :: "string \<Rightarrow> BlsField list \<Rightarrow> entry_scan \<Rightarrow> bls_error + entry_scan" where
  "scanFields path [] st = Inr st"
| "scanFields path (f # fs) st =
     (if bfKey f = ''linux''
      then (if scanLinux st \<noteq> [] then Inl (DuplicateKey (bfKey f) path)
            else if bfValue f = [] then Inl (EmptyLinux path)
            else scanFields path fs (st\<lparr>scanLinux := path_Base_kernel (bfValue f)\<rparr>))
      else if bfKey f = ''title''
      then (if scanTitleSeen st then Inl (DuplicateKey (bfKey f) path)
            else scanFields path fs (st\<lparr>scanTitleSeen := True, scanTitle := bfValue f\<rparr>))
      else if bfKey f = ''efi'' \<or> bfKey f = ''uki'' \<or> bfKey f = ''uki-url'' then Inl (UnsupportedKey path (bfKey f))
      else if bfKey f = ''options''
      then scanFields path fs (st\<lparr>scanArgs := scanArgs st @ parseBLSOptionsValue (bfValue f)\<rparr>)
      else scanFields path fs st)"

type_synonym kernel_args = "(string \<times> grubConfigLinuxArg list) list"

text \<open>The Go map from kernels to arguments, in the order of insertion.\<close>

fun readEntries :: "dir_entry list \<Rightarrow> kernel_args \<Rightarrow> bls_error + kernel_args" where
  "readEntries [] kernelToArgs = Inr kernelToArgs"
| "readEntries (e # es) kernelToArgs =
     (if \<not> is_conf e then readEntries es kernelToArgs
      else (case deContent e of
              None \<Rightarrow> Inl (EntryUnreadable (deName e))
            | Some content \<Rightarrow>
                (case scanFields (deName e) (BlsParseFields content)
                        \<lparr>scanLinux = [], scanTitle = [], scanTitleSeen = False, scanArgs = []\<rparr> of
                   Inl err \<Rightarrow> Inl err
                 | Inr st \<Rightarrow>
                     if scanLinux st = [] then Inl (MissingLinux (deName e))
                     else if IsRescueEntryTitle (scanTitle st) then readEntries es kernelToArgs
                     else if map_of kernelToArgs (scanLinux st) \<noteq> None then Inl (DuplicateKernel (scanLinux st))
                     else readEntries es (kernelToArgs @ [(scanLinux st, scanArgs st)]))))"

definition readKernelCmdlinesFromBLSEntries :: "dir_entry list \<Rightarrow> bls_error + kernel_args" where
  "readKernelCmdlinesFromBLSEntries entries = readEntries entries []"

definition readNonRecoveryKernelCmdlinesFromBLS :: "dir_entry list \<Rightarrow> string list \<Rightarrow> bls_error + (string \<rightharpoonup> string)" where
  "readNonRecoveryKernelCmdlinesFromBLS entries argNames =
     (case readKernelCmdlinesFromBLSEntries entries of
        Inl e \<Rightarrow> Inl e
      | Inr kernelToArgs \<Rightarrow>
          if length kernelToArgs > 1 then Inl (SeveralEntries (length kernelToArgs))
          else (case kernelToArgs of
                  [] \<Rightarrow> Inl NoEntries
                | (k, args) # _ \<Rightarrow> Inr (filterKernelArgsByName args argNames Map.empty)))"

section \<open>Comparing kernel versions\<close>

text \<open>\<open>strings.Compare\<close>: by bytes, a proper prefix first.\<close>

fun Compare :: "string \<Rightarrow> string \<Rightarrow> int" where
  "Compare [] [] = 0"
| "Compare [] (d # t) = - 1"
| "Compare (c # s) [] = 1"
| "Compare (c # s) (d # t) = (if byte c < byte d then - 1 else if byte c > byte d then 1 else Compare s t)"

definition is_alpha :: "char \<Rightarrow> bool" where
  "is_alpha c \<longleftrightarrow> (97 \<le> byte c \<and> byte c \<le> 122) \<or> (65 \<le> byte c \<and> byte c \<le> 90)"

definition is_alnum :: "char \<Rightarrow> bool" where
  "is_alnum c \<longleftrightarrow> is_digit c \<or> is_alpha c"

definition compareSegments :: "bool \<Rightarrow> string \<Rightarrow> string \<Rightarrow> int" where
  "compareSegments numeric aSeg bSeg =
     (let trim = (\<lambda>s. if numeric then dropWhile (\<lambda>c. c = CHR ''0'') s else s);
          a = trim aSeg; b = trim bSeg in
      if numeric \<and> length a > length b then 1
      else if numeric \<and> length b > length a then - 1
      else Compare a b)"

function compareLoop :: "string \<Rightarrow> string \<Rightarrow> int" where
  "compareLoop a b =
     (let a1 = dropWhile (\<lambda>c. \<not> is_alnum c) a; b1 = dropWhile (\<lambda>c. \<not> is_alnum c) b in
      if a1 = [] \<or> b1 = [] then (if a1 = [] \<and> b1 = [] then 0 else if a1 = [] then - 1 else 1)
      else
        let numeric = is_digit (hd a1);
            p = (if numeric then is_digit else is_alpha);
            aSeg = takeWhile p a1; bSeg = takeWhile p b1 in
        if bSeg = [] then (if numeric then 1 else - 1)
        else let c = compareSegments numeric aSeg bSeg in
             if c \<noteq> 0 then (if c < 0 then - 1 else 1)
             else compareLoop (dropWhile p a1) (dropWhile p b1))"
  by pat_completeness auto

termination compareLoop
proof (relation "measure (\<lambda>(a, b). length a)", goal_cases)
  case (2 a b a1 b1 numeric p aSeg bSeg c)
  then have "a1 \<noteq> []" by blast
  then obtain h t where a1: "a1 = h # t" by (metis list.exhaust)
  have h: "is_alnum h" using a1 2(1) hd_dropWhile [of "\<lambda>c. \<not> is_alnum c" a] by auto
  then have "p h" using 2(4,5) a1 by (auto simp: is_alnum_def)
  then have "length (dropWhile p a1) \<le> length t" using a1 length_dropWhile_le [of p t] by simp
  moreover have "length a1 \<le> length a" using 2(1) length_dropWhile_le by metis
  ultimately show ?case using a1 by simp
qed simp

declare compareLoop.simps [simp del]

definition compareKernelVersions :: "string \<Rightarrow> string \<Rightarrow> int" where
  "compareKernelVersions a b = (if a = b then 0 else compareLoop a b)"

section \<open>Rendering the entries as menu entries\<close>

text \<open>\<open>slices.SortStableFunc\<close> with a comparison: a stable sort, here by insertion.\<close>

fun insert_stable :: "('a \<Rightarrow> 'a \<Rightarrow> int) \<Rightarrow> 'a \<Rightarrow> 'a list \<Rightarrow> 'a list" where
  "insert_stable cmp x [] = [x]"
| "insert_stable cmp x (y # ys) = (if cmp x y \<le> 0 then x # y # ys else y # insert_stable cmp x ys)"

fun sort_stable :: "('a \<Rightarrow> 'a \<Rightarrow> int) \<Rightarrow> 'a list \<Rightarrow> 'a list" where
  "sort_stable cmp [] = []"
| "sort_stable cmp (x # xs) = insert_stable cmp x (sort_stable cmp xs)"

definition newestFirst :: "dir_entry list \<Rightarrow> dir_entry list" where
  "newestFirst entries = sort_stable (\<lambda>a b. compareKernelVersions (deName b) (deName a)) entries"

record menu_scan =
  msTitle :: string
  msTitleSeen :: bool
  msLinux :: string
  msInitrd :: string
  msOptions :: string
  msOptionsSeen :: bool

fun scanMenuFields :: "string \<Rightarrow> BlsField list \<Rightarrow> menu_scan \<Rightarrow> bls_error + menu_scan" where
  "scanMenuFields path [] st = Inr st"
| "scanMenuFields path (f # fs) st =
     (if bfKey f = ''linux''
      then (if msLinux st \<noteq> [] then Inl (DuplicateKey (bfKey f) path)
            else if bfValue f = [] then Inl (EmptyLinux path)
            else scanMenuFields path fs (st\<lparr>msLinux := bfValue f\<rparr>))
      else if bfKey f = ''initrd''
      then (if msInitrd st \<noteq> [] then Inl (DuplicateKey (bfKey f) path)
            else scanMenuFields path fs (st\<lparr>msInitrd := bfValue f\<rparr>))
      else if bfKey f = ''title''
      then (if msTitleSeen st then Inl (DuplicateKey (bfKey f) path)
            else scanMenuFields path fs (st\<lparr>msTitleSeen := True, msTitle := bfValue f\<rparr>))
      else if bfKey f = ''efi'' \<or> bfKey f = ''uki'' \<or> bfKey f = ''uki-url'' then Inl (UnsupportedKey path (bfKey f))
      else if bfKey f = ''options''
      then scanMenuFields path fs
             (if msOptionsSeen st then st\<lparr>msOptions := msOptions st @ '' '' @ bfValue f\<rparr>
              else st\<lparr>msOptions := bfValue f, msOptionsSeen := True\<rparr>)
      else scanMenuFields path fs st)"

text \<open>The shell idiom for a quote inside single quotes, as \<open>strings.ReplaceAll\<close> writes it.\<close>

definition quoteTitle :: "string \<Rightarrow> string" where
  "quoteTitle title =
     concat (map (\<lambda>c. if c = CHR 0x27 then [CHR 0x27, CHR 0x5C, CHR 0x27, CHR 0x27] else [c]) title)"

definition renderMenuEntry :: "menu_scan \<Rightarrow> string" where
  "renderMenuEntry st =
     ''menuentry '' @ [CHR 0x27] @ quoteTitle (msTitle st) @ [CHR 0x27] @ '' {'' @ [CHR 0x0A]
     @ (if msOptions st \<noteq> [] then [CHR 0x09] @ ''linux '' @ msLinux st @ '' '' @ msOptions st @ [CHR 0x0A]
        else [CHR 0x09] @ ''linux '' @ msLinux st @ [CHR 0x0A])
     @ (if msInitrd st \<noteq> [] then [CHR 0x09] @ ''initrd '' @ msInitrd st @ [CHR 0x0A] else [])
     @ ''}'' @ [CHR 0x0A]"

fun renderEntries :: "dir_entry list \<Rightarrow> bls_error + string" where
  "renderEntries [] = Inr []"
| "renderEntries (e # es) =
     (if \<not> is_conf e then renderEntries es
      else (case deContent e of
              None \<Rightarrow> Inl (EntryUnreadable (deName e))
            | Some content \<Rightarrow>
                (case scanMenuFields (deName e) (BlsParseFields content)
                        \<lparr>msTitle = [], msTitleSeen = False, msLinux = [], msInitrd = [], msOptions = [], msOptionsSeen = False\<rparr> of
                   Inl err \<Rightarrow> Inl err
                 | Inr st \<Rightarrow>
                     if msLinux st = [] then Inl (MissingLinux (deName e))
                     else (case renderEntries es of
                             Inl err \<Rightarrow> Inl err
                           | Inr out \<Rightarrow>
                               Inr (if IsRescueEntryTitle (msTitle st) then out else renderMenuEntry st @ out)))))"

definition renderGrubMenuEntriesFromBLS :: "dir_entry list \<Rightarrow> bls_error + string" where
  "renderGrubMenuEntriesFromBLS entries = renderEntries (newestFirst entries)"

section \<open>Rewriting an entry\<close>

definition spliceLine :: "BlsLine \<Rightarrow> string \<Rightarrow> string \<Rightarrow> string" where
  "spliceLine line replacement s = take (ContentStart line) s @ replacement @ drop (ContentEnd line) s"

definition optionsText :: "string list \<Rightarrow> string" where
  "optionsText argStrings = ''options'' @ (if length argStrings > 0 then '' '' @ GrubArgsToString argStrings else [])"

definition keptArgs :: "string list \<Rightarrow> string \<Rightarrow> string list" where
  "keptArgs argsToRemove value =
     map Arg (filter (\<lambda>a. \<not> ContainsValue argsToRemove (argName a)) (parseBLSOptionsValue value))"

text \<open>From the last line to the first; only the last one gets the new arguments.\<close>

fun updateOptionsLines :: "string list \<Rightarrow> string list \<Rightarrow> BlsLine list \<Rightarrow> string \<Rightarrow> string" where
  "updateOptionsLines argsToRemove newArgs [] s = s"
| "updateOptionsLines argsToRemove newArgs (line # ls) s =
     (let s' = updateOptionsLines argsToRemove newArgs ls s;
          argStrings = keptArgs argsToRemove (bfValue line) @ (if ls = [] then newArgs else [])
      in spliceLine line (optionsText argStrings) s')"

definition updateBLSEntryOptions :: "string \<Rightarrow> string list \<Rightarrow> string list \<Rightarrow> string" where
  "updateBLSEntryOptions content argsToRemove newArgs =
     (let optionsLines = filter (\<lambda>l. bfKey l = ''options'') (BlsParseLines content) in
      if length optionsLines = 0
      then (let content = (if content \<noteq> [] \<and> \<not> HasSuffix content [CHR 0x0A] then content @ [CHR 0x0A] else content)
            in content @ optionsText newArgs @ [CHR 0x0A])
      else updateOptionsLines argsToRemove newArgs optionsLines content)"

definition setBLSEntryField :: "string \<Rightarrow> string \<Rightarrow> string \<Rightarrow> bls_error + string" where
  "setBLSEntryField content key newValue =
     (case find (\<lambda>l. bfKey l = key) (BlsParseLines content) of
        None \<Rightarrow> Inl (KeyNotFound key)
      | Some line \<Rightarrow> Inr (spliceLine line (key @ '' '' @ newValue) content))"

text \<open>The directory after the entries that are not rescue entries have been edited, and the error that
  stopped it, if any: the entries before it have been written already.\<close>

fun forEachBLSEntry ::
  "(string \<Rightarrow> bls_error + string) \<Rightarrow> dir_entry list \<Rightarrow> dir_entry list \<times> bls_error option" where
  "forEachBLSEntry edit [] = ([], None)"
| "forEachBLSEntry edit (e # es) =
     (case (if \<not> is_conf e then Inr e
            else (case deContent e of
                    None \<Rightarrow> Inl (EntryUnreadable (deName e))
                  | Some content \<Rightarrow>
                      let title = (case find (\<lambda>f. bfKey f = ''title'') (BlsParseFields content) of
                                     None \<Rightarrow> [] | Some f \<Rightarrow> bfValue f) in
                      if IsRescueEntryTitle title then Inr e
                      else (case edit content of Inl err \<Rightarrow> Inl err | Inr c \<Rightarrow> Inr (e\<lparr>deContent := Some c\<rparr>)))) of
        Inl err \<Rightarrow> (e # es, Some err)
      | Inr e' \<Rightarrow> (case forEachBLSEntry edit es of (es', err) \<Rightarrow> (e' # es', err)))"

definition isoInitrdPath :: string where "isoInitrdPath = ''/boot/initrd.img''"

definition liveosKernelArgs :: "string list" where
  "liveosKernelArgs =
     [''rd.shell'', ''rd.live.image'', ''rd.live.dir=liveos'', ''rd.live.squashimg=rootfs.img'', ''rd.live.overlay=1'',
      ''rd.live.overlay.overlayfs'', ''rd.live.overlay.nouserconfirmprompt'']"

definition updateLiveOSBLSEntries :: "dir_entry list \<Rightarrow> string \<Rightarrow> bool \<Rightarrow> string list \<Rightarrow> dir_entry list \<times> bls_error option" where
  "updateLiveOSBLSEntries entries initramfsImageType disableSELinux extraCommandLine =
     (if initramfsImageType \<noteq> InitramfsImageTypeFullOS \<and> initramfsImageType \<noteq> ''bootstrap''
      then (entries, Some (UnsupportedInitramfs initramfsImageType))
      else
        let fullOs = (initramfsImageType = InitramfsImageTypeFullOS) in
        (case (if disableSELinux then selinuxModeToArgs SELinuxModeDisabled else Inr []) of
           Inl e \<Rightarrow> (entries, Some (BlsSELinux e))
         | Inr selinuxArgs \<Rightarrow>
             let argsToRemove = (if fullOs then [''root''] else []) @ (if disableSELinux then selinuxArgNames else []);
                 argsToAppend = (if fullOs then [] else liveosKernelArgs) @ selinuxArgs @ extraCommandLine
             in forEachBLSEntry
                  (\<lambda>content.
                     (case (if fullOs then setBLSEntryField content ''initrd'' isoInitrdPath else Inr content) of
                        Inl e \<Rightarrow> Inl e
                      | Inr content \<Rightarrow> Inr (updateBLSEntryOptions content argsToRemove argsToAppend)))
                  entries))"

definition setLiveOSBLSEntriesRoot :: "dir_entry list \<Rightarrow> string \<Rightarrow> string list \<Rightarrow> dir_entry list \<times> bls_error option" where
  "setLiveOSBLSEntriesRoot entries rootValue extraArgs =
     forEachBLSEntry (\<lambda>content. Inr (updateBLSEntryOptions content [''root''] ((''root='' @ rootValue) # extraArgs))) entries"

section \<open>Kernel versions as lists of segments\<close>

text \<open>The reference: a version is the list of its numbers and its words, compared lexicographically, with
  words before numbers, numbers by value and words by bytes.\<close>

datatype segment = SNum nat | SAlpha string

definition dec_value :: "string \<Rightarrow> nat" where
  "dec_value s = foldl (\<lambda>n c. 10 * n + (byte c - 48)) 0 s"

function segments :: "string \<Rightarrow> segment list" where
  "segments a =
     (case dropWhile (\<lambda>c. \<not> is_alnum c) a of
        [] \<Rightarrow> []
      | c # cs \<Rightarrow>
          if is_digit c then SNum (dec_value (takeWhile is_digit (c # cs))) # segments (dropWhile is_digit cs)
          else SAlpha (takeWhile is_alpha (c # cs)) # segments (dropWhile is_alpha cs))"
  by pat_completeness auto
termination segments
proof (relation "measure length", goal_cases)
  case (2 a c cs)
  then have "length (c # cs) \<le> length a" by (metis length_dropWhile_le)
  then show ?case using length_dropWhile_le [of is_digit cs] by simp
next
  case (3 a c cs)
  then have "length (c # cs) \<le> length a" by (metis length_dropWhile_le)
  then show ?case using length_dropWhile_le [of is_alpha cs] by simp
qed simp

declare segments.simps [simp del]

definition cmp_nat :: "nat \<Rightarrow> nat \<Rightarrow> int" where
  "cmp_nat m n = (if m < n then - 1 else if m > n then 1 else 0)"

fun cmp_segment :: "segment \<Rightarrow> segment \<Rightarrow> int" where
  "cmp_segment (SNum m) (SNum n) = cmp_nat m n"
| "cmp_segment (SNum m) (SAlpha t) = 1"
| "cmp_segment (SAlpha s) (SNum n) = - 1"
| "cmp_segment (SAlpha s) (SAlpha t) = Compare s t"

fun cmp_segments :: "segment list \<Rightarrow> segment list \<Rightarrow> int" where
  "cmp_segments [] [] = 0"
| "cmp_segments [] (y # ys) = - 1"
| "cmp_segments (x # xs) [] = 1"
| "cmp_segments (x # xs) (y # ys) = (if cmp_segment x y \<noteq> 0 then cmp_segment x y else cmp_segments xs ys)"

lemma Compare_refl [simp]: "Compare s s = 0"
  by (induction s) auto

lemma Compare_values: "Compare s t \<in> {- 1, 0, 1}"
  by (induction s t rule: Compare.induct) auto

lemma cmp_segments_refl [simp]: "cmp_segments xs xs = 0"
proof (induction xs)
  case (Cons x xs)
  then show ?case by (cases x) (simp_all add: cmp_nat_def)
qed simp

lemma foldl_dec: "foldl (\<lambda>n c. 10 * n + (byte c - 48)) m s = m * 10 ^ length s + dec_value s"
proof (induction s arbitrary: m)
  case (Cons c s)
  show ?case using Cons [of "10 * m + (byte c - 48)"] Cons [of "byte c - 48"]
    by (simp add: dec_value_def algebra_simps)
qed (simp add: dec_value_def)

lemma dec_value_Cons: "dec_value (c # s) = (byte c - 48) * 10 ^ length s + dec_value s"
  using foldl_dec [of "byte c - 48" s] by (simp add: dec_value_def)

lemma dec_value_less: "list_all is_digit s \<Longrightarrow> dec_value s < 10 ^ length s"
proof (induction s)
  case (Cons c s)
  then have "byte c - 48 \<le> 9" "dec_value s < 10 ^ length s" by (auto simp: is_digit_def)
  then have "(byte c - 48) * 10 ^ length s + dec_value s < 9 * 10 ^ length s + 10 ^ length s"
    by (intro add_le_less_mono mult_le_mono1)
  then show ?case by (simp add: dec_value_Cons)
qed (simp add: dec_value_def)

lemma dec_value_trim: "dec_value (dropWhile (\<lambda>c. c = CHR ''0'') s) = dec_value s"
  by (induction s) (simp_all add: dec_value_Cons)

lemma dec_value_ge:
  assumes "list_all is_digit s" "s \<noteq> []" "hd s \<noteq> CHR ''0''"
  shows "10 ^ (length s - 1) \<le> dec_value s"
proof -
  obtain c t where s: "s = c # t" using assms(2) by (cases s) auto
  have "byte c \<noteq> 48"
  proof
    assume "byte c = 48"
    then have "char_of (byte c) = CHR ''0''" by (simp add: char_of_def bit_0)
    then show False using assms(3) s by simp
  qed
  then have "1 \<le> byte c - 48" using assms(1) unfolding s by (auto simp: is_digit_def)
  then have "1 * 10 ^ length t \<le> (byte c - 48) * 10 ^ length t" by (rule mult_le_mono1)
  moreover have "10 ^ (length (c # t) - 1) = (1::nat) * 10 ^ length t" by simp
  ultimately show ?thesis unfolding s dec_value_Cons by linarith
qed

lemma Compare_digits:
  "length a = length b \<Longrightarrow> list_all is_digit a \<Longrightarrow> list_all is_digit b \<Longrightarrow> Compare a b = cmp_nat (dec_value a) (dec_value b)"
proof (induction a b rule: list_induct2)
  case Nil
  then show ?case by (simp add: cmp_nat_def)
next
  case (Cons c s d t)
  have lt: "dec_value (x # u) < dec_value (y # v)"
    if "byte x < byte y" "length u = length v" "list_all is_digit u" "is_digit x" for x y u v
  proof -
    have "dec_value (x # u) < (byte x - 48 + 1) * 10 ^ length u"
      using dec_value_less [OF that(3)] by (simp add: dec_value_Cons)
    also have "\<dots> \<le> (byte y - 48) * 10 ^ length u"
      using that(1,4) by (intro mult_le_mono1) (auto simp: is_digit_def)
    also have "\<dots> \<le> dec_value (y # v)" using that(2) by (simp add: dec_value_Cons)
    finally show ?thesis .
  qed
  consider "byte c < byte d" | "byte c > byte d" | "byte c = byte d" by linarith
  then show ?case
  proof cases
    case 1
    then show ?thesis using lt [of c d s t] Cons by (simp add: cmp_nat_def)
  next
    case 2
    then show ?thesis using lt [of d c t s] Cons by (simp add: cmp_nat_def)
  next
    case 3
    then show ?thesis using Cons by (simp add: cmp_nat_def dec_value_Cons)
  qed
qed

lemma compareSegments_numeric:
  assumes "list_all is_digit a" "list_all is_digit b"
  shows "compareSegments True a b = cmp_nat (dec_value a) (dec_value b)"
proof -
  let ?t = "dropWhile (\<lambda>c. c = CHR ''0'')"
  have d: "list_all is_digit (?t s)" if "list_all is_digit s" for s
    using that set_dropWhileD by (fastforce simp: list_all_iff)
  have longer: "dec_value (?t y) < dec_value (?t x)"
    if "length (?t x) > length (?t y)" "list_all is_digit x" "list_all is_digit y" for x y
  proof -
    have ne: "?t x \<noteq> []" using that(1) by (metis list.size(3) not_less_zero)
    have "dec_value (?t y) < 10 ^ length (?t y)" by (rule dec_value_less [OF d [OF that(3)]])
    also have "\<dots> \<le> 10 ^ (length (?t x) - 1)" using that(1) by (intro power_increasing) auto
    also have "\<dots> \<le> dec_value (?t x)"
      by (rule dec_value_ge [OF d [OF that(2)] ne hd_dropWhile [OF ne]])
    finally show ?thesis .
  qed
  consider "length (?t a) > length (?t b)" | "length (?t b) > length (?t a)" | "length (?t a) = length (?t b)"
    by linarith
  then show ?thesis
  proof cases
    case 1
    then have "compareSegments True a b = 1" unfolding compareSegments_def Let_def by simp
    moreover have "dec_value b < dec_value a" using longer [OF 1 assms] unfolding dec_value_trim .
    ultimately show ?thesis by (simp add: cmp_nat_def)
  next
    case 2
    then have "compareSegments True a b = - 1" unfolding compareSegments_def Let_def by simp
    moreover have "dec_value a < dec_value b" using longer [OF 2 assms(2,1)] unfolding dec_value_trim .
    ultimately show ?thesis by (simp add: cmp_nat_def)
  next
    case 3
    then have "compareSegments True a b = Compare (?t a) (?t b)" unfolding compareSegments_def Let_def by simp
    then show ?thesis
      using Compare_digits [OF 3 d [OF assms(1)] d [OF assms(2)]] unfolding dec_value_trim by simp
  qed

qed

lemma segments_Nil: "dropWhile (\<lambda>c. \<not> is_alnum c) a = [] \<Longrightarrow> segments a = []"
  by (subst segments.simps) (simp del: dropWhile_eq_Nil_conv)

lemma segments_Cons:
  assumes "dropWhile (\<lambda>c. \<not> is_alnum c) a = c # cs"
  shows "segments a =
    (if is_digit c then SNum (dec_value (takeWhile is_digit (c # cs))) # segments (dropWhile is_digit (c # cs))
     else SAlpha (takeWhile is_alpha (c # cs)) # segments (dropWhile is_alpha (c # cs)))"
proof -
  have "is_alnum c" using hd_dropWhile [of "\<lambda>c. \<not> is_alnum c" a] assms by simp
  then have "is_digit c \<or> is_alpha c" by (simp add: is_alnum_def)
  then show ?thesis by (subst segments.simps, unfold assms) auto
qed

lemma not_both: "is_digit c \<Longrightarrow> \<not> is_alpha c"
  by (auto simp: is_digit_def is_alpha_def)

lemma takeWhile_is_digit_append: "list_all is_digit (takeWhile is_digit s)"
  by (auto simp: list_all_iff dest: set_takeWhileD)

lemma compareLoop_segments: "compareLoop a b = cmp_segments (segments a) (segments b)"
proof (induction a b rule: compareLoop.induct)
  case (1 a b)
  let ?d = "dropWhile (\<lambda>c. \<not> is_alnum c)"
  show ?case
  proof (cases "?d a = [] \<or> ?d b = []")
    case True
    have ne: "segments x \<noteq> []" if "?d x \<noteq> []" for x
      using that by (cases "?d x") (auto simp: segments_Cons simp del: dropWhile_eq_Nil_conv)
    show ?thesis
    proof (cases "?d a = []")
      case a: True
      show ?thesis
        using a ne [of b] by (cases "segments b"; cases "?d b = []")
          (auto simp: compareLoop.simps [of a b] segments_Nil simp del: dropWhile_eq_Nil_conv)
    next
      case False
      then have "?d b = []" using True by blast
      then show ?thesis
        using False ne [of a] by (cases "segments a") (auto simp: compareLoop.simps [of a b] segments_Nil simp del: dropWhile_eq_Nil_conv)
    qed
  next
    case False
    then obtain c cs d ds where a: "?d a = c # cs" and b: "?d b = d # ds"
      by (cases "?d a"; cases "?d b") auto
    have alnum: "is_alnum c" "is_alnum d"
      using hd_dropWhile [of "\<lambda>c. \<not> is_alnum c" a] hd_dropWhile [of "\<lambda>c. \<not> is_alnum c" b] a b by auto
    let ?n = "is_digit c" let ?p = "if ?n then is_digit else is_alpha"
    let ?as = "takeWhile ?p (c # cs)" let ?bs = "takeWhile ?p (d # ds)"
    let ?c = "compareSegments ?n ?as ?bs"
    have step: "compareLoop a b =
      (if ?bs = [] then (if ?n then 1 else - 1)
       else if ?c \<noteq> 0 then (if ?c < 0 then - 1 else 1)
       else compareLoop (dropWhile ?p (c # cs)) (dropWhile ?p (d # ds)))"
      unfolding compareLoop.simps [of a b] Let_def a b by simp
    have IH: "?bs \<noteq> [] \<Longrightarrow> ?c = 0 \<Longrightarrow> compareLoop (dropWhile ?p (c # cs)) (dropWhile ?p (d # ds)) =
        cmp_segments (segments (dropWhile ?p (c # cs))) (segments (dropWhile ?p (d # ds)))"
      using 1 [of "c # cs" "d # ds" ?n ?p ?as ?bs ?c] a b by simp
    have bs: "?bs = [] \<longleftrightarrow> is_digit d \<noteq> ?n" using alnum not_both by (auto simp: is_alnum_def)
    show ?thesis
    proof (cases "is_digit d = ?n")
      case False
      then show ?thesis using step bs by (auto simp: segments_Cons [OF a] segments_Cons [OF b])
    next
      case True
      then have ne: "?bs \<noteq> []" using bs by simp
      have seg: "segments a = (if ?n then SNum (dec_value ?as) else SAlpha ?as) # segments (dropWhile ?p (c # cs))"
        "segments b = (if ?n then SNum (dec_value ?bs) else SAlpha ?bs) # segments (dropWhile ?p (d # ds))"
        using segments_Cons [OF a] segments_Cons [OF b] True by (simp_all split: if_splits)
      have c: "?c = cmp_segment (if ?n then SNum (dec_value ?as) else SAlpha ?as) (if ?n then SNum (dec_value ?bs) else SAlpha ?bs)"
      proof (cases ?n)
        case True
        then show ?thesis using compareSegments_numeric [of ?as ?bs] takeWhile_is_digit_append by simp
      next
        case False
        then show ?thesis by (simp add: compareSegments_def)
      qed
      have v: "?c \<in> {- 1, 0, 1}"
        unfolding c using Compare_values [of ?as ?bs] by (auto simp: cmp_nat_def)
      show ?thesis
      proof (cases "?c = 0")
        case True
        then show ?thesis unfolding step seg using ne IH c by simp
      next
        case False
        have sgn: "(if x < 0 then - 1 else 1) = x" if "x \<in> {- 1, 0, 1}" "x \<noteq> 0" for x :: int
          using that by auto
        have "compareLoop a b = ?c" unfolding step if_not_P [OF ne] if_P [OF False] by (rule sgn [OF v False])
        moreover have "cmp_segments (segments a) (segments b) = ?c"
          unfolding seg cmp_segments.simps c [symmetric] if_P [OF False] ..
        ultimately show ?thesis by simp
      qed
    qed
  qed
qed

text \<open>C26. Comparing two kernel versions is comparing the lists of their numbers and words lexicographically:
  numbers by value whatever their leading zeros, words by bytes, a word before a number, and a
  version before its extensions.\<close>

theorem compareKernelVersions_segments:
  "compareKernelVersions a b = cmp_segments (segments a) (segments b)"
  by (simp add: compareKernelVersions_def compareLoop_segments)

section \<open>Lines and the text they are joined to\<close>

abbreviation nl :: string where "nl \<equiv> [CHR 0x0A]"

lemma raw_lines_Nil [simp]: "raw_lines [] = []"
  by (simp add: raw_lines_def)

lemma raw_lines_no_nl: "l \<in> set (raw_lines content) \<Longrightarrow> CHR 0x0A \<notin> set l"
  using raw_lines_subset Split_mem_no_sep by blast

lemma join_snoc: "ws \<noteq> [] \<Longrightarrow> join s (ws @ [w]) = join s ws @ s @ w"
  by (induction s ws rule: join.induct) auto

lemma content_raw_lines:
  obtains t where "content = join nl (raw_lines content) @ t" "t = [] \<or> t = nl"
    "t = [] \<Longrightarrow> raw_lines content = [] \<or> last (raw_lines content) \<noteq> []" "t = nl \<Longrightarrow> raw_lines content \<noteq> []"
proof -
  let ?ws = "Split content CHR 0x0A"
  have j: "content = join nl ?ws" by (simp add: join_Split)
  show thesis
  proof (cases "last ?ws = []")
    case False
    then show thesis using that [of "[]"] j by (simp add: raw_lines_def Let_def)
  next
    case True
    then have r: "raw_lines content = butlast ?ws" by (simp add: raw_lines_def)
    have ws: "?ws = butlast ?ws @ [[]]" using True by (metis Split_nonempty append_butlast_last_id)
    show thesis
    proof (cases "butlast ?ws = []")
      case True
      then have "content = []" using j ws by (metis append_Nil join.simps(2))
      then show thesis using that [of "[]"] by simp
    next
      case False
      then have "content = join nl (butlast ?ws) @ nl" using j ws join_snoc by (metis append_Nil2)
      then show thesis using that [of nl] r False by simp
    qed
  qed
qed

lemma raw_lines_join:
  assumes "\<forall>l \<in> set ls. CHR 0x0A \<notin> set l" "t = [] \<and> (ls = [] \<or> last ls \<noteq> []) \<or> t = nl \<and> ls \<noteq> []"
  shows "raw_lines (join nl ls @ t) = ls"
proof (cases "ls = []")
  case True
  then show ?thesis using assms(2) by simp
next
  case False
  then have s: "Split (join nl ls) CHR 0x0A = ls" using assms(1) by (intro Split_join) auto
  show ?thesis
  proof (cases "t = []")
    case True
    then show ?thesis using False assms(2) s by (simp add: raw_lines_def)
  next
    case False
    then have "Split (join nl ls @ t) CHR 0x0A = ls @ [[]]" using assms(2) Split_trailing s by metis
    then show ?thesis by (simp add: raw_lines_def)
  qed
qed

section \<open>Replacing what a line says\<close>

text \<open>The white space around the content of a line stays.\<close>

definition lead :: "string \<Rightarrow> string" where
  "lead l = takeWhile blank (rstrip l)"

definition trail :: "string \<Rightarrow> string" where
  "trail l = drop (length (rstrip l)) l"

definition body :: "string \<Rightarrow> string" where
  "body l = dropWhile blank (rstrip l)"

definition put :: "string \<Rightarrow> string \<Rightarrow> string" where
  "put r l = lead l @ r @ trail l"

abbreviation strippable :: "char \<Rightarrow> bool" where
  "strippable c \<equiv> blank c \<or> c = CHR 0x0D"

lemma rstrip_prefix: "l = rstrip l @ trail l" "list_all strippable (trail l)"
proof -
  have "rev l = takeWhile strippable (rev l) @ dropWhile strippable (rev l)" by simp
  then have l: "l = rstrip l @ rev (takeWhile strippable (rev l))"
    unfolding rstrip_def by (metis rev_append rev_rev_ident)
  then have t: "trail l = rev (takeWhile strippable (rev l))" unfolding trail_def by (metis append_eq_conv_conj)
  show "l = rstrip l @ trail l" using l t by simp
  show "list_all strippable (trail l)" unfolding t by (auto simp: list_all_iff dest: set_takeWhileD)
qed

lemma rstrip_append: "list_all strippable t \<Longrightarrow> rstrip (l @ t) = rstrip l"
proof -
  assume "list_all strippable t"
  then have "\<And>c. c \<in> set (rev t) \<Longrightarrow> strippable c" by (auto simp: list_all_iff)
  then show ?thesis by (simp only: rstrip_def rev_append dropWhile_append2)
qed

lemma rstrip_last: "l \<noteq> [] \<Longrightarrow> \<not> strippable (last l) \<Longrightarrow> rstrip l = l"
  by (cases l rule: rev_cases) (auto simp: rstrip_def)

lemma lead_body: "rstrip l = lead l @ body l"
  by (simp add: lead_def body_def)

text \<open>A text that can be put on a line: it is not empty and has no white space at its ends.\<close>

definition solid :: "string \<Rightarrow> bool" where
  "solid r \<longleftrightarrow> r \<noteq> [] \<and> \<not> blank (hd r) \<and> \<not> strippable (last r)"

lemma body_put: "solid r \<Longrightarrow> body (put r l) = r"
proof -
  assume s: "solid r"
  have "rstrip (put r l) = lead l @ r"
    using s rstrip_append [OF rstrip_prefix(2), of "lead l @ r"] rstrip_last [of "lead l @ r"]
    by (simp add: put_def solid_def)
  moreover have "dropWhile blank (lead l @ r) = r"
    using s by (cases r) (auto simp: lead_def solid_def dropWhile_append dest: set_takeWhileD)
  ultimately show ?thesis by (simp add: body_def)
qed

text \<open>The key and value of a line only depend on its body.\<close>

definition key_value :: "string \<Rightarrow> string \<times> string" where
  "key_value b =
     (if b \<noteq> [] \<and> hd b \<noteq> CHR ''#''
      then (takeWhile (\<lambda>c. \<not> blank c) b, dropWhile blank (dropWhile (\<lambda>c. \<not> blank c) b)) else ([], []))"

lemma parseLine_key_value: "(bfKey (parseLine pos l), bfValue (parseLine pos l)) = key_value (body l)"
  unfolding parseLine_def Let_def key_value_def body_def [symmetric] by simp

lemma spliceLine_put:
  "spliceLine (parseLine (length pre) l) r (pre @ l @ post) = pre @ put r l @ post"
proof -
  have l: "l = lead l @ body l @ trail l" using rstrip_prefix(1) [of l] lead_body [of l] by simp
  have s: "ContentStart (parseLine (length pre) l) = length (pre @ lead l)"
    "ContentEnd (parseLine (length pre) l) = length (pre @ lead l @ body l)"
    unfolding parseLine_def Let_def body_def [symmetric] by (simp_all add: lead_body)
  have e: "pre @ l @ post = (pre @ lead l) @ (body l @ trail l @ post)"
    "pre @ l @ post = (pre @ lead l @ body l) @ (trail l @ post)"
    by (subst (1) l, simp)+
  have "take (length (pre @ lead l)) (pre @ l @ post) = pre @ lead l" unfolding e(1) by (rule append_eq_conv_conj [THEN iffD1, THEN conjunct1, symmetric, OF refl])
  moreover have "drop (length (pre @ lead l @ body l)) (pre @ l @ post) = trail l @ post"
    unfolding e(2) by (rule append_eq_conv_conj [THEN iffD1, THEN conjunct2, symmetric, OF refl])
  ultimately show ?thesis unfolding spliceLine_def s put_def by simp
qed

section \<open>The options of an entry\<close>

text \<open>Arguments that survive quoting and splitting: not empty, and free of the characters that are quoted,
  escaped or ended.\<close>

definition bls_safe :: "string \<Rightarrow> bool" where
  "bls_safe a \<longleftrightarrow> a \<noteq> []
     \<and> list_all (\<lambda>c. byte c < 128 \<and> c \<notin> {CHR 0x22, CHR 0x5C, CHR ''$'', CHR 0x0A, CHR 0x0D}) a"

lemma quote_rune_safe:
  assumes "byte c < 128" "c \<notin> {CHR 0x22, CHR 0x5C, CHR ''$''}"
  shows "quote_rune (byte c) = [c]"
proof -
  have "byte c \<noteq> rn CHR ''$''" "byte c \<noteq> rn CHR 0x22" "byte c \<noteq> rn CHR 0x5C"
    using assms(2) by (metis insertCI of_char_eq_iff)+
  then show ?thesis using assms(1) unfolding quote_rune_def by (simp only: if_False simp_thms encode_rune_ascii) simp
qed

lemma QuoteString_safe:
  assumes "bls_safe a"
  shows "QuoteString a = (if RequiresQuotes a then [CHR 0x22] @ a @ [CHR 0x22] else a)"
proof -
  have "list_all (\<lambda>c. byte c < 128 \<and> c \<notin> {CHR 0x22, CHR 0x5C, CHR ''$'', CHR 0x0A, CHR 0x0D}) a"
    using assms by (simp add: bls_safe_def)
  then have "concat (map quote_rune (map byte a)) = a"
    by (induction a) (auto simp: quote_rune_safe)
  moreover have "range_runes a = map byte a"
    using assms by (intro range_runes_ascii) (auto simp: bls_safe_def list_all_iff)
  ultimately show ?thesis by (simp add: QuoteString_def ForceQuoteString_def)
qed

lemma splitOptions_word:
  "CHR 0x22 \<notin> set a \<Longrightarrow> q \<or> (\<forall>c \<in> set a. \<not> blank c) \<Longrightarrow> splitOptions q cur (a @ s) = splitOptions q (cur @ a) s"
proof (induction a arbitrary: cur)
  case (Cons c a)
  then have c: "c \<noteq> CHR 0x22" "CHR 0x22 \<notin> set a" "q \<or> \<not> blank c" "q \<or> (\<forall>c \<in> set a. \<not> blank c)" by auto
  have "splitOptions q cur (c # a @ s) = splitOptions q (cur @ [c]) (a @ s)" using c(1,3) by auto
  then show ?case using Cons.IH [OF c(2,4), of "cur @ [c]"] by simp
qed simp

lemma splitOptions_quoted:
  assumes "bls_safe a"
  shows "splitOptions False [] (QuoteString a @ s) = splitOptions False a s"
proof -
  have q: "CHR 0x22 \<notin> set a" using assms by (auto simp: bls_safe_def list_all_iff)
  show ?thesis
  proof (cases "RequiresQuotes a")
    case True
    then show ?thesis using splitOptions_word [OF q, of True "[]" "CHR 0x22 # s"]
      by (simp add: QuoteString_safe [OF assms])
  next
    case False
    then have "\<forall>c \<in> set a. \<not> blank c" by (auto simp: RequiresQuotes_def ContainsAny_def list_ex_iff)
    then show ?thesis using splitOptions_word [OF q, of False "[]" s] False by (simp add: QuoteString_safe [OF assms])
  qed
qed

lemma splitOptions_GrubArgs: "list_all bls_safe args \<Longrightarrow> splitOptions False [] (GrubArgsToString args) = args"
proof (induction args rule: GrubArgsToString.induct)
  case (2 a)
  then show ?case using splitOptions_quoted [of a "[]"] by (auto simp: bls_safe_def)
next
  case (3 a b as)
  then show ?case using splitOptions_quoted [of a "CHR '' '' # GrubArgsToString (b # as)"] by (auto simp: bls_safe_def)
qed simp

lemma QuoteString_solid:
  assumes "bls_safe a"
  shows "solid (QuoteString a) \<and> CHR 0x0A \<notin> set (QuoteString a)"
proof (cases "RequiresQuotes a")
  case True
  then show ?thesis using assms by (auto simp: QuoteString_safe [OF assms] solid_def bls_safe_def list_all_iff)
next
  case False
  have ne: "a \<noteq> []" using assms by (simp add: bls_safe_def)
  have m: "\<not> blank c \<and> c \<noteq> CHR 0x0D \<and> c \<noteq> CHR 0x0A" if "c \<in> set a" for c
    using that False assms by (auto simp: RequiresQuotes_def ContainsAny_def list_ex_iff bls_safe_def list_all_iff)
  have "QuoteString a = a" using False by (simp add: QuoteString_def)
  then show ?thesis unfolding solid_def using ne m [OF hd_in_set [OF ne]] m [OF last_in_set [OF ne]] m by auto
qed

lemma solid_append: "solid r \<Longrightarrow> solid s \<Longrightarrow> solid (r @ t @ s)"
  by (auto simp: solid_def)

lemma GrubArgs_solid:
  "list_all bls_safe args \<Longrightarrow> args \<noteq> [] \<Longrightarrow> solid (GrubArgsToString args) \<and> CHR 0x0A \<notin> set (GrubArgsToString args)"
proof (induction args rule: GrubArgsToString.induct)
  case (2 a)
  then show ?case using QuoteString_solid by simp
next
  case (3 a b as)
  then show ?case using QuoteString_solid [of a] solid_append [of "QuoteString a" _ "'' ''"] by simp
qed simp

lemma solid_options: "solid ''options''"
  by (simp add: solid_def)

lemma optionsText_solid:
  assumes "list_all bls_safe args"
  shows "solid (optionsText args)" "CHR 0x0A \<notin> set (optionsText args)"
    "key_value (optionsText args) = (''options'', if args = [] then [] else GrubArgsToString args)"
proof -
  show "solid (optionsText args)" "CHR 0x0A \<notin> set (optionsText args)"
    using GrubArgs_solid [OF assms] solid_append [OF solid_options, of _ "'' ''"]
    by (auto simp: optionsText_def solid_options)
  show "key_value (optionsText args) = (''options'', if args = [] then [] else GrubArgsToString args)"
    using GrubArgs_solid [OF assms] by (cases "GrubArgsToString args") (auto simp: optionsText_def key_value_def solid_def)
qed

section \<open>Editing the lines of an entry\<close>

definition line_kv :: "string \<Rightarrow> string \<times> string" where
  "line_kv l = key_value (body l)"

definition is_options :: "string \<Rightarrow> bool" where
  "is_options l \<longleftrightarrow> fst (line_kv l) = ''options''"

definition lines_args :: "string list \<Rightarrow> string list" where
  "lines_args ls = concat (map (\<lambda>l. splitOptions False [] (snd (line_kv l))) (filter is_options ls))"

definition kept :: "string list \<Rightarrow> string list \<Rightarrow> string list" where
  "kept rm args = filter (\<lambda>a. fst (Cut a CHR ''='') \<notin> set rm) args"

fun edit_lines :: "string list \<Rightarrow> string list \<Rightarrow> string list \<Rightarrow> string list" where
  "edit_lines rm new [] = []"
| "edit_lines rm new (l # ls) =
     (if is_options l
      then put (optionsText (kept rm (splitOptions False [] (snd (line_kv l))) @ (if filter is_options ls = [] then new else []))) l
      else l) # edit_lines rm new ls"

lemma parseLine_kv: "bfKey (parseLine pos l) = fst (line_kv l)" "bfValue (parseLine pos l) = snd (line_kv l)"
  using parseLine_key_value [of pos l] by (simp_all add: line_kv_def prod_eq_iff)

lemma parseFrom_kv: "map (\<lambda>L. (bfKey L, bfValue L)) (parseFrom pos ls) = map line_kv ls"
  by (induction ls arbitrary: pos) (simp_all add: parseLine_kv)

lemma keptArgs_kept: "keptArgs rm value = kept rm (splitOptions False [] value)"
proof -
  have "Arg (blsArg a) = a" "argName (blsArg a) = fst (Cut a CHR ''='')" for a
    by (simp_all add: blsArg_def split: prod.splits)
  then show ?thesis by (simp add: keptArgs_def kept_def parseBLSOptionsValue_def filter_map comp_def)
qed

lemma filter_parseFrom_Nil:
  "filter (\<lambda>l. bfKey l = ''options'') (parseFrom pos ls) = [] \<longleftrightarrow> filter is_options ls = []"
  by (induction ls arbitrary: pos) (simp_all add: parseLine_kv is_options_def)

lemma updateOptionsLines_edit:
  "updateOptionsLines rm new (filter (\<lambda>l. bfKey l = ''options'') (parseFrom (length pre) ls)) (pre @ join nl ls @ t)
    = pre @ join nl (edit_lines rm new ls) @ t"
proof (induction ls arbitrary: pre)
  case (Cons l ls)
  let ?opts = "\<lambda>pos. filter (\<lambda>l. bfKey l = ''options'') (parseFrom pos ls)"
  let ?pos = "length pre + length l + 1"
  define post where "post = (if ls = [] then t else nl @ join nl (edit_lines rm new ls) @ t)"
  have inner: "updateOptionsLines rm new (?opts ?pos) (pre @ join nl (l # ls) @ t) = pre @ l @ post"
  proof (cases "ls = []")
    case False
    then have "pre @ join nl (l # ls) @ t = (pre @ l @ nl) @ join nl ls @ t" by (cases ls) auto
    then show ?thesis using Cons.IH [of "pre @ l @ nl"] False by (simp add: post_def)
  qed (simp add: post_def)
  have e: "edit_lines rm new ls = [] \<longleftrightarrow> ls = []" by (cases ls) auto
  have out: "join nl (x # edit_lines rm new ls) @ t = x @ post" for x
    using e by (cases "edit_lines rm new ls") (auto simp: post_def)
  show ?case
  proof (cases "is_options l")
    case False
    then show ?thesis using inner out [of l] by (simp add: parseLine_kv is_options_def)
  next
    case True
    then show ?thesis
      using inner out filter_parseFrom_Nil [of ?pos ls] spliceLine_put [of pre l _ post]
      by (simp add: parseLine_kv is_options_def keptArgs_kept Let_def)
  qed
qed simp

lemma line_kv_put: "solid r \<Longrightarrow> line_kv (put r l) = key_value r"
  by (simp add: line_kv_def body_put)

lemma kept_safe: "list_all bls_safe args \<Longrightarrow> list_all bls_safe (kept rm args)"
  by (auto simp: kept_def list_all_iff)

lemma lines_args_Cons:
  "lines_args (l # ls) = (if is_options l then splitOptions False [] (snd (line_kv l)) else []) @ lines_args ls"
  by (simp add: lines_args_def)

lemma edited_line:
  assumes "is_options l" "list_all bls_safe args" "CHR 0x0A \<notin> set l"
  shows "is_options (put (optionsText args) l)"
    "splitOptions False [] (snd (line_kv (put (optionsText args) l))) = args"
    "CHR 0x0A \<notin> set (put (optionsText args) l)" "put (optionsText args) l \<noteq> []"
proof -
  note t = optionsText_solid [OF assms(2)]
  have kv: "line_kv (put (optionsText args) l) = (''options'', if args = [] then [] else GrubArgsToString args)"
    using line_kv_put [OF t(1)] t(3) by simp
  show "is_options (put (optionsText args) l)" unfolding is_options_def kv by simp
  show "splitOptions False [] (snd (line_kv (put (optionsText args) l))) = args"
    using splitOptions_GrubArgs [OF assms(2)] unfolding kv by simp
  have "set (lead l) \<subseteq> set l" "set (trail l) \<subseteq> set l"
    using rstrip_prefix(1) [of l] lead_body [of l] by (metis set_append Un_upper1 Un_upper2 subset_trans)+
  then show "CHR 0x0A \<notin> set (put (optionsText args) l)" using t(2) assms(3) by (auto simp: put_def)
  show "put (optionsText args) l \<noteq> []" using t(1) by (auto simp: put_def solid_def)
qed

lemma edit_lines_args:
  assumes "list_all bls_safe (lines_args ls)" "list_all bls_safe new" "\<forall>l \<in> set ls. CHR 0x0A \<notin> set l"
  shows "lines_args (edit_lines rm new ls) = kept rm (lines_args ls) @ (if filter is_options ls = [] then [] else new)
    \<and> map line_kv (filter (\<lambda>l. \<not> is_options l) (edit_lines rm new ls)) = map line_kv (filter (\<lambda>l. \<not> is_options l) ls)
    \<and> (\<forall>l \<in> set (edit_lines rm new ls). CHR 0x0A \<notin> set l)
    \<and> (ls \<noteq> [] \<and> last ls \<noteq> [] \<longrightarrow> last (edit_lines rm new ls) \<noteq> [])
    \<and> (edit_lines rm new ls = [] \<longleftrightarrow> ls = [])"
  using assms(1,3)
proof (induction ls)
  case (Cons l ls)
  let ?args = "kept rm (splitOptions False [] (snd (line_kv l))) @ (if filter is_options ls = [] then new else [])"
  have ih: "list_all bls_safe (lines_args ls)" "\<forall>l \<in> set ls. CHR 0x0A \<notin> set l"
    using Cons.prems by (auto simp: lines_args_Cons)
  note IH = Cons.IH [OF ih]
  show ?case
  proof (cases "is_options l")
    case True
    then have "list_all bls_safe ?args" using Cons.prems(1) assms(2) kept_safe by (simp add: lines_args_Cons)
    note e = edited_line [OF True this]
    have n: "CHR 0x0A \<notin> set l" using Cons.prems by simp
    have k: "kept rm (xs @ ys) = kept rm xs @ kept rm ys" "kept rm [] = []" for xs ys by (simp_all add: kept_def)
    have "filter is_options ls = [] \<Longrightarrow> lines_args ls = []" by (simp add: lines_args_def)
    then have "?args @ lines_args (edit_lines rm new ls) = kept rm (lines_args (l # ls)) @ new"
      using IH True by (auto simp: lines_args_Cons k)
    moreover have "edit_lines rm new (l # ls) = put (optionsText ?args) l # edit_lines rm new ls" using True by simp
    ultimately show ?thesis
      using IH True e [OF n] by (auto simp: lines_args_Cons)
  next
    case False
    then show ?thesis using IH Cons.prems by (auto simp: lines_args_Cons)
  qed
qed (simp add: lines_args_def kept_def)

text \<open>What an entry says: the arguments of its \<open>options\<close> lines, joined, and its other fields.\<close>

definition entry_args :: "string \<Rightarrow> string list" where
  "entry_args content =
     concat (map (\<lambda>f. map Arg (parseBLSOptionsValue (bfValue f))) (filter (\<lambda>f. bfKey f = ''options'') (BlsParseFields content)))"

definition other_fields :: "string \<Rightarrow> BlsField list" where
  "other_fields content = filter (\<lambda>f. bfKey f \<noteq> ''options'') (BlsParseFields content)"

lemma map_Arg_blsArg: "map Arg (parseBLSOptionsValue v) = splitOptions False [] v"
proof -
  have "Arg \<circ> blsArg = id" by (rule ext) (simp add: blsArg_def split: prod.splits)
  then show ?thesis by (simp add: parseBLSOptionsValue_def)
qed

definition kv_field :: "string \<times> string \<Rightarrow> BlsField" where
  "kv_field kv = \<lparr>bfKey = fst kv, bfValue = snd kv\<rparr>"

lemma BlsParseFields_kv: "BlsParseFields content = map kv_field (filter (\<lambda>kv. fst kv \<noteq> []) (map line_kv (raw_lines content)))"
proof -
  have "map field_of (filter (\<lambda>l. bfKey l \<noteq> []) (parseFrom pos ls)) = map kv_field (filter (\<lambda>kv. fst kv \<noteq> []) (map line_kv ls))"
    for pos ls
    by (induction ls arbitrary: pos) (simp_all add: parseLine_kv field_of_def kv_field_def)
  then show ?thesis by (simp add: BlsParseFields_def BlsParseLines_def)
qed

lemma entry_args_lines: "entry_args content = lines_args (raw_lines content)"
proof -
  have "filter (\<lambda>f. bfKey f = ''options'') (map kv_field (filter (\<lambda>kv. fst kv \<noteq> []) (map line_kv ls)))
    = map (kv_field \<circ> line_kv) (filter is_options ls)" for ls
    by (induction ls) (auto simp: kv_field_def is_options_def)
  then show ?thesis
    by (simp add: entry_args_def BlsParseFields_kv lines_args_def map_Arg_blsArg kv_field_def comp_def)
qed

lemma other_fields_lines:
  "other_fields content
    = map kv_field (filter (\<lambda>kv. fst kv \<noteq> []) (map line_kv (filter (\<lambda>l. \<not> is_options l) (raw_lines content))))"
proof -
  have "filter (\<lambda>f. bfKey f \<noteq> ''options'') (map kv_field (filter (\<lambda>kv. fst kv \<noteq> []) (map line_kv ls)))
    = map kv_field (filter (\<lambda>kv. fst kv \<noteq> []) (map line_kv (filter (\<lambda>l. \<not> is_options l) ls)))" for ls
    by (induction ls) (auto simp: kv_field_def is_options_def)
  then show ?thesis by (simp add: other_fields_def BlsParseFields_kv)
qed

text \<open>C25. Updating the options of an entry: when all existing arguments of the entry and all new ones are
  ASCII, not empty and free of double quotes, backslashes, dollar signs and line breaks, then of all arguments of all
  its \<open>options\<close> lines those with a name to remove are gone, the others stay in order, and the new ones
  follow; every other field of the entry is as before. Dollar signs are a real exception, since entries refer to
  variables: \<open>updateBLSEntryOptions_dollar\<close>.\<close>

theorem updateBLSEntryOptions_args:
  assumes "list_all bls_safe (entry_args content)" "list_all bls_safe newArgs"
  shows "entry_args (updateBLSEntryOptions content argsToRemove newArgs)
      = filter (\<lambda>a. fst (Cut a CHR ''='') \<notin> set argsToRemove) (entry_args content) @ newArgs
    \<and> other_fields (updateBLSEntryOptions content argsToRemove newArgs) = other_fields content"
proof -
  let ?ls = "raw_lines content" let ?opts = "filter (\<lambda>l. bfKey l = ''options'') (BlsParseLines content)"
  obtain t where t: "content = join nl ?ls @ t" "t = [] \<or> t = nl"
    "t = [] \<Longrightarrow> ?ls = [] \<or> last ?ls \<noteq> []" "t = nl \<Longrightarrow> ?ls \<noteq> []"
    using content_raw_lines [of content] by blast
  have n: "\<forall>l \<in> set ?ls. CHR 0x0A \<notin> set l" using raw_lines_no_nl by blast
  have safe: "list_all bls_safe (lines_args ?ls)" using assms(1) by (simp add: entry_args_lines)
  have none: "?opts = [] \<longleftrightarrow> filter is_options ?ls = []" unfolding BlsParseLines_def by (rule filter_parseFrom_Nil)
  define out where "out = updateBLSEntryOptions content argsToRemove newArgs"
  have lines: "lines_args (raw_lines out) = kept argsToRemove (lines_args ?ls) @ newArgs
    \<and> map line_kv (filter (\<lambda>l. \<not> is_options l) (raw_lines out)) = map line_kv (filter (\<lambda>l. \<not> is_options l) ?ls)"
  proof (cases "?opts = []")
    case False
    note e = edit_lines_args [OF safe assms(2) n, of argsToRemove]
    have "out = updateOptionsLines argsToRemove newArgs ?opts content"
      using False by (simp add: out_def updateBLSEntryOptions_def Let_def)
    also have "\<dots> = join nl (edit_lines argsToRemove newArgs ?ls) @ t"
      using updateOptionsLines_edit [of argsToRemove newArgs "[]" ?ls t] t(1) by (simp add: BlsParseLines_def)
    finally have "raw_lines out = edit_lines argsToRemove newArgs ?ls"
      using raw_lines_join [of "edit_lines argsToRemove newArgs ?ls" t] e t(2-4) by auto
    then show ?thesis using e none False by simp
  next
    case True
    let ?r = "optionsText newArgs"
    note r = optionsText_solid [OF assms(2)]
    let ?c = "if content \<noteq> [] \<and> \<not> HasSuffix content nl then content @ nl else content"
    have o: "out = ?c @ ?r @ nl" using True by (simp add: out_def updateBLSEntryOptions_def Let_def)
    have "?c @ ?r = join nl (?ls @ [?r])"
    proof (cases "?ls = []")
      case True
      then show ?thesis using t by auto
    next
      case ne: False
      have "?c = join nl ?ls @ nl"
      proof (cases "t = []")
        case True
        then have c: "content = join nl ?ls" "last ?ls \<noteq> []" using t ne by auto
        then have "Split content CHR 0x0A = ?ls" using Split_join [OF ne] n by metis
        then have "content \<noteq> [] \<and> \<not> HasSuffix content nl"
          using c(2) Split_trailing ne by (metis last_ConsL last_snoc Split.simps(1) suffix_def)
        then show ?thesis using c(1) by simp
      next
        case False
        then have "content = join nl ?ls @ nl" using t by simp
        then show ?thesis by (auto simp: suffix_def)
      qed
      then show ?thesis using join_snoc [OF ne] by simp
    qed
    then have "out = join nl (?ls @ [?r]) @ nl" using o by simp
    then have raw: "raw_lines out = ?ls @ [?r]"
      using raw_lines_join [of "?ls @ [?r]" nl] n r(2) by auto
    have kv: "line_kv ?r = key_value ?r"
    proof -
      have "rstrip ?r = ?r" using r(1) by (intro rstrip_last) (auto simp: solid_def)
      then have "body ?r = ?r" using r(1) by (cases ?r) (auto simp: body_def solid_def)
      then show ?thesis by (simp add: line_kv_def)
    qed
    have opt: "is_options ?r" and sp: "splitOptions False [] (snd (line_kv ?r)) = newArgs"
      using splitOptions_GrubArgs [OF assms(2)] unfolding is_options_def kv r(3) by auto
    have "filter is_options ?ls = []" using none True by simp
    then show ?thesis unfolding raw using opt sp by (simp add: lines_args_def kept_def)
  qed
  show ?thesis
    unfolding out_def [symmetric] entry_args_lines other_fields_lines using lines by (simp add: kept_def)
qed

theorem updateBLSEntryOptions_args_witness:
  "entry_args (updateBLSEntryOptions (''options root=a quiet'' @ nl @ ''options ro'' @ nl) [''root''] [''root=b c''])
    = [''quiet'', ''ro'', ''root=b c'']"
proof -
  let ?c = "''options root=a quiet'' @ nl @ ''options ro'' @ nl"
  have a: "entry_args ?c = [''root=a'', ''quiet'', ''ro'']" by code_simp
  have "list_all bls_safe [''root=a'', ''quiet'', ''ro'']" "list_all bls_safe [''root=b c'']"
    by (simp_all add: bls_safe_def)
  then have "entry_args (updateBLSEntryOptions ?c [''root''] [''root=b c''])
      = filter (\<lambda>a. fst (Cut a CHR ''='') \<notin> set [''root'']) (entry_args ?c) @ [''root=b c'']"
    using updateBLSEntryOptions_args [of ?c "[''root=b c'']" "[''root'']"] unfolding a by blast
  then show ?thesis unfolding a by simp
qed

text \<open>An argument with a dollar sign does not survive an update of the options, even when nothing is
  removed or added: it is quoted for grub, with a backslash that an entry's reader keeps.\<close>

theorem updateBLSEntryOptions_dollar:
  "entry_args (updateBLSEntryOptions ''options $tuned_params'' [] []) = [[CHR 0x5C] @ ''$tuned_params'']
   \<and> entry_args ''options $tuned_params'' = [''$tuned_params'']"
proof -
  let ?c = "''options $tuned_params''" let ?a = "''$tuned_params''"
  have p: "concat (map quote_rune (map byte s)) = s" if "list_all (\<lambda>c. byte c < 128 \<and> c \<notin> {CHR 0x22, CHR 0x5C, CHR ''$''}) s" for s
    using that by (induction s) (auto simp: quote_rune_safe)
  have d: "quote_rune (byte CHR ''$'') = [CHR 0x5C, CHR ''$'']"
    unfolding quote_rune_def by (simp add: encode_rune_ascii char_of_def bit_0)
  have "list_all (\<lambda>c. byte c < 128) ?a" by simp
  then have "range_runes ?a = map byte (CHR ''$'' # ''tuned_params'')"
    by (intro range_runes_ascii) (auto simp: list_all_iff)
  then have "concat (map quote_rune (range_runes ?a)) = [CHR 0x5C, CHR ''$''] @ ''tuned_params''"
    using p [of "''tuned_params''"] d by simp
  moreover have "RequiresQuotes ?a" by (simp add: RequiresQuotes_def ContainsAny_def)
  ultimately have q: "QuoteString ?a = [CHR 0x22, CHR 0x5C] @ ?a @ [CHR 0x22]"
    by (simp add: QuoteString_def ForceQuoteString_def)
  have l: "BlsParseLines ?c = [\<lparr>bfKey = ''options'', bfValue = ?a, ContentStart = 0, ContentEnd = 21\<rparr>]" by code_simp
  have k: "keptArgs [] ?a = [?a]" by code_simp
  have "updateBLSEntryOptions ?c [] [] = ''options '' @ [CHR 0x22, CHR 0x5C] @ ?a @ [CHR 0x22]"
    by (simp add: updateBLSEntryOptions_def l k optionsText_def q spliceLine_def)
  moreover have "entry_args (''options '' @ [CHR 0x22, CHR 0x5C] @ ?a @ [CHR 0x22]) = [[CHR 0x5C] @ ?a]" by code_simp
  moreover have "entry_args ?c = [?a]" by code_simp
  ultimately show ?thesis by simp
qed

section \<open>Setting a field\<close>

fun set_first :: "string \<Rightarrow> string \<Rightarrow> BlsField list \<Rightarrow> BlsField list" where
  "set_first key v [] = []"
| "set_first key v (f # fs) = (if bfKey f = key then f\<lparr>bfValue := v\<rparr> # fs else f # set_first key v fs)"

fun set_line :: "string \<Rightarrow> string \<Rightarrow> string list \<Rightarrow> string list" where
  "set_line key v [] = []"
| "set_line key v (l # ls) =
     (if fst (line_kv l) = key then put (key @ '' '' @ v) l # ls else l # set_line key v ls)"

lemma set_line_Nil [simp]: "set_line key v ls = [] \<longleftrightarrow> ls = []"
  by (cases ls) auto

lemma setField_lines:
  "case find (\<lambda>l. bfKey l = key) (parseFrom (length pre) ls) of
     None \<Rightarrow> \<forall>l \<in> set ls. fst (line_kv l) \<noteq> key
   | Some L \<Rightarrow> spliceLine L (key @ '' '' @ v) (pre @ join nl ls @ t) = pre @ join nl (set_line key v ls) @ t
       \<and> (\<exists>l \<in> set ls. fst (line_kv l) = key)"
proof (induction ls arbitrary: pre)
  case (Cons l ls)
  show ?case
  proof (cases "fst (line_kv l) = key")
    case True
    define post where "post = (if ls = [] then t else nl @ join nl ls @ t)"
    have j: "join nl (x # ls) @ t = x @ post" for x by (cases ls) (simp_all add: post_def)
    show ?thesis using True spliceLine_put [of pre l "key @ '' '' @ v" post] by (simp add: parseLine_kv j)
  next
    case False
    have j: "ls \<noteq> [] \<Longrightarrow> pre @ join nl (l # xs) @ t = (pre @ l @ nl) @ join nl xs @ t" if "xs = [] \<longleftrightarrow> ls = []" for xs
      using that by (cases xs) auto
    show ?thesis
    proof (cases "ls = []")
      case True
      then show ?thesis using False by (simp add: parseLine_kv)
    next
      case ne: False
      then show ?thesis
        using Cons.IH [of "pre @ l @ nl"] False j [of ls] j [of "set_line key v ls"]
        by (auto simp: parseLine_kv split: option.splits)
    qed
  qed
qed simp

definition key_ok :: "string \<Rightarrow> bool" where
  "key_ok k \<longleftrightarrow> k \<noteq> [] \<and> hd k \<noteq> CHR ''#'' \<and> list_all (\<lambda>c. \<not> blank c \<and> c \<noteq> CHR 0x0A) k"

lemma set_line_fields:
  assumes "key_ok key" "solid v" "CHR 0x0A \<notin> set v" "\<forall>l \<in> set ls. CHR 0x0A \<notin> set l"
  shows "map kv_field (filter (\<lambda>kv. fst kv \<noteq> []) (map line_kv (set_line key v ls)))
      = set_first key v (map kv_field (filter (\<lambda>kv. fst kv \<noteq> []) (map line_kv ls)))
    \<and> (\<forall>l \<in> set (set_line key v ls). CHR 0x0A \<notin> set l)
    \<and> (ls \<noteq> [] \<and> last ls \<noteq> [] \<longrightarrow> last (set_line key v ls) \<noteq> [])"
  using assms(4)
proof (induction ls)
  case (Cons l ls)
  let ?r = "key @ '' '' @ v"
  obtain c k where k: "key = c # k" using assms(1) by (cases key) (auto simp: key_ok_def)
  have kb: "\<forall>c \<in> set key. \<not> blank c" using assms(1) by (auto simp: key_ok_def list_all_iff)
  have r: "solid ?r" using assms(2) kb k by (auto simp: solid_def)
  have "takeWhile (\<lambda>c. \<not> blank c) ?r = key" "dropWhile (\<lambda>c. \<not> blank c) ?r = '' '' @ v"
    using kb by (auto simp: takeWhile_append2 dropWhile_append2)
  moreover have "dropWhile blank ('' '' @ v) = v" using assms(2) by (cases v) (auto simp: solid_def)
  ultimately have "key_value ?r = (key, v)" using k assms(1) by (simp add: key_value_def key_ok_def)
  then have kv: "line_kv (put ?r l) = (key, v)" using line_kv_put [OF r] by simp
  have "set (lead l) \<subseteq> set l" "set (trail l) \<subseteq> set l"
    using rstrip_prefix(1) [of l] lead_body [of l] by (metis set_append Un_upper1 Un_upper2 subset_trans)+
  moreover have "CHR 0x0A \<notin> set key" using assms(1) by (auto simp: key_ok_def list_all_iff)
  ultimately have n: "CHR 0x0A \<notin> set (put ?r l)" using assms(3) Cons.prems by (auto simp: put_def)
  have ne: "put ?r l \<noteq> []" using k by (simp add: put_def)
  have kn: "key \<noteq> []" using k by simp
  have "set_line key v ls = [] \<longleftrightarrow> ls = []" by simp
  then show ?case
    using Cons kv n ne kn by (cases "fst (line_kv l) = key") (auto simp: kv_field_def)
qed simp

text \<open>Setting a field of an entry sets the value of the first field with that key and changes nothing
  else, white space and comments included as far as the fields can tell; it fails exactly when there
  is no such field.\<close>

theorem setBLSEntryField_fields:
  assumes "key_ok key" "solid v" "CHR 0x0A \<notin> set v"
  shows "case setBLSEntryField content key v of
      Inl e \<Rightarrow> e = KeyNotFound key \<and> list_all (\<lambda>f. bfKey f \<noteq> key) (BlsParseFields content)
    | Inr out \<Rightarrow> list_ex (\<lambda>f. bfKey f = key) (BlsParseFields content)
        \<and> BlsParseFields out = set_first key v (BlsParseFields content)"
proof -
  let ?ls = "raw_lines content"
  obtain t where t: "content = join nl ?ls @ t" "t = [] \<or> t = nl"
    "t = [] \<Longrightarrow> ?ls = [] \<or> last ?ls \<noteq> []" "t = nl \<Longrightarrow> ?ls \<noteq> []"
    using content_raw_lines [of content] by blast
  have n: "\<forall>l \<in> set ?ls. CHR 0x0A \<notin> set l" using raw_lines_no_nl by blast
  note s = set_line_fields [OF assms n] setField_lines [where key = key and pre = "[]" and ls = ?ls and v = v and t = t]
  have kne: "key \<noteq> []" using assms(1) by (simp add: key_ok_def)
  have mem: "list_ex (\<lambda>f. bfKey f = key) (BlsParseFields content) \<longleftrightarrow> (\<exists>l \<in> set ?ls. fst (line_kv l) = key)"
    using kne by (auto simp: BlsParseFields_kv list_ex_iff kv_field_def)
  show ?thesis
  proof (cases "find (\<lambda>l. bfKey l = key) (BlsParseLines content)")
    case None
    then have "\<forall>l \<in> set ?ls. fst (line_kv l) \<noteq> key" using s(2) by (simp add: BlsParseLines_def)
    then have "list_all (\<lambda>f. bfKey f \<noteq> key) (BlsParseFields content)"
      using mem by (auto simp: list_all_iff list_ex_iff)
    then show ?thesis using None by (simp add: setBLSEntryField_def)
  next
    case (Some L)
    let ?out = "spliceLine L (key @ '' '' @ v) content"
    have o: "?out = join nl (set_line key v ?ls) @ t" "\<exists>l \<in> set ?ls. fst (line_kv l) = key"
      using s(2) Some t(1) by (auto simp: BlsParseLines_def)
    have "raw_lines ?out = set_line key v ?ls"
      unfolding o(1) using raw_lines_join [of "set_line key v ?ls" t] s(1) t(2-4) by auto
    then have "BlsParseFields ?out = set_first key v (BlsParseFields content)"
      using s(1) by (simp add: BlsParseFields_kv)
    then show ?thesis using Some o(2) mem by (simp add: setBLSEntryField_def)
  qed
qed

theorem setBLSEntryField_fields_witness:
  "\<exists>out. setBLSEntryField ''linux a'' ''linux'' ''b'' = Inr out \<and> map bfValue (BlsParseFields out) = [''b'']"
proof -
  have "key_ok ''linux''" "solid ''b''" by (simp_all add: key_ok_def solid_def)
  moreover have "setBLSEntryField ''linux a'' ''linux'' ''b'' = Inr ''linux b''" by code_simp
  moreover have "BlsParseFields ''linux a'' = [\<lparr>bfKey = ''linux'', bfValue = ''a''\<rparr>]" by code_simp
  ultimately show ?thesis using setBLSEntryField_fields [of "''linux''" "''b''" "''linux a''"] by simp
qed

end
