(* ===== verification/Host.thy ===== *)
theory Host
  imports Paths
begin

text \<open>
  The operations of the program that run tools or the kernel. A world of type \<open>'w\<close> stands for everything outside of
  the program's memory, and the record \<open>host\<close> for what the program can do to it: run a command with its standard
  input, ask for a path's status, read a file, have the kernel read a partition table again. The host is an argument
  of every definition that uses it. An action maps a world to its result and the world after it; \<open>None\<close> is an action
  that does not return.

  Also \<open>internal/retry/retry.go\<close>, which runs an action until it succeeds.
\<close>

section \<open>Actions\<close>

type_synonym ('w, 'e, 'a) act = "'w \<Rightarrow> (('e + 'a) \<times> 'w) option"

definition returnE :: "'a \<Rightarrow> ('w, 'e, 'a) act" where
  "returnE x = (\<lambda>w. Some (Inr x, w))"

definition throwE :: "'e \<Rightarrow> ('w, 'e, 'a) act" where
  "throwE e = (\<lambda>w. Some (Inl e, w))"

definition liftE :: "'e + 'a \<Rightarrow> ('w, 'e, 'a) act" where
  "liftE r = (\<lambda>w. Some (r, w))"

definition askE :: "('w \<Rightarrow> 'a) \<Rightarrow> ('w, 'e, 'a) act" where
  "askE f = (\<lambda>w. Some (Inr (f w), w))"

definition bindE :: "('w, 'e, 'a) act \<Rightarrow> ('a \<Rightarrow> ('w, 'e, 'b) act) \<Rightarrow> ('w, 'e, 'b) act" where
  "bindE m f = (\<lambda>w. case m w of None \<Rightarrow> None | Some (Inl e, w') \<Rightarrow> Some (Inl e, w') | Some (Inr a, w') \<Rightarrow> f a w')"

definition mapErrE :: "('e \<Rightarrow> 'f) \<Rightarrow> ('w, 'e, 'a) act \<Rightarrow> ('w, 'f, 'a) act" where
  "mapErrE h m = (\<lambda>w. map_option (\<lambda>(r, w'). (map_sum h id r, w')) (m w))"

text \<open>A loop over a list with a state, left at the first error.\<close>

fun foldE :: "('a \<Rightarrow> 's \<Rightarrow> ('w, 'e, 's) act) \<Rightarrow> 'a list \<Rightarrow> 's \<Rightarrow> ('w, 'e, 's) act" where
  "foldE f [] s = returnE s"
| "foldE f (x # xs) s = bindE (f x s) (foldE f xs)"

text \<open>An action without a result that runs on every element.\<close>

definition forE :: "('a \<Rightarrow> ('w, 'e, unit) act) \<Rightarrow> 'a list \<Rightarrow> ('w, 'e, unit) act" where
  "forE f xs = foldE (\<lambda>x _. f x) xs ()"

lemmas act_defs = returnE_def throwE_def liftE_def askE_def bindE_def mapErrE_def

lemma bindE_assoc: "bindE (bindE m f) g = bindE m (\<lambda>x. bindE (f x) g)"
  by (rule ext) (auto simp: bindE_def split: option.splits sum.splits)

lemma bindE_returnE [simp]: "bindE (returnE x) f = f x" "bindE m returnE = m"
  by (rule ext, auto simp: bindE_def returnE_def split: option.splits sum.splits)+

lemma bindE_Inr:
  "bindE m f w = Some (Inr b, w2) \<longleftrightarrow> (\<exists>a w1. m w = Some (Inr a, w1) \<and> f a w1 = Some (Inr b, w2))"
  by (auto simp: bindE_def split: option.splits sum.splits)

section \<open>Invariants of the world\<close>

text \<open>\<open>always I m\<close>: whenever the action returns, with a result or with an error, the invariant still holds.\<close>

definition always :: "('w \<Rightarrow> bool) \<Rightarrow> ('w, 'e, 'a) act \<Rightarrow> bool" where
  "always I m \<longleftrightarrow> (\<forall>w r w'. I w \<longrightarrow> m w = Some (r, w') \<longrightarrow> I w')"

lemma always_I: "(\<And>w r w'. I w \<Longrightarrow> m w = Some (r, w') \<Longrightarrow> I w') \<Longrightarrow> always I m"
  by (simp add: always_def)

lemma alwaysD: "always I m \<Longrightarrow> I w \<Longrightarrow> m w = Some (r, w') \<Longrightarrow> I w'"
  by (auto simp: always_def)

lemma always_basic [intro]:
  "always I (returnE x)" "always I (throwE e)" "always I (liftE r)" "always I (askE f)"
  by (auto simp: always_def act_defs)

lemma always_bindE [intro]: "always I m \<Longrightarrow> (\<And>a. always I (f a)) \<Longrightarrow> always I (bindE m f)"
  by (rule always_I) (auto simp: bindE_def split: option.splits sum.splits; meson alwaysD)

lemma always_mapErrE [intro]: "always I m \<Longrightarrow> always I (mapErrE h m)"
  by (rule always_I) (auto simp: mapErrE_def; meson alwaysD)

lemma always_foldE [intro]: "(\<And>x s. always I (f x s)) \<Longrightarrow> always I (foldE f xs s)"
proof (induction xs arbitrary: s)
  case Nil
  show ?case by (simp add: always_basic)
next
  case (Cons x xs)
  show ?case unfolding foldE.simps by (rule always_bindE) (use Cons in auto)
qed

lemma always_forE [intro]: "(\<And>x. always I (f x)) \<Longrightarrow> always I (forE f xs)"
  unfolding forE_def by (rule always_foldE)

section \<open>The host\<close>

datatype errno = errno_ok | EBUSY | errno_other

record 'w host =
  h_exec :: "string list \<Rightarrow> string \<Rightarrow> 'w \<Rightarrow> (string \<times> string \<times> bool) \<times> 'w"
  h_stat :: "'w \<Rightarrow> file_system"
  h_read :: "'w \<Rightarrow> string \<Rightarrow> string option"
  h_reread :: "string \<Rightarrow> 'w \<Rightarrow> errno \<times> 'w"

datatype shell_error = CommandFailed "string list" string

text \<open>\<open>shell.Execute\<close> and its variants: the outputs of a command that succeeds, or the error with its standard error.\<close>

definition Execute :: "('w, 'x) host_scheme \<Rightarrow> string list \<Rightarrow> string \<Rightarrow> ('w, shell_error, string \<times> string) act" where
  "Execute h args stdin =
     (\<lambda>w. case h_exec h args stdin w of ((out, err, ok), w') \<Rightarrow>
        Some (if ok then Inr (out, err) else Inl (CommandFailed args err), w'))"

definition statE :: "('w, 'x) host_scheme \<Rightarrow> string \<Rightarrow> ('w, stat, bool) act" where
  "statE h p = (\<lambda>w. Some (file_PathExists (h_stat h w) p, w))"

lemma always_statE [intro]: "always I (statE h p)"
  by (auto simp: always_def statE_def)

lemma always_Execute:
  "(\<And>w. I w \<Longrightarrow> I (snd (h_exec h args stdin w))) \<Longrightarrow> always I (Execute h args stdin)"
proof (rule always_I)
  fix w r w'
  assume *: "\<And>w. I w \<Longrightarrow> I (snd (h_exec h args stdin w))" "I w" "Execute h args stdin w = Some (r, w')"
  obtain out err ok v where "h_exec h args stdin w = ((out, err, ok), v)" by (metis prod.exhaust)
  with * show "I w'" by (auto simp: Execute_def dest: *(1))
qed

section \<open>Running an action until it succeeds\<close>

text \<open>\<open>runWithBackoffInternal\<close>: the delays are times, which the model does not have; \<open>cancelled i\<close> says whether the
  context is done when attempt \<open>i\<close> is about to run.\<close>

datatype 'e retry_error = ErrCommandNotRun | ErrRetryCancelled "'e retry_error" | LastError 'e

fun retryFrom :: "(nat \<Rightarrow> bool) \<Rightarrow> nat \<Rightarrow> nat \<Rightarrow> 'e retry_error \<Rightarrow> ('w, 'e, 'a) act \<Rightarrow> ('w, 'e retry_error, 'a) act" where
  "retryFrom cancelled i 0 err function = throwE err"
| "retryFrom cancelled i (Suc n) err function =
     (if cancelled i then throwE (ErrRetryCancelled err)
      else (\<lambda>w. case function w of
              None \<Rightarrow> None
            | Some (Inr a, w') \<Rightarrow> Some (Inr a, w')
            | Some (Inl e, w') \<Rightarrow> retryFrom cancelled (Suc i) n (LastError e) function w'))"

definition runWithBackoffInternal :: "(nat \<Rightarrow> bool) \<Rightarrow> ('w, 'e, 'a) act \<Rightarrow> nat \<Rightarrow> ('w, 'e retry_error, 'a) act" where
  "runWithBackoffInternal cancelled function attempts = retryFrom cancelled 0 attempts ErrCommandNotRun function"

definition retry_Run :: "('w, 'e, 'a) act \<Rightarrow> nat \<Rightarrow> ('w, 'e retry_error, 'a) act" where
  "retry_Run function attempts = runWithBackoffInternal (\<lambda>_. False) function attempts"

definition RunWithExpBackoff :: "(nat \<Rightarrow> bool) \<Rightarrow> ('w, 'e, 'a) act \<Rightarrow> nat \<Rightarrow> ('w, 'e retry_error, 'a) act" where
  "RunWithExpBackoff cancelled function attempts = runWithBackoffInternal cancelled function attempts"

text \<open>The delay before an attempt, in the units of \<open>sleep\<close>, for a linear backoff.\<close>

definition calculateLinearDelay :: "int \<Rightarrow> int \<Rightarrow> int" where
  "calculateLinearDelay failCount sleep = (if failCount \<le> 0 then 0 else sleep * failCount)"

lemma always_retryFrom [intro]: "always I f \<Longrightarrow> always I (retryFrom c i n e f)"
proof (induction n arbitrary: i e)
  case (Suc n)
  show ?case
  proof (rule always_I)
    fix w r w'
    assume I: "I w" and r: "retryFrom c i (Suc n) e f w = Some (r, w')"
    show "I w'"
    proof (cases "c i")
      case True
      with I r show ?thesis by (simp add: throwE_def)
    next
      case False
      with r obtain r1 w1 where f: "f w = Some (r1, w1)" by (auto split: option.splits)
      with Suc.prems I have I1: "I w1" by (blast dest: alwaysD)
      show ?thesis
      proof (cases r1)
        case (Inl e1)
        with r False f have "retryFrom c (Suc i) n (LastError e1) f w1 = Some (r, w')" by simp
        with Suc.IH [OF Suc.prems] I1 show ?thesis by (blast dest: alwaysD)
      next
        case (Inr a)
        with r False f I1 show ?thesis by simp
      qed
    qed
  qed
qed (simp add: always_basic)

text \<open>\<open>attempts\<close> runs of the action, each in the world the previous one left.\<close>

fun runs :: "('w, 'e, 'a) act \<Rightarrow> nat \<Rightarrow> 'w \<Rightarrow> ('e + 'a) list \<Rightarrow> 'w \<Rightarrow> bool" where
  "runs f 0 w rs w' \<longleftrightarrow> rs = [] \<and> w' = w"
| "runs f (Suc n) w rs w' \<longleftrightarrow> (\<exists>r w1 rs'. f w = Some (r, w1) \<and> rs = r # rs' \<and> runs f n w1 rs' w')"

lemma retryFrom_result:
  assumes "retryFrom (\<lambda>_. False) i n e f w = Some (r, w')"
  shows "\<exists>m rs. m \<le> n \<and> runs f m w rs w'
     \<and> (case r of
          Inr a \<Rightarrow> m > 0 \<and> (\<forall>x \<in> set (butlast rs). \<exists>e. x = Inl e) \<and> last rs = Inr a
        | Inl x \<Rightarrow> m = n \<and> (\<forall>x \<in> set rs. \<exists>e. x = Inl e)
            \<and> (if n = 0 then x = e else \<exists>e'. last rs = Inl e' \<and> x = LastError e'))"
  using assms
proof (induction n arbitrary: i e w)
  case 0
  then show ?case by (auto simp: throwE_def intro!: exI [of _ "[]"])
next
  case (Suc n)
  then obtain r1 w1 where f: "f w = Some (r1, w1)" by (auto split: option.splits)
  show ?case
  proof (cases r1)
    case (Inr a)
    with Suc.prems f have "r = Inr a" "w' = w1" by auto
    with f Inr show ?thesis by (intro exI [of _ 1] exI [of _ "[Inr a]"]) auto
  next
    case (Inl e1)
    with Suc.prems f have "retryFrom (\<lambda>_. False) (Suc i) n (LastError e1) f w1 = Some (r, w')" by simp
    from Suc.IH [OF this] obtain m rs where m: "m \<le> n" "runs f m w1 rs w'"
      and c: "case r of
          Inr a \<Rightarrow> m > 0 \<and> (\<forall>x \<in> set (butlast rs). \<exists>e. x = Inl e) \<and> last rs = Inr a
        | Inl x \<Rightarrow> m = n \<and> (\<forall>x \<in> set rs. \<exists>e. x = Inl e)
            \<and> (if n = 0 then x = LastError e1 else \<exists>e'. last rs = Inl e' \<and> x = LastError e')"
      by blast
    have "rs \<noteq> [] \<longleftrightarrow> m > 0" using m(2) by (cases m) auto
    with f Inl m c show ?thesis
      by (intro exI [of _ "Suc m"] exI [of _ "Inl e1 # rs"]) (cases r; auto split: if_splits)
  qed
qed

end
