(* ===== verification/Fstab.thy ===== *)
theory Fstab
  imports FileSystems TextUtils Paths MathUtils
begin

text \<open>
  \<open>imagegen/diskutils/fstab.go\<close>, the partition records of \<open>imagegen/diskutils/diskutils.go\<close> and the look-ups of
  \<open>pkg/imagecustomizerlib/partitionutils.go\<close> that need no mounted file system: which partition a source of
  \<open>/etc/fstab\<close> names, and which mount covers a path. \<open>findmnt\<close> and \<open>lsblk\<close> print JSON that the library decodes; the
  records here are the decoded values, and only the decoding of mount flags is code of the program.
\<close>

unbundle bit_operations_syntax

section \<open>Mount flags\<close>

text \<open>The constants of Linux that the code names, with the values of its headers: \<open>MS_ASYNC\<close> and \<open>MS_SYNC\<close> are flags
  of \<open>msync\<close>, the others of \<open>mount\<close>.\<close>

type_synonym MountFlags = "64 word"

definition MS_RDONLY :: MountFlags where "MS_RDONLY = 0x1"
definition MS_NOSUID :: MountFlags where "MS_NOSUID = 0x2"
definition MS_NODEV :: MountFlags where "MS_NODEV = 0x4"
definition MS_NOEXEC :: MountFlags where "MS_NOEXEC = 0x8"
definition MS_REMOUNT :: MountFlags where "MS_REMOUNT = 0x20"
definition MS_MANDLOCK :: MountFlags where "MS_MANDLOCK = 0x40"
definition MS_DIRSYNC :: MountFlags where "MS_DIRSYNC = 0x80"
definition MS_NOATIME :: MountFlags where "MS_NOATIME = 0x400"
definition MS_NODIRATIME :: MountFlags where "MS_NODIRATIME = 0x800"
definition MS_RELATIME :: MountFlags where "MS_RELATIME = 0x200000"
definition MS_I_VERSION :: MountFlags where "MS_I_VERSION = 0x800000"
definition MS_STRICTATIME :: MountFlags where "MS_STRICTATIME = 0x1000000"
definition MS_ASYNC :: MountFlags where "MS_ASYNC = 0x1"
definition MS_SYNC :: MountFlags where "MS_SYNC = 0x4"

lemmas mount_flag_defs =
  MS_RDONLY_def MS_NOSUID_def MS_NODEV_def MS_NOEXEC_def MS_REMOUNT_def MS_MANDLOCK_def MS_DIRSYNC_def
  MS_NOATIME_def MS_NODIRATIME_def MS_RELATIME_def MS_I_VERSION_def MS_STRICTATIME_def MS_ASYNC_def MS_SYNC_def

datatype mount_flag_error = UnsupportedMountFlag string | UnknownMountFlag string

text \<open>One case of the switch on an option.\<close>

definition mountFlagOption :: "MountFlags \<Rightarrow> string \<Rightarrow> mount_flag_error + MountFlags" where
  "mountFlagOption val opt =
     (if opt = ''async'' then Inr (val OR MS_ASYNC)
      else if opt = ''atime'' then Inr (val AND NOT MS_NOATIME)
      else if opt = ''noatime'' then Inr (val OR MS_NOATIME)
      else if opt = ''dev'' then Inr (val AND NOT MS_NODEV)
      else if opt = ''nodev'' then Inr (val OR MS_NODEV)
      else if opt = ''diratime'' then Inr (val AND NOT MS_NODIRATIME)
      else if opt = ''nodiratime'' then Inr (val OR MS_NODIRATIME)
      else if opt = ''dirsync'' then Inr (val OR MS_DIRSYNC)
      else if opt = ''exec'' then Inr (val AND NOT MS_NOEXEC)
      else if opt = ''noexec'' then Inr (val OR MS_NOEXEC)
      else if opt = ''iversion'' then Inr (val OR MS_I_VERSION)
      else if opt = ''mand'' then Inr (val OR MS_MANDLOCK)
      else if opt = ''nomand'' then Inr (val AND NOT MS_MANDLOCK)
      else if opt = ''relatime'' then Inr (val OR MS_RELATIME)
      else if opt = ''norelatime'' then Inr (val AND NOT MS_RELATIME)
      else if opt = ''strictatime'' then Inr (val OR MS_STRICTATIME)
      else if opt = ''nostrictatime'' then Inr (val AND NOT MS_STRICTATIME)
      else if opt = ''suid'' then Inr (val AND NOT MS_NOSUID)
      else if opt = ''nosuid'' then Inr (val OR MS_NOSUID)
      else if opt = ''remount'' then Inr (val OR MS_REMOUNT)
      else if opt = ''ro'' then Inr (val OR MS_RDONLY)
      else if opt = ''rw'' then Inr (val AND NOT MS_RDONLY)
      else if opt = ''sync'' then Inr (val OR MS_SYNC)
      else if opt \<in> set [''owner'', ''user'', ''nouser'', ''users'', ''group'', ''auto'', ''noauto'', ''nofail'', ''_netdev'', ''_rnetdev'']
      then Inr val
      else if opt = ''defaults'' then Inl (UnsupportedMountFlag opt)
      else if opt = [] then Inr val
      else Inl (UnknownMountFlag opt))"

fun mountFlagsLoop :: "MountFlags \<Rightarrow> string list \<Rightarrow> mount_flag_error + MountFlags" where
  "mountFlagsLoop val [] = Inr val"
| "mountFlagsLoop val (opt # opts) =
     (case mountFlagOption val opt of Inl e \<Rightarrow> Inl e | Inr val' \<Rightarrow> mountFlagsLoop val' opts)"

text \<open>\<open>UnmarshalJSON\<close> of the string that the JSON value holds.\<close>

definition MountFlags_UnmarshalJSON :: "string \<Rightarrow> mount_flag_error + MountFlags" where
  "MountFlags_UnmarshalJSON stringValue = mountFlagsLoop 0 (Split stringValue CHR '','')"

section \<open>Entries of fstab\<close>

record FstabEntry =
  feSource :: string
  feTarget :: string
  feFsType :: string
  feOptions :: string
  feVfsOptions :: MountFlags
  feFsOptions :: string
  feFreq :: int
  fePassNo :: int

definition fstabLine :: "FstabEntry \<Rightarrow> string" where
  "fstabLine e = feSource e @ '' '' @ feTarget e @ '' '' @ feFsType e @ '' '' @ feOptions e @ '' ''
     @ int_dec (feFreq e) @ '' '' @ int_dec (fePassNo e)"

text \<open>\<open>file.WriteLines\<close>: every line with a newline.\<close>

definition WriteLines :: "string list \<Rightarrow> string" where
  "WriteLines lines = concat (map (\<lambda>l. l @ [CHR 0x0A]) lines)"

definition WriteFstabFile :: "FstabEntry list \<Rightarrow> string" where
  "WriteFstabFile entries = WriteLines (map fstabLine entries)"

section \<open>Partitions of a disk\<close>

record PartitionInfo =
  piName :: string
  piPath :: string
  piPartitionTypeUuid :: string
  piFileSystemType :: string
  piUuid :: string
  piPartUuid :: string
  piMountpoint :: string
  piPartLabel :: string
  piLabel :: string
  piType :: string
  piSizeInBytes :: uint64

definition EfiSystemPartitionTypeUuid :: string where
  "EfiSystemPartitionTypeUuid = ''c12a7328-f81f-11d2-ba4b-00a0c93ec93b''"

definition BiosBootPartitionTypeUuid :: string where
  "BiosBootPartitionTypeUuid = ''21686148-6449-6e6f-744e-656564454649''"

definition GenericLinuxPartitionTypeUuid :: string where
  "GenericLinuxPartitionTypeUuid = ''0FC63DAF-8483-4772-8E79-3D69D8477DE4''"

definition MountIdentifierTypeLabel :: MountIdentifierType where [enum_defs]: "MountIdentifierTypeLabel = ''label''"
definition MountIdentifierTypeDev :: MountIdentifierType where [enum_defs]: "MountIdentifierTypeDev = ''dev''"

datatype lookup_error =
    MoreThanOneBootPartition | NoBootPartition | UnexpectedBootPartitionUuid string
  | DevTypeNotSupported string | PartitionNotFound string string | TooManyPartitions string string
  | UnknownSourceType string | UnsupportedSourceType string
  | NoFstabEntryForPath string | DataPartitionHasNoDevice | PartUuidNotFound string string
  | DevSourceNotSupported string | PartitionNumberNotFound string | PartitionNumberInvalid num_error

definition findSystemBootPartition :: "PartitionInfo list \<Rightarrow> lookup_error + PartitionInfo" where
  "findSystemBootPartition diskPartitions =
     (let bootPartitions = filter (\<lambda>p. piPartitionTypeUuid p \<in> set [EfiSystemPartitionTypeUuid, BiosBootPartitionTypeUuid])
                             diskPartitions
      in if length bootPartitions > 1 then Inl MoreThanOneBootPartition
         else if length bootPartitions < 1 then Inl NoBootPartition
         else Inr (bootPartitions ! 0))"

definition getImageBootTypeHelper :: "PartitionInfo list \<Rightarrow> lookup_error + BootType" where
  "getImageBootTypeHelper diskPartitions =
     (case findSystemBootPartition diskPartitions of
        Inl e \<Rightarrow> Inl e
      | Inr p \<Rightarrow>
          if piPartitionTypeUuid p = EfiSystemPartitionTypeUuid then Inr BootTypeEfi
          else if piPartitionTypeUuid p = BiosBootPartitionTypeUuid then Inr BootTypeLegacy
          else Inl (UnexpectedBootPartitionUuid (piPartitionTypeUuid p)))"

section \<open>Finding a partition by its identifier\<close>

definition partition_matches :: "MountIdentifierType \<Rightarrow> string \<Rightarrow> PartitionInfo \<Rightarrow> bool" where
  "partition_matches mountIdType mountId p =
     (if mountIdType = MountIdentifierTypeUuid then piUuid p = mountId
      else if mountIdType = MountIdentifierTypePartUuid then piPartUuid p = mountId
      else if mountIdType = MountIdentifierTypePartLabel then piPartLabel p = mountId
      else if mountIdType = MountIdentifierTypeLabel then piLabel p = mountId
      else False)"

definition findPartitionHelper ::
  "MountIdentifierType \<Rightarrow> string \<Rightarrow> PartitionInfo list \<Rightarrow> lookup_error + (PartitionInfo \<times> nat)" where
  "findPartitionHelper mountIdType mountId partitions =
     (if mountIdType = MountIdentifierTypeDev then Inl (DevTypeNotSupported mountId)
      else
        let matchedPartitionIndexes = filter (\<lambda>i. partition_matches mountIdType mountId (partitions ! i)) [0..<length partitions]
        in if length matchedPartitionIndexes < 1 then Inl (PartitionNotFound mountIdType mountId)
           else if length matchedPartitionIndexes > 1 then Inl (TooManyPartitions mountIdType mountId)
           else let partitionIndex = matchedPartitionIndexes ! 0 in Inr (partitions ! partitionIndex, partitionIndex))"

definition findPartition ::
  "MountIdentifierType \<Rightarrow> string \<Rightarrow> PartitionInfo list \<Rightarrow> lookup_error + (PartitionInfo \<times> nat)" where
  "findPartition mountIdType mountId partitions =
     (case findPartitionHelper mountIdType mountId partitions of Inl e \<Rightarrow> Inl e | Inr r \<Rightarrow> Inr r)"

definition parseExtendedSourcePartition :: "string \<Rightarrow> lookup_error + (MountIdentifierType \<times> string)" where
  "parseExtendedSourcePartition source =
     (case CutPrefix source ''UUID='' of (uuid, isUuid) \<Rightarrow>
      if isUuid then Inr (MountIdentifierTypeUuid, uuid)
      else case CutPrefix source ''PARTUUID='' of (partUuid, isPartUuid) \<Rightarrow>
      if isPartUuid then Inr (MountIdentifierTypePartUuid, partUuid)
      else case CutPrefix source ''PARTLABEL='' of (pLabel, isPartLabel) \<Rightarrow>
      if isPartLabel then Inr (MountIdentifierTypePartLabel, pLabel)
      else case CutPrefix source ''LABEL='' of (label, isLabel) \<Rightarrow>
      if isLabel then Inr (MountIdentifierTypeLabel, label)
      else if HasPrefix source ''/dev'' then Inr (MountIdentifierTypeDev, source)
      else Inl (UnknownSourceType source))"

definition parseSourcePartition :: "string \<Rightarrow> lookup_error + (MountIdentifierType \<times> string)" where
  "parseSourcePartition source =
     (case parseExtendedSourcePartition source of
        Inl e \<Rightarrow> Inl e
      | Inr (mountIdType, i) \<Rightarrow>
          if mountIdType \<in> set [MountIdentifierTypeUuid, MountIdentifierTypePartUuid, MountIdentifierTypePartLabel]
          then Inr (mountIdType, i)
          else Inl (UnsupportedSourceType mountIdType))"

definition filterOutSpecialPartitions :: "FstabEntry list \<Rightarrow> FstabEntry list" where
  "filterOutSpecialPartitions entries =
     filter (\<lambda>e. feFsType e \<notin> set [''devtmpfs'', ''proc'', ''sysfs'', ''devpts'', ''tmpfs'']) entries"

text \<open>\<open>^/dev/loop\d+p(\d+)$\<close>: the digits after the last \<open>p\<close>. \<open>$\<close> without the multi-line flag is the end of the text.\<close>

definition partitionNumberRegex_match :: "string \<Rightarrow> string option" where
  "partitionNumberRegex_match s =
     (case CutPrefix s ''/dev/loop'' of (t, isLoop) \<Rightarrow>
        if isLoop \<and> takeWhile is_digit t \<noteq> [] \<and> HasPrefix (dropWhile is_digit t) ''p''
           \<and> drop 1 (dropWhile is_digit t) \<noteq> [] \<and> list_all is_digit (drop 1 (dropWhile is_digit t))
        then Some (drop 1 (dropWhile is_digit t)) else None)"

definition getPartitionNum :: "string \<Rightarrow> lookup_error + int" where
  "getPartitionNum partitionLoopDevice =
     (case partitionNumberRegex_match partitionLoopDevice of
        None \<Rightarrow> Inl (PartitionNumberNotFound partitionLoopDevice)
      | Some numStr \<Rightarrow> (case Atoi numStr of Inl e \<Rightarrow> Inl (PartitionNumberInvalid e) | Inr num \<Rightarrow> Inr num))"

section \<open>The mount that covers a path\<close>

text \<open>The path of \<open>targetPath\<close> relative to \<open>path\<close>, when it is below it.\<close>

definition relative_below :: "string \<Rightarrow> string \<Rightarrow> string option" where
  "relative_below path targetPath =
     (case path_Rel path targetPath of
        None \<Rightarrow> None
      | Some r \<Rightarrow> if r = ''..'' \<or> HasPrefix r ''../'' then None else Some r)"

text \<open>The loop, with what was found so far: key, path and relative path.\<close>

fun mostSpecificLoop ::
  "string \<Rightarrow> ('v \<Rightarrow> string) \<Rightarrow> ('k \<times> string \<times> string) option \<Rightarrow> ('k \<times> 'v) list \<Rightarrow> ('k \<times> string \<times> string) option" where
  "mostSpecificLoop targetPath pathFn best [] = best"
| "mostSpecificLoop targetPath pathFn best ((k, v) # items) =
     (case relative_below (pathFn v) targetPath of
        None \<Rightarrow> mostSpecificLoop targetPath pathFn best items
      | Some r \<Rightarrow>
          mostSpecificLoop targetPath pathFn
            (case best of
               None \<Rightarrow> Some (k, pathFn v, r)
             | Some (_, mostSpecificPath, _) \<Rightarrow>
                 if length (pathFn v) > length mostSpecificPath then Some (k, pathFn v, r) else best)
            items)"

definition getMostSpecificPath :: "string \<Rightarrow> ('k \<times> 'v) list \<Rightarrow> ('v \<Rightarrow> string) \<Rightarrow> ('k \<times> string) option" where
  "getMostSpecificPath targetPath items pathFn =
     map_option (\<lambda>(k, _, r). (k, r)) (mostSpecificLoop targetPath pathFn None items)"

text \<open>\<open>slices.All\<close>: the indexes with the elements.\<close>

definition slices_All :: "'a list \<Rightarrow> (nat \<times> 'a) list" where
  "slices_All xs = zip [0..<length xs] xs"

definition findBasicPartitionForPath ::
  "string \<Rightarrow> FstabEntry list \<Rightarrow> PartitionInfo list \<Rightarrow> lookup_error + (PartitionInfo \<times> string)" where
  "findBasicPartitionForPath targetPath fstabEntries diskPartitions =
     (case getMostSpecificPath targetPath (slices_All fstabEntries) feTarget of
        None \<Rightarrow> Inl (NoFstabEntryForPath targetPath)
      | Some (index, bootDirPath) \<Rightarrow>
          (case parseExtendedSourcePartition (feSource (fstabEntries ! index)) of
             Inl e \<Rightarrow> Inl e
           | Inr (mountIdType, mountId) \<Rightarrow>
               if mountIdType = MountIdentifierTypeDev
               then Inl (DevSourceNotSupported (feSource (fstabEntries ! index)))
               else
                 (case findPartitionHelper mountIdType mountId diskPartitions of
                    Inl e \<Rightarrow> Inl e
                  | Inr (prt, _) \<Rightarrow> Inr (prt, bootDirPath))))"

record fstabEntryPartNum =
  fpEntry :: FstabEntry
  fpPartUuid :: string
  fpIsVerity :: bool

definition getPartitionOfPath ::
  "string \<Rightarrow> PartitionInfo list \<Rightarrow> fstabEntryPartNum list \<Rightarrow> lookup_error + (PartitionInfo \<times> string)" where
  "getPartitionOfPath targetPath diskPartitions partitionsLayout =
     (case getMostSpecificPath targetPath (slices_All partitionsLayout) (\<lambda>e. feTarget (fpEntry e)) of
        None \<Rightarrow> Inl (NoFstabEntryForPath targetPath)
      | Some (index, relativePath) \<Rightarrow>
          let entry = partitionsLayout ! index in
          if fpPartUuid entry = [] then Inl DataPartitionHasNoDevice
          else
            (case FindValueFunc diskPartitions (\<lambda>info. piPartUuid info = fpPartUuid entry) of
               None \<Rightarrow> Inl (PartUuidNotFound (fpPartUuid entry) targetPath)
             | Some partitionInfo \<Rightarrow> Inr (partitionInfo, relativePath)))"

section \<open>Facts\<close>

text \<open>\<open>unix.MS_ASYNC\<close> is the \<open>msync\<close> flag 1, which as a mount flag is \<open>MS_RDONLY\<close>: the option \<open>async\<close> makes a mount
  read-only, and \<open>sync\<close> (4) forbids device files instead of making the mount synchronous.\<close>

lemma async_is_read_only: "MountFlags_UnmarshalJSON ''async'' = MountFlags_UnmarshalJSON ''ro''"
  by code_simp

lemma sync_is_nodev: "MountFlags_UnmarshalJSON ''sync'' = MountFlags_UnmarshalJSON ''nodev''"
  by code_simp

lemma mountFlagsLoop_append:
  "mountFlagsLoop v (xs @ ys) = (case mountFlagsLoop v xs of Inl e \<Rightarrow> Inl e | Inr v' \<Rightarrow> mountFlagsLoop v' ys)"
  by (induction v xs rule: mountFlagsLoop.induct) (auto split: sum.splits)

lemma slices_All_nth: "(i, x) \<in> set (slices_All xs) \<longleftrightarrow> i < length xs \<and> x = xs ! i"
  by (auto simp: slices_All_def set_zip intro!: exI [of _ i])

text \<open>What the loop finds: an element whose path covers the target and that no other one's path exceeds in length;
  among equals the first.\<close>

definition covers_best :: "string \<Rightarrow> ('v \<Rightarrow> string) \<Rightarrow> ('k \<times> 'v) list \<Rightarrow> ('k \<times> string \<times> string) option \<Rightarrow> bool" where
  "covers_best t f xs best \<longleftrightarrow>
     (case best of
        None \<Rightarrow> (\<forall>(k, v) \<in> set xs. relative_below (f v) t = None)
      | Some (k, p, r) \<Rightarrow>
          (\<exists>v. (k, v) \<in> set xs \<and> p = f v \<and> relative_below p t = Some r)
          \<and> (\<forall>(k', v') \<in> set xs. relative_below (f v') t \<noteq> None \<longrightarrow> length (f v') \<le> length p))"

lemma mostSpecificLoop_best:
  "covers_best t f xs best \<Longrightarrow> covers_best t f (xs @ ys) (mostSpecificLoop t f best ys)"
proof (induction t f best ys arbitrary: xs rule: mostSpecificLoop.induct)
  case (2 t f best k v items)
  show ?case
  proof (cases "relative_below (f v) t")
    case None
    with 2(3) have "covers_best t f (xs @ [(k, v)]) best"
      by (auto simp: covers_best_def split: option.splits)
    from 2(1) [OF None this] None show ?thesis by simp
  next
    case (Some r)
    let ?best = "case best of None \<Rightarrow> Some (k, f v, r)
      | Some (_, mp, _) \<Rightarrow> if length (f v) > length mp then Some (k, f v, r) else best"
    from 2(3) Some have "covers_best t f (xs @ [(k, v)]) ?best"
      by (fastforce simp: covers_best_def split: option.splits)
    from 2(2) [OF Some this] Some show ?thesis by simp
  qed
qed simp

text \<open>C33. The closest parent: \<open>getMostSpecificPath\<close> finds nothing exactly when no element's path covers the target;
  otherwise it returns the key of an element whose path covers the target, with the target's path relative to it, and
  no element that covers the target has a longer path.\<close>

theorem getMostSpecificPath_spec:
  "case getMostSpecificPath t (slices_All xs) f of
     None \<Rightarrow> (\<forall>x \<in> set xs. relative_below (f x) t = None)
   | Some (i, r) \<Rightarrow>
       i < length xs \<and> relative_below (f (xs ! i)) t = Some r
       \<and> (\<forall>x \<in> set xs. relative_below (f x) t = None \<or> length (f x) \<le> length (f (xs ! i)))"
proof -
  have "covers_best t f (slices_All xs) (mostSpecificLoop t f None (slices_All xs))"
    using mostSpecificLoop_best [of t f "[]" None "slices_All xs"] by (simp add: covers_best_def)
  moreover have "x \<in> set xs \<Longrightarrow> \<exists>i. (i, x) \<in> set (slices_All xs)" for x
    by (metis in_set_conv_nth slices_All_nth)
  ultimately show ?thesis
    by (cases "mostSpecificLoop t f None (slices_All xs)")
      (force simp: covers_best_def getMostSpecificPath_def slices_All_nth)+
qed

text \<open>A sample layout: \<open>/boot/efi\<close> is covered by the mount of \<open>/boot\<close>, not by that of \<open>/\<close>.\<close>

theorem getMostSpecificPath_spec_witness:
  "getMostSpecificPath ''/boot/efi'' (slices_All [''/'', ''/boot'', ''/var'']) id = Some (1, ''efi'')
   \<and> list_all (\<lambda>x. relative_below x ''/boot/efi'' = None \<or> length x \<le> 5) [''/'', ''/boot'', ''/var'']"
proof -
  have r: "getMostSpecificPath ''/boot/efi'' (slices_All [''/'', ''/boot'', ''/var'']) id = Some (1, ''efi'')"
    by code_simp
  with getMostSpecificPath_spec [where t = "''/boot/efi''" and xs = "[''/'', ''/boot'', ''/var'']" and f = id]
  show ?thesis by simp
qed

end
