(* ===== verification/MkfsOptions.thy ===== *)
theory MkfsOptions
  imports TargetOs TextUtils
begin

text \<open>
  \<open>imagegen/diskutils/filesystem.go\<close> and \<open>internal/kernelversion/kernelversion.go\<close>: the arguments that
  \<open>formatSinglePartition\<close> gives to \<open>mkfs\<close>, so that a file system has the features of the target distribution that
  both the build host's kernel and its tool support. The outputs of \<open>mkfs -V\<close> and of \<open>uname\<close> are arguments. Go visits
  a map in any order, so the features are given as a list, which is some order of the table's entries.
\<close>

section \<open>Options of the distributions\<close>

record btrfsOptions =
  btrfsFeatures :: "string list"
  Checksum :: string

record ext4Options =
  BlockSize :: nat
  ext4Features :: "string list"

record fileSystemsOptions =
  foBtrfs :: btrfsOptions
  foExt4 :: ext4Options
  foBootExt4 :: ext4Options
  foXfs :: "string list"
  foBootXfs :: "string list"

type_synonym versionFileSystemsOptions = "Version \<times> fileSystemsOptions"

definition azl2BtrfsOptions :: btrfsOptions where
  "azl2BtrfsOptions = \<lparr>btrfsFeatures = [''extref'', ''skinny-metadata'', ''no-holes'', ''free-space-tree''], Checksum = ''crc32c''\<rparr>"

definition azl3BtrfsOptions :: btrfsOptions where
  "azl3BtrfsOptions = \<lparr>btrfsFeatures = [''extref'', ''skinny-metadata'', ''no-holes'', ''free-space-tree''], Checksum = ''crc32c''\<rparr>"

definition azl4BtrfsOptions :: btrfsOptions where
  "azl4BtrfsOptions = \<lparr>btrfsFeatures = [''extref'', ''skinny-metadata'', ''no-holes'', ''free-space-tree''], Checksum = ''crc32c''\<rparr>"

definition fedora42BtrfsOptions :: btrfsOptions where
  "fedora42BtrfsOptions = \<lparr>btrfsFeatures = [''extref'', ''skinny-metadata'', ''no-holes'', ''free-space-tree''], Checksum = ''crc32c''\<rparr>"

definition ubuntu2204BtrfsOptions :: btrfsOptions where
  "ubuntu2204BtrfsOptions = \<lparr>btrfsFeatures = [''extref'', ''skinny-metadata'', ''no-holes''], Checksum = ''crc32c''\<rparr>"

definition ubuntu2404BtrfsOptions :: btrfsOptions where
  "ubuntu2404BtrfsOptions = \<lparr>btrfsFeatures = [''extref'', ''skinny-metadata'', ''no-holes'', ''free-space-tree''], Checksum = ''crc32c''\<rparr>"

definition azl2Ext4Options :: ext4Options where
  "azl2Ext4Options = \<lparr>BlockSize = 4096, ext4Features =
     [''sparse_super'', ''large_file'', ''filetype'', ''resize_inode'', ''dir_index'', ''ext_attr'', ''has_journal'',
      ''extent'', ''huge_file'', ''flex_bg'', ''metadata_csum'', ''64bit'', ''dir_nlink'', ''extra_isize'']\<rparr>"

definition azl3Ext4Options :: ext4Options where
  "azl3Ext4Options = \<lparr>BlockSize = 4096, ext4Features =
     [''sparse_super'', ''large_file'', ''filetype'', ''resize_inode'', ''dir_index'', ''ext_attr'', ''has_journal'',
      ''extent'', ''huge_file'', ''flex_bg'', ''metadata_csum'', ''64bit'', ''dir_nlink'', ''extra_isize'',
      ''orphan_file'']\<rparr>"

definition azl4Ext4Options :: ext4Options where
  "azl4Ext4Options = \<lparr>BlockSize = 4096, ext4Features =
     [''sparse_super'', ''large_file'', ''filetype'', ''resize_inode'', ''dir_index'', ''ext_attr'', ''has_journal'',
      ''extent'', ''huge_file'', ''flex_bg'', ''metadata_csum'', ''metadata_csum_seed'', ''64bit'', ''dir_nlink'',
      ''extra_isize'', ''orphan_file'']\<rparr>"

definition azl4BootExt4Options :: ext4Options where
  "azl4BootExt4Options = \<lparr>BlockSize = 4096, ext4Features =
     [''sparse_super'', ''large_file'', ''filetype'', ''resize_inode'', ''dir_index'', ''ext_attr'', ''has_journal'',
      ''extent'', ''huge_file'', ''flex_bg'', ''metadata_csum'', ''64bit'', ''dir_nlink'', ''extra_isize'',
      ''orphan_file'']\<rparr>"

definition fedora42Ext4Options :: ext4Options where
  "fedora42Ext4Options = \<lparr>BlockSize = 4096, ext4Features =
     [''sparse_super'', ''large_file'', ''filetype'', ''resize_inode'', ''dir_index'', ''ext_attr'', ''has_journal'',
      ''extent'', ''huge_file'', ''flex_bg'', ''metadata_csum'', ''64bit'', ''dir_nlink'', ''extra_isize'',
      ''orphan_file'']\<rparr>"

definition ubuntu2204Ext4Options :: ext4Options where
  "ubuntu2204Ext4Options = \<lparr>BlockSize = 4096, ext4Features =
     [''sparse_super'', ''large_file'', ''filetype'', ''resize_inode'', ''dir_index'', ''ext_attr'', ''has_journal'',
      ''extent'', ''huge_file'', ''flex_bg'', ''metadata_csum'', ''64bit'', ''dir_nlink'', ''extra_isize'']\<rparr>"

definition ubuntu2404Ext4Options :: ext4Options where
  "ubuntu2404Ext4Options = \<lparr>BlockSize = 4096, ext4Features =
     [''sparse_super'', ''large_file'', ''filetype'', ''resize_inode'', ''dir_index'', ''ext_attr'', ''has_journal'',
      ''extent'', ''huge_file'', ''flex_bg'', ''metadata_csum'', ''64bit'', ''dir_nlink'', ''extra_isize'']\<rparr>"

definition azl2XfsOptions :: "string list" where
  "azl2XfsOptions = [''bigtime'', ''crc'', ''finobt'', ''inobtcount'', ''reflink'', ''rmapbt'', ''sparse'']"

definition azl3XfsOptions :: "string list" where
  "azl3XfsOptions = [''bigtime'', ''crc'', ''finobt'', ''inobtcount'', ''reflink'', ''rmapbt'', ''sparse'', ''nrext64'']"

definition azl3BootXfsOptions :: "string list" where
  "azl3BootXfsOptions = [''bigtime'', ''crc'', ''finobt'', ''inobtcount'', ''reflink'', ''rmapbt'', ''sparse'']"

definition azl4XfsOptions :: "string list" where
  "azl4XfsOptions = [''bigtime'', ''crc'', ''finobt'', ''inobtcount'', ''reflink'', ''rmapbt'', ''sparse'', ''nrext64'']"

definition azl4BootXfsOptions :: "string list" where
  "azl4BootXfsOptions = [''bigtime'', ''crc'', ''finobt'', ''inobtcount'', ''reflink'', ''rmapbt'', ''sparse'', ''nrext64'']"

definition fedora42XfsOptions :: "string list" where
  "fedora42XfsOptions = [''bigtime'', ''crc'', ''finobt'', ''inobtcount'', ''reflink'', ''rmapbt'', ''sparse'', ''nrext64'']"

definition ubuntu2204XfsOptions :: "string list" where
  "ubuntu2204XfsOptions = [''crc'', ''finobt'', ''reflink'', ''sparse'']"

definition ubuntu2404XfsOptions :: "string list" where
  "ubuntu2404XfsOptions = [''bigtime'', ''crc'', ''finobt'', ''inobtcount'', ''reflink'', ''rmapbt'', ''sparse'']"

definition azlFileSystemsOptions :: "versionFileSystemsOptions list" where
  "azlFileSystemsOptions =
     [([2, 0], \<lparr>foBtrfs = azl2BtrfsOptions, foExt4 = azl2Ext4Options, foBootExt4 = azl2Ext4Options,
                foXfs = azl2XfsOptions, foBootXfs = azl2XfsOptions\<rparr>),
      ([3, 0], \<lparr>foBtrfs = azl3BtrfsOptions, foExt4 = azl3Ext4Options, foBootExt4 = azl3Ext4Options,
                foXfs = azl3XfsOptions, foBootXfs = azl3BootXfsOptions\<rparr>),
      ([4, 0], \<lparr>foBtrfs = azl4BtrfsOptions, foExt4 = azl4Ext4Options, foBootExt4 = azl4BootExt4Options,
                foXfs = azl4XfsOptions, foBootXfs = azl4BootXfsOptions\<rparr>)]"

definition fedoraFileSystemsOptions :: "versionFileSystemsOptions list" where
  "fedoraFileSystemsOptions =
     [([42], \<lparr>foBtrfs = fedora42BtrfsOptions, foExt4 = fedora42Ext4Options, foBootExt4 = fedora42Ext4Options,
              foXfs = fedora42XfsOptions, foBootXfs = fedora42XfsOptions\<rparr>)]"

definition ubuntuFileSystemsOptions :: "versionFileSystemsOptions list" where
  "ubuntuFileSystemsOptions =
     [([22, 4], \<lparr>foBtrfs = ubuntu2204BtrfsOptions, foExt4 = ubuntu2204Ext4Options, foBootExt4 = ubuntu2204Ext4Options,
                 foXfs = ubuntu2204XfsOptions, foBootXfs = ubuntu2204XfsOptions\<rparr>),
      ([24, 4], \<lparr>foBtrfs = ubuntu2404BtrfsOptions, foExt4 = ubuntu2404Ext4Options, foBootExt4 = ubuntu2404Ext4Options,
                 foXfs = ubuntu2404XfsOptions, foBootXfs = ubuntu2404XfsOptions\<rparr>)]"

definition distroFileSystemsOptions :: "Distro \<rightharpoonup> versionFileSystemsOptions list" where
  "distroFileSystemsOptions =
     [AzureLinux \<mapsto> azlFileSystemsOptions, AzureContainerLinux \<mapsto> azlFileSystemsOptions,
      Fedora \<mapsto> fedoraFileSystemsOptions, Ubuntu \<mapsto> ubuntuFileSystemsOptions]"

section \<open>What the host supports\<close>

type_synonym feature_table = "(string \<times> Version) list"

definition btrfsFeaturesKernelSupport :: feature_table where
  "btrfsFeaturesKernelSupport =
     [(''extref'', [3, 7]), (''skinny-metadata'', [3, 10]), (''no-holes'', [3, 14]), (''free-space-tree'', [4, 5]),
      (''block-group-tree'', [6, 1])]"

definition ext4FeaturesKernelSupport :: feature_table where
  "ext4FeaturesKernelSupport = [(''orphan_file'', [5, 15])]"

definition ext4FeaturesE2fsprogsSupport :: feature_table where
  "ext4FeaturesE2fsprogsSupport = [(''orphan_file'', [1, 47, 0]), (''metadata_csum_seed'', [1, 47, 0])]"

definition xfsFeaturesSupport :: feature_table where
  "xfsFeaturesSupport =
     [(''bigtime'', [5, 10]), (''crc'', [3, 2, 0]), (''finobt'', [3, 2, 1]), (''inobtcount'', [5, 10]),
      (''metadir'', [6, 13]), (''reflink'', [4, 10]), (''rmapbt'', [4, 10]), (''autofsck'', [6, 10]),
      (''sparse'', [4, 10]), (''nrext64'', [5, 19]), (''exchange'', [6, 10]), (''parent'', [6, 10])]"

definition xfsFeatureFlag :: "(string \<times> string) list" where
  "xfsFeatureFlag =
     [(''bigtime'', ''metadata''), (''crc'', ''metadata''), (''finobt'', ''metadata''), (''inobtcount'', ''metadata''),
      (''metadir'', ''metadata''), (''reflink'', ''metadata''), (''rmapbt'', ''metadata''), (''autofsck'', ''metadata''),
      (''sparse'', ''inode''), (''nrext64'', ''inode''), (''exchange'', ''inode''), (''parent'', ''naming'')]"

definition maxMkfsBtrfsVersion :: Version where "maxMkfsBtrfsVersion = [7, 1]"
definition maxMkfsXfsVersion :: Version where "maxMkfsXfsVersion = [7, 1]"
definition minKernelVersion :: Version where "minKernelVersion = [5, 4]"

section \<open>Versions of the tools\<close>

text \<open>\<open>strconv.Atoi\<close> of decimal digits with the error ignored: out of range it returns the greatest \<open>int\<close>.\<close>

definition atoi_ignore :: "string \<Rightarrow> int" where
  "atoi_ignore s = (case Atoi s of Inr n \<Rightarrow> n | Inl ErrRange \<Rightarrow> 2 ^ 63 - 1 | Inl ErrSyntax \<Rightarrow> 0)"

text \<open>One group \<open>(\d+)\<close> and the text after it. What follows a group in the expressions is never a digit, so the
  group is the longest run.\<close>

definition digit_group :: "string \<Rightarrow> (string \<times> string) option" where
  "digit_group s = (if takeWhile is_digit s = [] then None else Some (takeWhile is_digit s, dropWhile is_digit s))"

definition dot_group :: "string \<Rightarrow> (string \<times> string) option" where
  "dot_group s = (if HasPrefix s ''.'' then digit_group (drop 1 s) else None)"

text \<open>\<open>(\d+)\.(\d+)\.(\d+)\<close> and the text after it.\<close>

definition three_groups :: "string \<Rightarrow> (Version \<times> string) option" where
  "three_groups s =
     (case digit_group s of None \<Rightarrow> None | Some (a, s1) \<Rightarrow>
      (case dot_group s1 of None \<Rightarrow> None | Some (b, s2) \<Rightarrow>
       (case dot_group s2 of None \<Rightarrow> None | Some (c, s3) \<Rightarrow>
          Some ([atoi_ignore a, atoi_ignore b, atoi_ignore c], s3))))"

text \<open>\<open>(\d+)\.(\d+)(?:\.(\d+))?$\<close>.\<close>

definition mkfsBtrfsVersionLine :: "string \<Rightarrow> Version option" where
  "mkfsBtrfsVersionLine line =
     (case CutPrefix line ''mkfs.btrfs, part of btrfs-progs v'' of (s, ok) \<Rightarrow>
        if \<not> ok then None
        else (case digit_group s of None \<Rightarrow> None | Some (a, s1) \<Rightarrow>
               (case dot_group s1 of None \<Rightarrow> None | Some (b, s2) \<Rightarrow>
                  if s2 = [] then Some [atoi_ignore a, atoi_ignore b, 0]
                  else (case dot_group s2 of
                          Some (c, []) \<Rightarrow> Some [atoi_ignore a, atoi_ignore b, atoi_ignore c]
                        | _ \<Rightarrow> None))))"

definition is_letter :: "char \<Rightarrow> bool" where
  "is_letter c \<longleftrightarrow> (65 \<le> byte c \<and> byte c \<le> 90) \<or> (97 \<le> byte c \<and> byte c \<le> 122)"

text \<open>\<open> \(\d+-[a-zA-Z]+-\d+\)$\<close>.\<close>

definition mke2fsDate :: "string \<Rightarrow> bool" where
  "mke2fsDate s =
     (case CutPrefix s '' ('' of (s0, ok) \<Rightarrow>
        ok \<and> (case digit_group s0 of None \<Rightarrow> False | Some (_, s1) \<Rightarrow>
                HasPrefix s1 ''-'' \<and> takeWhile is_letter (drop 1 s1) \<noteq> []
                \<and> (let s2 = dropWhile is_letter (drop 1 s1) in
                    HasPrefix s2 ''-''
                    \<and> (case digit_group (drop 1 s2) of None \<Rightarrow> False | Some (_, s3) \<Rightarrow> s3 = '')''))))"

definition mke2fsVersionLine :: "string \<Rightarrow> Version option" where
  "mke2fsVersionLine line =
     (case CutPrefix line ''mke2fs '' of (s, ok) \<Rightarrow>
        if \<not> ok then None
        else (case three_groups s of
                Some (v, s3) \<Rightarrow> if mke2fsDate s3 then Some v else None
              | None \<Rightarrow> None))"

text \<open>An expression with the multi-line flag finds the first line that matches.\<close>

definition first_line :: "(string \<Rightarrow> 'a option) \<Rightarrow> string \<Rightarrow> 'a option" where
  "first_line f s = (case List.map_filter f (Split s CHR 0x0A) of [] \<Rightarrow> None | x # _ \<Rightarrow> Some x)"

datatype mkfs_error =
    KernelVersionUnparsable string | KernelTooOld Version | UnknownTargetOs | ToolVersionUnknown string
  | ToolVersionUnparsable string | MkfsBtrfsTooNew Version | MkfsXfsTooNew Version

definition getMkfsBtrfsVersion :: "string option \<Rightarrow> mkfs_error + Version" where
  "getMkfsBtrfsVersion stdout =
     (case stdout of
        None \<Rightarrow> Inl (ToolVersionUnknown ''mkfs.btrfs'')
      | Some out \<Rightarrow>
          let fullVersionString = TrimSpace out in
          (case first_line mkfsBtrfsVersionLine fullVersionString of
             None \<Rightarrow> Inl (ToolVersionUnparsable fullVersionString) | Some v \<Rightarrow> Inr v))"

definition getMke2fsVersion :: "string option \<Rightarrow> mkfs_error + Version" where
  "getMke2fsVersion stderr =
     (case stderr of
        None \<Rightarrow> Inl (ToolVersionUnknown ''mke2fs'')
      | Some err \<Rightarrow>
          let fullVersionString = TrimSpace err in
          (case first_line mke2fsVersionLine fullVersionString of
             None \<Rightarrow> Inl (ToolVersionUnparsable fullVersionString) | Some v \<Rightarrow> Inr v))"

definition getMkfsXfsVersion :: "string option \<Rightarrow> mkfs_error + Version" where
  "getMkfsXfsVersion stdout =
     (case stdout of
        None \<Rightarrow> Inl (ToolVersionUnknown ''mkfs.xfs'')
      | Some out \<Rightarrow>
          let fullVersionString = TrimSpace out in
          (case CutPrefix fullVersionString ''mkfs.xfs version '' of (s, ok) \<Rightarrow>
             (case (if ok then three_groups s else None) of
                Some (v, []) \<Rightarrow> Inr v
              | _ \<Rightarrow> Inl (ToolVersionUnparsable fullVersionString))))"

text \<open>\<open>^(\d+)\.(\d+)\.(\d+)([.\-][a-zA-Z0-9_.\-]*)?$\<close>.\<close>

definition parseKernelVersion :: "string \<Rightarrow> mkfs_error + Version" where
  "parseKernelVersion versionString =
     (case three_groups versionString of
        None \<Rightarrow> Inl (KernelVersionUnparsable versionString)
      | Some (v, s) \<Rightarrow>
          if s = [] \<or> (hd s \<in> set ''.-'' \<and> list_all (\<lambda>c. is_letter c \<or> is_digit c \<or> c \<in> set ''_.-'') (tl s))
          then Inr v else Inl (KernelVersionUnparsable versionString))"

section \<open>Options of the target\<close>

text \<open>The loop over the versions, oldest first, with the newest one found that the target has passed.\<close>

fun closestOptions ::
  "Version \<Rightarrow> versionFileSystemsOptions option \<Rightarrow> versionFileSystemsOptions list \<Rightarrow> versionFileSystemsOptions option" where
  "closestOptions target found [] = found"
| "closestOptions target found (verOptions # opts) =
     (let cmp = Cmp (fst verOptions) target in
      if cmp > 0 then found
      else if cmp = 0 then Some verOptions
      else closestOptions target (Some verOptions) opts)"

definition getFileSystemOptionsForTargetOs :: "TargetOs \<Rightarrow> mkfs_error + versionFileSystemsOptions" where
  "getFileSystemOptionsForTargetOs targetOs =
     (case distroFileSystemsOptions (tosDistro targetOs) of
        None \<Rightarrow> Inl UnknownTargetOs
      | Some distroOptions \<Rightarrow>
          if length distroOptions \<le> 0 then Inl UnknownTargetOs
          else
            (case tosVersion targetOs of
               None \<Rightarrow> Inr (distroOptions ! 0)
             | Some v \<Rightarrow>
                 (case closestOptions v None distroOptions of
                    None \<Rightarrow> Inr (distroOptions ! 0)
                  | Some verOptions \<Rightarrow> Inr verOptions)))"

section \<open>Arguments of mkfs\<close>

text \<open>One feature of btrfs: enabled, disabled, or not mentioned.\<close>

definition btrfsFeature :: "Version \<Rightarrow> Version \<Rightarrow> string list \<Rightarrow> string \<times> Version \<Rightarrow> bool option" where
  "btrfsFeature hostKernelVersion toolVersion features fv =
     (let enableFeature = fst fv \<in> set features \<and> \<not> Gt (snd fv) hostKernelVersion in
      if Gt (snd fv) toolVersion then None else Some enableFeature)"

definition getBtrfsFileSystemOptions ::
  "feature_table \<Rightarrow> string option \<Rightarrow> Version \<Rightarrow> fileSystemsOptions \<Rightarrow> string \<Rightarrow> uint64 \<Rightarrow> mkfs_error + string list" where
  "getBtrfsFileSystemOptions visit stdout hostKernelVersion options partDevPath fsSizeMiB =
     (case getMkfsBtrfsVersion stdout of
        Inl e \<Rightarrow> Inl e
      | Inr mkfsBtrfsVersion \<Rightarrow>
          if Gt mkfsBtrfsVersion maxMkfsBtrfsVersion then Inl (MkfsBtrfsTooNew mkfsBtrfsVersion)
          else
            let feature = btrfsFeature hostKernelVersion mkfsBtrfsVersion (btrfsFeatures (foBtrfs options));
                enableFeatures = map fst (filter (\<lambda>fv. feature fv = Some True) visit);
                disableFeatures = map (\<lambda>fv. ''^'' @ fst fv) (filter (\<lambda>fv. feature fv = Some False) visit);
                allFeatures = enableFeatures @ disableFeatures
            in Inr ([''mkfs.btrfs'']
                 @ (if length allFeatures > 0 then [''-O'', join '','' allFeatures] else [])
                 @ (if Checksum (foBtrfs options) \<noteq> [] then [''--csum'', Checksum (foBtrfs options)] else [])
                 @ (if fsSizeMiB \<noteq> 0 then [''--byte-count'', nat_dec (unat (fsSizeMiB * 1048576))] else [])
                 @ [partDevPath]))"

definition ext4Feature :: "Version \<Rightarrow> Version \<Rightarrow> string \<Rightarrow> bool" where
  "ext4Feature hostKernelVersion mke2fsVersion feature =
     ((case map_of ext4FeaturesKernelSupport feature of None \<Rightarrow> True | Some v \<Rightarrow> \<not> Gt v hostKernelVersion)
      \<and> (case map_of ext4FeaturesE2fsprogsSupport feature of None \<Rightarrow> True | Some v \<Rightarrow> \<not> Gt v mke2fsVersion))"

definition getExt4FileSystemOptions ::
  "string option \<Rightarrow> Version \<Rightarrow> fileSystemsOptions \<Rightarrow> string \<Rightarrow> uint64 \<Rightarrow> bool \<Rightarrow> mkfs_error + string list" where
  "getExt4FileSystemOptions stderr hostKernelVersion options partDevPath fsSizeMiB isBootPartition =
     (case getMke2fsVersion stderr of
        Inl e \<Rightarrow> Inl e
      | Inr mke2fsVersion \<Rightarrow>
          let ext4 = (if isBootPartition then foBootExt4 options else foExt4 options);
              features = ''none'' # filter (ext4Feature hostKernelVersion mke2fsVersion) (ext4Features ext4)
          in Inr ([''mkfs.ext4'', ''-b'', nat_dec (BlockSize ext4), ''-O'', join '','' features, partDevPath]
               @ (if fsSizeMiB \<noteq> 0 then [nat_dec (unat fsSizeMiB) @ ''m''] else [])))"

text \<open>The argument of one feature of XFS; \<open>None\<close> when the tool does not know it.\<close>

definition xfsFeature :: "Version \<Rightarrow> Version \<Rightarrow> string list \<Rightarrow> string \<times> Version \<Rightarrow> bool option" where
  "xfsFeature hostKernelVersion toolVersion features fv =
     (let enableFeature = fst fv \<in> set features \<and> \<not> Gt (snd fv) hostKernelVersion in
      if Gt (snd fv) toolVersion then None else Some enableFeature)"

definition xfsFlagArgs :: "(string \<times> Version \<Rightarrow> bool option) \<Rightarrow> feature_table \<Rightarrow> string \<Rightarrow> string" where
  "xfsFlagArgs feature visit flag =
     join '','' (map (\<lambda>fv. fst fv @ ''='' @ (if feature fv = Some True then ''1'' else ''0''))
       (filter (\<lambda>fv. feature fv \<noteq> None \<and> map_of xfsFeatureFlag (fst fv) = Some flag) visit))"

definition getXfsFileSystemOptions ::
  "feature_table \<Rightarrow> string option \<Rightarrow> Version \<Rightarrow> fileSystemsOptions \<Rightarrow> bool \<Rightarrow> string \<Rightarrow> uint64 \<Rightarrow> mkfs_error + string list" where
  "getXfsFileSystemOptions visit stdout hostKernelVersion options isBootPartition partDevPath fsSizeMiB =
     (case getMkfsXfsVersion stdout of
        Inl e \<Rightarrow> Inl e
      | Inr mkfsXfsVersion \<Rightarrow>
          if Gt (take 2 mkfsXfsVersion) maxMkfsXfsVersion then Inl (MkfsXfsTooNew mkfsXfsVersion)
          else
            let feature = xfsFeature hostKernelVersion mkfsXfsVersion (if isBootPartition then foBootXfs options else foXfs options)
            in Inr ([''mkfs.xfs'', ''-m'', xfsFlagArgs feature visit ''metadata'', ''-i'', xfsFlagArgs feature visit ''inode'',
                     ''-n'', xfsFlagArgs feature visit ''naming'']
                 @ (if fsSizeMiB \<noteq> 0 then [''-d'', ''size='' @ nat_dec (unat fsSizeMiB) @ ''m''] else [])
                 @ [partDevPath]))"

text \<open>What is asked of the host: the kernel's release, and for each tool the output of \<open>-V\<close> or \<open>None\<close> if it fails.\<close>

record mkfs_host =
  uname_release :: string
  mkfs_btrfs_V :: "string option"
  mke2fs_V :: "string option"
  mkfs_xfs_V :: "string option"
  visit_btrfs :: feature_table
  visit_xfs :: feature_table

definition getFileSystemOptions ::
  "mkfs_host \<Rightarrow> TargetOs \<Rightarrow> string \<Rightarrow> bool \<Rightarrow> string \<Rightarrow> uint64 \<Rightarrow> mkfs_error + string list" where
  "getFileSystemOptions h targetOs filesystemType isBootPartition partDevPath fsSizeMiB =
     (case parseKernelVersion (uname_release h) of
        Inl e \<Rightarrow> Inl e
      | Inr hostKernelVersion \<Rightarrow>
          if Gt minKernelVersion hostKernelVersion then Inl (KernelTooOld hostKernelVersion)
          else
            (case getFileSystemOptionsForTargetOs targetOs of
               Inl e \<Rightarrow> Inl e
             | Inr verOptions \<Rightarrow>
                 if filesystemType = ''btrfs''
                 then getBtrfsFileSystemOptions (visit_btrfs h) (mkfs_btrfs_V h) hostKernelVersion (snd verOptions) partDevPath fsSizeMiB
                 else if filesystemType = ''ext4''
                 then getExt4FileSystemOptions (mke2fs_V h) hostKernelVersion (snd verOptions) partDevPath fsSizeMiB isBootPartition
                 else if filesystemType = ''xfs''
                 then getXfsFileSystemOptions (visit_xfs h) (mkfs_xfs_V h) hostKernelVersion (snd verOptions) isBootPartition
                        partDevPath fsSizeMiB
                 else Inr [''mkfs.'' @ filesystemType, partDevPath]))"

section \<open>The order of versions\<close>

lemma cmpLoop_append: "cmpLoop v w (is @ js) = (if cmpLoop v w is = 0 then cmpLoop v w js else cmpLoop v w is)"
  by (induction "is") auto

lemma Cmp_upto: "length v \<le> n \<Longrightarrow> length w \<le> n \<Longrightarrow> Cmp v w = cmpLoop v w [0..<n]"
proof -
  assume n: "length v \<le> n" "length w \<le> n"
  let ?m = "max (length v) (length w)"
  have "[0..<n] = [0..<?m] @ [?m..<n]" using n upt_add_eq_append [of 0 ?m "n - ?m"] by simp
  moreover have "cmpLoop v w [?m..<n] = 0" by (auto simp: cmpLoop_zero part_def)
  ultimately show ?thesis by (simp add: Cmp_def cmpLoop_append)
qed

lemma cmpLoop_trans: "cmpLoop a b is \<le> 0 \<Longrightarrow> cmpLoop b c is \<le> 0 \<Longrightarrow> cmpLoop a c is \<le> 0"
  by (induction "is") (auto split: if_splits)

lemma Le_trans: "Le a b \<Longrightarrow> Le b c \<Longrightarrow> Le a c"
proof -
  let ?n = "max (length a) (max (length b) (length c))"
  assume "Le a b" "Le b c"
  then show ?thesis using cmpLoop_trans [of a b "[0..<?n]" c]
    by (simp add: Le_def Cmp_upto [of _ ?n])
qed

lemma cmpLoop_refl: "cmpLoop v v is = 0"
  by (induction "is") auto

lemma Le_refl: "Le v v"
  by (simp add: Le_def Cmp_def cmpLoop_refl)

lemma Cmp_zero_sym: "Cmp v w = 0 \<Longrightarrow> Cmp w v = 0"
  by (simp add: Cmp_def cmpLoop_zero max.commute)

section \<open>The options chosen\<close>

text \<open>The newest entry that the target has passed, of a table that is sorted from oldest to newest; or the one found
  before, when the target is older than all of them.\<close>

definition newest_passed :: "Version \<Rightarrow> versionFileSystemsOptions list \<Rightarrow> versionFileSystemsOptions \<Rightarrow> bool" where
  "newest_passed target table e \<longleftrightarrow>
     e \<in> set table \<and> Le (fst e) target \<and> (\<forall>e' \<in> set table. Le (fst e') target \<longrightarrow> Le (fst e') (fst e))"

definition options_sorted :: "versionFileSystemsOptions list \<Rightarrow> bool" where
  "options_sorted table = sorted_wrt (\<lambda>a b. Le (fst a) (fst b)) table"

definition closest_ok :: "Version \<Rightarrow> versionFileSystemsOptions list \<Rightarrow> versionFileSystemsOptions option \<Rightarrow> bool" where
  "closest_ok target table found \<longleftrightarrow>
     (case found of
        None \<Rightarrow> (\<forall>e \<in> set table. \<not> Le (fst e) target)
      | Some e \<Rightarrow> newest_passed target table e)"

lemma closestOptions_ok:
  assumes "options_sorted (pre @ opts)" "case found of None \<Rightarrow> pre = [] | Some e \<Rightarrow> newest_passed target pre e"
  shows "closest_ok target (pre @ opts) (closestOptions target found opts)"
  using assms
proof (induction target found opts arbitrary: pre rule: closestOptions.induct)
  case (1 target found)
  then show ?case by (auto simp: closest_ok_def split: option.splits)
next
  case (2 target found e opts)
  have le: "Le (fst e) (fst e')" if "e' \<in> set opts" for e'
    using 2(2) that by (auto simp: options_sorted_def sorted_wrt_append)
  have pre: "Le (fst e') (fst e)" if "e' \<in> set pre" for e'
    using 2(2) that by (auto simp: options_sorted_def sorted_wrt_append)
  consider (newer) "Cmp (fst e) target > 0" | (same) "Cmp (fst e) target = 0" | (older) "Cmp (fst e) target < 0"
    by linarith
  then show ?case
  proof cases
    case newer
    then have not: "\<not> Le (fst e) target" by (simp add: Le_def)
    have "\<not> Le (fst e') target" if "e' \<in> set (e # opts)" for e'
      using not le [of e'] Le_trans [of "fst e" "fst e'" target] that by auto
    then show ?thesis using newer 2(3) by (auto simp: newest_passed_def closest_ok_def split: option.splits)
  next
    case same
    then have "Le (fst e) target" "Le target (fst e)" using Cmp_zero_sym [of "fst e" target] by (auto simp: Le_def)
    then have "newest_passed target (pre @ e # opts) e"
      by (auto simp: newest_passed_def dest: Le_trans)
    with same show ?thesis by (simp add: closest_ok_def)
  next
    case older
    then have "newest_passed target (pre @ [e]) e"
      using pre Le_refl by (auto simp: newest_passed_def Le_def)
    with 2(1) [of "Cmp (fst e) target" "pre @ [e]"] 2(2) older
    have "closest_ok target ((pre @ [e]) @ opts) (closestOptions target (Some e) opts)" by simp
    with older show ?thesis unfolding append_assoc by simp
  qed
qed

lemma distro_options_cases:
  assumes "distroFileSystemsOptions d = Some table"
  shows "table \<in> {azlFileSystemsOptions, fedoraFileSystemsOptions, ubuntuFileSystemsOptions}"
  using assms by (auto simp: distroFileSystemsOptions_def split: if_splits)

lemma distro_options_dom:
  "distroFileSystemsOptions d = None \<longleftrightarrow> d \<notin> {AzureLinux, AzureContainerLinux, Fedora, Ubuntu}"
  by (auto simp: distroFileSystemsOptions_def)

lemma distro_options_sorted:
  assumes "distroFileSystemsOptions d = Some table"
  shows "options_sorted table" "table \<noteq> []"
  using distro_options_cases [OF assms]
  by (auto simp: options_sorted_def azlFileSystemsOptions_def fedoraFileSystemsOptions_def
    ubuntuFileSystemsOptions_def Le_def Cmp_def part_def)

text \<open>C34. The file system options of a target: an error exactly for a distribution that is none of the four known ones;
  otherwise options of its distribution: those of the newest supported version that the target is not older than, and
  of the oldest supported version when there is none or the target's version is unknown.\<close>

theorem getFileSystemOptionsForTargetOs_closest:
  "case getFileSystemOptionsForTargetOs os of
      Inl err \<Rightarrow> err = UnknownTargetOs \<and> tosDistro os \<notin> {AzureLinux, AzureContainerLinux, Fedora, Ubuntu}
    | Inr e \<Rightarrow> \<exists>table. distroFileSystemsOptions (tosDistro os) = Some table
        \<and> (case tosVersion os of
             None \<Rightarrow> e = hd table
           | Some t \<Rightarrow> if \<exists>e' \<in> set table. Le (fst e') t then newest_passed t table e else e = hd table)"
proof (cases "distroFileSystemsOptions (tosDistro os)")
  case None
  then show ?thesis using distro_options_dom [of "tosDistro os"] by (simp add: getFileSystemOptionsForTargetOs_def)
next
  case (Some table)
  note sorted = distro_options_sorted [OF Some]
  show ?thesis
  proof (cases "tosVersion os")
    case None
    with Some sorted(2) show ?thesis by (simp add: getFileSystemOptionsForTargetOs_def hd_conv_nth)
  next
    case t: (Some t)
    have c: "closest_ok t table (closestOptions t None table)"
      using closestOptions_ok [where pre = "[]" and opts = table and found = None and target = t] sorted(1) by simp
    show ?thesis
      using c t Some sorted(2)
      by (cases "closestOptions t None table")
        (auto simp: getFileSystemOptionsForTargetOs_def closest_ok_def newest_passed_def hd_conv_nth)
  qed
qed

theorem getFileSystemOptionsForTargetOs_closest_witness:
  "(\<exists>e. getFileSystemOptionsForTargetOs \<lparr>tosDistro = AzureLinux, VersionId = ''3.1'', tosVersion = Some [3, 1]\<rparr> = Inr e
     \<and> newest_passed [3, 1] azlFileSystemsOptions e)
   \<and> getFileSystemOptionsForTargetOs \<lparr>tosDistro = ''lyrebird'', VersionId = ''1'', tosVersion = Some [1]\<rparr> = Inl UnknownTargetOs"
proof (rule conjI)
  let ?os = "\<lparr>tosDistro = AzureLinux, VersionId = ''3.1'', tosVersion = Some [3, 1]\<rparr>"
  have passed: "\<exists>e' \<in> set azlFileSystemsOptions. Le (fst e') [3, 1]"
    by (simp add: azlFileSystemsOptions_def Le_def Cmp_def part_def)
  have table: "distroFileSystemsOptions AzureLinux = Some azlFileSystemsOptions" by code_simp
  show "\<exists>e. getFileSystemOptionsForTargetOs ?os = Inr e \<and> newest_passed [3, 1] azlFileSystemsOptions e"
    using getFileSystemOptionsForTargetOs_closest [of ?os] passed table by (auto split: sum.splits)
qed code_simp

section \<open>The features of ext4\<close>

lemma ext4_tables:
  "distroFileSystemsOptions d = Some table \<Longrightarrow> e \<in> set table \<Longrightarrow>
     list_all (\<lambda>f. CHR '','' \<notin> set f) (ext4Features (foExt4 (snd e)))
     \<and> list_all (\<lambda>f. CHR '','' \<notin> set f \<and> f \<noteq> ''metadata_csum_seed'') (ext4Features (foBootExt4 (snd e)))"
  by (drule distro_options_cases)
    (auto simp: azlFileSystemsOptions_def fedoraFileSystemsOptions_def ubuntuFileSystemsOptions_def
      azl2Ext4Options_def azl3Ext4Options_def azl4Ext4Options_def azl4BootExt4Options_def fedora42Ext4Options_def
      ubuntu2204Ext4Options_def ubuntu2404Ext4Options_def)

lemma closestOptions_mem: "closestOptions t found opts = Some e \<Longrightarrow> e \<in> set opts \<or> found = Some e"
  by (induction t found opts rule: closestOptions.induct) (auto simp: Let_def split: if_splits)

lemma getFileSystemOptionsForTargetOs_mem:
  "getFileSystemOptionsForTargetOs os = Inr e \<Longrightarrow> \<exists>table. distroFileSystemsOptions (tosDistro os) = Some table \<and> e \<in> set table"
  by (auto simp: getFileSystemOptionsForTargetOs_def dest: closestOptions_mem split: option.splits if_splits)

lemma not_Gt: "\<not> Gt v w \<longleftrightarrow> Ge w v"
  by (auto simp: Gt_def Ge_def Cmp_def cmpLoop_swap [of v w] max.commute)

lemma ext4Feature_supported:
  "ext4Feature kv tv f \<Longrightarrow>
     (f = ''orphan_file'' \<longrightarrow> Ge kv [5, 15] \<and> Ge tv [1, 47, 0]) \<and> (f = ''metadata_csum_seed'' \<longrightarrow> Ge tv [1, 47, 0])"
  by (auto simp: ext4Feature_def ext4FeaturesKernelSupport_def ext4FeaturesE2fsprogsSupport_def not_Gt)

text \<open>C35. The features that are asked of \<open>mkfs.ext4\<close> replace its defaults and are supported where they must be: the
  orphan file only from kernel 5.15 and e2fsprogs 1.47.0 on, the checksum seed only from e2fsprogs 1.47.0 on, and
  never for the partition that GRUB reads.\<close>

theorem mkfs_ext4_features:
  assumes "getFileSystemOptions h os ''ext4'' isBoot dev sz = Inr args"
  shows "\<exists>kv tv fs. parseKernelVersion (uname_release h) = Inr kv \<and> getMke2fsVersion (mke2fs_V h) = Inr tv
     \<and> args ! 3 = ''-O'' \<and> Split (args ! 4) CHR '','' = ''none'' # fs
     \<and> (\<forall>f \<in> set fs. (f = ''orphan_file'' \<longrightarrow> Ge kv [5, 15] \<and> Ge tv [1, 47, 0])
          \<and> (f = ''metadata_csum_seed'' \<longrightarrow> Ge tv [1, 47, 0] \<and> \<not> isBoot))"
proof -
  from assms obtain kv tv e where p: "parseKernelVersion (uname_release h) = Inr kv" "getMke2fsVersion (mke2fs_V h) = Inr tv"
      "getFileSystemOptionsForTargetOs os = Inr e"
    and x: "getExt4FileSystemOptions (mke2fs_V h) kv (snd e) dev sz isBoot = Inr args"
    by (auto simp: getFileSystemOptions_def getExt4FileSystemOptions_def split: sum.splits if_splits)
  define ext4 where "ext4 = (if isBoot then foBootExt4 (snd e) else foExt4 (snd e))"
  define fs where "fs = filter (ext4Feature kv tv) (ext4Features ext4)"
  from getFileSystemOptionsForTargetOs_mem [OF p(3)] ext4_tables
  have t: "f \<in> set fs \<Longrightarrow> CHR '','' \<notin> set f \<and> (isBoot \<longrightarrow> f \<noteq> ''metadata_csum_seed'')" for f
    by (auto simp: fs_def ext4_def list_all_iff split: if_splits)
  have a: "args ! 3 = ''-O''" "args ! 4 = join '','' (''none'' # fs)"
    using x p(2) by (auto simp: getExt4FileSystemOptions_def Let_def fs_def ext4_def)
  have "Split (join '','' (''none'' # fs)) CHR '','' = ''none'' # fs"
    by (rule Split_join) (use t in auto)
  moreover have "f \<in> set fs \<Longrightarrow> ext4Feature kv tv f" for f by (simp add: fs_def)
  ultimately have "parseKernelVersion (uname_release h) = Inr kv \<and> getMke2fsVersion (mke2fs_V h) = Inr tv
     \<and> args ! 3 = ''-O'' \<and> Split (args ! 4) CHR '','' = ''none'' # fs
     \<and> (\<forall>f \<in> set fs. (f = ''orphan_file'' \<longrightarrow> Ge kv [5, 15] \<and> Ge tv [1, 47, 0])
          \<and> (f = ''metadata_csum_seed'' \<longrightarrow> Ge tv [1, 47, 0] \<and> \<not> isBoot))"
    using p(1,2) a t ext4Feature_supported [of kv tv] by auto
  then show ?thesis by blast
qed

definition sample_host :: mkfs_host where
  "sample_host = \<lparr>uname_release = ''6.6.47.1-1.azl3'', mkfs_btrfs_V = None,
     mke2fs_V = Some ''mke2fs 1.47.0 (5-Feb-2023)'', mkfs_xfs_V = None,
     visit_btrfs = btrfsFeaturesKernelSupport, visit_xfs = xfsFeaturesSupport\<rparr>"

lemma sample_host_versions:
  "parseKernelVersion (uname_release sample_host) = Inr [6, 6, 47]" "getMke2fsVersion (mke2fs_V sample_host) = Inr [1, 47, 0]"
proof -
  show "parseKernelVersion (uname_release sample_host) = Inr [6, 6, 47]"
    by (simp add: sample_host_def parseKernelVersion_def three_groups_def digit_group_def dot_group_def is_digit_def
      is_letter_def atoi_ignore_def Atoi_def ParseUint_def digit_val_def)
  have "TrimSpace ''mke2fs 1.47.0 (5-Feb-2023)'' = ''mke2fs 1.47.0 (5-Feb-2023)''"
    by (rule TrimSpace_id_ascii) (simp_all add: IsSpace_def)
  moreover have "Split ''mke2fs 1.47.0 (5-Feb-2023)'' CHR 0x0A = [''mke2fs 1.47.0 (5-Feb-2023)'']" by simp
  moreover have "mke2fsVersionLine ''mke2fs 1.47.0 (5-Feb-2023)'' = Some [1, 47, 0]"
    by (simp add: mke2fsVersionLine_def CutPrefix_def three_groups_def digit_group_def dot_group_def is_digit_def
      is_letter_def atoi_ignore_def Atoi_def ParseUint_def digit_val_def mke2fsDate_def)
  ultimately show "getMke2fsVersion (mke2fs_V sample_host) = Inr [1, 47, 0]"
    by (simp add: sample_host_def getMke2fsVersion_def first_line_def List.map_filter_def Let_def)
qed

theorem mkfs_ext4_features_witness:
  "\<exists>args fs. getFileSystemOptions sample_host \<lparr>tosDistro = AzureLinux, VersionId = ''4.0'', tosVersion = Some [4, 0]\<rparr>
       ''ext4'' True ''/dev/loop0p2'' 0 = Inr args \<and> Split (args ! 4) CHR '','' = ''none'' # fs"
proof -
  let ?r = "getFileSystemOptions sample_host \<lparr>tosDistro = AzureLinux, VersionId = ''4.0'', tosVersion = Some [4, 0]\<rparr>
       ''ext4'' True ''/dev/loop0p2'' 0"
  have "\<exists>args. ?r = Inr args"
    by (simp add: getFileSystemOptions_def getFileSystemOptionsForTargetOs_def getExt4FileSystemOptions_def
      sample_host_versions Gt_def Cmp_def part_def minKernelVersion_def azlFileSystemsOptions_def
      distroFileSystemsOptions_def AzureLinux_def AzureContainerLinux_def Fedora_def Ubuntu_def Let_def)
  then obtain args where "?r = Inr args" by blast
  with mkfs_ext4_features [OF this] show ?thesis by blast
qed

end
