(* ===== verification/ImagerConfig.thy ===== *)
theory ImagerConfig
  imports Storage GrubCfg
begin

text \<open>
  \<open>pkg/imagecustomizerlib/typeConversion.go\<close> and the types of \<open>imagegen/configuration\<close> that it produces: the
  conversion of the validated configuration into the one of the older imager, which creates the disk. Its sizes are
  in MiB. A field of a pointer type is dereferenced without a check; \<open>NilDereference\<close> is the panic of a nil one.
\<close>

section \<open>Configuration of the imager\<close>

type_synonym PartitionFlag = string

definition PartitionFlagESP :: PartitionFlag where "PartitionFlagESP = ''esp''"
definition PartitionFlagGrub :: PartitionFlag where "PartitionFlagGrub = ''grub''"
definition PartitionFlagBiosGrub :: PartitionFlag where "PartitionFlagBiosGrub = ''bios_grub''"
definition PartitionFlagBiosGrubLegacy :: PartitionFlag where "PartitionFlagBiosGrubLegacy = ''bios-grub''"
definition PartitionFlagBoot :: PartitionFlag where "PartitionFlagBoot = ''boot''"
definition PartitionFlagDeviceMapperRoot :: PartitionFlag where "PartitionFlagDeviceMapperRoot = ''dmroot''"

lemmas flag_defs = PartitionFlagESP_def PartitionFlagGrub_def PartitionFlagBiosGrub_def PartitionFlagBiosGrubLegacy_def
  PartitionFlagBoot_def PartitionFlagDeviceMapperRoot_def

record imager_Partition =
  ipID :: string
  ipFsType :: string
  ipName :: string
  ipStart :: uint64
  ipEnd :: uint64
  ipFlags :: "PartitionFlag list"
  ipType :: string
  ipTypeUUID :: string
  ipIsBootPartition :: bool
  ipFsSize :: uint64

definition HasFlag :: "imager_Partition \<Rightarrow> PartitionFlag \<Rightarrow> bool" where
  "HasFlag p flag \<longleftrightarrow> flag \<in> set (ipFlags p)"

record imager_Disk =
  idPartitionTableType :: string
  idMaxSize :: uint64
  idPartitions :: "imager_Partition list"

record PartitionSetting =
  psID :: string
  psMountIdentifier :: string
  psMountOptions :: string
  psMountPoint :: string

fun FindMountpointPartitionSetting :: "PartitionSetting list \<Rightarrow> string \<Rightarrow> PartitionSetting option" where
  "FindMountpointPartitionSetting [] mountPoint = None"
| "FindMountpointPartitionSetting (p # ps) mountPoint =
     (if psMountPoint p = mountPoint then Some p else FindMountpointPartitionSetting ps mountPoint)"

definition PartitionTypeNameToUUID :: "(string \<times> string) list" where
  "PartitionTypeNameToUUID =
     [(''linux'', ''0fc63daf-8483-4772-8e79-3d69d8477de4''),
      (''esp'', ''c12a7328-f81f-11d2-ba4b-00a0c93ec93b''),
      (''xbootldr'', ''bc13c2ff-59e6-4262-a352-b275fd6f7172''),
      (''linux-root-amd64'', ''4f68bce3-e8cd-4db1-96e7-fbcaf984b709''),
      (''linux-swap'', ''0657fd6d-a4ab-43c4-84e5-0933c84b4f4f''),
      (''linux-home'', ''933ac7e1-2eb4-4f13-b844-0e14e2aef915''),
      (''linux-srv'', ''3b8f8425-20e0-4f3b-907f-1a25a76f98e8''),
      (''linux-var'', ''4d21b016-b534-45c2-a9fb-5c16e091fd2d''),
      (''linux-tmp'', ''7ec6f557-3bc5-4aca-b293-16ef5df639d1''),
      (''linux-lvm'', ''e6d6d379-f507-44c2-a23c-238f2a3df928''),
      (''linux-raid'', ''a19d880f-05fc-4d3b-a006-743f0f84911e''),
      (''linux-luks'', ''ca7d7ccb-63ed-4c53-861c-1742536059cc''),
      (''linux-dm-crypt'', ''7ffec5c9-2d00-49b7-8941-3ea10a5586b7'')]"

section \<open>Conversion\<close>

datatype conversion_error =
    NilDereference | BootTypeInvalid string | DiskSizeInvalid DiskSize | PartitionTableTypeUnknown string
  | PartitionStartInvalid DiskSize | PartitionEndInvalid DiskSize | FilesystemSizeInvalid uint64
  | MountIdentifierTypeUnknown string | SelinuxModeUnknown string

definition bootTypeToImager :: "BootType \<Rightarrow> conversion_error + string" where
  "bootTypeToImager bootType =
     (if bootType = BootTypeEfi then Inr ''efi''
      else if bootType = BootTypeLegacy then Inr ''legacy''
      else Inl (BootTypeInvalid bootType))"

definition partitionTableTypeToImager :: "PartitionTableType \<Rightarrow> conversion_error + string" where
  "partitionTableTypeToImager t = (if t = PartitionTableTypeGpt then Inr ''gpt'' else Inl (PartitionTableTypeUnknown t))"

definition toImagerPartitionFlags :: "(PartitionType \<rightharpoonup> string) \<Rightarrow> PartitionType \<Rightarrow> PartitionFlag list \<times> string" where
  "toImagerPartitionFlags arch partitionType =
     (if partitionType = PartitionTypeESP then ([PartitionFlagESP, PartitionFlagBoot], [])
      else if partitionType = PartitionTypeBiosGrub then ([PartitionFlagBiosGrub], [])
      else
        (case PartitionTypeToUuid arch partitionType of
           None \<Rightarrow> ([], partitionType)
         | Some typeUuid \<Rightarrow> ([], typeUuid)))"

definition calcIsBootPartition :: "FileSystem option \<Rightarrow> FileSystem list \<Rightarrow> bool" where
  "calcIsBootPartition fileSystem fileSystems =
     (let hasXBootLdrPartition =
            FindValueFunc fileSystems (\<lambda>f. case fsMountPoint f of Some m \<Rightarrow> mpPath m = ''/boot'' | None \<Rightarrow> False) \<noteq> None
      in case (case fileSystem of None \<Rightarrow> None | Some f \<Rightarrow> fsMountPoint f) of
           None \<Rightarrow> False
         | Some m \<Rightarrow> mpPath m = ''/boot'' \<or> HasPrefix (mpPath m) ''/boot/'' \<or> (mpPath m = ''/'' \<and> \<not> hasXBootLdrPartition))"

text \<open>A partition without a file system gets the zero value of one: no type, no mount point, size 0.\<close>

definition partitionToImager ::
  "(PartitionType \<rightharpoonup> string) \<Rightarrow> FileSystem list \<Rightarrow> Partition \<Rightarrow> conversion_error + imager_Partition" where
  "partitionToImager arch fileSystems p =
     (let fileSystem = FindValueFunc fileSystems (\<lambda>f. PartitionId f = partId p);
          size = (case fileSystem of None \<Rightarrow> 0 | Some f \<Rightarrow> fsSize f) in
      case partStart p of
        None \<Rightarrow> Inl NilDereference
      | Some start \<Rightarrow>
          if start mod MiB \<noteq> 0 then Inl (PartitionStartInvalid start)
          else
            (case partEnd p of
               None \<Rightarrow> Inl NilDereference
             | Some end \<Rightarrow>
                 if end mod MiB \<noteq> 0 then Inl (PartitionEndInvalid end)
                 else if size mod MiB \<noteq> 0 then Inl (FilesystemSizeInvalid size)
                 else
                   (case toImagerPartitionFlags arch (partType p) of (imagerFlags, typeUuid) \<Rightarrow>
                      Inr \<lparr>ipID = partId p, ipFsType = (case fileSystem of None \<Rightarrow> [] | Some f \<Rightarrow> fsType f),
                           ipName = partLabel p, ipStart = start div MiB, ipEnd = end div MiB, ipFlags = imagerFlags,
                           ipType = [], ipTypeUUID = typeUuid,
                           ipIsBootPartition = calcIsBootPartition fileSystem fileSystems, ipFsSize = size div MiB\<rparr>)))"

fun partitionsToImager ::
  "(PartitionType \<rightharpoonup> string) \<Rightarrow> FileSystem list \<Rightarrow> Partition list \<Rightarrow> conversion_error + imager_Partition list" where
  "partitionsToImager arch fileSystems [] = Inr []"
| "partitionsToImager arch fileSystems (p # ps) =
     (case partitionToImager arch fileSystems p of
        Inl e \<Rightarrow> Inl e
      | Inr ip \<Rightarrow> (case partitionsToImager arch fileSystems ps of Inl e \<Rightarrow> Inl e | Inr ips \<Rightarrow> Inr (ip # ips)))"

definition diskConfigToImager ::
  "(PartitionType \<rightharpoonup> string) \<Rightarrow> Disk \<Rightarrow> FileSystem list \<Rightarrow> conversion_error + imager_Disk" where
  "diskConfigToImager arch d fileSystems =
     (case partitionTableTypeToImager (PartitionTableType d) of
        Inl e \<Rightarrow> Inl e
      | Inr imagerPartitionTableType \<Rightarrow>
          (case partitionsToImager arch fileSystems (Partitions d) of
             Inl e \<Rightarrow> Inl e
           | Inr imagerPartitions \<Rightarrow>
               (case MaxSize d of
                  None \<Rightarrow> Inl NilDereference
                | Some m \<Rightarrow>
                    if m mod MiB \<noteq> 0 then Inl (DiskSizeInvalid m)
                    else Inr \<lparr>idPartitionTableType = imagerPartitionTableType, idMaxSize = m div MiB,
                              idPartitions = imagerPartitions\<rparr>)))"

definition mountIdentifierTypeToImager :: "MountIdentifierType \<Rightarrow> conversion_error + string" where
  "mountIdentifierTypeToImager t =
     (if t = MountIdentifierTypeUuid then Inr ''uuid''
      else if t = MountIdentifierTypePartUuid \<or> t = MountIdentifierTypeDefault then Inr ''partuuid''
      else if t = MountIdentifierTypePartLabel then Inr ''partlabel''
      else Inl (MountIdentifierTypeUnknown t))"

text \<open>The settings of one mount: of a file system or of a subvolume.\<close>

definition partitionSettingToImager :: "FileSystem \<Rightarrow> conversion_error + PartitionSetting" where
  "partitionSettingToImager f =
     (let mountIdType = (case fsMountPoint f of None \<Rightarrow> MountIdentifierTypeDefault | Some m \<Rightarrow> mpIdType m) in
      case mountIdentifierTypeToImager mountIdType of
        Inl e \<Rightarrow> Inl e
      | Inr i \<Rightarrow>
          Inr \<lparr>psID = PartitionId f, psMountIdentifier = i,
               psMountOptions = (case fsMountPoint f of None \<Rightarrow> [] | Some m \<Rightarrow> mpOptions m),
               psMountPoint = (case fsMountPoint f of None \<Rightarrow> [] | Some m \<Rightarrow> mpPath m)\<rparr>)"

definition subvolumeOptions :: "BtrfsSubvolume \<Rightarrow> string" where
  "subvolumeOptions s =
     (case svMountPoint s of
        None \<Rightarrow> []
      | Some m \<Rightarrow> ''subvol=/'' @ svPath s @ (if mpOptions m \<noteq> [] then '','' @ mpOptions m else []))"

fun partitionSettingsForBtrfsSubvolumes :: "string \<Rightarrow> BtrfsSubvolume list \<Rightarrow> conversion_error + PartitionSetting list" where
  "partitionSettingsForBtrfsSubvolumes pid [] = Inr []"
| "partitionSettingsForBtrfsSubvolumes pid (s # ss) =
     (let mountIdType = (case svMountPoint s of None \<Rightarrow> MountIdentifierTypeDefault | Some m \<Rightarrow> mpIdType m) in
      case mountIdentifierTypeToImager mountIdType of
        Inl e \<Rightarrow> Inl e
      | Inr i \<Rightarrow>
          (case partitionSettingsForBtrfsSubvolumes pid ss of
             Inl e \<Rightarrow> Inl e
           | Inr settings \<Rightarrow>
               Inr (\<lparr>psID = pid, psMountIdentifier = i, psMountOptions = subvolumeOptions s,
                     psMountPoint = (case svMountPoint s of None \<Rightarrow> [] | Some m \<Rightarrow> mpPath m)\<rparr> # settings)))"

definition partitionSettingsForFileSystem :: "FileSystem \<Rightarrow> conversion_error + PartitionSetting list" where
  "partitionSettingsForFileSystem f =
     (case fsBtrfs f of
        Some b \<Rightarrow>
          if fsType f = FileSystemTypeBtrfs \<and> length (Subvolumes b) > 0
          then partitionSettingsForBtrfsSubvolumes (PartitionId f) (Subvolumes b)
          else map_sum id (\<lambda>s. [s]) (partitionSettingToImager f)
      | None \<Rightarrow> map_sum id (\<lambda>s. [s]) (partitionSettingToImager f))"

fun partitionSettingsToImager :: "FileSystem list \<Rightarrow> conversion_error + PartitionSetting list" where
  "partitionSettingsToImager [] = Inr []"
| "partitionSettingsToImager (f # fs) =
     (case partitionSettingsForFileSystem f of
        Inl e \<Rightarrow> Inl e
      | Inr settings \<Rightarrow> map_sum id ((@) settings) (partitionSettingsToImager fs))"

definition selinuxModeToImager :: "SELinuxMode \<Rightarrow> conversion_error + string" where
  "selinuxModeToImager m =
     (if m = SELinuxModeDisabled then Inr []
      else if m = SELinuxModeEnforcing then Inr ''enforcing''
      else if m = SELinuxModePermissive then Inr ''permissive''
      else if m = SELinuxModeForceEnforcing then Inr ''force_enforcing''
      else Inl (SelinuxModeUnknown m))"

definition selinuxModeMaybeDefaultToImager :: "SELinuxMode \<Rightarrow> SELinuxMode \<Rightarrow> conversion_error + string" where
  "selinuxModeMaybeDefaultToImager selinuxMode currentSELinuxMode =
     selinuxModeToImager (if selinuxMode = SELinuxModeDefault then currentSELinuxMode else selinuxMode)"

record KernelCommandLine =
  kcExtraCommandLine :: string
  kcSELinux :: string

definition kernelCommandLineToImager :: "string list \<Rightarrow> SELinuxMode \<Rightarrow> SELinuxMode \<Rightarrow> conversion_error + KernelCommandLine" where
  "kernelCommandLineToImager extraCommandLine selinuxMode currentSELinuxMode =
     (case selinuxModeMaybeDefaultToImager selinuxMode currentSELinuxMode of
        Inl e \<Rightarrow> Inl e
      | Inr s \<Rightarrow> Inr \<lparr>kcExtraCommandLine = GrubArgsToString extraCommandLine, kcSELinux = s\<rparr>)"

section \<open>Alignment is kept by the validation of a disk\<close>

definition mib_aligned :: "uint64 \<Rightarrow> bool" where
  "mib_aligned w \<longleftrightarrow> 2 ^ 20 dvd unat w"

lemma mod_MiB: "w mod MiB = 0 \<longleftrightarrow> mib_aligned w"
proof -
  have "w mod MiB = 0 \<longleftrightarrow> unat (w mod MiB) = 0" by (metis unat_0 unat_eq_zero)
  also have "\<dots> \<longleftrightarrow> unat w mod 2 ^ 20 = 0" by (simp add: unat_mod_distrib MiB_def)
  finally show ?thesis by (simp add: mib_aligned_def dvd_eq_mod_eq_0)
qed

lemma mib_aligned_0 [simp]: "mib_aligned 0"
  by (simp add: mib_aligned_def)

lemma mib_aligned_sum: "mib_aligned (a + b) \<longleftrightarrow> 2 ^ 20 dvd unat a + unat b"
proof -
  have "unat (a + b) = (unat a + unat b) mod 2 ^ 64" by (simp add: unat_word_ariths)
  then show ?thesis by (simp add: mib_aligned_def dvd_mod_iff)
qed

lemma mib_aligned_add: "mib_aligned a \<Longrightarrow> mib_aligned b \<Longrightarrow> mib_aligned (a + b)"
  by (simp add: mib_aligned_sum) (simp add: mib_aligned_def)

lemma mib_aligned_diff: "mib_aligned a \<Longrightarrow> mib_aligned b \<Longrightarrow> mib_aligned (a - b)"
  using mib_aligned_sum [of "a - b" b] by (simp add: mib_aligned_def dvd_add_left_iff)

lemma mib_aligned_consts: "mib_aligned DefaultPartitionAlignment" "mib_aligned gptHeaderSize" "mib_aligned gptFooterSize"
  by (simp_all add: DefaultPartitionAlignment_def gpt_sizes mib_aligned_def MiB_def)

definition part_aligned :: "Partition \<Rightarrow> bool" where
  "part_aligned p \<longleftrightarrow> (\<forall>s. partStart p = Some s \<longrightarrow> mib_aligned s) \<and> (\<forall>e. partEnd p = Some e \<longrightarrow> mib_aligned e)
     \<and> (psType (partSize p) = PartitionSizeTypeExplicit \<longrightarrow> mib_aligned (psSize (partSize p)))"

lemma part_aligned_end: "part_aligned p \<Longrightarrow> partGetEnd p = Some e \<Longrightarrow> mib_aligned e"
  by (auto simp: part_aligned_def partGetEnd_def mib_aligned_add split: option.splits if_splits)

lemma part_aligned_fill: "part_aligned p \<Longrightarrow> mib_aligned e \<Longrightarrow> part_aligned (partFillSizeAndEnd p e)"
  by (auto simp: part_aligned_def partFillSizeAndEnd_def Let_def mib_aligned_diff split: option.splits)

lemma fillStarts_aligned:
  "fillStarts prev ps = Inr ps' \<Longrightarrow> list_all part_aligned ps \<Longrightarrow> (\<forall>q. prev = Some q \<longrightarrow> part_aligned q) \<Longrightarrow>
     list_all part_aligned ps'"
proof (induction prev ps arbitrary: ps' rule: fillStarts.induct)
  case (2 prev p ps)
  from 2(2) obtain p' ps1 where p': "part_aligned p'" and r: "fillStarts (Some p') ps = Inr ps1" "ps' = p' # ps1"
  proof -
    have start: "part_aligned (p\<lparr>partStart := Some s\<rparr>)" if "mib_aligned s" for s
      using 2(3) that by (simp add: part_aligned_def)
    from 2(2) obtain p' ps1 where "fillStarts (Some p') ps = Inr ps1" "ps' = p' # ps1"
      and c: "p' = p \<or> p' = p\<lparr>partStart := Some DefaultPartitionAlignment\<rparr>
        \<or> (\<exists>q e. prev = Some q \<and> partGetEnd q = Some e \<and> p' = p\<lparr>partStart := Some e\<rparr>)"
      by (auto split: option.splits sum.splits if_splits)
    moreover from c 2(3,4) have "part_aligned p'"
      using start mib_aligned_consts part_aligned_end by fastforce
    ultimately show ?thesis using that by blast
  qed
  from 2(2) r have "list_all part_aligned ps1"
    using 2(1) p' 2(3) by (auto split: option.splits sum.splits if_splits)
  with p' r show ?case by simp
qed simp

lemma checkOrder_aligned:
  "checkOrder ps = Inr ps' \<Longrightarrow> list_all part_aligned ps \<Longrightarrow> list_all part_aligned ps'"
  by (induction ps arbitrary: ps' rule: checkOrder.induct)
    (auto simp: part_aligned_fill part_aligned_end split: option.splits sum.splits if_splits)

lemma checkMaxSize_aligned:
  assumes "checkMaxSize m ps = Inr (m', ps')" "list_all part_aligned ps" "\<forall>s. m = Some s \<longrightarrow> mib_aligned s"
  shows "list_all part_aligned ps' \<and> (\<forall>s. m' = Some s \<longrightarrow> mib_aligned s)"
proof (cases "ps = []")
  case True
  with assms show ?thesis by (simp add: checkMaxSize_def)
next
  case False
  have l: "part_aligned (last ps)" "list_all part_aligned (butlast ps)"
    using assms(2) False by (auto simp: list_all_iff dest: in_set_butlastD)
  from assms(1) False obtain e where e: "ps' = butlast ps @ [partFillSizeAndEnd (last ps) e]" "mib_aligned e"
    "\<forall>s. m' = Some s \<longrightarrow> mib_aligned s"
    using l assms(3) mib_aligned_consts
    by (auto simp: checkMaxSize_def Let_def mib_aligned_add mib_aligned_diff part_aligned_end split: option.splits if_splits)
  with l show ?thesis by (simp add: part_aligned_fill)
qed

definition disk_aligned :: "Disk \<Rightarrow> bool" where
  "disk_aligned d \<longleftrightarrow> list_all part_aligned (Partitions d) \<and> (\<forall>s. MaxSize d = Some s \<longrightarrow> mib_aligned s)"

lemma Disk_IsValid_aligned:
  assumes "Disk_IsValid d = Inr d'" "disk_aligned d"
  shows "disk_aligned d'"
  using assms fillStarts_aligned [of None "Partitions d"] checkOrder_aligned checkMaxSize_aligned [of "MaxSize d"]
  by (fastforce simp: Disk_IsValid_def disk_aligned_def split: option.splits sum.splits if_splits)

text \<open>The imager's partition has the bounds of the configuration's, in MiB.\<close>

definition converted :: "Partition \<Rightarrow> imager_Partition \<Rightarrow> bool" where
  "converted p ip \<longleftrightarrow> ipID ip = partId p \<and> ipName ip = partLabel p
     \<and> unat (ipStart ip) * 2 ^ 20 = pstart p \<and> unat (ipEnd ip) * 2 ^ 20 = pend p"

lemma unat_div_MiB: "mib_aligned w \<Longrightarrow> unat (w div MiB) * 2 ^ 20 = unat w"
proof -
  assume "mib_aligned w"
  then show ?thesis by (simp add: mib_aligned_def unat_div_distrib MiB_def)
qed

lemma partitionsToImager_total:
  assumes "list_all filled_part ps" "list_all part_aligned ps" "\<forall>f \<in> set fileSystems. mib_aligned (fsSize f)"
  shows "\<exists>ips. partitionsToImager arch fileSystems ps = Inr ips \<and> list_all2 converted ps ips"
  using assms(1,2)
proof (induction ps)
  case (Cons p ps)
  then obtain ips where ips: "partitionsToImager arch fileSystems ps = Inr ips" "list_all2 converted ps ips" by auto
  from Cons.prems obtain s e where se: "partStart p = Some s" "partEnd p = Some e" "mib_aligned s" "mib_aligned e"
    by (auto simp: filled_part_def part_aligned_def)
  have "mib_aligned (case FindValueFunc fileSystems (\<lambda>f. PartitionId f = partId p) of None \<Rightarrow> 0 | Some f \<Rightarrow> fsSize f)"
    using assms(3) FindValueFunc_Some [of fileSystems] by (auto split: option.splits)
  then obtain ip where "partitionToImager arch fileSystems p = Inr ip" "converted p ip"
    using se unat_div_MiB [of s] unat_div_MiB [of e]
    by (cases "toImagerPartitionFlags arch (partType p)")
      (auto simp: partitionToImager_def mod_MiB Let_def converted_def pstart_def pend_def)
  with ips show ?case by simp
qed simp

lemma diskConfigToImager_total:
  assumes "laid_out d" "disk_aligned d" "PartitionTableType d = PartitionTableTypeGpt"
    and "\<forall>f \<in> set fileSystems. mib_aligned (fsSize f)"
  shows "\<exists>disk. diskConfigToImager arch d fileSystems = Inr disk
     \<and> list_all2 converted (Partitions d) (idPartitions disk)
     \<and> (\<exists>m. MaxSize d = Some m \<and> unat (idMaxSize disk) * 2 ^ 20 = unat m)"
proof -
  from assms(1) obtain m where m: "MaxSize d = Some m" "list_all filled_part (Partitions d)"
    by (auto simp: laid_out_def split: option.splits)
  with assms(2) have a: "mib_aligned m" "list_all part_aligned (Partitions d)" by (auto simp: disk_aligned_def)
  from partitionsToImager_total [OF m(2) a(2) assms(4), of arch] obtain ips where
    "partitionsToImager arch fileSystems (Partitions d) = Inr ips" "list_all2 converted (Partitions d) ips" by blast
  with m(1) a(1) assms(3) unat_div_MiB [OF a(1)] show ?thesis
    by (simp add: diskConfigToImager_def mod_MiB partitionTableTypeToImager_def)
qed

end
