(* ===== verification/DiskUtils.thy ===== *)
theory DiskUtils
  imports Host Fstab MkfsOptions ImagerConfig UserFiles
begin

text \<open>
  \<open>imagegen/diskutils/diskutils.go\<close>: creating the partitions of a disk with \<open>sfdisk\<close> and \<open>mkfs\<close>, and reading and
  refreshing the kernel's view of them. Sizes and sector addresses are 64-bit words and wrap as in Go. The decoders of
  the JSON that \<open>lsblk\<close> and \<open>sfdisk\<close> print are fields of the host.
\<close>

section \<open>The host's disks\<close>

record PartitionTablePartition =
  ppPath :: string
  ppPartTypeUuid :: string
  ppPartUuid :: string
  ppPartLabel :: string
  ppFileSystemType :: string
  ppFileSystemUuid :: string

record PartitionTable =
  ptUnit :: string
  ptPartitions :: "PartitionTablePartition list"

record 'w disk_host = "'w host" +
  lsblk_json :: "string \<Rightarrow> PartitionInfo list option"
  sfdisk_json :: "string \<Rightarrow> PartitionTable option option"
  majmin_json :: "string \<Rightarrow> string list option"
  losetup_json :: "string \<Rightarrow> (string \<times> string) list option"
  host_mkfs :: "'w \<Rightarrow> mkfs_host"

datatype populate_error =
    DeviceNodeMissing string | TypeUuidWrong string | PartUuidWrong string | PartLabelWrong string
  | FsTypeWrong string | FsUuidWrong string

datatype disk_op_error =
    DiskShell shell_error | JsonInvalid string | UnexpectedUnit string | NotPopulated "populate_error list"
  | WaitTimedOut | DiskIdsNotFound string | LoopbackPathNotAbsolute string | LoopbackNotDetached string
  | RereadFailed errno | OnlyGpt | MbrNotImplemented | StartNotBeforeEnd uint64 uint64 | UnknownPartitionFlag string
  | InvalidDevicePath string | SectorFileError string | SectorFileLines string | SectorNumber num_error | SectorDivisionByZero
  | PartitionNodeNotFound nat | NodeStatFailed string | MkfsOptionsError mkfs_error | FormatFailed string
  | SwapOnFailed | UnknownFileSystem string | EncryptionFailed

definition execD :: "('w, 'x) host_scheme \<Rightarrow> string list \<Rightarrow> string \<Rightarrow> ('w, disk_op_error, string \<times> string) act" where
  "execD h args stdin = mapErrE DiskShell (Execute h args stdin)"

section \<open>Reading\<close>

definition GetDiskPartitions :: "('w, 'x) disk_host_scheme \<Rightarrow> string \<Rightarrow> ('w, disk_op_error, PartitionInfo list) act" where
  "GetDiskPartitions h diskDevPath =
     bindE (execD h [''lsblk'', diskDevPath, ''--output'',
                     ''NAME,PATH,PARTTYPE,FSTYPE,UUID,MOUNTPOINT,PARTUUID,PARTLABEL,LABEL,TYPE,SIZE'',
                     ''--bytes'', ''--json'', ''--list''] [])
       (\<lambda>(jsonString, _).
          if jsonString = [] then returnE []
          else (case lsblk_json h jsonString of None \<Rightarrow> throwE (JsonInvalid jsonString) | Some ps \<Rightarrow> returnE ps))"

definition flock :: "string \<Rightarrow> string list \<Rightarrow> string list" where
  "flock diskDevPath args = [''flock'', ''--timeout'', ''5'', diskDevPath] @ args"

definition flockShared :: "string \<Rightarrow> string list \<Rightarrow> string list" where
  "flockShared diskDevPath args = [''flock'', ''--timeout'', ''5'', ''--shared'', diskDevPath] @ args"

definition probe :: "('w, 'x) host_scheme \<Rightarrow> string \<Rightarrow> string \<Rightarrow> string \<Rightarrow> ('w, disk_op_error, string) act" where
  "probe h diskDevPath tag path =
     bindE (execD h (flockShared diskDevPath [''blkid'', ''--probe'', ''-s'', tag, ''-o'', ''value'', path]) [])
       (\<lambda>(out, _). returnE (TrimSpace out))"

definition probePartition ::
  "('w, 'x) host_scheme \<Rightarrow> string \<Rightarrow> PartitionTablePartition \<Rightarrow> ('w, disk_op_error, PartitionTablePartition) act" where
  "probePartition h diskDevPath p =
     bindE (probe h diskDevPath ''TYPE'' (ppPath p)) (\<lambda>t.
       bindE (probe h diskDevPath ''UUID'' (ppPath p)) (\<lambda>u.
         returnE (p\<lparr>ppFileSystemType := t, ppFileSystemUuid := u\<rparr>)))"

text \<open>\<open>ReadDiskPartitionTable\<close>; \<open>None\<close> is an empty disk. \<open>sfdisk\<close> fails on one, with a message.\<close>

definition ReadDiskPartitionTable ::
  "('w, 'x) disk_host_scheme \<Rightarrow> string \<Rightarrow> ('w, disk_op_error, PartitionTable option) act" where
  "ReadDiskPartitionTable h diskDevPath =
     (\<lambda>w. case Execute h (flockShared diskDevPath [''sfdisk'', ''--lock=no'', ''--dump'', ''--json'', diskDevPath]) [] w of
        None \<Rightarrow> None
      | Some (Inl (CommandFailed args err), w') \<Rightarrow>
          Some (if ContainsStr err ''does not contain a recognized partition table'' then Inr None
                else Inl (DiskShell (CommandFailed args err)), w')
      | Some (Inr (out, _), w') \<Rightarrow>
          if out = [] then Some (Inr None, w')
          else
            (case sfdisk_json h out of
               None \<Rightarrow> Some (Inl (JsonInvalid out), w')
             | Some None \<Rightarrow> Some (Inr None, w')
             | Some (Some t) \<Rightarrow>
                 if ptUnit t \<noteq> ''sectors'' then Some (Inl (UnexpectedUnit (ptUnit t)), w')
                 else
                   bindE (foldE (\<lambda>p ps. bindE (probePartition h diskDevPath p) (\<lambda>p'. returnE (ps @ [p']))) (ptPartitions t) [])
                     (\<lambda>ps. returnE (Some (t\<lparr>ptPartitions := ps\<rparr>))) w'))"

text \<open>\<open>strings.EqualFold\<close> on the UUIDs, which are ASCII.\<close>

definition EqualFold :: "string \<Rightarrow> string \<Rightarrow> bool" where
  "EqualFold s t \<longleftrightarrow> ToLower s = ToLower t"

definition populateErrors :: "PartitionInfo list \<Rightarrow> PartitionTablePartition \<Rightarrow> populate_error list" where
  "populateErrors kernelPartitions p =
     (case FindValueFunc kernelPartitions (\<lambda>info. piPath info = ppPath p) of
        None \<Rightarrow> [DeviceNodeMissing (ppPath p)]
      | Some info \<Rightarrow>
          (if \<not> EqualFold (ppPartTypeUuid p) (piPartitionTypeUuid info) then [TypeUuidWrong (ppPath p)] else [])
          @ (if \<not> EqualFold (ppPartUuid p) (piPartUuid info) then [PartUuidWrong (ppPath p)] else [])
          @ (if ppPartLabel p \<noteq> piPartLabel info then [PartLabelWrong (ppPath p)] else [])
          @ (if ppFileSystemType p \<noteq> piFileSystemType info then [FsTypeWrong (ppPath p)] else [])
          @ (if \<not> EqualFold (ppFileSystemUuid p) (piUuid info) then [FsUuidWrong (ppPath p)] else []))"

definition waitForDiskToPopulate :: "('w, 'x) disk_host_scheme \<Rightarrow> string \<Rightarrow> ('w, disk_op_error, unit) act" where
  "waitForDiskToPopulate h diskDevPath =
     bindE (ReadDiskPartitionTable h diskDevPath) (\<lambda>partitionTable.
       case partitionTable of
         None \<Rightarrow> returnE ()
       | Some t \<Rightarrow>
           mapErrE (\<lambda>_. WaitTimedOut)
             (RunWithExpBackoff (\<lambda>_. False)
               (bindE (GetDiskPartitions h diskDevPath) (\<lambda>kernelPartitions.
                  let errs = concat (map (populateErrors kernelPartitions) (ptPartitions t)) in
                  if length errs > 0 then throwE (NotPopulated errs) else returnE ()))
               10))"

definition WaitForDiskDevice :: "('w, 'x) disk_host_scheme \<Rightarrow> string \<Rightarrow> ('w, disk_op_error, unit) act" where
  "WaitForDiskDevice h diskDevPath =
     bindE (execD h [''udevadm'', ''settle''] []) (\<lambda>_. waitForDiskToPopulate h diskDevPath)"

text \<open>The loop of \<open>requestKernelRereadPartitionTable\<close>: \<open>for i := 0; ; i = 1\<close>.\<close>

partial_function (option) rereadLoop :: "('w, 'x) host_scheme \<Rightarrow> string \<Rightarrow> nat \<Rightarrow> 'w \<Rightarrow> ((errno + unit) \<times> 'w) option" where
  "rereadLoop h diskDevPath i w =
     (case h_reread h diskDevPath w of (errno, w') \<Rightarrow>
        if errno = EBUSY \<and> i < 10 then rereadLoop h diskDevPath 1 w'
        else if errno \<noteq> errno_ok then Some (Inl errno, w')
        else Some (Inr (), w'))"

definition requestKernelRereadPartitionTable :: "('w, 'x) host_scheme \<Rightarrow> string \<Rightarrow> ('w, disk_op_error, unit) act" where
  "requestKernelRereadPartitionTable h diskDevPath =
     (\<lambda>w. if h_stat h w diskDevPath \<in> {StatNotExist, StatError} then Some (Inl (RereadFailed errno_other), w)
          else map_option (\<lambda>(r, w'). (map_sum RereadFailed id r, w')) (rereadLoop h diskDevPath 0 w))"

definition RefreshPartitions :: "('w, 'x) disk_host_scheme \<Rightarrow> string \<Rightarrow> ('w, disk_op_error, unit) act" where
  "RefreshPartitions h diskDevPath =
     bindE (requestKernelRereadPartitionTable h diskDevPath) (\<lambda>_. WaitForDiskDevice h diskDevPath)"

definition GetDiskIds :: "('w, 'x) disk_host_scheme \<Rightarrow> string \<Rightarrow> ('w, disk_op_error, string \<times> string) act" where
  "GetDiskIds h diskDevPath =
     bindE (execD h [''lsblk'', ''--nodeps'', ''--json'', ''--output'', ''NAME,MAJ:MIN'', diskDevPath] [])
       (\<lambda>(out, _).
          case (if out = [] then Some [] else majmin_json h out) of
            None \<Rightarrow> throwE (JsonInvalid out)
          | Some devices \<Rightarrow>
              (case devices of
                 [d] \<Rightarrow> (case Split d CHR '':'' of [maj, min'] \<Rightarrow> returnE (maj, min') | _ \<Rightarrow> throwE (DiskIdsNotFound diskDevPath))
               | _ \<Rightarrow> throwE (DiskIdsNotFound diskDevPath)))"

text \<open>Ten looks at the list of loop devices; the delays are not modelled.\<close>

fun detachLoop :: "('w, 'x) disk_host_scheme \<Rightarrow> string \<Rightarrow> string \<Rightarrow> nat \<Rightarrow> ('w, disk_op_error, unit) act" where
  "detachLoop h devicePath diskPath 0 = throwE (LoopbackNotDetached devicePath)"
| "detachLoop h devicePath diskPath (Suc n) =
     bindE (execD h [''losetup'', ''--list'', ''--json'', ''--output'', ''NAME,BACK-FILE''] [])
       (\<lambda>(out, _).
          case (if out = [] then Some [] else losetup_json h out) of
            None \<Rightarrow> throwE (JsonInvalid out)
          | Some devices \<Rightarrow>
              if (devicePath, diskPath) \<in> set devices then detachLoop h devicePath diskPath n else returnE ())"

definition WaitForLoopbackToDetach :: "('w, 'x) disk_host_scheme \<Rightarrow> string \<Rightarrow> string \<Rightarrow> ('w, disk_op_error, unit) act" where
  "WaitForLoopbackToDetach h devicePath diskPath =
     (if \<not> path_IsAbs diskPath then throwE (LoopbackPathNotAbsolute diskPath)
      else detachLoop h devicePath diskPath 10)"

section \<open>Sectors\<close>

definition alignSectorAddress :: "uint64 \<Rightarrow> uint64 \<Rightarrow> uint64 \<Rightarrow> uint64" where
  "alignSectorAddress sectorAddr logicalSectorSize physicalSectorSize =
     (if sectorAddr < physicalSectorSize
      then (if sectorAddr mod (MiB div logicalSectorSize) = 0 then sectorAddr else 0)
      else if sectorAddr mod physicalSectorSize = 0 then sectorAddr
      else (sectorAddr div physicalSectorSize + 1) * physicalSectorSize)"

definition primaryPartitionType :: string where "primaryPartitionType = ''primary''"
definition extendedPartitionType :: string where "extendedPartitionType = ''extended''"
definition logicalPartitionType :: string where "logicalPartitionType = ''logical''"
definition maxPrimaryPartitionsForMBR :: nat where "maxPrimaryPartitionsForMBR = 4"

definition obtainPartitionDetail :: "nat \<Rightarrow> bool \<Rightarrow> string \<times> nat" where
  "obtainPartitionDetail partitionIndex hasExtendedPartition =
     (if hasExtendedPartition \<and> partitionIndex \<ge> maxPrimaryPartitionsForMBR - 1
      then (if partitionIndex = maxPrimaryPartitionsForMBR - 1 then (extendedPartitionType, partitionIndex + 1)
            else (logicalPartitionType, partitionIndex + 2))
      else (primaryPartitionType, partitionIndex + 1))"

text \<open>The first sector and, unless the partition fills the disk, the number of sectors. A sector size of 0
  is a division by zero, and so is a logical one above 1 MiB when the start is below the physical one.\<close>

definition partitionSectors ::
  "uint64 \<Rightarrow> uint64 \<Rightarrow> imager_Partition \<Rightarrow> string \<Rightarrow> disk_op_error + (uint64 \<times> uint64 option)" where
  "partitionSectors logicalSectorSize physicalSectorSize p typ =
     (if ipEnd p \<noteq> 0 \<and> ipStart p \<ge> ipEnd p then Inl (StartNotBeforeEnd (ipStart p) (ipEnd p))
      else if logicalSectorSize = 0 \<or> physicalSectorSize = 0 then Inl SectorDivisionByZero
      else
        let start0 = ipStart p * MiB div logicalSectorSize;
            end0 = (if ipEnd p = 0 then 0 else ipEnd p * MiB div logicalSectorSize - 1);
            start1 = (if typ = logicalPartitionType then start0 + 1 else start0);
            end1 = (if typ = logicalPartitionType \<and> end0 \<noteq> 0 then end0 + 1 else end0);
            start = alignSectorAddress start1 logicalSectorSize physicalSectorSize
        in if start1 < physicalSectorSize \<and> MiB div logicalSectorSize = 0 then Inl SectorDivisionByZero
           else Inr (start, if end1 > 0 then Some (end1 - start + 1) else None))"

definition escapeSfdiskString :: "string \<Rightarrow> string" where
  "escapeSfdiskString val =
     [CHR 0x22] @
     concat (map (\<lambda>c. if c = rn CHR 0x22 then CHR 0x5C # ''x22'' else if c = rn CHR 0x5C then CHR 0x5C # ''x5c'' else encode_rune c)
       (range_runes val)) @ [CHR 0x22]"

text \<open>The type of a partition: the last flag that decides one, then an explicit type.\<close>

fun flagsTypeId :: "string \<Rightarrow> PartitionFlag list \<Rightarrow> disk_op_error + string" where
  "flagsTypeId typeId [] = Inr typeId"
| "flagsTypeId typeId (flag # flags) =
     (if flag \<in> set [PartitionFlagESP, PartitionFlagBoot] then flagsTypeId EfiSystemPartitionTypeUuid flags
      else if flag \<in> set [PartitionFlagGrub, PartitionFlagBiosGrub, PartitionFlagBiosGrubLegacy]
      then flagsTypeId BiosBootPartitionTypeUuid flags
      else if flag = PartitionFlagDeviceMapperRoot then flagsTypeId typeId flags
      else Inl (UnknownPartitionFlag flag))"

definition partitionTypeId :: "imager_Partition \<Rightarrow> disk_op_error + string" where
  "partitionTypeId p =
     (case flagsTypeId GenericLinuxPartitionTypeUuid (ipFlags p) of
        Inl e \<Rightarrow> Inl e
      | Inr typeId \<Rightarrow>
          Inr (if ipTypeUUID p \<noteq> [] then ipTypeUUID p
               else if ipType p \<noteq> []
               then (case map_of PartitionTypeNameToUUID (ipType p) of None \<Rightarrow> [] | Some u \<Rightarrow> u)
               else typeId))"

definition sfdiskScript :: "uint64 \<times> uint64 option \<Rightarrow> string \<Rightarrow> string \<Rightarrow> string" where
  "sfdiskScript sectors typeId name =
     ''unit: sectors'' @ [CHR 0x0A] @ ''start='' @ nat_dec (unat (fst sectors)) @ '', type='' @ typeId @ '', name='' @ name
     @ (case snd sectors of None \<Rightarrow> [] | Some n \<Rightarrow> '', size='' @ nat_dec (unat n))"

definition diskDevPathRegexp_match :: "string \<Rightarrow> bool" where
  "diskDevPathRegexp_match s \<longleftrightarrow>
     HasPrefix s ''/dev/'' \<and> drop 5 s \<noteq> [] \<and> list_all is_word_char (drop 5 s)"

definition getSectorSizeFromFile :: "('w, 'x) host_scheme \<Rightarrow> string \<Rightarrow> ('w, disk_op_error, uint64) act" where
  "getSectorSizeFromFile h sectorFile =
     bindE (mapErrE (\<lambda>_. SectorFileError sectorFile) (statE h sectorFile)) (\<lambda>exists.
       if \<not> exists then throwE (SectorFileError sectorFile)
       else
         (\<lambda>w. case h_read h w sectorFile of
            None \<Rightarrow> Some (Inl (SectorFileError sectorFile), w)
          | Some content \<Rightarrow>
              (case ReadLines content of
                 Inl _ \<Rightarrow> Some (Inl (SectorFileError sectorFile), w)
               | Inr ls \<Rightarrow>
                   (case ls of
                      [l] \<Rightarrow> Some (map_sum SectorNumber of_nat (ParseUint l 10 64), w)
                    | _ \<Rightarrow> Some (Inl (SectorFileLines sectorFile), w)))))"

definition GetSectorSize :: "('w, 'x) host_scheme \<Rightarrow> string \<Rightarrow> ('w, disk_op_error, uint64 \<times> uint64) act" where
  "GetSectorSize h diskDevPath =
     (if \<not> diskDevPathRegexp_match diskDevPath then throwE (InvalidDevicePath diskDevPath)
      else
        let diskName = drop 5 diskDevPath in
        bindE (getSectorSizeFromFile h (''/sys/block/'' @ diskName @ ''/queue/hw_sector_size'')) (\<lambda>logicalSectorSize.
          bindE (getSectorSizeFromFile h (''/sys/block/'' @ diskName @ ''/queue/physical_block_size'')) (\<lambda>physicalSectorSize.
            returnE (logicalSectorSize, physicalSectorSize))))"

section \<open>Creating partitions\<close>

definition createPartitionTable :: "('w, 'x) host_scheme \<Rightarrow> string \<Rightarrow> string \<Rightarrow> ('w, disk_op_error, unit) act" where
  "createPartitionTable h diskDevPath partitionTableType =
     (if partitionTableType \<noteq> ''gpt'' then throwE OnlyGpt
      else bindE (execD h (flock diskDevPath [''sfdisk'', ''--lock=no'', diskDevPath]) ''label: gpt'') (\<lambda>_. returnE ()))"

text \<open>The device node of a new partition: \<open>/dev/loop0p1\<close>, or \<open>/dev/sda1\<close> when the disk's name does not end in a digit.\<close>

definition testPartDevPaths :: "string \<Rightarrow> nat \<Rightarrow> string list" where
  "testPartDevPaths diskDevPath partitionNumber =
     (diskDevPath @ ''p'' @ nat_dec partitionNumber)
     # (if \<not> is_digit (last diskDevPath) then [diskDevPath @ nat_dec partitionNumber] else [])"

fun findNode :: "('w, 'x) host_scheme \<Rightarrow> nat \<Rightarrow> string list \<Rightarrow> ('w, disk_op_error, string) act" where
  "findNode h partitionNumber [] = throwE (PartitionNodeNotFound partitionNumber)"
| "findNode h partitionNumber (p # ps) =
     bindE (mapErrE (\<lambda>_. NodeStatFailed p) (statE h p)) (\<lambda>exists. if exists then returnE p else findNode h partitionNumber ps)"

definition waitForPartitionCreation :: "('w, 'x) host_scheme \<Rightarrow> string \<Rightarrow> nat \<Rightarrow> ('w, disk_op_error, string) act" where
  "waitForPartitionCreation h diskDevPath partitionNumber =
     mapErrE (\<lambda>_. PartitionNodeNotFound partitionNumber)
       (retry_Run (findNode h partitionNumber (testPartDevPaths diskDevPath partitionNumber)) 5)"

definition createSinglePartition ::
  "('w, 'x) host_scheme \<Rightarrow> string \<Rightarrow> nat \<Rightarrow> string \<Rightarrow> imager_Partition \<Rightarrow> string \<Rightarrow> ('w, disk_op_error, string) act" where
  "createSinglePartition h diskDevPath partitionNumber partitionTableType p typ =
     bindE (GetSectorSize h diskDevPath) (\<lambda>(logicalSectorSize, physicalSectorSize).
       bindE (liftE (partitionSectors logicalSectorSize physicalSectorSize p typ)) (\<lambda>sectors.
         if partitionTableType = ''mbr'' then throwE MbrNotImplemented
         else
           bindE (if partitionTableType = ''gpt'' then liftE (partitionTypeId p) else returnE []) (\<lambda>typeId.
             let name = (if partitionTableType = ''gpt'' then escapeSfdiskString (ipName p) else []) in
             bindE (execD h (flock diskDevPath [''sfdisk'', ''--lock=no'', ''--append'', diskDevPath])
                      (sfdiskScript sectors typeId name)) (\<lambda>_.
               waitForPartitionCreation h diskDevPath partitionNumber))))"

definition retryCommand :: "('w, 'x) host_scheme \<Rightarrow> string list \<Rightarrow> string \<Rightarrow> ('w, disk_op_error, unit) act" where
  "retryCommand h args fsT =
     mapErrE (\<lambda>_. FormatFailed fsT) (retry_Run (bindE (execD h args []) (\<lambda>_. returnE ())) 5)"

definition formatSinglePartition ::
  "('w, 'x) disk_host_scheme \<Rightarrow> TargetOs \<Rightarrow> string \<Rightarrow> string \<Rightarrow> imager_Partition \<Rightarrow> bool \<Rightarrow> ('w, disk_op_error, string) act" where
  "formatSinglePartition h targetOs diskDevPath partDevPath p isBootPartition =
     (let t = ipFsType p in
      if t \<in> set [''btrfs'', ''fat32'', ''fat16'', ''vfat'', ''ext2'', ''ext3'', ''ext4'', ''xfs''] then
        (let fsT = (if t = ''fat32'' \<or> t = ''fat16'' then ''vfat'' else t) in
         bindE (askE (host_mkfs h)) (\<lambda>m.
           bindE (liftE (map_sum MkfsOptionsError id (getFileSystemOptions m targetOs fsT isBootPartition partDevPath (ipFsSize p))))
             (\<lambda>mkfsOptions.
                bindE (retryCommand h (flock diskDevPath mkfsOptions) fsT) (\<lambda>_. returnE fsT))))
      else if t = ''linux-swap'' then
        bindE (retryCommand h [''mkswap'', partDevPath] t) (\<lambda>_.
          bindE (mapErrE (\<lambda>_. SwapOnFailed) (Execute h [''swapon'', partDevPath] [])) (\<lambda>_. returnE t))
      else if t = [] then returnE []
      else throwE (UnknownFileSystem t))"

definition createExtendedPartition ::
  "('w, 'x) host_scheme \<Rightarrow> string \<Rightarrow> string \<Rightarrow> imager_Partition list \<Rightarrow> ('w, disk_op_error, string) act" where
  "createExtendedPartition h diskDevPath partitionTableType ps =
     createSinglePartition h diskDevPath maxPrimaryPartitionsForMBR partitionTableType
       \<lparr>ipID = extendedPartitionType, ipFsType = [], ipName = [],
        ipStart = ipStart (ps ! (maxPrimaryPartitionsForMBR - 1)), ipEnd = ipEnd (last ps), ipFlags = [],
        ipType = [], ipTypeUUID = [], ipIsBootPartition = False, ipFsSize = 0\<rparr> extendedPartitionType"

text \<open>The maps from partition ids to device nodes and file system types. Encryption of the root partition is an
  argument: the node that replaces the partition's, when it is enabled and the partition has the flag.\<close>

type_synonym part_maps = "(string \<rightharpoonup> string) \<times> (string \<rightharpoonup> string)"

definition createPartition ::
  "('w, 'x) disk_host_scheme \<Rightarrow> TargetOs \<Rightarrow> string \<Rightarrow> imager_Disk \<Rightarrow>
   (string \<Rightarrow> ('w, disk_op_error, string) act) option \<Rightarrow> nat \<times> imager_Partition \<Rightarrow> part_maps \<Rightarrow> ('w, disk_op_error, part_maps) act" where
  "createPartition h targetOs diskDevPath disk encrypt ip maps =
     (case ip of (idx, p) \<Rightarrow> case maps of (partDevPathMap, partIDToFsTypeMap) \<Rightarrow>
      let tableType = idPartitionTableType disk;
          usingExtendedPartition = length (idPartitions disk) > maxPrimaryPartitionsForMBR \<and> tableType = ''mbr'';
          (typ0, num0) = obtainPartitionDetail idx usingExtendedPartition
      in bindE (if typ0 = extendedPartitionType
                then bindE (createExtendedPartition h diskDevPath tableType (idPartitions disk)) (\<lambda>ext.
                       returnE (logicalPartitionType, num0 + 1, partDevPathMap(extendedPartitionType \<mapsto> ext),
                                partIDToFsTypeMap(extendedPartitionType \<mapsto> [])))
                else returnE (typ0, num0, partDevPathMap, partIDToFsTypeMap))
           (\<lambda>(typ, num, paths, types).
              bindE (createSinglePartition h diskDevPath num tableType p typ) (\<lambda>partDevPath.
                bindE (formatSinglePartition h targetOs diskDevPath partDevPath p (ipIsBootPartition p)) (\<lambda>partFsType.
                  bindE (case encrypt of
                           Some enc \<Rightarrow> if HasFlag p PartitionFlagDeviceMapperRoot then enc partDevPath else returnE partDevPath
                         | None \<Rightarrow> returnE partDevPath) (\<lambda>node.
                    returnE (paths(ipID p \<mapsto> node), types(ipID p \<mapsto> partFsType)))))))"

definition CreatePartitions ::
  "('w, 'x) disk_host_scheme \<Rightarrow> TargetOs \<Rightarrow> string \<Rightarrow> imager_Disk \<Rightarrow>
   (string \<Rightarrow> ('w, disk_op_error, string) act) option \<Rightarrow> ('w, disk_op_error, part_maps) act" where
  "CreatePartitions h targetOs diskDevPath disk encrypt =
     bindE (createPartitionTable h diskDevPath (idPartitionTableType disk)) (\<lambda>_.
       bindE (foldE (createPartition h targetOs diskDevPath disk encrypt)
                (zip [0..<length (idPartitions disk)] (idPartitions disk)) (Map.empty, Map.empty)) (\<lambda>maps.
         bindE (RefreshPartitions h diskDevPath) (\<lambda>_. returnE maps)))"

section \<open>Facts\<close>

text \<open>The world after \<open>k\<close> requests, and what request \<open>k\<close> answered.\<close>

fun reread_world :: "('w, 'x) host_scheme \<Rightarrow> string \<Rightarrow> nat \<Rightarrow> 'w \<Rightarrow> 'w" where
  "reread_world h d 0 w = w"
| "reread_world h d (Suc k) w = reread_world h d k (snd (h_reread h d w))"

definition reread_errno :: "('w, 'x) host_scheme \<Rightarrow> string \<Rightarrow> nat \<Rightarrow> 'w \<Rightarrow> errno" where
  "reread_errno h d k w = fst (h_reread h d (reread_world h d k w))"

lemma reread_simps [simp]:
  "reread_errno h d 0 w = fst (h_reread h d w)" "reread_errno h d (Suc k) w = reread_errno h d k (snd (h_reread h d w))"
  by (simp_all add: reread_errno_def)

lemma rereadLoop_ends:
  assumes "rereadLoop h d i w = Some y"
  shows "i < 10 \<longrightarrow> (\<exists>k. reread_errno h d k w \<noteq> EBUSY)"
proof (rule rereadLoop.raw_induct [where P = "\<lambda>h d i w y. i < 10 \<longrightarrow> (\<exists>k. reread_errno h d k w \<noteq> EBUSY)", OF _ assms], intro impI)
  fix loop :: "('a, 'b) host_scheme \<Rightarrow> string \<Rightarrow> nat \<Rightarrow> 'a \<Rightarrow> ((errno + unit) \<times> 'a) option" and h d i w y
  assume IH: "\<And>d i w h y. loop d i w h = Some y \<Longrightarrow> w < 10 \<longrightarrow> (\<exists>k. reread_errno d i k h \<noteq> EBUSY)"
    and body: "(case h_reread h d w of (errno, w') \<Rightarrow>
        if errno = EBUSY \<and> i < 10 then loop h d 1 w'
        else if errno \<noteq> errno_ok then Some (Inl errno, w') else Some (Inr (), w')) = Some y"
    and i: "i < 10"
  show "\<exists>k. reread_errno h d k w \<noteq> EBUSY"
  proof (cases "fst (h_reread h d w) = EBUSY")
    case True
    with body i have "loop h d 1 (snd (h_reread h d w)) = Some y" by (simp add: case_prod_beta)
    from IH [OF this] obtain k where "reread_errno h d k (snd (h_reread h d w)) \<noteq> EBUSY" by auto
    then show ?thesis by (intro exI [of _ "Suc k"]) simp
  next
    case False
    then show ?thesis by (intro exI [of _ 0]) simp
  qed
qed

lemma rereadLoop_step:
  assumes "i < 10" "\<forall>j < k. reread_errno h d j w = EBUSY" "reread_errno h d k w \<noteq> EBUSY"
  shows "rereadLoop h d i w =
     Some (if reread_errno h d k w = errno_ok then Inr () else Inl (reread_errno h d k w), reread_world h d (Suc k) w)"
  using assms
proof (induction k arbitrary: i w)
  case 0
  then show ?case by (subst rereadLoop.simps) (auto simp: case_prod_beta)
next
  case (Suc k)
  have b: "fst (h_reread h d w) = EBUSY" using Suc.prems(2) by force
  have j: "\<forall>j < k. reread_errno h d j (snd (h_reread h d w)) = EBUSY"
    using Suc.prems(2) by (metis Suc_mono reread_simps(2))
  from Suc.IH [OF _ j, of 1] Suc.prems(3) b Suc.prems(1) show ?case
    by (subst rereadLoop.simps) (simp add: case_prod_beta)
qed

text \<open>C36. The kernel is asked until it is not busy: the loop returns exactly when some request is not answered
  \<open>EBUSY\<close>, then with the first such answer. As it sets its counter to 1 instead of counting, the limit of ten
  attempts is never reached, and a device that stays busy blocks the program.\<close>

theorem requestKernelRereadPartitionTable_returns_iff:
  "rereadLoop h d 0 w =
     (if \<exists>k. reread_errno h d k w \<noteq> EBUSY
      then let k = (LEAST k. reread_errno h d k w \<noteq> EBUSY)
           in Some (if reread_errno h d k w = errno_ok then Inr () else Inl (reread_errno h d k w), reread_world h d (Suc k) w)
      else None)"
proof (cases "\<exists>k. reread_errno h d k w \<noteq> EBUSY")
  case True
  let ?k = "LEAST k. reread_errno h d k w \<noteq> EBUSY"
  have "reread_errno h d ?k w \<noteq> EBUSY" using True by (rule LeastI_ex)
  moreover have "\<forall>j < ?k. reread_errno h d j w = EBUSY" using not_less_Least by blast
  ultimately show ?thesis using True rereadLoop_step [of 0 ?k h d w] unfolding Let_def by (simp del: reread_world.simps)
next
  case False
  then have "rereadLoop h d 0 w = None" using rereadLoop_ends by (metis not_None_eq zero_less_numeral)
  with False show ?thesis by simp
qed

section \<open>From the configuration to the sectors\<close>

lemma unat_MiB_mult: "unat ip * 2 ^ 20 = n \<Longrightarrow> n < 2 ^ 64 \<Longrightarrow> unat (ip * MiB) = n" for ip :: uint64
  by (simp add: MiB_def unat_word_ariths)

lemma alignSectorAddress_512:
  assumes "2048 dvd unat a" shows "alignSectorAddress a 512 512 = a"
proof -
  have "unat a mod 2048 = 0" "unat a mod 512 = 0"
    using assms dvd_trans [of 512 2048 "unat a"] by (auto simp: dvd_eq_mod_eq_0)
  then have "a mod 2048 = 0" "a mod 512 = 0" by (simp_all add: word_eq_iff_unsigned unat_mod_distrib flip: unat_eq_zero)
  then show ?thesis by (simp add: alignSectorAddress_def MiB_def)
qed

text \<open>The sectors that \<open>sfdisk\<close> is given describe the partition of the configuration.\<close>

definition described :: "Partition \<Rightarrow> imager_Partition \<Rightarrow> bool" where
  "described p ip \<longleftrightarrow>
     (case partitionSectors 512 512 ip primaryPartitionType of
        Inr (start, Some n) \<Rightarrow> unat start * 512 = pstart p \<and> unat n * 512 = pend p - pstart p
      | _ \<Rightarrow> False)"

lemma described_converted:
  assumes "converted p ip" "filled_part p"
  shows "described p ip"
proof -
  obtain s e where s: "unat (ipStart ip) = s" "unat (ipEnd ip) = e" by blast
  with assms have p: "pstart p = s * 2 ^ 20" "pend p = e * 2 ^ 20" "s < e"
    by (auto simp: converted_def filled_part_def)
  have lim: "pend p < 2 ^ 64" by (cases "partEnd p") (use unsigned_less [where ?'b = 64 and ?'a = nat] in \<open>simp_all add: pend_def\<close>)
  have m: "unat (ipStart ip * MiB) = s * 2 ^ 20" "unat (ipEnd ip * MiB) = e * 2 ^ 20"
    using s p lim by (auto intro!: unat_MiB_mult)
  have d: "unat (ipStart ip * MiB div 512) = s * 2048" "unat (ipEnd ip * MiB div 512) = e * 2048"
    by (simp_all add: unat_div_distrib m)
  let ?a = "ipStart ip * MiB div 512" and ?b = "ipEnd ip * MiB div 512"
  have al: "alignSectorAddress ?a 512 512 = ?a" by (rule alignSectorAddress_512) (simp add: d)
  have b1: "?b \<noteq> 0" "?b \<noteq> 1" using d(2) p(3) by (auto simp: unat_eq_zero)
  have pos: "?b - 1 > 0" using b1 by (simp add: word_neq_0_conv [symmetric])
  have "unat ?a < unat ?b" using d p(3) by simp
  then have n: "unat (?b - ?a) = (e - s) * 2048"
    using d by (subst unat_sub) (auto simp: word_le_nat_alt diff_mult_distrib)
  have le: "ipEnd ip \<noteq> 0 \<and> \<not> ipEnd ip \<le> ipStart ip" using s p(3) by (auto simp: word_le_nat_alt)
  have sz: "(e - s) * 2048 * 512 = e * 1048576 - s * 1048576" by (simp add: diff_mult_distrib)
  have MiB_512: "MiB div 512 \<noteq> 0" by (simp add: MiB_def)
  show ?thesis
    using le pos MiB_512 by (simp add: described_def partitionSectors_def al Let_def primaryPartitionType_def
        logicalPartitionType_def d n p sz)
qed

text \<open>C6. From the configuration to \<open>sfdisk\<close>. A disk of the configuration is accepted and has a GPT
  partition table, at most 127 partitions, an end only beside a start, configured sizes and offsets of at most
  \<open>2 ^ 56\<close> bytes, and partition and file system sizes that are multiples of 1 MiB. Then its conversion
  for the imager succeeds, and on a device whose sectors are 512 bytes the sectors of every partition are those of the
  laid-out disk: they start at the partition's first byte and are as many as it has bytes, divided by 512. The layout
  that validation proves ordered and free of overlaps is the one on the disk.\<close>

theorem accepted_disk_is_partitioned_as_laid_out:
  assumes "Disk_IsValid d = Inr d'" "list_all as_configured (Partitions d)"
    and "length (Partitions d) \<le> 127"
    and "\<forall>p \<in> set (Partitions d). partEnd p \<noteq> None \<longrightarrow> partStart p \<noteq> None"
    and "disk_aligned d" "PartitionTableType d' = PartitionTableTypeGpt"
    and "\<forall>f \<in> set fileSystems. mib_aligned (fsSize f)"
  shows "\<exists>disk. diskConfigToImager arch d' fileSystems = Inr disk
     \<and> list_all2 described (Partitions d') (idPartitions disk)
     \<and> sorted_wrt (\<lambda>a b. pend a \<le> pstart b) (Partitions d')"
proof -
  have l: "laid_out d'" using Disk_IsValid_laid_out_aux [OF assms(1-3)] assms(4) by blast
  then have f: "list_all filled_part (Partitions d')" "sorted_wrt (\<lambda>a b. pend a \<le> pstart b) (Partitions d')"
    by (auto simp: laid_out_def split: option.splits)
  from diskConfigToImager_total [OF l Disk_IsValid_aligned [OF assms(1,5)] assms(6,7)]
  obtain disk where c: "diskConfigToImager arch d' fileSystems = Inr disk"
    "list_all2 converted (Partitions d') (idPartitions disk)" by blast
  have "list_all2 described (Partitions d') (idPartitions disk)"
    using c(2) f(1) described_converted by (simp add: list_all2_conv_all_nth list_all_length)
  with c(1) f(2) show ?thesis by blast
qed

theorem accepted_disk_is_partitioned_as_laid_out_witness:
  "\<exists>disk. diskConfigToImager Map.empty example_disk_filled [] = Inr disk
     \<and> list_all2 described (Partitions example_disk_filled) (idPartitions disk)"
proof -
  have "list_all as_configured (Partitions example_disk)" "length (Partitions example_disk) \<le> 127"
    "\<forall>p \<in> set (Partitions example_disk). partEnd p \<noteq> None \<longrightarrow> partStart p \<noteq> None"
    "disk_aligned example_disk" "PartitionTableType example_disk_filled = PartitionTableTypeGpt"
    by (simp_all add: example_disk_def as_configured_def example_disk_filled_def PartitionTableTypeGpt_def
        disk_aligned_def part_aligned_def mib_aligned_def)
  then show ?thesis
    using accepted_disk_is_partitioned_as_laid_out [OF example_disk_valid, of "[]" Map.empty] by auto
qed

text \<open>On a device of 4096-byte physical sectors the alignment is to 4096 logical sectors, that is to 2 MiB, because a
  sector number is compared with a size in bytes: a partition of the configuration at 3 MiB starts at 4 MiB.\<close>

lemma physical_4096_moves_start: "alignSectorAddress 6144 512 4096 = 8192"
  by code_simp

lemma le_mult_self: "0 < k \<Longrightarrow> n \<le> n * k" for n k :: nat
  by (cases k) simp_all

text \<open>C37. The start of a partition is aligned upwards: the address is returned rounded up to a multiple of the physical
  sector size, unless it is below that size; then it is kept when it is a multiple of 1 MiB and becomes 0 otherwise.\<close>

theorem alignSectorAddress_rounds_up:
  assumes "0 < ps" "unat a + unat ps < 2 ^ 64" "0 < ls" "unat ls \<le> 2 ^ 20"
  shows "unat (alignSectorAddress a ls ps) =
     (if unat a < unat ps then (if unat a mod (2 ^ 20 div unat ls) = 0 then unat a else 0)
      else (unat a + unat ps - 1) div unat ps * unat ps)"
proof -
  let ?a = "unat a" and ?p = "unat ps"
  have p: "?p > 0" using assms(1) by (simp add: unat_gt_0)
  have z: "a mod (MiB div ls) = 0 \<longleftrightarrow> ?a mod (2 ^ 20 div unat ls) = 0"
    by (simp add: unat_mod_distrib unat_div_distrib MiB_def flip: unat_eq_zero)
  have z': "a mod ps = 0 \<longleftrightarrow> ?a mod ?p = 0" by (simp add: unat_mod_distrib flip: unat_eq_zero)
  have up: "(?a + ?p - 1) div ?p = (if ?a mod ?p = 0 then ?a div ?p else ?a div ?p + 1)"
  proof -
    have "?a = ?a div ?p * ?p + ?a mod ?p" by simp
    then have e: "?a + ?p - 1 = (?a mod ?p + ?p - 1) + ?a div ?p * ?p" using p by linarith
    have "(?a + ?p - 1) div ?p = ?a div ?p + (?a mod ?p + ?p - 1) div ?p" using p by (subst e) (simp only: div_mult_self1 not_gr_zero [symmetric] not_not)
    moreover have "(?a mod ?p + ?p - 1) div ?p = (if ?a mod ?p = 0 then 0 else 1)"
    proof (cases "?a mod ?p = 0")
      case False
      then obtain r where r: "?a mod ?p = Suc r" using not0_implies_Suc by blast
      with p mod_less_divisor [OF p, of ?a] have "(r + ?p) div ?p = 1" by (subst div_add_self2) simp_all
      with r show ?thesis by simp
    qed (use p in simp)
    ultimately show ?thesis by simp
  qed
  have q: "(?a div ?p + 1) * ?p \<le> ?a + ?p" by (simp add: add_mult_distrib)
  have "unat ((a div ps + 1) * ps) = (?a div ?p + 1) * ?p" if "\<not> ?a mod ?p = 0"
  proof -
    have "?a div ?p + 1 \<le> (?a div ?p + 1) * ?p" by (rule le_mult_self) (use p in simp)
    then have "?a div ?p + 1 < 2 ^ 64" using q assms(2) by linarith
    then have e: "unat (a div ps + 1) = ?a div ?p + 1" by (simp add: unat_word_ariths unat_div_distrib)
    have "(?a div ?p + 1) * ?p mod 2 ^ 64 = (?a div ?p + 1) * ?p" using q assms(2) by (intro mod_less) linarith
    then show ?thesis by (simp only: unat_word_ariths(2) e) simp
  qed
  with z z' up show ?thesis
    by (auto simp: alignSectorAddress_def word_less_nat_alt mod_eq_0_iff_dvd)
qed

theorem alignSectorAddress_rounds_up_witness:
  "unat (alignSectorAddress 6144 512 4096) = 8192 \<and> unat (alignSectorAddress 2048 512 4096) = 2048"
  using alignSectorAddress_rounds_up [of 4096 6144 512] alignSectorAddress_rounds_up [of 4096 2048 512] by simp

end
