(* ===== verification/VerityDevices.thy ===== *)
theory VerityDevices
  imports DiskUtils GrubCfg DefaultGrub Storage
begin

text \<open>
  \<open>pkg/imagecustomizerlib/customizeverity.go\<close>, \<open>veritytypes.go\<close>, \<open>shrinkfilesystems.go\<close> and the verity part of
  \<open>partitionutils.go\<close>: the record of a verity device, collected from the configuration or read back from the kernel
  command line of an image; the kernel arguments that describe it to systemd; formatting the hash partition; shrinking
  the file systems and with them the partitions.
\<close>

section \<open>Verity devices\<close>

definition VerityRootDeviceName :: string where "VerityRootDeviceName = ''root''"
definition VerityUsrDeviceName :: string where "VerityUsrDeviceName = ''usr''"
definition DeviceMapperPath :: string where "DeviceMapperPath = ''/dev/mapper''"
definition VerityRootDevicePath :: string where "VerityRootDevicePath = DeviceMapperPath @ ''/'' @ VerityRootDeviceName"
definition VerityUsrDevicePath :: string where "VerityUsrDevicePath = DeviceMapperPath @ ''/'' @ VerityUsrDeviceName"

definition CorruptionOptionDefault :: string where "CorruptionOptionDefault = ''''"
definition CorruptionOptionIoError :: string where "CorruptionOptionIoError = ''io-error''"
definition CorruptionOptionIgnore :: string where "CorruptionOptionIgnore = ''ignore''"
definition CorruptionOptionPanic :: string where "CorruptionOptionPanic = ''panic''"
definition CorruptionOptionRestart :: string where "CorruptionOptionRestart = ''restart''"

lemmas corruption_defs = CorruptionOptionDefault_def CorruptionOptionIoError_def CorruptionOptionIgnore_def
  CorruptionOptionPanic_def CorruptionOptionRestart_def

record verityFormatSettings =
  vfHashAlgorithm :: string
  vfDataBlockSizeBytes :: uint32
  vfHashBlockSizeBytes :: uint32
  vfDataSizeBytes :: uint64
  vfHashOffsetBytes :: uint64

definition IsInlineVerity :: "verityFormatSettings \<Rightarrow> bool" where
  "IsInlineVerity s \<longleftrightarrow> vfHashOffsetBytes s \<noteq> 0"

record verityDeviceMetadata =
  vdName :: string
  vdRootHash :: string
  vdDataPartUuid :: string
  vdHashPartUuid :: string
  vdDataDeviceMountIdType :: MountIdentifierType
  vdHashDeviceMountIdType :: MountIdentifierType
  vdCorruptionOption :: string
  vdHashSignaturePath :: string
  vdFormatSettings :: verityFormatSettings

datatype verity_device_error =
    UnsupportedVerityDevice string | InvalidMountIdType string | InvalidCorruption string
  | VerityLookup lookup_error | HashOffsetInvalid num_error | UnknownVerityOption string
  | NoPartitionWithDeviceId string | IdentifiedNotFound string string | NoDeviceOrPartitionId
  | FindDataPartition string verity_device_error | FindHashPartition string verity_device_error | NilVerityMount
  | PartitionInUseAsData string | PartitionInUseAsHash string | DataFstabEntryNotFound string | HashHasFstabEntry string
  | HashHasFileSystem string | NilIdentifiedPartition | VerityMountsInvalid storage_error
  | VerityArgumentMissing string | KernelArgument grub_cfg_error | SuperblockError VerityUtils.verity_error
  | GrubCfgMissing | GrubCfgNotRead | VerityDisk disk_op_error | UnalignedVerityDataSize string
  | CalculateRootHash disk_op_error | RootHashNotFound | HashSizeError VerityUtils.verity_error
  | Resize2fsOutput string | BlockNumber num_error | UnrecognizedUnit string | Tune2fsOutput string | VerityDivisionByZero

section \<open>The fstab of an image with verity\<close>

fun replaceFirstSubvol :: "string \<Rightarrow> string list \<Rightarrow> string list option" where
  "replaceFirstSubvol opt [] = None"
| "replaceFirstSubvol opt (o' # os) =
     (if HasPrefix o' ''subvol='' then Some (opt # os) else map_option ((#) o') (replaceFirstSubvol opt os))"

definition updateSubvolOption :: "string \<Rightarrow> string \<Rightarrow> string" where
  "updateSubvolOption options subvolPath =
     (let subvolOpt = ''subvol=/'' @ subvolPath in
      if options = [] then subvolOpt
      else
        let optionsList = Split options CHR '','' in
        join '','' (case replaceFirstSubvol subvolOpt optionsList of Some os \<Rightarrow> os | None \<Rightarrow> optionsList @ [subvolOpt]))"

definition extractSubvolPath :: "string \<Rightarrow> string" where
  "extractSubvolPath options =
     (if options = [] then []
      else
        (case FindValueFunc (Split options CHR '','') (\<lambda>opt. HasPrefix opt ''subvol='') of
           None \<Rightarrow> []
         | Some opt \<Rightarrow> TrimPrefix (path_Clean (TrimPrefix opt ''subvol='')) ''/''))"

definition verityDevicePathFromName :: "string \<Rightarrow> string" where
  "verityDevicePathFromName name = DeviceMapperPath @ ''/'' @ name"

definition verityDevicePath :: "Verity \<Rightarrow> string" where
  "verityDevicePath v = verityDevicePathFromName (verityName v)"

text \<open>One verity device on one entry; the dereference of the device's mount is guarded by the caller.\<close>

definition updateFstabEntry :: "Verity \<Rightarrow> VerityMount \<Rightarrow> FstabEntry \<Rightarrow> FstabEntry" where
  "updateFstabEntry v mount e =
     (if feTarget e = MountPath mount
      then e\<lparr>feSource := verityDevicePath v,
             feOptions := (if SubvolumePath mount \<noteq> [] then updateSubvolOption (feOptions e) (SubvolumePath mount)
                           else feOptions e)\<rparr>
      else e)"

fun updateFstabEntries :: "Verity list \<Rightarrow> FstabEntry list \<Rightarrow> verity_device_error + FstabEntry list" where
  "updateFstabEntries [] es = Inr es"
| "updateFstabEntries (v # vs) es =
     (case verityMount v of
        None \<Rightarrow> if es = [] then updateFstabEntries vs es else Inl NilVerityMount
      | Some mount \<Rightarrow> updateFstabEntries vs (map (updateFstabEntry v mount) es))"

section \<open>Kernel arguments\<close>

definition systemdFormatPartitionUuid ::
  "string \<Rightarrow> MountIdentifierType \<Rightarrow> PartitionInfo list \<Rightarrow> verity_device_error + string" where
  "systemdFormatPartitionUuid partUuid mountIdType partitions =
     (case findPartition MountIdentifierTypePartUuid partUuid partitions of
        Inl e \<Rightarrow> Inl (VerityLookup e)
      | Inr (p, _) \<Rightarrow>
          if mountIdType = MountIdentifierTypePartLabel then Inr (''PARTLABEL='' @ piPartLabel p)
          else if mountIdType = MountIdentifierTypeUuid then Inr (''UUID='' @ piUuid p)
          else if mountIdType \<in> set [MountIdentifierTypePartUuid, MountIdentifierTypeDefault]
          then Inr (''PARTUUID='' @ piPartUuid p)
          else Inl (InvalidMountIdType mountIdType))"

definition SystemdFormatCorruptionOption :: "string \<Rightarrow> verity_device_error + string" where
  "SystemdFormatCorruptionOption c =
     (if c \<in> set [CorruptionOptionDefault, CorruptionOptionIoError] then Inr []
      else if c = CorruptionOptionIgnore then Inr ''ignore-corruption''
      else if c = CorruptionOptionPanic then Inr ''panic-on-corruption''
      else if c = CorruptionOptionRestart then Inr ''restart-on-corruption''
      else Inl (InvalidCorruption c))"

text \<open>The names of the arguments of a device: root hash, data device, hash device, options.\<close>

definition verityArgNames :: "string \<Rightarrow> verity_device_error + (string \<times> string \<times> string \<times> string)" where
  "verityArgNames name =
     (if name = VerityRootDeviceName
      then Inr (''roothash'', ''systemd.verity_root_data'', ''systemd.verity_root_hash'', ''systemd.verity_root_options'')
      else if name = VerityUsrDeviceName
      then Inr (''usrhash'', ''systemd.verity_usr_data'', ''systemd.verity_usr_hash'', ''systemd.verity_usr_options'')
      else Inl (UnsupportedVerityDevice name))"

definition verityOptions :: "verityDeviceMetadata \<Rightarrow> string \<Rightarrow> string" where
  "verityOptions m formattedCorruptionOption =
     formattedCorruptionOption
     @ (if vdHashSignaturePath m \<noteq> [] then '',root-hash-signature='' @ vdHashSignaturePath m else [])
     @ (if vfHashOffsetBytes (vdFormatSettings m) \<noteq> 0
        then '',hash-offset='' @ nat_dec (unat (vfHashOffsetBytes (vdFormatSettings m))) else [])"

definition verityDeviceArgs :: "PartitionInfo list \<Rightarrow> verityDeviceMetadata \<Rightarrow> verity_device_error + string list" where
  "verityDeviceArgs partitions m =
     (case verityArgNames (vdName m) of
        Inl e \<Rightarrow> Inl e
      | Inr (hashArg, dataArg, hashKey, optionsArg) \<Rightarrow>
          (case systemdFormatPartitionUuid (vdDataPartUuid m) (vdDataDeviceMountIdType m) partitions of
             Inl e \<Rightarrow> Inl e
           | Inr formattedDataPartition \<Rightarrow>
               (case systemdFormatPartitionUuid (vdHashPartUuid m) (vdHashDeviceMountIdType m) partitions of
                  Inl e \<Rightarrow> Inl e
                | Inr formattedHashPartition \<Rightarrow>
                    (case SystemdFormatCorruptionOption (vdCorruptionOption m) of
                       Inl e \<Rightarrow> Inl e
                     | Inr formattedCorruptionOption \<Rightarrow>
                         Inr [hashArg @ ''='' @ vdRootHash m, dataArg @ ''='' @ formattedDataPartition,
                              hashKey @ ''='' @ formattedHashPartition,
                              optionsArg @ ''='' @ verityOptions m formattedCorruptionOption]))))"

fun verityDevicesArgs :: "PartitionInfo list \<Rightarrow> verityDeviceMetadata list \<Rightarrow> verity_device_error + string list" where
  "verityDevicesArgs partitions [] = Inr []"
| "verityDevicesArgs partitions (m # ms) =
     (case verityDeviceArgs partitions m of
        Inl e \<Rightarrow> Inl e
      | Inr args \<Rightarrow> map_sum id ((@) args) (verityDevicesArgs partitions ms))"

definition constructVerityKernelCmdlineArgs ::
  "verityDeviceMetadata list \<Rightarrow> PartitionInfo list \<Rightarrow> string \<Rightarrow> verity_device_error + string list" where
  "constructVerityKernelCmdlineArgs verityMetadata partitions bootUuid =
     (case verityDevicesArgs partitions verityMetadata of
        Inl e \<Rightarrow> Inl e
      | Inr args \<Rightarrow>
          Inr (''rd.systemd.verity=1'' # args
               @ (if list_ex (\<lambda>m. vdHashSignaturePath m \<noteq> []) verityMetadata
                  then [''pre.verity.mount='' @ bootUuid] else [])))"

definition verityKernelArgsToRemove :: "string list" where
  "verityKernelArgsToRemove =
     [''rd.systemd.verity'', ''roothash'', ''systemd.verity_root_data'', ''systemd.verity_root_hash'',
      ''systemd.verity_root_options'', ''usrhash'', ''systemd.verity_usr_data'', ''systemd.verity_usr_hash'',
      ''systemd.verity_usr_options'']"

text \<open>The new text of \<open>grub.cfg\<close>; \<open>None\<close> is a file that is missing, \<open>Some None\<close> one that cannot be read.\<close>

definition updateGrubConfigForVerity ::
  "verityDeviceMetadata list \<Rightarrow> string option option \<Rightarrow> PartitionInfo list \<Rightarrow> string \<Rightarrow> verity_device_error + string" where
  "updateGrubConfigForVerity verityMetadata grubCfg partitions bootUuid =
     (case grubCfg of
        None \<Rightarrow> Inl GrubCfgMissing
      | Some content \<Rightarrow>
          (case constructVerityKernelCmdlineArgs verityMetadata partitions bootUuid of
             Inl e \<Rightarrow> Inl e
           | Inr newArgs \<Rightarrow>
          (case content of
             None \<Rightarrow> Inl GrubCfgNotRead
           | Some grub2Config \<Rightarrow>
               (case updateKernelCommandLineArgsAll grub2Config verityKernelArgsToRemove newArgs of
                  Inl e \<Rightarrow> Inl (KernelArgument e)
                | Inr grub2Config1 \<Rightarrow>
                    if ContainsFunc verityMetadata (\<lambda>m. vdName m = VerityRootDeviceName)
                    then map_sum KernelArgument id
                           (if isGrubMkconfigConfig grub2Config
                            then updateKernelCommandLineArgsAll grub2Config1 [''root''] [''root='' @ VerityRootDevicePath]
                            else replaceSetCommandValue grub2Config1 ''rootdevice'' VerityRootDevicePath)
                    else Inr grub2Config1))))"

section \<open>Reading them back\<close>

fun verityOptionsLoop ::
  "string \<times> string \<times> uint64 \<Rightarrow> string list \<Rightarrow> verity_device_error + (string \<times> string \<times> uint64)" where
  "verityOptionsLoop r [] = Inr r"
| "verityOptionsLoop (corruptionOption, hashSigPath, hashOffset) (opt # opts) =
     (if opt = [] then verityOptionsLoop (corruptionOption, hashSigPath, hashOffset) opts
      else if opt = ''ignore-corruption'' then verityOptionsLoop (CorruptionOptionIgnore, hashSigPath, hashOffset) opts
      else if opt = ''panic-on-corruption'' then verityOptionsLoop (CorruptionOptionPanic, hashSigPath, hashOffset) opts
      else if opt = ''restart-on-corruption'' then verityOptionsLoop (CorruptionOptionRestart, hashSigPath, hashOffset) opts
      else if HasPrefix opt ''root-hash-signature=''
      then verityOptionsLoop (corruptionOption, TrimPrefix opt ''root-hash-signature='', hashOffset) opts
      else if HasPrefix opt ''hash-offset=''
      then (case ParseUint (TrimPrefix opt ''hash-offset='') 10 64 of
              Inl e \<Rightarrow> Inl (HashOffsetInvalid e)
            | Inr n \<Rightarrow> verityOptionsLoop (corruptionOption, hashSigPath, of_nat n) opts)
      else Inl (UnknownVerityOption opt))"

definition parseSystemdVerityOptions :: "string \<Rightarrow> verity_device_error + (string \<times> string \<times> uint64)" where
  "parseSystemdVerityOptions options = verityOptionsLoop (CorruptionOptionIoError, [], 0) (Split options CHR '','')"

definition extractVerityPartitionId ::
  "grubConfigLinuxArg list \<Rightarrow> string \<Rightarrow> verity_device_error + (MountIdentifierType \<times> string)" where
  "extractVerityPartitionId cmdline verityDataArg =
     (case findKernelCommandLineArgValue cmdline verityDataArg of
        Inl e \<Rightarrow> Inl (KernelArgument e)
      | Inr identifier \<Rightarrow>
          if identifier = [] then Inl (VerityArgumentMissing verityDataArg)
          else map_sum VerityLookup id (parseSourcePartition identifier))"

text \<open>The contents of the partitions' device nodes are an argument.\<close>

definition findVerityPartitionsFromCmdline ::
  "(string \<Rightarrow> string option) \<Rightarrow> PartitionInfo list \<Rightarrow> grubConfigLinuxArg list \<Rightarrow> string \<Rightarrow> string \<Rightarrow> string \<Rightarrow> string \<Rightarrow> string \<Rightarrow>
   verity_device_error + (PartitionInfo \<times> nat \<times> verityDeviceMetadata)" where
  "findVerityPartitionsFromCmdline content partitions cmdline dataArg hashDeviceArg hashArg optionsArg name =
     (case extractVerityPartitionId cmdline dataArg of
        Inl e \<Rightarrow> Inl e
      | Inr (dataIdType, dataId) \<Rightarrow>
      (case extractVerityPartitionId cmdline hashDeviceArg of
        Inl e \<Rightarrow> Inl e
      | Inr (hashIdType, hashId) \<Rightarrow>
      (case findPartitionHelper dataIdType dataId partitions of
        Inl e \<Rightarrow> Inl (VerityLookup e)
      | Inr (dataPartition, dataPartitionIndex) \<Rightarrow>
      (case findPartitionHelper hashIdType hashId partitions of
        Inl e \<Rightarrow> Inl (VerityLookup e)
      | Inr (hashPartition, _) \<Rightarrow>
      (case findKernelCommandLineArgValue cmdline hashArg of
        Inl e \<Rightarrow> Inl (KernelArgument e)
      | Inr hash \<Rightarrow>
      (case findKernelCommandLineArgValue cmdline optionsArg of
        Inl e \<Rightarrow> Inl (KernelArgument e)
      | Inr options \<Rightarrow>
      (case parseSystemdVerityOptions options of
        Inl e \<Rightarrow> Inl e
      | Inr (corruptionOption, hashSigPath, hashOffset) \<Rightarrow>
      (case ReadVeritySuperblock (content (piPath hashPartition)) hashOffset of
        Inl e \<Rightarrow> Inl (SuperblockError e)
      | Inr sb \<Rightarrow>
          Inr (dataPartition, dataPartitionIndex,
            \<lparr>vdName = name, vdRootHash = hash, vdDataPartUuid = piPartUuid dataPartition,
             vdHashPartUuid = piPartUuid hashPartition, vdDataDeviceMountIdType = dataIdType,
             vdHashDeviceMountIdType = hashIdType, vdCorruptionOption = corruptionOption,
             vdHashSignaturePath = hashSigPath,
             vdFormatSettings =
               \<lparr>vfHashAlgorithm = GetAlgorithm sb, vfDataBlockSizeBytes = DataBlockSize sb,
                vfHashBlockSizeBytes = HashBlockSize sb,
                vfDataSizeBytes = DataBlocks sb * ucast (DataBlockSize sb), vfHashOffsetBytes = hashOffset\<rparr>\<rparr>)))))))))"

section \<open>The devices of the configuration\<close>

definition identified_matches :: "IdentifiedPartition \<Rightarrow> PartitionInfo \<Rightarrow> bool" where
  "identified_matches ref p \<longleftrightarrow> (ipIdType ref = IdentifiedPartitionTypePartLabel \<and> piPartLabel p = ipId ref)"

definition findIdentifiedPartition :: "PartitionInfo list \<Rightarrow> IdentifiedPartition \<Rightarrow> verity_device_error + PartitionInfo" where
  "findIdentifiedPartition partitions ref =
     (case FindValueFunc partitions (identified_matches ref) of
        None \<Rightarrow> Inl (IdentifiedNotFound (ipIdType ref) (ipId ref))
      | Some p \<Rightarrow> Inr p)"

text \<open>A device id that the map does not have reads as the empty PARTUUID.\<close>

definition verityIdToPartition ::
  "string \<Rightarrow> IdentifiedPartition option \<Rightarrow> (string \<rightharpoonup> string) \<Rightarrow> PartitionInfo list \<Rightarrow> verity_device_error + PartitionInfo" where
  "verityIdToPartition configDeviceId deviceId partIdToPartUuid diskPartitions =
     (if configDeviceId \<noteq> []
      then
        let partUuid = (case partIdToPartUuid configDeviceId of None \<Rightarrow> [] | Some u \<Rightarrow> u) in
        (case FindValueFunc diskPartitions (\<lambda>p. piPartUuid p = partUuid) of
           None \<Rightarrow> Inl (NoPartitionWithDeviceId configDeviceId)
         | Some p \<Rightarrow> Inr p)
      else
        (case deviceId of
           Some ref \<Rightarrow> findIdentifiedPartition diskPartitions ref
         | None \<Rightarrow> Inl NoDeviceOrPartitionId))"

definition verityMetadataOf ::
  "PartitionInfo list \<Rightarrow> (string \<rightharpoonup> string) \<Rightarrow> Verity \<Rightarrow> verity_device_error + verityDeviceMetadata" where
  "verityMetadataOf diskPartitions partIdToPartUuid v =
     (case verityIdToPartition (DataDeviceId v) (DataDevice v) partIdToPartUuid diskPartitions of
        Inl e \<Rightarrow> Inl (FindDataPartition (verityId v) e)
      | Inr dataPartition \<Rightarrow>
          (case (if InlineVerity v
                 then (case verityMount v of None \<Rightarrow> Inl NilVerityMount | Some mount \<Rightarrow> Inr (dataPartition, DataSize mount))
                 else (case verityIdToPartition (HashDeviceId v) (HashDevice v) partIdToPartUuid diskPartitions of
                         Inl e \<Rightarrow> Inl (FindHashPartition (verityId v) e)
                       | Inr hashPartition \<Rightarrow> Inr (hashPartition, 0))) of
             Inl e \<Rightarrow> Inl e
           | Inr (hashPartition, dataSize) \<Rightarrow>
               Inr \<lparr>vdName = verityName v, vdRootHash = [], vdDataPartUuid = piPartUuid dataPartition,
                    vdHashPartUuid = piPartUuid hashPartition,
                    vdDataDeviceMountIdType = DataDeviceMountIdType v,
                    vdHashDeviceMountIdType = HashDeviceMountIdType v,
                    vdCorruptionOption = CorruptionOption v, vdHashSignaturePath = HashSignaturePath v,
                    vdFormatSettings =
                      \<lparr>vfHashAlgorithm = DefaultVerityHashAlgorithm, vfDataBlockSizeBytes = DefaultVerityDataBlockSize,
                       vfHashBlockSizeBytes = DefaultVerityHashBlockSize, vfDataSizeBytes = dataSize,
                       vfHashOffsetBytes = dataSize\<rparr>\<rparr>))"

fun collectVerityMetadata ::
  "Verity list \<Rightarrow> PartitionInfo list \<Rightarrow> (string \<rightharpoonup> string) \<Rightarrow> verity_device_error + verityDeviceMetadata list" where
  "collectVerityMetadata [] diskPartitions partIdToPartUuid = Inr []"
| "collectVerityMetadata (v # vs) diskPartitions partIdToPartUuid =
     (case verityMetadataOf diskPartitions partIdToPartUuid v of
        Inl e \<Rightarrow> Inl e
      | Inr m \<Rightarrow> map_sum id ((#) m) (collectVerityMetadata vs diskPartitions partIdToPartUuid))"

fun ensurePartitionNotAlreadyInUse :: "string \<Rightarrow> verityDeviceMetadata list \<Rightarrow> verity_device_error option" where
  "ensurePartitionNotAlreadyInUse partUuid [] = None"
| "ensurePartitionNotAlreadyInUse partUuid (m # ms) =
     (if partUuid = vdDataPartUuid m then Some (PartitionInUseAsData (vdName m))
      else if partUuid = vdHashPartUuid m then Some (PartitionInUseAsHash (vdName m))
      else ensurePartitionNotAlreadyInUse partUuid ms)"

definition layoutEntryOf :: "fstabEntryPartNum list \<Rightarrow> PartitionInfo \<Rightarrow> fstabEntryPartNum option" where
  "layoutEntryOf partitionsLayout p =
     FindValueFunc partitionsLayout (\<lambda>e. fpPartUuid e \<noteq> [] \<and> fpPartUuid e = piPartUuid p)"

text \<open>One device of \<open>validateVerityMountPaths\<close>: it gets the mount of the entry of its data partition.\<close>

definition validateVerityMountPath ::
  "PartitionInfo list \<Rightarrow> fstabEntryPartNum list \<Rightarrow> verityDeviceMetadata list \<Rightarrow> Verity \<Rightarrow> verity_device_error + Verity" where
  "validateVerityMountPath partitions partitionsLayout baseMetadata v =
     (case (DataDevice v, HashDevice v) of
        (Some dataRef, Some hashRef) \<Rightarrow>
          (case findIdentifiedPartition partitions dataRef of
             Inl e \<Rightarrow> Inl (FindDataPartition (verityId v) e)
           | Inr dataPartition \<Rightarrow>
          (case findIdentifiedPartition partitions hashRef of
             Inl e \<Rightarrow> Inl (FindHashPartition (verityId v) e)
           | Inr hashPartition \<Rightarrow>
          (case ensurePartitionNotAlreadyInUse (piPartUuid dataPartition) baseMetadata of
             Some e \<Rightarrow> Inl e
           | None \<Rightarrow>
          (case ensurePartitionNotAlreadyInUse (piPartUuid hashPartition) baseMetadata of
             Some e \<Rightarrow> Inl e
           | None \<Rightarrow>
          (case layoutEntryOf partitionsLayout dataPartition of
             None \<Rightarrow> Inl (DataFstabEntryNotFound (verityId v))
           | Some dataEntry \<Rightarrow>
               if layoutEntryOf partitionsLayout hashPartition \<noteq> None then Inl (HashHasFstabEntry (verityId v))
               else if piFileSystemType hashPartition \<noteq> [] then Inl (HashHasFileSystem (verityId v))
               else
                 Inr (v\<lparr>verityMount := Some \<lparr>MountPath = feTarget (fpEntry dataEntry),
                          vmMountOptions = feOptions (fpEntry dataEntry),
                          SubvolumePath = extractSubvolPath (feOptions (fpEntry dataEntry)), DataSize = 0\<rparr>\<rparr>))))))
      | (Some dataRef, None) \<Rightarrow>
          (case findIdentifiedPartition partitions dataRef of
             Inl e \<Rightarrow> Inl (FindDataPartition (verityId v) e)
           | Inr _ \<Rightarrow> Inl NilIdentifiedPartition)
      | (None, _) \<Rightarrow> Inl NilIdentifiedPartition)"

fun validateVerityMountPathsLoop ::
  "PartitionInfo list \<Rightarrow> fstabEntryPartNum list \<Rightarrow> verityDeviceMetadata list \<Rightarrow> Verity list \<Rightarrow> verity_device_error + Verity list" where
  "validateVerityMountPathsLoop partitions partitionsLayout baseMetadata [] = Inr []"
| "validateVerityMountPathsLoop partitions partitionsLayout baseMetadata (v # vs) =
     (case validateVerityMountPath partitions partitionsLayout baseMetadata v of
        Inl e \<Rightarrow> Inl e
      | Inr v' \<Rightarrow> map_sum id ((#) v') (validateVerityMountPathsLoop partitions partitionsLayout baseMetadata vs))"

text \<open>The storage with its verity devices' mounts filled in. The disk's partitions are read by the caller's action.\<close>

definition validateVerityMountPaths ::
  "PartitionInfo list \<Rightarrow> Storage \<Rightarrow> fstabEntryPartNum list \<Rightarrow> verityDeviceMetadata list \<Rightarrow> verity_device_error + Storage" where
  "validateVerityMountPaths partitions storage partitionsLayout baseMetadata =
     (if sVerityPartitionsType storage \<noteq> VerityPartitionsUsesExisting then Inr storage
      else
        (case validateVerityMountPathsLoop partitions partitionsLayout baseMetadata (sVerity storage) of
           Inl e \<Rightarrow> Inl e
         | Inr vs \<Rightarrow>
             (case ValidateVerityMounts vs of
                Some e \<Rightarrow> Inl (VerityMountsInvalid e)
              | None \<Rightarrow> Inr (storage\<lparr>sVerity := vs\<rparr>))))"

definition getVerityNames :: "verityDeviceMetadata list \<Rightarrow> string list" where
  "getVerityNames ms = map vdName ms"

section \<open>Shrinking\<close>

text \<open>\<open>addVeritySuffixSize\<close>: the size of the partition and the devices with the sizes of the inline verity footer
  stored. \<open>None\<close> is a hash size computation that does not return.\<close>

definition addVeritySuffixSize ::
  "uint64 \<Rightarrow> verityDeviceMetadata list \<Rightarrow> PartitionInfo \<Rightarrow>
   (verity_device_error + (uint64 \<times> verityDeviceMetadata list)) option" where
  "addVeritySuffixSize fileSystemSizeInBytes verityMetadata diskPartition =
     (case find (\<lambda>i. vdDataPartUuid (verityMetadata ! i) = piPartUuid diskPartition) [0..<length verityMetadata] of
        None \<Rightarrow> Some (Inr (fileSystemSizeInBytes, verityMetadata))
      | Some verityIndex \<Rightarrow>
          let m = verityMetadata ! verityIndex; s = vdFormatSettings m in
          if \<not> IsInlineVerity s then Some (Inr (fileSystemSizeInBytes, verityMetadata))
          else if vfDataBlockSizeBytes s = 0 then Some (Inl VerityDivisionByZero)
          else
            let dataBlocks = DivRoundUp fileSystemSizeInBytes (ucast (vfDataBlockSizeBytes s)) in
            (case CalculateHashSizeInBytes dataBlocks (vfHashBlockSizeBytes s) (vfHashAlgorithm s) of
               None \<Rightarrow> None
             | Some (Inl e) \<Rightarrow> Some (Inl (HashSizeError e))
             | Some (Inr veritySizeInBytes) \<Rightarrow>
                 let dataSizeInBytes = dataBlocks * ucast (vfDataBlockSizeBytes s) in
                 Some (Inr (dataSizeInBytes + veritySizeInBytes,
                   verityMetadata[verityIndex := m\<lparr>vdFormatSettings :=
                     s\<lparr>vfDataSizeBytes := dataSizeInBytes, vfHashOffsetBytes := dataSizeInBytes\<rparr>\<rparr>]))))"

text \<open>\<open>to (\d+) \((\d+)([a-zA-Z])\)\<close> at the head of a text.\<close>

definition resizedTo_at :: "string \<Rightarrow> (string \<times> string \<times> char) option" where
  "resizedTo_at s =
     (if \<not> HasPrefix s ''to '' then None
      else
        let s1 = drop 3 s; count = takeWhile is_digit s1; s2 = dropWhile is_digit s1 in
        if count = [] \<or> \<not> HasPrefix s2 '' ('' then None
        else
          let s3 = drop 2 s2; mult = takeWhile is_digit s3; s4 = dropWhile is_digit s3 in
          (case s4 of
             c # d # _ \<Rightarrow> if mult \<noteq> [] \<and> is_letter c \<and> d = CHR '')'' then Some (count, mult, c) else None
           | _ \<Rightarrow> None))"

text \<open>\<open>.*\<close> before it is greedy and stays on a line: the last place of the first line that has one.\<close>

definition resizedTo_match :: "string \<Rightarrow> (string \<times> string \<times> char) option" where
  "resizedTo_match s =
     (let found = List.map_filter (\<lambda>l. let ms = List.map_filter resizedTo_at (suffixes l)
                                       in if ms = [] then None else Some (last ms)) (Split s (CHR 0x0A))
      in if found = [] then None else Some (hd found))"

definition getExt4FileSystemSizeInBytes :: "string \<Rightarrow> string \<Rightarrow> verity_device_error + uint64" where
  "getExt4FileSystemSizeInBytes resize2fsStdout resize2fsStderr =
     (if ContainsStr resize2fsStderr ''Nothing to do!'' then Inr 0
      else
        (case resizedTo_match resize2fsStdout of
           None \<Rightarrow> Inl (Resize2fsOutput resize2fsStdout)
         | Some (count, mult, unit) \<Rightarrow>
             (case ParseUint count 10 64 of
                Inl e \<Rightarrow> Inl (BlockNumber e)
              | Inr blockCount \<Rightarrow>
                  (case ParseUint mult 10 64 of
                     Inl e \<Rightarrow> Inl (BlockNumber e)
                   | Inr multiplier \<Rightarrow>
                       if unit = CHR ''k'' then Inr (of_nat blockCount * (of_nat multiplier * KiB))
                       else Inl (UnrecognizedUnit [unit])))))"

text \<open>\<open>(?m)^name\s+(\d+)\<close>; the first argument says whether a line begins.\<close>

fun lineNumber :: "bool \<Rightarrow> string \<Rightarrow> string \<Rightarrow> string option" where
  "lineNumber bol name [] = None"
| "lineNumber bol name (c # cs) =
     (let rest = drop (length name) (c # cs); digits = takeWhile is_digit (dropWhile is_re_space rest) in
      if bol \<and> HasPrefix (c # cs) name \<and> takeWhile is_re_space rest \<noteq> [] \<and> digits \<noteq> [] then Some digits
      else lineNumber (c = CHR 0x0A) name cs)"

definition parseTune2fs :: "string \<Rightarrow> verity_device_error + uint64" where
  "parseTune2fs out =
     (case lineNumber True ''Block count:'' out of
        None \<Rightarrow> Inl (Tune2fsOutput ''Block count'')
      | Some count \<Rightarrow>
          (case ParseUint count 10 64 of
             Inl e \<Rightarrow> Inl (BlockNumber e)
           | Inr blockCount \<Rightarrow>
               (case lineNumber True ''Block size:'' out of
                  None \<Rightarrow> Inl (Tune2fsOutput ''Block size'')
                | Some sz \<Rightarrow>
                    (case ParseUint sz 10 64 of
                       Inl e \<Rightarrow> Inl (BlockNumber e)
                     | Inr blockSize \<Rightarrow> Inr (of_nat blockCount * of_nat blockSize)))))"

definition execV :: "('w, 'x) host_scheme \<Rightarrow> string list \<Rightarrow> string \<Rightarrow> ('w, verity_device_error, string \<times> string) act" where
  "execV h args stdin = mapErrE VerityDisk (execD h args stdin)"

definition getExtFilesystemSize :: "('w, 'x) host_scheme \<Rightarrow> string \<Rightarrow> ('w, verity_device_error, uint64) act" where
  "getExtFilesystemSize h partitionDevice =
     bindE (execV h [''tune2fs'', ''-l'', partitionDevice] []) (\<lambda>(out, _). liftE (parseTune2fs out))"

definition extFilesystemCoversPartition ::
  "('w, 'x) host_scheme \<Rightarrow> string \<Rightarrow> uint64 \<Rightarrow> ('w, verity_device_error, bool) act" where
  "extFilesystemCoversPartition h partitionDevice partitionSizeInBytes =
     bindE (getExtFilesystemSize h partitionDevice) (\<lambda>sz. returnE (sz = partitionSizeInBytes))"

definition shrinkExt4FileSystem ::
  "('w, 'x) host_scheme \<Rightarrow> string \<Rightarrow> string \<Rightarrow> ('w, verity_device_error, uint64) act" where
  "shrinkExt4FileSystem h partitionDevice diskDevice =
     bindE (execV h [''e2fsck'', ''-fy'', partitionDevice] []) (\<lambda>_.
       bindE (execV h (flock diskDevice [''resize2fs'', ''-M'', partitionDevice]) [])
         (\<lambda>(out, err). liftE (getExt4FileSystemSizeInBytes out err)))"

definition resizePartition ::
  "('w, 'x) disk_host_scheme \<Rightarrow> string \<Rightarrow> string \<Rightarrow> uint64 \<Rightarrow> ('w, verity_device_error, unit) act" where
  "resizePartition h partitionDevice diskDevice newSizeInSectors =
     bindE (liftE (map_sum VerityLookup id (getPartitionNum partitionDevice))) (\<lambda>partitionNumber.
       bindE (execV h (flock diskDevice [''sfdisk'', ''--lock=no'', ''-N'', int_dec partitionNumber, diskDevice])
                (''unit: sectors'' @ [CHR 0x0A] @ ''size='' @ nat_dec (unat newSizeInSectors))) (\<lambda>_.
         mapErrE VerityDisk (RefreshPartitions h diskDevice)))"

definition sectorsOf :: "uint64 \<Rightarrow> uint64 \<Rightarrow> verity_device_error + uint64" where
  "sectorsOf sizeInBytes sectorSize =
     (if sectorSize = 0 then Inl VerityDivisionByZero else Inr (DivRoundUp sizeInBytes sectorSize))"

text \<open>One partition of the loop of \<open>shrinkFilesystems\<close>, with the verity devices as its state.\<close>

definition shrinkPartition ::
  "('w, 'x) disk_host_scheme \<Rightarrow> string \<Rightarrow> string list \<Rightarrow> bool \<Rightarrow> uint64 \<Rightarrow> PartitionInfo \<Rightarrow> verityDeviceMetadata list \<Rightarrow>
   ('w, verity_device_error, verityDeviceMetadata list) act" where
  "shrinkPartition h disk readonlyPartUuids isExternalImage sectorSize p ms =
     (if piType p \<noteq> ''part'' \<or> piPartUuid p \<in> set readonlyPartUuids
         \<or> piFileSystemType p \<notin> set [''ext2'', ''ext3'', ''ext4''] then returnE ms
      else
        bindE (if isExternalImage then extFilesystemCoversPartition h (piPath p) (piSizeInBytes p) else returnE True)
          (\<lambda>covers.
             if \<not> covers then returnE ms
             else
               bindE (shrinkExt4FileSystem h (piPath p) disk) (\<lambda>fileSystemSizeInBytes.
                 if fileSystemSizeInBytes = 0 then returnE ms
                 else
                   (case addVeritySuffixSize fileSystemSizeInBytes ms p of
                      None \<Rightarrow> (\<lambda>w. None)
                    | Some (Inl e) \<Rightarrow> throwE e
                    | Some (Inr (totalSizeInBytes, ms')) \<Rightarrow>
                        bindE (liftE (sectorsOf totalSizeInBytes sectorSize)) (\<lambda>sectors.
                          bindE (resizePartition h (piPath p) disk sectors) (\<lambda>_. returnE ms'))))))"

definition shrinkFilesystems ::
  "('w, 'x) disk_host_scheme \<Rightarrow> string \<Rightarrow> string list \<Rightarrow> verityDeviceMetadata list \<Rightarrow> bool \<Rightarrow>
   ('w, verity_device_error, (string \<rightharpoonup> uint64) \<times> verityDeviceMetadata list) act" where
  "shrinkFilesystems h disk readonlyPartUuids verityMetadata isExternalImage =
     bindE (mapErrE VerityDisk (GetDiskPartitions h disk)) (\<lambda>diskPartitions.
       bindE (mapErrE VerityDisk (GetSectorSize h disk)) (\<lambda>(sectorSize, _).
         bindE (foldE (shrinkPartition h disk readonlyPartUuids isExternalImage sectorSize) diskPartitions verityMetadata)
           (\<lambda>ms. returnE
              (map_of (rev (map (\<lambda>p. (piPartUuid p, piSizeInBytes p)) (filter (\<lambda>p. piType p = ''part'') diskPartitions))), ms))))"

section \<open>Formatting\<close>

text \<open>\<open>Root hash:\s+([0-9a-fA-F]+)\<close>, leftmost.\<close>

definition is_hash_digit :: "char \<Rightarrow> bool" where
  "is_hash_digit c \<longleftrightarrow> is_digit c \<or> c \<in> set ''abcdefABCDEF''"

definition rootHash_at :: "string \<Rightarrow> string option" where
  "rootHash_at s =
     (if \<not> HasPrefix s ''Root hash:'' then None
      else
        let rest = drop 10 s; hash = takeWhile is_hash_digit (dropWhile is_re_space rest) in
        if takeWhile is_re_space rest \<noteq> [] \<and> hash \<noteq> [] then Some hash else None)"

fun rootHashRegex_match :: "string \<Rightarrow> string option" where
  "rootHashRegex_match [] = None"
| "rootHashRegex_match (c # cs) =
     (case rootHash_at (c # cs) of Some hash \<Rightarrow> Some hash | None \<Rightarrow> rootHashRegex_match cs)"

definition verityFormatArgs :: "string \<Rightarrow> string \<Rightarrow> verityFormatSettings \<Rightarrow> verity_device_error + string list" where
  "verityFormatArgs dataPartitionPath hashPartitionPath s =
     (if vfDataSizeBytes s \<noteq> 0 \<and> vfDataBlockSizeBytes s = 0 then Inl VerityDivisionByZero
      else if vfDataSizeBytes s \<noteq> 0 \<and> vfDataSizeBytes s mod ucast (vfDataBlockSizeBytes s) \<noteq> 0
      then Inl (UnalignedVerityDataSize dataPartitionPath)
      else
        Inr ([''veritysetup'', ''format'', dataPartitionPath, hashPartitionPath, ''--hash'', vfHashAlgorithm s,
              ''--data-block-size'', nat_dec (unat (vfDataBlockSizeBytes s)),
              ''--hash-block-size'', nat_dec (unat (vfHashBlockSizeBytes s))]
             @ (if vfDataSizeBytes s \<noteq> 0
                then [''--data-blocks'', nat_dec (unat (vfDataSizeBytes s div ucast (vfDataBlockSizeBytes s)))] else [])
             @ (if vfHashOffsetBytes s \<noteq> 0 then [''--hash-offset'', nat_dec (unat (vfHashOffsetBytes s))] else [])))"

definition verityFormat ::
  "('w, 'x) disk_host_scheme \<Rightarrow> string \<Rightarrow> string \<Rightarrow> string \<Rightarrow> bool \<Rightarrow> uint64 \<Rightarrow> verityFormatSettings \<Rightarrow>
   ('w, verity_device_error, string) act" where
  "verityFormat h disk dataPartitionPath hashPartitionPath shrinkHashPartition sectorSize s =
     bindE (liftE (verityFormatArgs dataPartitionPath hashPartitionPath s)) (\<lambda>formatArgs.
       bindE (mapErrE CalculateRootHash (execD h formatArgs [])) (\<lambda>(verityOutput, _).
         (case rootHashRegex_match verityOutput of
            None \<Rightarrow> throwE RootHashNotFound
          | Some rootHash \<Rightarrow>
              bindE (mapErrE VerityDisk (RefreshPartitions h disk)) (\<lambda>_.
                bindE (askE (\<lambda>w. h_read h w hashPartitionPath)) (\<lambda>content.
                  (case CalculateHashFileSizeInBytes content (vfHashOffsetBytes s) of
                     None \<Rightarrow> (\<lambda>w. None)
                   | Some (Inl e) \<Rightarrow> throwE (HashSizeError e)
                   | Some (Inr hashSizeInBytes) \<Rightarrow>
                       if shrinkHashPartition \<and> \<not> IsInlineVerity s
                       then
                         bindE (liftE (sectorsOf hashSizeInBytes sectorSize)) (\<lambda>sectors.
                         bindE (resizePartition h hashPartitionPath disk sectors) (\<lambda>_.
                           bindE (execV h [''veritysetup'', ''verify'', dataPartitionPath, hashPartitionPath, rootHash] [])
                             (\<lambda>_. returnE rootHash)))
                       else returnE rootHash))))))"

text \<open>The devices of \<open>customizeVerityImage\<close>: every one that is not read-only is formatted and gets its root hash. Also
  whether there was one.\<close>

definition formatVerityDevice ::
  "('w, 'x) disk_host_scheme \<Rightarrow> string \<Rightarrow> bool \<Rightarrow> uint64 \<Rightarrow> string list \<Rightarrow> PartitionInfo list \<Rightarrow> verityDeviceMetadata \<Rightarrow>
   verityDeviceMetadata list \<times> bool \<Rightarrow> ('w, verity_device_error, verityDeviceMetadata list \<times> bool) act" where
  "formatVerityDevice h disk shrinkHashPartition sectorSize readonlyPartUuids diskPartitions m acc =
     (case acc of (ms, verityUpdated) \<Rightarrow>
      if vdDataPartUuid m \<in> set readonlyPartUuids then returnE (ms @ [m], verityUpdated)
      else
        (case findPartitionHelper MountIdentifierTypePartUuid (vdDataPartUuid m) diskPartitions of
           Inl e \<Rightarrow> throwE (FindDataPartition (vdName m) (VerityLookup e))
         | Inr (dataPartition, _) \<Rightarrow>
             (case findPartitionHelper MountIdentifierTypePartUuid (vdHashPartUuid m) diskPartitions of
                Inl e \<Rightarrow> throwE (FindHashPartition (vdName m) (VerityLookup e))
              | Inr (hashPartition, _) \<Rightarrow>
                  bindE (verityFormat h disk (piPath dataPartition) (piPath hashPartition) shrinkHashPartition sectorSize
                           (vdFormatSettings m)) (\<lambda>rootHash.
                    returnE (ms @ [m\<lparr>vdRootHash := rootHash\<rparr>], True)))))"

text \<open>\<open>customizeVerityImage\<close> on the attached image; \<open>updateArgs\<close> is \<open>updateKernelArgsForVerity\<close> of the image.\<close>

definition customizeVerityImage ::
  "('w, 'x) disk_host_scheme \<Rightarrow> string \<Rightarrow> bool \<Rightarrow> verityDeviceMetadata list \<Rightarrow> string list \<Rightarrow>
   (PartitionInfo list \<Rightarrow> verityDeviceMetadata list \<Rightarrow> ('w, verity_device_error, unit) act) \<Rightarrow>
   ('w, verity_device_error, verityDeviceMetadata list) act" where
  "customizeVerityImage h disk shrinkHashPartition verityMetadata readonlyPartUuids updateArgs =
     bindE (mapErrE VerityDisk (GetDiskPartitions h disk)) (\<lambda>diskPartitions.
       bindE (mapErrE VerityDisk (GetSectorSize h disk)) (\<lambda>(sectorSize, _).
         bindE (foldE (formatVerityDevice h disk shrinkHashPartition sectorSize readonlyPartUuids diskPartitions)
                  verityMetadata ([], False)) (\<lambda>(ms, verityUpdated).
           bindE (mapErrE VerityDisk (RefreshPartitions h disk)) (\<lambda>_.
             if verityUpdated
             then bindE (mapErrE VerityDisk (GetDiskPartitions h disk)) (\<lambda>refreshed.
                    bindE (updateArgs refreshed ms) (\<lambda>_. returnE ms))
             else returnE ms))))"

section \<open>The size of an inline verity partition\<close>

lemma block_size_4096: "(ucast DefaultVerityDataBlockSize :: uint64) = 4096" "(ucast DefaultVerityHashBlockSize :: uint64) = 4096"
  "DefaultVerityDataBlockSize \<noteq> 0"
  by (simp_all add: DefaultVerityDataBlockSize_def DefaultVerityHashBlockSize_def)

lemma find_first:
  "i < n \<Longrightarrow> P i \<Longrightarrow> (\<And>j. j < i \<Longrightarrow> \<not> P j) \<Longrightarrow> find P [0..<n] = Some i"
proof (induction n)
  case (Suc n)
  have f: "find P (xs @ ys) = (case find P xs of Some x \<Rightarrow> Some x | None \<Rightarrow> find P ys)" for xs ys
    by (induction xs) auto
  show ?case
  proof (cases "i = n")
    case True
    have "find P [0..<n] = None" using Suc.prems(3) True by (simp add: find_None_iff)
    with True Suc.prems(2) show ?thesis by (simp add: f)
  next
    case False
    with Suc show ?thesis by (simp add: f)
  qed
qed simp

text \<open>C8. Inline verity after shrinking: when the file system of a device's data partition has shrunk to
  \<open>fileSystemSize\<close> bytes, the partition gets the size of its data blocks, the hash tree over them and the superblock,
  each of 4 KiB and exactly as many as needed; the file system fits in the data blocks, the hash tree starts right after
  them, and \<open>veritysetup format\<close> is then run with that number of blocks and that offset: the check for an unaligned
  data size does not fail.\<close>

theorem inline_verity_partition_size:
  assumes "i < length ms" "vdDataPartUuid (ms ! i) = piPartUuid p"
    and "\<forall>j < i. vdDataPartUuid (ms ! j) \<noteq> piPartUuid p"
    and "vdFormatSettings (ms ! i) = \<lparr>vfHashAlgorithm = DefaultVerityHashAlgorithm,
           vfDataBlockSizeBytes = DefaultVerityDataBlockSize, vfHashBlockSizeBytes = DefaultVerityHashBlockSize,
           vfDataSizeBytes = d0, vfHashOffsetBytes = off0\<rparr>" "off0 \<noteq> 0"
    and "unat fileSystemSize \<le> 2 ^ 62" "fileSystemSize \<noteq> 0"
  shows "\<exists>total ms' n. addVeritySuffixSize fileSystemSize ms p = Some (Inr (total, ms'))
     \<and> (n - 1) * 4096 < unat fileSystemSize \<and> unat fileSystemSize \<le> n * 4096
     \<and> unat total = (n + tree_blocks 128 n + 1) * 4096
     \<and> (\<forall>j < length ms. j \<noteq> i \<longrightarrow> ms' ! j = ms ! j)
     \<and> verityFormatArgs dataPath hashPath (vdFormatSettings (ms' ! i)) =
         Inr [''veritysetup'', ''format'', dataPath, hashPath, ''--hash'', ''sha256'', ''--data-block-size'', nat_dec 4096,
              ''--hash-block-size'', nat_dec 4096, ''--data-blocks'', nat_dec n, ''--hash-offset'', nat_dec (n * 4096)]"
proof -
  let ?n = "DivRoundUp fileSystemSize 4096" and ?s = "vdFormatSettings (ms ! i)"
  define n where "n = unat ?n"
  have n: "n = (unat fileSystemSize + 4095) div 4096" using unat_DivRoundUp [of 4096 fileSystemSize] by (simp add: n_def)
  have f0: "0 < unat fileSystemSize" using assms(7) by (simp add: unat_gt_0)
  have b: "n \<le> 2 ^ 50" "(n - 1) * 4096 < unat fileSystemSize" "unat fileSystemSize \<le> n * 4096" "0 < n"
    using n assms(6) f0 by auto
  have u: "unat (?n * 4096) = n * 4096" using b(1) by (simp add: unat_word_ariths n_def [symmetric])
  have tot: "unat (?n * 4096 + of_nat (tree_blocks 128 (unat ?n) + 1) * 4096) = (n + tree_blocks 128 n + 1) * 4096"
    using unat_inline_cost [of ?n] b(1) by (simp add: inline_cost_def n_def [symmetric] algebra_simps)
  have d: "(?n * 4096) mod 4096 = 0" "(?n * 4096) div 4096 = ?n" "?n * 4096 \<noteq> 0"
  proof -
    show "(?n * 4096) mod 4096 = 0" by (simp add: unat_mod_distrib u flip: unat_eq_zero)
    show "(?n * 4096) div 4096 = ?n" by (simp add: unat_div_distrib u n_def word_unat_eq_iff)
    show "?n * 4096 \<noteq> 0" using u b(4) by (metis mult_eq_0_iff nat_neq_iff unat_0 zero_neq_numeral)
  qed
  have idx: "find (\<lambda>i. vdDataPartUuid (ms ! i) = piPartUuid p) [0..<length ms] = Some i"
    by (rule find_first) (use assms(1-3) in auto)
  let ?s' = "?s\<lparr>vfDataSizeBytes := ?n * 4096, vfHashOffsetBytes := ?n * 4096\<rparr>"
  have r: "addVeritySuffixSize fileSystemSize ms p =
     Some (Inr (?n * 4096 + of_nat (tree_blocks 128 (unat ?n) + 1) * 4096,
       ms[i := (ms ! i)\<lparr>vdFormatSettings := ?s'\<rparr>]))"
    using assms(4,5)
    by (simp add: addVeritySuffixSize_def idx Let_def IsInlineVerity_def block_size_4096 CalculateHashSizeInBytes_def
        CalculateHashSizeInBlocks_inline)
  have a: "verityFormatArgs dataPath hashPath ?s' =
         Inr [''veritysetup'', ''format'', dataPath, hashPath, ''--hash'', ''sha256'', ''--data-block-size'', nat_dec 4096,
              ''--hash-block-size'', nat_dec 4096, ''--data-blocks'', nat_dec n, ''--hash-offset'', nat_dec (n * 4096)]"
    using d u assms(4) by (simp add: verityFormatArgs_def block_size_4096 DefaultVerityHashAlgorithm_def
        DefaultVerityDataBlockSize_def DefaultVerityHashBlockSize_def n_def)
  show ?thesis
    by (intro exI [of _ "?n * 4096 + of_nat (tree_blocks 128 (unat ?n) + 1) * 4096"]
        exI [of _ "ms[i := (ms ! i)\<lparr>vdFormatSettings := ?s'\<rparr>]"] exI [of _ n] conjI)
      (use r tot b a assms(1) in simp_all)
qed

section \<open>The kernel arguments of a device read back\<close>

definition readCorruptionOption :: "string \<Rightarrow> string" where
  "readCorruptionOption c = (if c = CorruptionOptionDefault then CorruptionOptionIoError else c)"

definition readMountIdType :: "MountIdentifierType \<Rightarrow> MountIdentifierType" where
  "readMountIdType t = (if t = MountIdentifierTypeDefault then MountIdentifierTypePartUuid else t)"

definition partitionIdOf :: "MountIdentifierType \<Rightarrow> PartitionInfo \<Rightarrow> string" where
  "partitionIdOf t p =
     (if t = MountIdentifierTypeUuid then piUuid p
      else if t = MountIdentifierTypePartLabel then piPartLabel p else piPartUuid p)"

lemma verityOptionsLoop_append:
  "verityOptionsLoop r (xs @ ys) = (case verityOptionsLoop r xs of Inl e \<Rightarrow> Inl e | Inr r' \<Rightarrow> verityOptionsLoop r' ys)"
  by (induction r xs rule: verityOptionsLoop.induct) (auto split: sum.splits)

lemma corruption_option_word:
  assumes "SystemdFormatCorruptionOption c = Inr f"
  shows "CHR '','' \<notin> set f" "verityOptionsLoop (CorruptionOptionIoError, p, h) [f] = Inr (readCorruptionOption c, p, h)"
  using assms by (auto simp: SystemdFormatCorruptionOption_def corruption_defs readCorruptionOption_def split: if_splits)

lemma parse_verityOptions:
  assumes "SystemdFormatCorruptionOption (vdCorruptionOption m) = Inr f" "CHR '','' \<notin> set (vdHashSignaturePath m)"
  shows "parseSystemdVerityOptions (verityOptions m f) =
     Inr (readCorruptionOption (vdCorruptionOption m), vdHashSignaturePath m, vfHashOffsetBytes (vdFormatSettings m))"
proof -
  let ?o = "vfHashOffsetBytes (vdFormatSettings m)" and ?p = "vdHashSignaturePath m"
  let ?r = "(readCorruptionOption (vdCorruptionOption m), [], 0 :: uint64)"
  let ?ho = "''hash-offset='' @ nat_dec (unat ?o)" and ?sp = "''root-hash-signature='' @ ?p"
  note c = corruption_option_word [OF assms(1)]
  have dc: "CHR '','' \<notin> set (nat_dec n)" for n
    using nat_dec_digits [of "CHR '',''" n] by (auto simp: is_digit_def)
  have pu: "ParseUint (nat_dec (unat ?o)) 10 64 = Inr (unat ?o)"
    by (rule ParseUint_10_nat_dec) (use unsigned_less [where ?'b = 64 and ?'a = nat, of ?o] in simp)
  have ho: "CHR '','' \<notin> set ?ho" "verityOptionsLoop (x, y, 0) [?ho] = Inr (x, y, ?o)" for x y
    using dc pu by (simp_all add: TrimPrefix_def)
  have sp: "CHR '','' \<notin> set ?sp" "verityOptionsLoop (x, [], h) [?sp] = Inr (x, ?p, h)" for x h
    using assms(2) by (simp_all add: TrimPrefix_def)
  obtain sw hw where w: "sw = ?sp" "hw = ?ho" by blast
  let ?ws = "f # (if ?p \<noteq> [] then [sw] else []) @ (if ?o \<noteq> 0 then [hw] else [])"
  have "verityOptions m f = join '','' ?ws" by (auto simp: verityOptions_def w)
  moreover have "Split (join '','' ?ws) CHR '','' = ?ws"
    by (rule Split_join) (use c(1) ho(1) sp(1) in \<open>auto simp: w split: if_splits\<close>)
  moreover have "verityOptionsLoop (CorruptionOptionIoError, [], 0) ([f] @ (if ?p \<noteq> [] then [sw] else []) @ (if ?o \<noteq> 0 then [hw] else [])) =
     Inr (readCorruptionOption (vdCorruptionOption m), ?p, ?o)"
    unfolding verityOptionsLoop_append c(2) using ho(2) [folded w] sp(2) [folded w]
    by (simp del: verityOptionsLoop.simps(2) add: verityOptionsLoop_append)
  ultimately show ?thesis by (simp add: parseSystemdVerityOptions_def)
qed

lemma findPartitionHelper_PartUuid:
  assumes "findPartitionHelper MountIdentifierTypePartUuid u ps = Inr (p, i)"
  shows "piPartUuid p = u \<and> i < length ps \<and> p = ps ! i"
proof -
  let ?js = "filter (\<lambda>i. partition_matches MountIdentifierTypePartUuid u (ps ! i)) [0..<length ps]"
  from assms have js: "length ?js = 1" "i = ?js ! 0" "p = ps ! i"
    by (auto simp: findPartitionHelper_def Let_def not_less le_Suc_eq split: if_splits)
  then have "i \<in> set ?js" by (metis nth_mem zero_less_one)
  with js(3) show ?thesis by (auto simp: partition_matches_def enum_defs MountIdentifierTypeLabel_def split: if_splits)
qed

lemma systemdFormatPartitionUuid_read:
  assumes "systemdFormatPartitionUuid u t ps = Inr s"
  shows "\<exists>p i. findPartitionHelper MountIdentifierTypePartUuid u ps = Inr (p, i) \<and> s \<noteq> []
     \<and> parseSourcePartition s = Inr (readMountIdType t, partitionIdOf (readMountIdType t) p)"
proof -
  obtain p i where p: "findPartitionHelper MountIdentifierTypePartUuid u ps = Inr (p, i)"
    using assms by (auto simp: systemdFormatPartitionUuid_def findPartition_def split: sum.splits)
  have "parseSourcePartition s = Inr (readMountIdType t, partitionIdOf (readMountIdType t) p) \<and> s \<noteq> []"
    using assms p
    by (auto simp: systemdFormatPartitionUuid_def findPartition_def parseSourcePartition_def
        parseExtendedSourcePartition_def CutPrefix_def readMountIdType_def partitionIdOf_def enum_defs split: if_splits)
  with p show ?thesis by blast
qed

text \<open>The values that a list of argument texts gives to a name.\<close>

definition vals :: "string \<Rightarrow> string list \<Rightarrow> string list" where
  "vals name args = map (\<lambda>p. fst (snd (snd p))) (filter (\<lambda>p. fst (snd p) = name) (map plain_arg args))"

lemma vals_simps [simp]:
  "vals n [] = []" "vals n (xs @ ys) = vals n xs @ vals n ys"
  by (simp_all add: vals_def)

lemma vals_Cons:
  "CHR ''='' \<notin> set k \<Longrightarrow> vals n ((k @ ''='' @ v) # xs) = (if k = n then [v] else []) @ vals n xs"
  by (simp add: vals_def plain_arg_def Cut_append_sep)

lemma verityArgNames_cases:
  "verityArgNames name = Inr (h, da, hk, op) \<Longrightarrow>
     name = VerityRootDeviceName \<and> h = ''roothash'' \<and> da = ''systemd.verity_root_data''
       \<and> hk = ''systemd.verity_root_hash'' \<and> op = ''systemd.verity_root_options''
     \<or> name = VerityUsrDeviceName \<and> h = ''usrhash'' \<and> da = ''systemd.verity_usr_data''
       \<and> hk = ''systemd.verity_usr_hash'' \<and> op = ''systemd.verity_usr_options''"
  by (simp add: verityArgNames_def split: if_splits)

lemma verityDeviceArgs_vals:
  assumes "verityDeviceArgs ps m = Inr args" "verityArgNames name = Inr (h, da, hk, op)"
  shows "\<exists>d k f. systemdFormatPartitionUuid (vdDataPartUuid m) (vdDataDeviceMountIdType m) ps = Inr d
     \<and> systemdFormatPartitionUuid (vdHashPartUuid m) (vdHashDeviceMountIdType m) ps = Inr k
     \<and> SystemdFormatCorruptionOption (vdCorruptionOption m) = Inr f
     \<and> (if vdName m = name
        then vals h args = [vdRootHash m] \<and> vals da args = [d] \<and> vals hk args = [k] \<and> vals op args = [verityOptions m f]
        else vals h args = [] \<and> vals da args = [] \<and> vals hk args = [] \<and> vals op args = [])"
proof -
  obtain h' da' hk' op' d k f where n: "verityArgNames (vdName m) = Inr (h', da', hk', op')"
    and dkf: "systemdFormatPartitionUuid (vdDataPartUuid m) (vdDataDeviceMountIdType m) ps = Inr d"
      "systemdFormatPartitionUuid (vdHashPartUuid m) (vdHashDeviceMountIdType m) ps = Inr k"
      "SystemdFormatCorruptionOption (vdCorruptionOption m) = Inr f"
    and a: "args = [h' @ ''='' @ vdRootHash m, da' @ ''='' @ d, hk' @ ''='' @ k, op' @ ''='' @ verityOptions m f]"
    using assms(1) by (auto simp: verityDeviceArgs_def split: sum.splits)
  have q: "CHR ''='' \<notin> set h'" "CHR ''='' \<notin> set da'" "CHR ''='' \<notin> set hk'" "CHR ''='' \<notin> set op'"
    using n by (auto simp: verityArgNames_def split: if_splits)
  have e: "vals n args = (if h' = n then [vdRootHash m] else []) @ (if da' = n then [d] else [])
      @ (if hk' = n then [k] else []) @ (if op' = n then [verityOptions m f] else [])" for n
    unfolding a using q by (simp add: vals_Cons del: append.simps)
  show ?thesis
  proof (intro exI conjI)
    show "if vdName m = name
        then vals h args = [vdRootHash m] \<and> vals da args = [d] \<and> vals hk args = [k] \<and> vals op args = [verityOptions m f]
        else vals h args = [] \<and> vals da args = [] \<and> vals hk args = [] \<and> vals op args = []"
      using verityArgNames_cases [OF n] verityArgNames_cases [OF assms(2)]
      by (elim disjE conjE) (simp_all add: e VerityRootDeviceName_def VerityUsrDeviceName_def)
  qed (use dkf in simp_all)
qed

lemma verityDevicesArgs_Cons:
  "verityDevicesArgs ps (m # ms) = Inr args \<longleftrightarrow>
     (\<exists>a as. verityDeviceArgs ps m = Inr a \<and> verityDevicesArgs ps ms = Inr as \<and> args = a @ as)"
  by (cases "verityDevicesArgs ps ms") (auto split: sum.splits)

lemma verityDevicesArgs_other:
  assumes "verityDevicesArgs ps ms = Inr args" "verityArgNames name = Inr (h, da, hk, op)" "name \<notin> vdName ` set ms"
  shows "\<forall>x \<in> {h, da, hk, op}. vals x args = []"
  using assms(1,3)
proof (induction ms arbitrary: args)
  case (Cons m ms)
  then obtain a as where a: "verityDeviceArgs ps m = Inr a" "verityDevicesArgs ps ms = Inr as" "args = a @ as"
    unfolding verityDevicesArgs_Cons by blast
  from verityDeviceArgs_vals [OF a(1) assms(2)] Cons.prems(2) have "\<forall>x \<in> {h, da, hk, op}. vals x a = []" by auto
  with Cons.IH [OF a(2)] Cons.prems(2) a(3) show ?case by simp
qed simp

lemma verityDevicesArgs_vals:
  assumes "verityDevicesArgs ps ms = Inr args" "verityArgNames (vdName m) = Inr (h, da, hk, op)"
    and "m \<in> set ms" "distinct (map vdName ms)"
  shows "\<exists>margs. verityDeviceArgs ps m = Inr margs \<and> (\<forall>x \<in> {h, da, hk, op}. vals x args = vals x margs)"
  using assms(1,3,4)
proof (induction ms arbitrary: args)
  case (Cons m' ms)
  then obtain a as where a: "verityDeviceArgs ps m' = Inr a" "verityDevicesArgs ps ms = Inr as" "args = a @ as"
    unfolding verityDevicesArgs_Cons by blast
  show ?case
  proof (cases "m = m'")
    case True
    then have "vdName m \<notin> vdName ` set ms" using Cons.prems(3) by simp
    from verityDevicesArgs_other [OF a(2) assms(2) this] a True show ?thesis by simp
  next
    case False
    with Cons.prems(2) have ms: "m \<in> set ms" by simp
    then have "vdName m \<in> vdName ` set ms" by simp
    with Cons.prems(3) ms have "m \<in> set ms" "vdName m \<noteq> vdName m'" by (force, force)
    moreover from verityDeviceArgs_vals [OF a(1) assms(2)] this(2) have "\<forall>x \<in> {h, da, hk, op}. vals x a = []" by auto
    ultimately show ?thesis using Cons.IH [OF a(2)] Cons.prems(3) a(3) by auto
  qed
qed simp

lemma constructVerityKernelCmdlineArgs_vals:
  assumes "constructVerityKernelCmdlineArgs ms ps bootUuid = Inr newArgs" "m \<in> set ms" "distinct (map vdName ms)"
    and "verityArgNames (vdName m) = Inr (h, da, hk, op)"
  shows "\<exists>d k f. systemdFormatPartitionUuid (vdDataPartUuid m) (vdDataDeviceMountIdType m) ps = Inr d
     \<and> systemdFormatPartitionUuid (vdHashPartUuid m) (vdHashDeviceMountIdType m) ps = Inr k
     \<and> SystemdFormatCorruptionOption (vdCorruptionOption m) = Inr f
     \<and> vals h newArgs = [vdRootHash m] \<and> vals da newArgs = [d] \<and> vals hk newArgs = [k]
     \<and> vals op newArgs = [verityOptions m f]"
proof -
  let ?pre = "if list_ex (\<lambda>m. vdHashSignaturePath m \<noteq> []) ms then [''pre.verity.mount='' @ bootUuid] else []"
  from assms(1) obtain args where args: "verityDevicesArgs ps ms = Inr args" "newArgs = ''rd.systemd.verity=1'' # args @ ?pre"
    by (auto simp: constructVerityKernelCmdlineArgs_def split: sum.splits)
  have o: "vals x newArgs = vals x args" if x: "x \<in> {h, da, hk, op}" for x
  proof -
    have q: "x \<noteq> ''rd.systemd.verity'' \<and> x \<noteq> ''pre.verity.mount''" using x verityArgNames_cases [OF assms(4)] by auto
    have "vals x [''rd.systemd.verity=1''] = []" using q by (auto simp: vals_def plain_arg_def)
    moreover have "vals x ?pre = []" using q vals_Cons [of "''pre.verity.mount''" x bootUuid "[]"] by auto
    moreover have "vals x newArgs = vals x [''rd.systemd.verity=1''] @ vals x args @ vals x ?pre"
      unfolding args(2) vals_simps(2) [symmetric] by simp
    ultimately show ?thesis by simp
  qed
  from verityDevicesArgs_vals [OF args(1) assms(4,2,3)] obtain margs where
    "verityDeviceArgs ps m = Inr margs" "\<forall>x \<in> {h, da, hk, op}. vals x args = vals x margs" by blast
  with verityDeviceArgs_vals [OF this(1) assms(4)] o show ?thesis by auto
qed

lemma metadata_eq:
  "\<lparr>vdName = vdName m, vdRootHash = vdRootHash m, vdDataPartUuid = vdDataPartUuid m, vdHashPartUuid = vdHashPartUuid m,
    vdDataDeviceMountIdType = t, vdHashDeviceMountIdType = u, vdCorruptionOption = c,
    vdHashSignaturePath = vdHashSignaturePath m, vdFormatSettings = s\<rparr>
   = m\<lparr>vdDataDeviceMountIdType := t, vdHashDeviceMountIdType := u, vdCorruptionOption := c\<rparr>
   \<longleftrightarrow> s = vdFormatSettings m"
  by (cases m) auto

text \<open>C7. The verity arguments survive the boot configuration: when the arguments that describe the devices are
  appended to those of a kernel and the text is tokenized and parsed again, the device is found with the same
  partitions, root hash, signature path, hash offset and format settings. The defaults come back as what they stand
  for: the corruption option \<open>io-error\<close> and the identifier type \<open>part-uuid\<close>. The conditions:
  every argument, old and new, is ASCII, not empty, and has a backslash only beside a character that makes it quoted
  (a partition label with a backslash does not read back, see \<open>RequiresQuotes\<close>); the signature path has
  no comma; the names of the devices are distinct; the identifiers used for the two partitions select these partitions
  on the disk; and the hash partition holds, at the hash offset, the superblock that the format settings
  describe.\<close>

theorem verity_kernel_args_roundtrip:
  assumes "constructVerityKernelCmdlineArgs ms partitions bootUuid = Inr newArgs" "m \<in> set ms" "distinct (map vdName ms)"
    and "verityArgNames (vdName m) = Inr (hashArg, dataArg, hashDeviceArg, optionsArg)"
    and "findPartitionHelper MountIdentifierTypePartUuid (vdDataPartUuid m) partitions = Inr (dp, i)"
    and "findPartitionHelper MountIdentifierTypePartUuid (vdHashPartUuid m) partitions = Inr (hp, j)"
    and "findPartitionHelper (readMountIdType (vdDataDeviceMountIdType m))
           (partitionIdOf (readMountIdType (vdDataDeviceMountIdType m)) dp) partitions = Inr (dp, i)"
    and "findPartitionHelper (readMountIdType (vdHashDeviceMountIdType m))
           (partitionIdOf (readMountIdType (vdHashDeviceMountIdType m)) hp) partitions = Inr (hp, j)"
    and "CHR '','' \<notin> set (vdHashSignaturePath m)"
    and "ReadVeritySuperblock (content (piPath hp)) off = Inr sb"
    and "vdFormatSettings m =
           \<lparr>vfHashAlgorithm = GetAlgorithm sb, vfDataBlockSizeBytes = DataBlockSize sb,
            vfHashBlockSizeBytes = HashBlockSize sb, vfDataSizeBytes = DataBlocks sb * ucast (DataBlockSize sb),
            vfHashOffsetBytes = off\<rparr>"
    and "list_all (\<lambda>a. quotable a \<and> list_all (\<lambda>c. byte c < 128) a) (oldArgs @ newArgs)"
  shows "\<exists>toks cmdline. TokenizeConfig (GrubArgsToString (oldArgs @ newArgs)) = (toks, None)
     \<and> ParseCommandLineArgs toks = Inr cmdline
     \<and> findVerityPartitionsFromCmdline content partitions cmdline dataArg hashDeviceArg hashArg optionsArg (vdName m) =
         Inr (dp, i, m\<lparr>vdDataDeviceMountIdType := readMountIdType (vdDataDeviceMountIdType m),
                      vdHashDeviceMountIdType := readMountIdType (vdHashDeviceMountIdType m),
                      vdCorruptionOption := readCorruptionOption (vdCorruptionOption m)\<rparr>)"
proof -
  have "list_all (list_all (\<lambda>c. byte c < 128)) (oldArgs @ newArgs)" "list_all quotable (oldArgs @ newArgs)"
    using assms(12) by (auto simp: list_all_iff)
  from GrubArgsToString_ascii [OF this] obtain toks where
    t: "TokenizeConfig (GrubArgsToString (oldArgs @ newArgs)) = (toks, None)"
    "map word_view toks = map arg_view (oldArgs @ newArgs)" by blast
  from ParseCommandLineArgs_view [OF t(2)] obtain cmdline where
    c: "ParseCommandLineArgs toks = Inr cmdline" "map arg_of cmdline = map plain_arg (oldArgs @ newArgs)" by blast
  have val: "vals x newArgs = [v] \<Longrightarrow> findKernelCommandLineArgValue cmdline x = Inr v" for x v
    using findKernelCommandLineArgValue_plain [OF c(2), of x] by (simp add: vals_def Let_def)
  from constructVerityKernelCmdlineArgs_vals [OF assms(1-4)] obtain d k f where
    d: "systemdFormatPartitionUuid (vdDataPartUuid m) (vdDataDeviceMountIdType m) partitions = Inr d"
    and k: "systemdFormatPartitionUuid (vdHashPartUuid m) (vdHashDeviceMountIdType m) partitions = Inr k"
    and f: "SystemdFormatCorruptionOption (vdCorruptionOption m) = Inr f"
    and v: "vals hashArg newArgs = [vdRootHash m]" "vals dataArg newArgs = [d]" "vals hashDeviceArg newArgs = [k]"
      "vals optionsArg newArgs = [verityOptions m f]" by blast
  note vs = val [OF v(1)] val [OF v(2)] val [OF v(3)] val [OF v(4)]
  from systemdFormatPartitionUuid_read [OF d] assms(5) have d': "d \<noteq> []"
    "parseSourcePartition d = Inr (readMountIdType (vdDataDeviceMountIdType m),
       partitionIdOf (readMountIdType (vdDataDeviceMountIdType m)) dp)" by auto
  from systemdFormatPartitionUuid_read [OF k] assms(6) have k': "k \<noteq> []"
    "parseSourcePartition k = Inr (readMountIdType (vdHashDeviceMountIdType m),
       partitionIdOf (readMountIdType (vdHashDeviceMountIdType m)) hp)" by auto
  have po: "parseSystemdVerityOptions (verityOptions m f) = Inr (readCorruptionOption (vdCorruptionOption m), vdHashSignaturePath m, off)"
    using parse_verityOptions [OF f assms(9)] assms(11) by simp
  have pu: "piPartUuid dp = vdDataPartUuid m" "piPartUuid hp = vdHashPartUuid m"
    using findPartitionHelper_PartUuid [OF assms(5)] findPartitionHelper_PartUuid [OF assms(6)] by auto
  have "findVerityPartitionsFromCmdline content partitions cmdline dataArg hashDeviceArg hashArg optionsArg (vdName m) =
         Inr (dp, i, m\<lparr>vdDataDeviceMountIdType := readMountIdType (vdDataDeviceMountIdType m),
                      vdHashDeviceMountIdType := readMountIdType (vdHashDeviceMountIdType m),
                      vdCorruptionOption := readCorruptionOption (vdCorruptionOption m)\<rparr>)"
    unfolding findVerityPartitionsFromCmdline_def extractVerityPartitionId_def
    by (simp add: vs d' k' assms(7,8) assms(10) po pu) (use assms(11) in \<open>simp add: metadata_eq\<close>)
  with t(1) c(1) show ?thesis by blast
qed

definition sample_superblock :: string where
  "sample_superblock = ''verity'' @ [CHR 0x00, CHR 0x00] @ [CHR 0x01, CHR 0x00, CHR 0x00, CHR 0x00]
     @ [CHR 0x01, CHR 0x00, CHR 0x00, CHR 0x00] @ replicate 16 (CHR 0x00) @ ''sha256'' @ replicate 26 (CHR 0x00)
     @ [CHR 0x00, CHR 0x10, CHR 0x00, CHR 0x00] @ [CHR 0x00, CHR 0x10, CHR 0x00, CHR 0x00]
     @ [CHR 0x00, CHR 0x01, CHR 0x00, CHR 0x00, CHR 0x00, CHR 0x00, CHR 0x00, CHR 0x00] @ replicate 432 (CHR 0x00)"

definition sample_verity_partition :: "string \<Rightarrow> string \<Rightarrow> string \<Rightarrow> PartitionInfo" where
  "sample_verity_partition path label uuid =
     \<lparr>piName = [], piPath = path, piPartitionTypeUuid = [], piFileSystemType = [], piUuid = [], piPartUuid = uuid,
      piMountpoint = [], piPartLabel = label, piLabel = [], piType = ''part'', piSizeInBytes = 0\<rparr>"

definition sample_verity_disk :: "PartitionInfo list" where
  "sample_verity_disk =
     [sample_verity_partition ''/dev/loop0p1'' ''root'' ''aa'', sample_verity_partition ''/dev/loop0p2'' ''hash'' ''bb'']"

definition sample_metadata :: "string \<Rightarrow> string \<Rightarrow> string \<Rightarrow> verityDeviceMetadata" where
  "sample_metadata dt ht c =
     \<lparr>vdName = ''root'', vdRootHash = ''cafe'', vdDataPartUuid = ''aa'', vdHashPartUuid = ''bb'',
      vdDataDeviceMountIdType = dt, vdHashDeviceMountIdType = ht, vdCorruptionOption = c,
      vdHashSignaturePath = ''/boot/root.sig'',
      vdFormatSettings = \<lparr>vfHashAlgorithm = ''sha256'', vfDataBlockSizeBytes = 4096, vfHashBlockSizeBytes = 4096,
        vfDataSizeBytes = 1048576, vfHashOffsetBytes = 0\<rparr>\<rparr>"

lemma sample_superblock_read:
  "\<exists>sb. ReadVeritySuperblock (Some sample_superblock) 0 = Inr sb \<and> GetAlgorithm sb = ''sha256'' \<and> DataBlockSize sb = 4096
     \<and> HashBlockSize sb = 4096 \<and> DataBlocks sb = 256"
proof -
  have "verifySuperblock (read_superblock sample_superblock) = None \<and> length sample_superblock = 512
    \<and> GetAlgorithm (read_superblock sample_superblock) = ''sha256'' \<and> DataBlockSize (read_superblock sample_superblock) = 4096
    \<and> HashBlockSize (read_superblock sample_superblock) = 4096 \<and> DataBlocks (read_superblock sample_superblock) = 256"
    by code_simp
  then show ?thesis by (simp add: ReadVeritySuperblock_def Let_def)
qed

lemma sample_verity_args:
  "constructVerityKernelCmdlineArgs [sample_metadata '''' ''part-label'' ''''] sample_verity_disk ''cc'' =
     Inr [''rd.systemd.verity=1'', ''roothash=cafe'', ''systemd.verity_root_data=PARTUUID=aa'',
          ''systemd.verity_root_hash=PARTLABEL=hash'', ''systemd.verity_root_options=,root-hash-signature=/boot/root.sig'',
          ''pre.verity.mount=cc'']"
  by code_simp

theorem verity_kernel_args_roundtrip_witness:
  "\<exists>toks cmdline.
     TokenizeConfig (GrubArgsToString ([''quiet''] @ [''rd.systemd.verity=1'', ''roothash=cafe'',
       ''systemd.verity_root_data=PARTUUID=aa'', ''systemd.verity_root_hash=PARTLABEL=hash'',
       ''systemd.verity_root_options=,root-hash-signature=/boot/root.sig'', ''pre.verity.mount=cc''])) = (toks, None)
     \<and> ParseCommandLineArgs toks = Inr cmdline
     \<and> findVerityPartitionsFromCmdline (\<lambda>_. Some sample_superblock) sample_verity_disk cmdline ''systemd.verity_root_data''
         ''systemd.verity_root_hash'' ''roothash'' ''systemd.verity_root_options'' ''root'' =
         Inr (sample_verity_partition ''/dev/loop0p1'' ''root'' ''aa'', 0, sample_metadata ''part-uuid'' ''part-label'' ''io-error'')"
proof -
  let ?m = "sample_metadata '''' ''part-label'' ''''"
  let ?dp = "sample_verity_partition ''/dev/loop0p1'' ''root'' ''aa''" and ?hp = "sample_verity_partition ''/dev/loop0p2'' ''hash'' ''bb''"
  obtain sb where sb: "ReadVeritySuperblock (Some sample_superblock) 0 = Inr sb" "GetAlgorithm sb = ''sha256''"
    "DataBlockSize sb = 4096" "HashBlockSize sb = 4096" "DataBlocks sb = 256" using sample_superblock_read by blast
  have n: "verityArgNames (vdName ?m) = Inr (''roothash'', ''systemd.verity_root_data'', ''systemd.verity_root_hash'',
    ''systemd.verity_root_options'')" by code_simp
  have p: "findPartitionHelper MountIdentifierTypePartUuid (vdDataPartUuid ?m) sample_verity_disk = Inr (?dp, 0)"
    "findPartitionHelper MountIdentifierTypePartUuid (vdHashPartUuid ?m) sample_verity_disk = Inr (?hp, 1)"
    "findPartitionHelper (readMountIdType (vdDataDeviceMountIdType ?m))
       (partitionIdOf (readMountIdType (vdDataDeviceMountIdType ?m)) ?dp) sample_verity_disk = Inr (?dp, 0)"
    "findPartitionHelper (readMountIdType (vdHashDeviceMountIdType ?m))
       (partitionIdOf (readMountIdType (vdHashDeviceMountIdType ?m)) ?hp) sample_verity_disk = Inr (?hp, 1)"
    by code_simp+
  have q: "list_all (\<lambda>a. quotable a \<and> list_all (\<lambda>c. byte c < 128) a) ([''quiet''] @ [''rd.systemd.verity=1'', ''roothash=cafe'',
       ''systemd.verity_root_data=PARTUUID=aa'', ''systemd.verity_root_hash=PARTLABEL=hash'',
       ''systemd.verity_root_options=,root-hash-signature=/boot/root.sig'', ''pre.verity.mount=cc''])"
    by (simp add: quotable_def RequiresQuotes_def ContainsAny_def)
  have f: "vdFormatSettings ?m = \<lparr>vfHashAlgorithm = GetAlgorithm sb, vfDataBlockSizeBytes = DataBlockSize sb,
      vfHashBlockSizeBytes = HashBlockSize sb, vfDataSizeBytes = DataBlocks sb * ucast (DataBlockSize sb), vfHashOffsetBytes = 0\<rparr>"
    using sb by (simp add: sample_metadata_def)
  have s: "CHR '','' \<notin> set (vdHashSignaturePath ?m)" "?m \<in> set [?m]" "distinct (map vdName [?m])" by (simp_all add: sample_metadata_def)
  have e: "?m\<lparr>vdDataDeviceMountIdType := readMountIdType (vdDataDeviceMountIdType ?m),
       vdHashDeviceMountIdType := readMountIdType (vdHashDeviceMountIdType ?m),
       vdCorruptionOption := readCorruptionOption (vdCorruptionOption ?m)\<rparr> = sample_metadata ''part-uuid'' ''part-label'' ''io-error''"
    by (simp add: sample_metadata_def readMountIdType_def readCorruptionOption_def enum_defs corruption_defs)
  have nm: "vdName ?m = ''root''" by (simp add: sample_metadata_def)
  show ?thesis
    using verity_kernel_args_roundtrip [OF sample_verity_args s(2,3) n p s(1), where content = "\<lambda>_. Some sample_superblock",
        OF sb(1) f q] unfolding e nm .
qed

theorem inline_verity_partition_size_witness:
  "\<exists>total ms' n. addVeritySuffixSize 1000000
       [sample_metadata '''' '''' ''''\<lparr>vdFormatSettings := \<lparr>vfHashAlgorithm = DefaultVerityHashAlgorithm,
          vfDataBlockSizeBytes = DefaultVerityDataBlockSize, vfHashBlockSizeBytes = DefaultVerityHashBlockSize,
          vfDataSizeBytes = 1048576, vfHashOffsetBytes = 1048576\<rparr>\<rparr>]
       (sample_verity_partition ''/dev/loop0p1'' ''root'' ''aa'') = Some (Inr (total, ms'))
     \<and> (n - 1) * 4096 < (1000000 :: nat) \<and> 1000000 \<le> n * 4096 \<and> unat total = (n + tree_blocks 128 n + 1) * 4096"
proof -
  let ?m = "sample_metadata '''' '''' ''''\<lparr>vdFormatSettings := \<lparr>vfHashAlgorithm = DefaultVerityHashAlgorithm,
          vfDataBlockSizeBytes = DefaultVerityDataBlockSize, vfHashBlockSizeBytes = DefaultVerityHashBlockSize,
          vfDataSizeBytes = 1048576, vfHashOffsetBytes = 1048576\<rparr>\<rparr>"
  let ?p = "sample_verity_partition ''/dev/loop0p1'' ''root'' ''aa''"
  have "vdDataPartUuid ([?m] ! 0) = piPartUuid ?p" by (simp add: sample_metadata_def sample_verity_partition_def)
  from inline_verity_partition_size [of 0 "[?m]" ?p 1048576 1048576 1000000 "[]" "[]", OF _ this] show ?thesis
    by (simp add: ex_simps(1,2) del: ex_simps(3-6)) blast
qed

section \<open>Verity on the partitions of the base image\<close>

lemma ensurePartitionNotAlreadyInUse_None:
  "ensurePartitionNotAlreadyInUse u ms = None \<longleftrightarrow> (\<forall>m \<in> set ms. u \<noteq> vdDataPartUuid m \<and> u \<noteq> vdHashPartUuid m)"
  by (induction ms) auto

lemma validateVerityMountPathsLoop_all:
  "validateVerityMountPathsLoop ps layout base vs = Inr vs' \<Longrightarrow>
     list_all2 (\<lambda>v v'. validateVerityMountPath ps layout base v = Inr v') vs vs'"
proof (induction vs arbitrary: vs')
  case (Cons v vs)
  then show ?case
    by (cases "validateVerityMountPathsLoop ps layout base vs") (auto split: sum.splits)
qed simp

text \<open>What an accepted device on the partitions of the base image has: the two partitions its labels name, the
  \<open>fstab\<close> entry of the data partition, whose target and options its mount takes, and a hash partition that is not
  mounted, not formatted and, as the data partition, of no verity device of the base image.\<close>

definition placed_on_base ::
  "PartitionInfo list \<Rightarrow> fstabEntryPartNum list \<Rightarrow> verityDeviceMetadata list \<Rightarrow> Verity \<Rightarrow> bool" where
  "placed_on_base ps layout base v \<longleftrightarrow>
     (\<exists>dataRef hashRef. DataDevice v = Some dataRef \<and> HashDevice v = Some hashRef \<and>
     (\<exists>dp \<in> set ps. \<exists>hp \<in> set ps. \<exists>e \<in> set layout. \<exists>mount.
        identified_matches dataRef dp \<and> identified_matches hashRef hp
        \<and> (\<forall>m \<in> set base. {piPartUuid dp, piPartUuid hp} \<inter> {vdDataPartUuid m, vdHashPartUuid m} = {})
        \<and> fpPartUuid e = piPartUuid dp \<and> fpPartUuid e \<noteq> [] \<and> piFileSystemType hp = []
        \<and> (\<forall>e' \<in> set layout. fpPartUuid e' = [] \<or> fpPartUuid e' \<noteq> piPartUuid hp)
        \<and> verityMount v = Some mount \<and> MountPath mount = feTarget (fpEntry e)
        \<and> vmMountOptions mount = feOptions (fpEntry e)
        \<and> verityMountMap (feTarget (fpEntry e)) = Some (verityName v)
        \<and> ''ro'' \<in> set (Split (feOptions (fpEntry e)) CHR '','')))"

lemma validateVerityMountPath_placed:
  assumes "validateVerityMountPath ps layout base v = Inr v'" "validateVerityMount v' = None"
  shows "placed_on_base ps layout base v'"
proof -
  obtain dataRef hashRef dp hp e where r: "DataDevice v = Some dataRef" "HashDevice v = Some hashRef"
    and dp: "findIdentifiedPartition ps dataRef = Inr dp" and hp: "findIdentifiedPartition ps hashRef = Inr hp"
    and u: "ensurePartitionNotAlreadyInUse (piPartUuid dp) base = None" "ensurePartitionNotAlreadyInUse (piPartUuid hp) base = None"
    and e: "layoutEntryOf layout dp = Some e" "layoutEntryOf layout hp = None" "piFileSystemType hp = []"
    and v': "v' = v\<lparr>verityMount := Some \<lparr>MountPath = feTarget (fpEntry e), vmMountOptions = feOptions (fpEntry e),
               SubvolumePath = extractSubvolPath (feOptions (fpEntry e)), DataSize = 0\<rparr>\<rparr>"
    using assms(1) by (auto simp: validateVerityMountPath_def split: option.splits sum.splits if_splits)
  have d: "dp \<in> set ps" "identified_matches dataRef dp" "hp \<in> set ps" "identified_matches hashRef hp"
    using dp hp FindValueFunc_Some by (fastforce simp: findIdentifiedPartition_def split: option.splits)+
  have m: "e \<in> set layout" "fpPartUuid e \<noteq> [] \<and> fpPartUuid e = piPartUuid dp"
    using FindValueFunc_Some [OF e(1) [unfolded layoutEntryOf_def]] by auto
  have h: "\<forall>e' \<in> set layout. fpPartUuid e' = [] \<or> fpPartUuid e' \<noteq> piPartUuid hp"
    using e(2) by (auto simp: layoutEntryOf_def)
  have t: "verityMountMap (feTarget (fpEntry e)) = Some (verityName v') \<and> ''ro'' \<in> set (Split (feOptions (fpEntry e)) CHR '','')"
    using assms(2) by (auto simp: validateVerityMount_def v')
  have f: "\<forall>m \<in> set base. {piPartUuid dp, piPartUuid hp} \<inter> {vdDataPartUuid m, vdHashPartUuid m} = {}"
    using u by (auto simp: ensurePartitionNotAlreadyInUse_None)
  obtain mount where "verityMount v' = Some mount" "MountPath mount = feTarget (fpEntry e)"
    "vmMountOptions mount = feOptions (fpEntry e)" by (simp add: v')
  with d m h t f e(3) have "\<exists>dp \<in> set ps. \<exists>hp \<in> set ps. \<exists>e \<in> set layout. \<exists>mount.
        identified_matches dataRef dp \<and> identified_matches hashRef hp
        \<and> (\<forall>m \<in> set base. {piPartUuid dp, piPartUuid hp} \<inter> {vdDataPartUuid m, vdHashPartUuid m} = {})
        \<and> fpPartUuid e = piPartUuid dp \<and> fpPartUuid e \<noteq> [] \<and> piFileSystemType hp = []
        \<and> (\<forall>e' \<in> set layout. fpPartUuid e' = [] \<or> fpPartUuid e' \<noteq> piPartUuid hp)
        \<and> verityMount v' = Some mount \<and> MountPath mount = feTarget (fpEntry e)
        \<and> vmMountOptions mount = feOptions (fpEntry e)
        \<and> verityMountMap (feTarget (fpEntry e)) = Some (verityName v')
        \<and> ''ro'' \<in> set (Split (feOptions (fpEntry e)) CHR '','')" by blast
  with r show ?thesis by (simp add: placed_on_base_def v')
qed

text \<open>C9. Verity added to partitions of the base image: when the check of the mount paths accepts the storage, each of its
  devices has a data partition with an \<open>fstab\<close> entry, mounted read-only at \<open>/\<close> or \<open>/usr\<close> under the name that goes with it,
  and a hash partition without an entry and without a file system; neither partition belongs to a verity device that
  the image already has. When the storage is not of that kind it is returned as it is.\<close>

theorem validateVerityMountPaths_placed:
  assumes "validateVerityMountPaths ps storage layout base = Inr storage'"
  shows "if sVerityPartitionsType storage = VerityPartitionsUsesExisting
    then list_all (placed_on_base ps layout base) (sVerity storage')
      \<and> map verityName (sVerity storage') = map verityName (sVerity storage)
    else storage' = storage"
proof (cases "sVerityPartitionsType storage = VerityPartitionsUsesExisting")
  case True
  then obtain vs where vs: "validateVerityMountPathsLoop ps layout base (sVerity storage) = Inr vs"
    "ValidateVerityMounts vs = None" "storage' = storage\<lparr>sVerity := vs\<rparr>"
    using assms by (auto simp: validateVerityMountPaths_def split: sum.splits option.splits)
  have all2: "list_all2 (\<lambda>v v'. validateVerityMountPath ps layout base v = Inr v') (sVerity storage) vs"
    by (rule validateVerityMountPathsLoop_all [OF vs(1)])
  have "\<forall>v \<in> set vs. validateVerityMount v = None" using vs(2) by (simp add: ValidateVerityMounts_def)
  then have "list_all (placed_on_base ps layout base) vs"
    using all2 validateVerityMountPath_placed by (fastforce simp: list_all_length list_all2_conv_all_nth)
  moreover have "map verityName vs = map verityName (sVerity storage)"
    by (rule list_all2_map_eq [OF all2])
      (auto simp: validateVerityMountPath_def split: option.splits sum.splits if_splits)
  ultimately show ?thesis using True vs(3) by simp
qed (use assms in \<open>simp add: validateVerityMountPaths_def\<close>)

definition sample_base_layout :: "fstabEntryPartNum list" where
  "sample_base_layout =
     [\<lparr>fpEntry = \<lparr>feSource = ''PARTUUID=aa'', feTarget = ''/'', feFsType = ''ext4'', feOptions = ''defaults,ro'',
                  feVfsOptions = 0, feFsOptions = [], feFreq = 0, fePassNo = 0\<rparr>,
       fpPartUuid = ''aa'', fpIsVerity = False\<rparr>]"

definition sample_base_verity :: "VerityMount option \<Rightarrow> Verity" where
  "sample_base_verity mount =
     \<lparr>verityId = ''v'', verityName = ''root'', DataDeviceId = [], DataDevice = Some \<lparr>ipIdType = ''part-label'', ipId = ''root''\<rparr>,
      DataDeviceMountIdType = [], HashDeviceId = [], HashDevice = Some \<lparr>ipIdType = ''part-label'', ipId = ''hash''\<rparr>,
      HashDeviceMountIdType = [], CorruptionOption = [], HashSignaturePath = [], verityMount = mount\<rparr>"

definition sample_base_storage :: "VerityMount option \<Rightarrow> Storage" where
  "sample_base_storage mount =
     \<lparr>sResetPartitionsUuidsType = [], sBootType = [], Disks = [], FileSystems = [], sVerity = [sample_base_verity mount],
      ReinitializeVerity = [], sVerityPartitionsType = VerityPartitionsUsesExisting\<rparr>"

theorem validateVerityMountPaths_placed_witness:
  "placed_on_base sample_verity_disk sample_base_layout []
     (sample_base_verity (Some \<lparr>MountPath = ''/'', vmMountOptions = ''defaults,ro'', SubvolumePath = [], DataSize = 0\<rparr>))"
proof -
  have t: "sVerityPartitionsType (sample_base_storage None) = VerityPartitionsUsesExisting" by (simp add: sample_base_storage_def)
  have "validateVerityMountPaths sample_verity_disk (sample_base_storage None) sample_base_layout [] =
     Inr (sample_base_storage (Some \<lparr>MountPath = ''/'', vmMountOptions = ''defaults,ro'', SubvolumePath = [], DataSize = 0\<rparr>))"
    by code_simp
  from validateVerityMountPaths_placed [OF this] t show ?thesis by (simp add: sample_base_storage_def)
qed

section \<open>Subvolumes of verity mounts\<close>

lemma replaceFirstSubvol_found:
  assumes "HasPrefix opt ''subvol=''"
  shows "FindValueFunc (case replaceFirstSubvol opt os of Some os' \<Rightarrow> os' | None \<Rightarrow> os @ [opt]) (\<lambda>o'. HasPrefix o' ''subvol='') = Some opt"
  using assms by (induction os) (auto split: option.splits)

lemma replaceFirstSubvol_others:
  "filter (\<lambda>o'. \<not> HasPrefix o' ''subvol='') (case replaceFirstSubvol opt os of Some os' \<Rightarrow> os' | None \<Rightarrow> os @ [opt])
   = filter (\<lambda>o'. \<not> HasPrefix o' ''subvol='') (os @ [opt])" if "HasPrefix opt ''subvol=''"
  using that by (induction os) (auto split: option.splits)

lemma replaceFirstSubvol_mem:
  "o' \<in> set (case replaceFirstSubvol opt os of Some os' \<Rightarrow> os' | None \<Rightarrow> os @ [opt]) \<Longrightarrow> o' = opt \<or> o' \<in> set os"
  by (induction os) (auto split: option.splits if_splits)

lemma clean_steps_keep:
  "list_all (\<lambda>w. w \<noteq> [] \<and> w \<noteq> ''.'' \<and> w \<noteq> ''..'') ws \<Longrightarrow> foldl (clean_step rooted) st ws = rev ws @ st"
  by (induction ws arbitrary: st) auto

lemma path_Clean_subvolume: "validateSubvolumePath p = None \<Longrightarrow> path_Clean (CHR ''/'' # p) = CHR ''/'' # p"
proof -
  assume "validateSubvolumePath p = None"
  then obtain parts where p: "parts \<noteq> []" "p = join ''/'' parts"
    "list_all (\<lambda>w. CHR ''/'' \<notin> set w \<and> w \<noteq> [] \<and> w \<noteq> ''.'' \<and> w \<noteq> ''..'') parts"
    unfolding validateSubvolumePath_iff by blast
  then have "Split p CHR ''/'' = parts" using Split_join [of parts "CHR ''/''"] by (auto simp: list_all_iff)
  moreover have "foldl (clean_step True) [] parts = rev parts" using clean_steps_keep [of parts True "[]"] p(3) by (auto simp: list_all_iff)
  ultimately show ?thesis using p(2) by (simp add: path_Clean_def path_IsAbs_def Let_def)
qed

text \<open>C10. The subvolume option: after \<open>updateSubvolOption\<close> with a subvolume path that validation
  accepts and that holds no comma, the path is what \<open>extractSubvolPath\<close> reads from the options, and the
  options other than \<open>subvol\<close> are the same, in their order. Validation does accept a path with a comma;
  the options are separated by commas, so that such a path is read back only up to its first comma.\<close>

theorem subvol_option_roundtrip:
  assumes "validateSubvolumePath p = None" "CHR '','' \<notin> set p"
  shows "extractSubvolPath (updateSubvolOption options p) = p
    \<and> (options \<noteq> [] \<longrightarrow> filter (\<lambda>o'. \<not> HasPrefix o' ''subvol='') (Split (updateSubvolOption options p) CHR '','')
         = filter (\<lambda>o'. \<not> HasPrefix o' ''subvol='') (Split options CHR '',''))"
proof -
  obtain opt where opt: "opt = ''subvol=/'' @ p" by blast
  then have o: "HasPrefix opt ''subvol=''" "CHR '','' \<notin> set opt" "TrimPrefix opt ''subvol='' = CHR ''/'' # p"
    using assms(2) by (simp_all add: TrimPrefix_def)
  define os where "os = (if options = [] then [opt]
    else (case replaceFirstSubvol opt (Split options CHR '','') of Some os' \<Rightarrow> os' | None \<Rightarrow> Split options CHR '','' @ [opt]))"
  have u: "updateSubvolOption options p = join '','' os"
    by (simp add: updateSubvolOption_def Let_def os_def opt split: option.splits)
  have found: "FindValueFunc os (\<lambda>o'. HasPrefix o' ''subvol='') = Some opt"
    using replaceFirstSubvol_found [OF o(1)] o(1) by (simp add: os_def)
  then have ne: "os \<noteq> []" by auto
  have "\<forall>w \<in> set os. CHR '','' \<notin> set w"
  proof
    fix w assume "w \<in> set os"
    then have "w = opt \<or> w \<in> set (Split options CHR '','')"
      unfolding os_def using replaceFirstSubvol_mem [where o' = w and opt = opt] by (auto split: if_splits)
    then show "CHR '','' \<notin> set w" using o(2) Split_mem_no_sep by auto
  qed
  then have s: "Split (updateSubvolOption options p) CHR '','' = os" unfolding u by (intro Split_join) (use ne in auto)
  have "updateSubvolOption options p \<noteq> []"
  proof
    assume "updateSubvolOption options p = []"
    then have "os = [[]]" using s by simp
    with found o(1) show False by simp
  qed
  then have "extractSubvolPath (updateSubvolOption options p) = TrimPrefix (CHR ''/'' # p) ''/''"
    by (simp add: extractSubvolPath_def s found o(3) path_Clean_subvolume [OF assms(1)])
  then have "extractSubvolPath (updateSubvolOption options p) = p" by (simp add: TrimPrefix_def)
  moreover have "options \<noteq> [] \<longrightarrow> filter (\<lambda>o'. \<not> HasPrefix o' ''subvol='') os
         = filter (\<lambda>o'. \<not> HasPrefix o' ''subvol='') (Split options CHR '','')"
    using replaceFirstSubvol_others [OF o(1), of "Split options CHR '',''"] o(1) by (simp add: os_def)
  ultimately show ?thesis unfolding s by blast
qed

theorem subvol_option_roundtrip_witness:
  "extractSubvolPath (updateSubvolOption ''compress=zstd,subvol=/old,ro'' ''root/usr'') = ''root/usr''"
proof -
  have "validateSubvolumePath ''root/usr'' = None" by code_simp
  with subvol_option_roundtrip show ?thesis by simp
qed

end
