(* ===== verification/Mounts.thy ===== *)
theory Mounts
  imports DiskUtils
begin

text \<open>
  \<open>internal/safemount\<close>, \<open>internal/safeloopback\<close> and the mounts of \<open>internal/safechroot\<close>: mounts, loop devices and chroot
  directories that are taken down again on every path. The system calls are fields of the host; \<open>mount_laws\<close> states what
  is relied on of them: a mount table, on which a successful mount puts its target and from which an unmount takes the
  topmost mount of its target.
\<close>

section \<open>System calls\<close>

record 'w mount_host = "'w disk_host" +
  h_mkdirall :: "string \<Rightarrow> 'w \<Rightarrow> bool \<times> 'w"
  h_writefile :: "string \<Rightarrow> string \<Rightarrow> 'w \<Rightarrow> bool \<times> 'w"
  h_remove :: "string \<Rightarrow> 'w \<Rightarrow> bool \<times> 'w"
  h_removeall :: "string \<Rightarrow> 'w \<Rightarrow> bool \<times> 'w"
  h_mount :: "string \<Rightarrow> string \<Rightarrow> string \<Rightarrow> MountFlags \<Rightarrow> string \<Rightarrow> 'w \<Rightarrow> bool \<times> 'w"
  h_umount :: "string \<Rightarrow> bool \<Rightarrow> 'w \<Rightarrow> bool \<times> 'w"
  h_mounted :: "'w \<Rightarrow> string \<Rightarrow> bool option"
  h_regular :: "'w \<Rightarrow> string \<Rightarrow> bool"
  h_stop_processes :: "string \<Rightarrow> 'w \<Rightarrow> bool \<times> 'w"

datatype mount_error =
    MountSourceStat string | MountMkdir string | MountTargetFile string | MountFailed string string
  | UnmountFailed string | MountTargetRemove string | MountPathCheck string | MountedCheck string
  | ChrootMissing string | ChrootExists string | ChrootMkdir string | ChrootRemove string | WorkerTarFailed
  | LoopbackNotAbsolute string | LoopbackError disk_op_error | DiskStatsFailed shell_error | DiskStatsNotFound string
  | DiskStatsFields string

definition sysE :: "('w \<Rightarrow> bool \<times> 'w) \<Rightarrow> 'e \<Rightarrow> ('w, 'e, unit) act" where
  "sysE call e = (\<lambda>w. case call w of (ok, w') \<Rightarrow> Some (if ok then Inr () else Inl e, w'))"

definition MS_BIND :: MountFlags where "MS_BIND = 0x1000"

section \<open>Mounts\<close>

record Mount =
  mTarget :: string
  mIsMounted :: bool
  mCreated :: bool

text \<open>An error of these operations carries the state the mount was left in.\<close>

definition withState :: "'s \<Rightarrow> ('w, 'e, 'a) act \<Rightarrow> ('w, 'e \<times> 's, 'a) act" where
  "withState s m = mapErrE (\<lambda>e. (e, s)) m"

definition createMountTarget ::
  "('w, 'x) mount_host_scheme \<Rightarrow> string \<Rightarrow> string \<Rightarrow> MountFlags \<Rightarrow> ('w, mount_error, unit) act" where
  "createMountTarget h source target flags =
     bindE (askE (\<lambda>w. (h_stat h w source, h_regular h w source))) (\<lambda>(st, sourceIsFile).
       if st \<in> {StatNotExist, StatError} then throwE (MountSourceStat source)
       else
         let isBindMount = (flags AND MS_BIND = MS_BIND) in
         if \<not> sourceIsFile \<or> \<not> isBindMount then sysE (h_mkdirall h target) (MountMkdir target)
         else
           bindE (sysE (h_mkdirall h (path_Dir target)) (MountMkdir (path_Dir target))) (\<lambda>_.
             sysE (h_writefile h target []) (MountTargetFile target)))"

definition newMountHelper ::
  "('w, 'x) mount_host_scheme \<Rightarrow> string \<Rightarrow> string \<Rightarrow> string \<Rightarrow> MountFlags \<Rightarrow> string \<Rightarrow> bool \<Rightarrow> ('w, mount_error \<times> Mount, Mount) act" where
  "newMountHelper h source target fstype flags data makeAndDeleteDir =
     (let m = \<lparr>mTarget = target, mIsMounted = False, mCreated = False\<rparr> in
      bindE (if makeAndDeleteDir
             then bindE (withState m (createMountTarget h source target flags)) (\<lambda>_. returnE (m\<lparr>mCreated := True\<rparr>))
             else returnE m) (\<lambda>m'.
        bindE (withState m' (sysE (h_mount h source target fstype flags data) (MountFailed source target))) (\<lambda>_.
          returnE (m'\<lparr>mIsMounted := True\<rparr>))))"

definition umountE :: "('w, 'x) mount_host_scheme \<Rightarrow> string \<Rightarrow> bool \<Rightarrow> ('w, mount_error, unit) act" where
  "umountE h target detach = sysE (h_umount h target detach) (UnmountFailed target)"

definition mount_close :: "('w, 'x) mount_host_scheme \<Rightarrow> bool \<Rightarrow> Mount \<Rightarrow> ('w, mount_error \<times> Mount, Mount) act" where
  "mount_close h async m =
     bindE (if mIsMounted m
            then bindE (withState m
                   (if async then umountE h (mTarget m) True
                    else mapErrE (\<lambda>_. UnmountFailed (mTarget m))
                           (RunWithExpBackoff (\<lambda>_. False) (umountE h (mTarget m) False) 3)))
                   (\<lambda>_. returnE (m\<lparr>mIsMounted := False\<rparr>))
            else returnE m) (\<lambda>m'.
       if mCreated m'
       then bindE (withState m' (sysE (h_remove h (mTarget m')) (MountTargetRemove (mTarget m')))) (\<lambda>_.
              returnE (m'\<lparr>mCreated := False\<rparr>))
       else returnE m')"

text \<open>\<open>Close\<close> logs its error.\<close>

definition Mount_Close :: "('w, 'x) mount_host_scheme \<Rightarrow> Mount \<Rightarrow> 'w \<Rightarrow> 'w option" where
  "Mount_Close h m w = map_option snd (mount_close h True m w)"

definition Mount_CleanClose :: "('w, 'x) mount_host_scheme \<Rightarrow> Mount \<Rightarrow> ('w, mount_error \<times> Mount, Mount) act" where
  "Mount_CleanClose h = mount_close h False"

text \<open>An error is returned after what was created is taken down.\<close>

definition closing :: "('w, 'x) mount_host_scheme \<Rightarrow> ('w, mount_error \<times> Mount, 'a) act \<Rightarrow> ('w, mount_error, 'a) act" where
  "closing h f =
     (\<lambda>w. case f w of
        None \<Rightarrow> None
      | Some (Inr x, w') \<Rightarrow> Some (Inr x, w')
      | Some (Inl (e, m), w') \<Rightarrow> map_option (\<lambda>w2. (Inl e, w2)) (Mount_Close h m w'))"

definition NewMount ::
  "('w, 'x) mount_host_scheme \<Rightarrow> string \<Rightarrow> string \<Rightarrow> string \<Rightarrow> MountFlags \<Rightarrow> string \<Rightarrow> bool \<Rightarrow> ('w, mount_error, Mount) act" where
  "NewMount h source target fstype flags data makeAndDeleteDir =
     closing h (newMountHelper h source target fstype flags data makeAndDeleteDir)"

section \<open>Loop devices\<close>

record Loopback =
  lbDevicePath :: string
  lbDiskFilePath :: string
  lbMaj :: string
  lbMin :: string
  lbIsAttached :: bool

definition SetupLoopbackDevice :: "('w, 'x) host_scheme \<Rightarrow> string \<Rightarrow> ('w, disk_op_error, string) act" where
  "SetupLoopbackDevice h diskFilePath =
     bindE (execD h [''losetup'', ''--show'', ''-f'', ''-P'', diskFilePath] []) (\<lambda>(out, _). returnE (TrimSpace out))"

definition DetachLoopbackDevice :: "('w, 'x) host_scheme \<Rightarrow> string \<Rightarrow> ('w, disk_op_error, unit) act" where
  "DetachLoopbackDevice h diskDevPath = bindE (execD h [''losetup'', ''-d'', diskDevPath] []) (\<lambda>_. returnE ())"

text \<open>The entry of a disk in \<open>/proc/diskstats\<close>: its number of outstanding operations; an index out of range panics. The
  output is given to the callback line by line.\<close>

fun diskStatsEntry :: "string \<Rightarrow> string \<Rightarrow> string list \<Rightarrow> mount_error + string option" where
  "diskStatsEntry maj min' [] = Inr None"
| "diskStatsEntry maj min' (line # lines) =
     (let fields = Fields line in
      if fields = [] then Inl (DiskStatsFields line)
      else if fields ! 0 \<noteq> maj then diskStatsEntry maj min' lines
      else if length fields < 2 then Inl (DiskStatsFields line)
      else if fields ! 1 \<noteq> min' then diskStatsEntry maj min' lines
      else if length fields < 12 then Inl (DiskStatsFields line)
      else Inr (Some (fields ! 11)))"

definition outstandingOps :: "('w, 'x) host_scheme \<Rightarrow> string \<Rightarrow> string \<Rightarrow> string \<Rightarrow> ('w, mount_error, string) act" where
  "outstandingOps h debugName maj min' =
     bindE (mapErrE DiskStatsFailed (Execute h [''cat'', ''/proc/diskstats''] [])) (\<lambda>(out, _).
       bindE (liftE (diskStatsEntry maj min' (filter (\<lambda>l. l \<noteq> []) (Split out (CHR 0x0A))))) (\<lambda>found.
         case found of None \<Rightarrow> throwE (DiskStatsNotFound debugName) | Some ops \<Rightarrow> returnE ops))"

partial_function (option) blockLoop ::
  "('w, 'x) host_scheme \<Rightarrow> string \<Rightarrow> string \<Rightarrow> string \<Rightarrow> 'w \<Rightarrow> ((mount_error + unit) \<times> 'w) option" where
  "blockLoop h debugName maj min' w =
     (case outstandingOps h debugName maj min' w of
        None \<Rightarrow> None
      | Some (Inl e, w') \<Rightarrow> Some (Inl e, w')
      | Some (Inr ops, w') \<Rightarrow> if ops = ''0'' then Some (Inr (), w') else blockLoop h debugName maj min' w')"

definition BlockOnDiskIOByIds :: "('w, 'x) host_scheme \<Rightarrow> string \<Rightarrow> string \<Rightarrow> string \<Rightarrow> ('w, mount_error, unit) act" where
  "BlockOnDiskIOByIds h debugName maj min' =
     bindE (mapErrE DiskStatsFailed (Execute h [''sync''] [])) (\<lambda>_. blockLoop h debugName maj min')"

definition newLoopbackHelper :: "('w, 'x) disk_host_scheme \<Rightarrow> string \<Rightarrow> ('w, mount_error \<times> Loopback, Loopback) act" where
  "newLoopbackHelper h diskFilePath =
     (let l = \<lparr>lbDevicePath = [], lbDiskFilePath = diskFilePath, lbMaj = [], lbMin = [], lbIsAttached = False\<rparr> in
      bindE (withState l (mapErrE LoopbackError (SetupLoopbackDevice h diskFilePath))) (\<lambda>devicePath.
        let l1 = l\<lparr>lbDevicePath := devicePath, lbIsAttached := True\<rparr> in
        bindE (withState l1 (mapErrE LoopbackError (GetDiskIds h devicePath))) (\<lambda>(maj, min').
          let l2 = l1\<lparr>lbMaj := maj, lbMin := min'\<rparr> in
          bindE (withState l2 (mapErrE LoopbackError (WaitForDiskDevice h devicePath))) (\<lambda>_. returnE l2))))"

definition loopback_close :: "('w, 'x) disk_host_scheme \<Rightarrow> bool \<Rightarrow> Loopback \<Rightarrow> ('w, mount_error \<times> Loopback, Loopback) act" where
  "loopback_close h async l =
     bindE (if lbIsAttached l
            then bindE (withState l (mapErrE LoopbackError (DetachLoopbackDevice h (lbDevicePath l)))) (\<lambda>_.
                   returnE (l\<lparr>lbIsAttached := False\<rparr>))
            else returnE l) (\<lambda>l'.
       if async then returnE l'
       else
         bindE (withState l' (mapErrE LoopbackError (WaitForLoopbackToDetach h (lbDevicePath l') (lbDiskFilePath l')))) (\<lambda>_.
           bindE (withState l' (BlockOnDiskIOByIds h (lbDevicePath l') (lbMaj l') (lbMin l'))) (\<lambda>_. returnE l')))"

definition Loopback_Close :: "('w, 'x) disk_host_scheme \<Rightarrow> Loopback \<Rightarrow> 'w \<Rightarrow> 'w option" where
  "Loopback_Close h l w = map_option snd (loopback_close h True l w)"

definition NewLoopback :: "('w, 'x) disk_host_scheme \<Rightarrow> string \<Rightarrow> ('w, mount_error, Loopback) act" where
  "NewLoopback h diskFilePath =
     (if \<not> path_IsAbs diskFilePath then throwE (LoopbackNotAbsolute diskFilePath)
      else
        (\<lambda>w. case newLoopbackHelper h diskFilePath w of
           None \<Rightarrow> None
         | Some (Inr l, w') \<Rightarrow> Some (Inr l, w')
         | Some (Inl (e, l), w') \<Rightarrow> map_option (\<lambda>w2. (Inl e, w2)) (Loopback_Close h l w')))"

section \<open>Chroots\<close>

record ChrootMount =
  mntSource :: string
  mntTarget :: string
  mntFstype :: string
  mntFlags :: MountFlags
  mntData :: string
  mntIsMounted :: bool
  mountBeforeDefaults :: bool

definition NewMountPoint :: "string \<Rightarrow> string \<Rightarrow> string \<Rightarrow> MountFlags \<Rightarrow> string \<Rightarrow> ChrootMount" where
  "NewMountPoint source target fstype flags data =
     \<lparr>mntSource = source, mntTarget = target, mntFstype = fstype, mntFlags = flags, mntData = data,
      mntIsMounted = False, mountBeforeDefaults = False\<rparr>"

definition NewPreDefaultsMountPoint :: "string \<Rightarrow> string \<Rightarrow> string \<Rightarrow> MountFlags \<Rightarrow> string \<Rightarrow> ChrootMount" where
  "NewPreDefaultsMountPoint source target fstype flags data =
     (NewMountPoint source target fstype flags data)\<lparr>mountBeforeDefaults := True\<rparr>"

record Chroot =
  rootDir :: string
  mountPoints :: "ChrootMount list"
  isExistingDir :: bool
  includeDefaultMounts :: bool

definition NewChroot :: "string \<Rightarrow> bool \<Rightarrow> Chroot" where
  "NewChroot dir existing = \<lparr>rootDir = dir, mountPoints = [], isExistingDir = existing, includeDefaultMounts = False\<rparr>"

definition defaultMountPoints :: "ChrootMount list" where
  "defaultMountPoints =
     [NewMountPoint [] ''/dev'' ''devtmpfs'' 0 [], NewMountPoint [] ''/proc'' ''proc'' 0 [],
      NewMountPoint [] ''/sys'' ''sysfs'' 0 [], NewMountPoint [] ''/run'' ''tmpfs'' 0 [],
      NewMountPoint [] ''/dev/pts'' ''devpts'' 0 ''gid=5,mode=620'', NewMountPoint [] ''/tmp'' ''tmpfs'' 0 ''mode=1777'']"

definition DefaultMountRootDirectories :: "string list" where
  "DefaultMountRootDirectories = [''/dev'', ''/proc'', ''/sys'', ''/run'', ''/tmp'']"

definition fullPath :: "string \<Rightarrow> ChrootMount \<Rightarrow> string" where
  "fullPath root m = path_Join [root, mntTarget m]"

text \<open>The mounts are made in order; an error leaves the later ones unmarked.\<close>

fun createMountPoints ::
  "('w, 'x) mount_host_scheme \<Rightarrow> string \<Rightarrow> ChrootMount list \<Rightarrow> ('w, mount_error \<times> ChrootMount list, ChrootMount list) act" where
  "createMountPoints h root [] = returnE []"
| "createMountPoints h root (m # ms) =
     (\<lambda>w. case bindE (sysE (h_mkdirall h (fullPath root m)) (MountMkdir (fullPath root m))) (\<lambda>_.
              sysE (h_mount h (mntSource m) (fullPath root m) (mntFstype m) (mntFlags m) (mntData m))
                (MountFailed (mntSource m) (fullPath root m))) w of
        None \<Rightarrow> None
      | Some (Inl e, w') \<Rightarrow> Some (Inl (e, m # ms), w')
      | Some (Inr _, w') \<Rightarrow>
          map_option (\<lambda>(r, w2). (map_sum (\<lambda>(e, ms'). (e, m\<lparr>mntIsMounted := True\<rparr> # ms'))
                                  (\<lambda>ms'. m\<lparr>mntIsMounted := True\<rparr> # ms') r, w2))
            (createMountPoints h root ms w'))"

definition unmountOne :: "('w, 'x) mount_host_scheme \<Rightarrow> string \<Rightarrow> bool \<Rightarrow> ChrootMount \<Rightarrow> ('w, mount_error, unit) act" where
  "unmountOne h root lazyUnmount m =
     (let p = fullPath root m in
      bindE (mapErrE (\<lambda>_. MountPathCheck p) (statE h p)) (\<lambda>exists.
        if \<not> exists then returnE ()
        else
          bindE (askE (\<lambda>w. h_mounted h w p)) (\<lambda>mounted.
            case mounted of
              None \<Rightarrow> throwE (MountedCheck p)
            | Some isMounted \<Rightarrow>
                if \<not> isMounted \<or> \<not> mntIsMounted m then returnE ()
                else mapErrE (\<lambda>_. UnmountFailed p) (RunWithExpBackoff (\<lambda>_. False) (umountE h p lazyUnmount) 3))))"

definition unmountAll :: "('w, 'x) mount_host_scheme \<Rightarrow> string \<Rightarrow> bool \<Rightarrow> ChrootMount list \<Rightarrow> ('w, mount_error, unit) act" where
  "unmountAll h root lazyUnmount ms = forE (unmountOne h root lazyUnmount) (rev ms)"

definition unmountAndRemove :: "('w, 'x) mount_host_scheme \<Rightarrow> bool \<Rightarrow> Chroot \<Rightarrow> ('w, mount_error, unit) act" where
  "unmountAndRemove h lazyUnmount c =
     bindE (unmountAll h (rootDir c) lazyUnmount (mountPoints c)) (\<lambda>_.
       if \<not> isExistingDir c then sysE (h_removeall h (rootDir c)) (ChrootRemove (rootDir c)) else returnE ())"

definition chrootRootDir :: "('w, 'x) mount_host_scheme \<Rightarrow> Chroot \<Rightarrow> ('w, mount_error, unit) act" where
  "chrootRootDir h c =
     bindE (askE (\<lambda>w. h_stat h w (rootDir c))) (\<lambda>st.
       if isExistingDir c then (if st = StatNotExist then throwE (ChrootMissing (rootDir c)) else returnE ())
       else if st \<noteq> StatNotExist then throwE (ChrootExists (rootDir c))
       else sysE (h_mkdirall h (rootDir c)) (ChrootMkdir (rootDir c)))"

definition allMountPoints :: "ChrootMount list \<Rightarrow> bool \<Rightarrow> ChrootMount list" where
  "allMountPoints extraMountPoints includeDefaults =
     filter mountBeforeDefaults extraMountPoints @ (if includeDefaults then defaultMountPoints else [])
     @ filter (\<lambda>m. \<not> mountBeforeDefaults m) extraMountPoints"

text \<open>What happens before the mounts: the worker's tar file, given as an action, and the extra directories.\<close>

definition prepareChroot ::
  "('w, 'x) mount_host_scheme \<Rightarrow> (string \<Rightarrow> ('w, mount_error, unit) act) option \<Rightarrow> string list \<Rightarrow> Chroot \<Rightarrow> ('w, mount_error, unit) act" where
  "prepareChroot h extractTar extraDirectories c =
     bindE (case extractTar of None \<Rightarrow> returnE () | Some extract \<Rightarrow> extract (rootDir c)) (\<lambda>_.
       forE (\<lambda>d. sysE (h_mkdirall h (path_Join [rootDir c, d])) (ChrootMkdir d)) extraDirectories)"

text \<open>The mounts of \<open>Initialize\<close>: on an error what was mounted is unmounted lazily, with the error of that logged.\<close>

definition Initialize ::
  "('w, 'x) mount_host_scheme \<Rightarrow> (string \<Rightarrow> ('w, mount_error, unit) act) option \<Rightarrow> string list \<Rightarrow> ChrootMount list \<Rightarrow> bool \<Rightarrow>
   Chroot \<Rightarrow> ('w, mount_error, Chroot) act" where
  "Initialize h extractTar extraDirectories extraMountPoints includeDefaults c =
     bindE (chrootRootDir h c) (\<lambda>_ w.
       let c1 = c\<lparr>mountPoints := allMountPoints extraMountPoints includeDefaults, includeDefaultMounts := includeDefaults\<rparr> in
       case prepareChroot h extractTar extraDirectories c w of
         None \<Rightarrow> None
       | Some (Inl e, w') \<Rightarrow> map_option (\<lambda>(_, w2). (Inl e, w2)) (unmountAndRemove h True c w')
       | Some (Inr _, w') \<Rightarrow>
           (case createMountPoints h (rootDir c) (mountPoints c1) w' of
              None \<Rightarrow> None
            | Some (Inl (e, ms), w2) \<Rightarrow>
                map_option (\<lambda>(_, w3). (Inl e, w3)) (unmountAndRemove h True (c1\<lparr>mountPoints := ms\<rparr>) w2)
            | Some (Inr ms, w2) \<Rightarrow> Some (Inr (c1\<lparr>mountPoints := ms\<rparr>), w2)))"

text \<open>\<open>Close\<close>: the processes in the chroot are stopped, with errors logged; a second, lazy attempt follows a first one
  that failed.\<close>

definition chroot_Close :: "('w, 'x) mount_host_scheme \<Rightarrow> Chroot \<Rightarrow> ('w, mount_error, unit) act" where
  "chroot_Close h c =
     (\<lambda>w. case unmountAndRemove h False c (snd (h_stop_processes h (rootDir c) w)) of
        None \<Rightarrow> None
      | Some (Inr _, w') \<Rightarrow> Some (Inr (), w')
      | Some (Inl _, w') \<Rightarrow> unmountAndRemove h True c w')"

text \<open>The chroots that are active, oldest first, known by numbers as the code knows them by address.\<close>

type_synonym active_chroots = "(nat \<times> Chroot) list"

definition initializeActive ::
  "('w, 'x) mount_host_scheme \<Rightarrow> (string \<Rightarrow> ('w, mount_error, unit) act) option \<Rightarrow> string list \<Rightarrow> ChrootMount list \<Rightarrow> bool \<Rightarrow>
   nat \<Rightarrow> Chroot \<Rightarrow> active_chroots \<Rightarrow> ('w, mount_error, active_chroots) act" where
  "initializeActive h tar dirs extra defaults i c active =
     bindE (Initialize h tar dirs extra defaults c) (\<lambda>c'. returnE (active @ [(i, c')]))"

definition closeActive :: "('w, 'x) mount_host_scheme \<Rightarrow> nat \<Rightarrow> active_chroots \<Rightarrow> ('w, mount_error, active_chroots) act" where
  "closeActive h i active =
     (case map_of active i of
        None \<Rightarrow> returnE active
      | Some c \<Rightarrow> bindE (chroot_Close h c) (\<lambda>_. returnE (filter (\<lambda>(j, _). j \<noteq> i) active)))"

text \<open>The clean-up on a signal, newest first; the result says whether all could be unmounted.\<close>

fun cleanupAllChroots :: "('w, 'x) mount_host_scheme \<Rightarrow> Chroot list \<Rightarrow> 'w \<Rightarrow> (bool \<times> 'w) option" where
  "cleanupAllChroots h [] w = Some (True, w)"
| "cleanupAllChroots h (c # cs) w =
     (case unmountAndRemove h True c w of
        None \<Rightarrow> None
      | Some (r, w') \<Rightarrow> map_option (\<lambda>(ok, w2). (ok \<and> \<not> isl r, w2)) (cleanupAllChroots h cs w'))"

definition cleanupOnSignal :: "('w, 'x) mount_host_scheme \<Rightarrow> active_chroots \<Rightarrow> 'w \<Rightarrow> (bool \<times> 'w) option" where
  "cleanupOnSignal h active = cleanupAllChroots h (rev (map snd active))"

section \<open>Files to copy into a chroot\<close>

record FileToCopy =
  ftSrc :: string
  ftContent :: "string option"
  ftDest :: string

datatype copy_action = CopyFrom string string | WriteContent string string

datatype copy_error = BothSrcAndContent | NeitherSrcNorContent

definition fileToCopyAction :: "string \<Rightarrow> FileToCopy \<Rightarrow> copy_error + copy_action" where
  "fileToCopyAction destDir f =
     (if ftSrc f \<noteq> [] \<and> ftContent f \<noteq> None then Inl BothSrcAndContent
      else if ftSrc f \<noteq> [] then Inr (CopyFrom (ftSrc f) (path_Join [destDir, ftDest f]))
      else
        (case ftContent f of
           Some content \<Rightarrow> Inr (WriteContent content (path_Join [destDir, ftDest f]))
         | None \<Rightarrow> Inl NeitherSrcNorContent))"

lemma map_sum_eq_Inl: "map_sum f g a = Inl y \<longleftrightarrow> (\<exists>e. a = Inl e \<and> y = f e)"
  by (cases a) auto

lemma isl_map_sum': "isl (map_sum f g a) = isl a"
  by (cases a) auto

lemma bindE_Some:
  "bindE m f w = Some (r, w') \<longleftrightarrow>
     (\<exists>e. m w = Some (Inl e, w') \<and> r = Inl e) \<or> (\<exists>a w1. m w = Some (Inr a, w1) \<and> f a w1 = Some (r, w'))"
  by (auto simp: bindE_def split: option.splits sum.splits)

lemma mapErrE_Some: "mapErrE f m w = Some (r, w') \<longleftrightarrow> (\<exists>r0. m w = Some (r0, w') \<and> r = map_sum f id r0)"
  by (auto simp: mapErrE_def)

lemma withState_Some: "withState s m w = Some (r, w') \<longleftrightarrow> (\<exists>r0. m w = Some (r0, w') \<and> r = map_sum (\<lambda>e. (e, s)) id r0)"
  by (simp add: withState_def mapErrE_Some)

lemma returnE_Some [simp]: "returnE x w = Some (r, w') \<longleftrightarrow> r = Inr x \<and> w' = w"
  by (auto simp: returnE_def)

section \<open>What is relied on of the system calls\<close>

text \<open>The targets mounted, the last one first. A lazy unmount takes the mounts below its target with it.\<close>

definition mount_laws :: "('w, 'x) mount_host_scheme \<Rightarrow> ('w \<Rightarrow> string list) \<Rightarrow> bool" where
  "mount_laws h mtab \<longleftrightarrow>
     (\<forall>source target fstype flags data w.
        mtab (snd (h_mount h source target fstype flags data w)) =
          (if fst (h_mount h source target fstype flags data w) then target # mtab w else mtab w))
     \<and> (\<forall>target lazy w.
          if fst (h_umount h target lazy w)
          then \<exists>xs ys. mtab w = xs @ target # ys \<and> target \<notin> set xs
                 \<and> mtab (snd (h_umount h target lazy w)) =
                     (if lazy then filter (\<lambda>p. \<not> HasPrefix p (target @ ''/'')) xs else xs) @ ys
          else mtab (snd (h_umount h target lazy w)) = mtab w)
     \<and> (\<forall>p w. mtab (snd (h_mkdirall h p w)) = mtab w \<and> mtab (snd (h_remove h p w)) = mtab w
          \<and> mtab (snd (h_removeall h p w)) = mtab w \<and> mtab (snd (h_stop_processes h p w)) = mtab w)
     \<and> (\<forall>p c w. mtab (snd (h_writefile h p c w)) = mtab w)
     \<and> (\<forall>p w b. h_mounted h w p = Some b \<longrightarrow> (b \<longleftrightarrow> p \<in> set (mtab w)))
     \<and> (\<forall>p w. p \<in> set (mtab w) \<longrightarrow> h_stat h w p \<noteq> StatNotExist)
     \<and> (\<forall>p w. fst (h_remove h p w) \<longrightarrow> p \<notin> set (mtab w))"

lemma mount_laws_mount:
  "mount_laws h mtab \<Longrightarrow> mtab (snd (h_mount h source target fstype flags data w)) =
     (if fst (h_mount h source target fstype flags data w) then target # mtab w else mtab w)"
  by (simp add: mount_laws_def)

lemma mount_laws_umount:
  assumes "mount_laws h mtab" "mtab w = target # tab"
  shows "mtab (snd (h_umount h target detach w)) = (if fst (h_umount h target detach w) then tab else mtab w)"
proof (cases "fst (h_umount h target detach w)")
  case True
  have u: "\<forall>target lazy w. if fst (h_umount h target lazy w)
          then \<exists>xs ys. mtab w = xs @ target # ys \<and> target \<notin> set xs
                 \<and> mtab (snd (h_umount h target lazy w)) =
                     (if lazy then filter (\<lambda>p. \<not> HasPrefix p (target @ ''/'')) xs else xs) @ ys
          else mtab (snd (h_umount h target lazy w)) = mtab w"
    using assms(1) unfolding mount_laws_def by (elim conjE)
  from u [THEN spec [of _ target], THEN spec [of _ detach], THEN spec [of _ w]] True
  obtain xs ys where "mtab w = xs @ target # ys" "target \<notin> set xs"
    "mtab (snd (h_umount h target detach w)) = (if detach then filter (\<lambda>p. \<not> HasPrefix p (target @ ''/'')) xs else xs) @ ys"
    by auto
  with assms(2) True show ?thesis by (cases xs) auto
qed (use assms(1) in \<open>simp add: mount_laws_def\<close>)

lemma mount_laws_same:
  assumes "mount_laws h mtab"
  shows "mtab (snd (h_mkdirall h p w)) = mtab w" "mtab (snd (h_remove h p w)) = mtab w"
    "mtab (snd (h_removeall h p w)) = mtab w" "mtab (snd (h_stop_processes h p w)) = mtab w"
    "mtab (snd (h_writefile h p c w)) = mtab w"
  using assms by (simp_all add: mount_laws_def)

lemma mount_laws_mounted:
  assumes "mount_laws h mtab"
  shows "h_mounted h w p = Some b \<Longrightarrow> b \<longleftrightarrow> p \<in> set (mtab w)" "p \<in> set (mtab w) \<Longrightarrow> h_stat h w p \<noteq> StatNotExist"
  using assms by (simp_all add: mount_laws_def)

text \<open>An action that leaves the mount table as it is, whatever it returns.\<close>

abbreviation keeps :: "('w \<Rightarrow> string list) \<Rightarrow> ('w, 'e, 'a) act \<Rightarrow> bool" where
  "keeps mtab m \<equiv> \<forall>t. always (\<lambda>w. mtab w = t) m"

lemma keepsD: "keeps mtab m \<Longrightarrow> m w = Some (r, w') \<Longrightarrow> mtab w' = mtab w"
  by (auto simp: always_def)

lemma always_sysE: "(\<And>w. I w \<Longrightarrow> I (snd (call w))) \<Longrightarrow> always I (sysE call e)"
  by (rule always_I) (auto simp: sysE_def split: prod.splits, metis snd_conv)

lemma always_withState [intro]: "always I m \<Longrightarrow> always I (withState s m)"
  by (auto simp: withState_def)

lemma createMountTarget_keeps: "mount_laws h mtab \<Longrightarrow> keeps mtab (createMountTarget h source target flags)"
  by (auto simp: createMountTarget_def Let_def case_prod_beta mount_laws_same intro!: always_sysE always_bindE)

lemma retry_umount:
  assumes "mount_laws h mtab" "mtab w = p # tab"
    and "retryFrom (\<lambda>_. False) i n e (umountE h p detach) w = Some (r, w')"
  shows "mtab w' = (if isl r then p # tab else tab)"
  using assms(2,3)
proof (induction n arbitrary: i e w)
  case (Suc n)
  obtain ok w1 where u: "h_umount h p detach w = (ok, w1)" by fastforce
  with mount_laws_umount [OF assms(1) Suc.prems(1), of detach] have m: "mtab w1 = (if ok then tab else p # tab)"
    using Suc.prems(1) by simp
  show ?case
  proof (cases ok)
    case True
    with u m Suc.prems(2) show ?thesis by (auto simp: umountE_def sysE_def)
  next
    case False
    with u Suc.prems(2) have "retryFrom (\<lambda>_. False) (Suc i) n (LastError (UnmountFailed p)) (umountE h p detach) w1 = Some (r, w')"
      by (simp add: umountE_def sysE_def)
    from Suc.IH [OF _ this] m False show ?thesis by simp
  qed
qed (auto simp: throwE_def)

lemma umount_backoff:
  assumes "mount_laws h mtab" "mtab w = p # tab"
    and "mapErrE f (RunWithExpBackoff (\<lambda>_. False) (umountE h p detach) n) w = Some (r, w')"
  shows "mtab w' = (if isl r then p # tab else tab)"
proof -
  obtain r1 where r1: "RunWithExpBackoff (\<lambda>_. False) (umountE h p detach) n w = Some (r1, w')" "isl r = isl r1"
    using assms(3) by (auto simp: mapErrE_def isl_map_sum')
  from retry_umount [OF assms(1,2) r1(1) [unfolded RunWithExpBackoff_def runWithBackoffInternal_def]] r1(2)
  show ?thesis by simp
qed

section \<open>Mounts are taken down\<close>

text \<open>What a mount's state says of the mount table, over the table before it.\<close>

definition mount_on :: "string list \<Rightarrow> Mount \<Rightarrow> string list" where
  "mount_on t m = (if mIsMounted m then mTarget m # t else t)"

lemma newMountHelper_table:
  assumes "mount_laws h mtab" "newMountHelper h source target fstype flags data mk w = Some (r, w')"
  shows "case r of Inr m \<Rightarrow> mIsMounted m \<and> mTarget m = target \<and> mtab w' = mount_on (mtab w) m
    | Inl (e, m) \<Rightarrow> \<not> mIsMounted m \<and> mtab w' = mtab w"
proof -
  let ?m = "\<lparr>mTarget = target, mIsMounted = False, mCreated = False\<rparr>"
  define first where "first = (if mk
             then bindE (withState ?m (createMountTarget h source target flags)) (\<lambda>_. returnE (?m\<lparr>mCreated := True\<rparr>))
             else (returnE ?m :: ('a, mount_error \<times> Mount, Mount) act))"
  have k: "keeps mtab first"
    using createMountTarget_keeps [OF assms(1)] by (auto simp: first_def intro!: always_bindE)
  have st: "first w1 = Some (x, w2) \<Longrightarrow> (case x of Inr m \<Rightarrow> m | Inl (e, m) \<Rightarrow> m) \<in> {?m, ?m\<lparr>mCreated := True\<rparr>}" for w1 x w2
    by (auto simp: first_def withState_def act_defs map_sum_eq_Inl split: if_splits option.splits sum.splits)
  obtain x w1 where f: "first w = Some (x, w1)"
    using assms(2) by (cases "first w") (auto simp: newMountHelper_def first_def [symmetric] bindE_def Let_def)
  have t1: "mtab w1 = mtab w" by (rule keepsD [OF k f])
  show ?thesis
  proof (cases x)
    case (Inl em)
    with assms(2) f have "r = Inl em" "w' = w1"
      by (auto simp: newMountHelper_def first_def [symmetric] bindE_def Let_def)
    with st [OF f] Inl t1 show ?thesis by (cases em) auto
  next
    case (Inr m)
    with st [OF f] have m: "\<not> mIsMounted m" "mTarget m = target" by auto
    obtain ok w2 where c: "h_mount h source target fstype flags data w1 = (ok, w2)" by fastforce
    with mount_laws_mount [OF assms(1), of source target fstype flags data w1] t1
    have t2: "mtab w2 = (if ok then target # mtab w else mtab w)" by simp
    from assms(2) f Inr c have "r = (if ok then Inr (m\<lparr>mIsMounted := True\<rparr>) else Inl (MountFailed source target, m))" "w' = w2"
      by (auto simp: newMountHelper_def first_def [symmetric] bindE_def Let_def withState_def mapErrE_def sysE_def returnE_def
          split: if_splits)
    with t2 m show ?thesis by (auto simp: mount_on_def)
  qed
qed

lemma mount_close_table:
  assumes "mount_laws h mtab" "mtab w = mount_on t m" "mount_close h async m w = Some (r, w')"
  shows "case r of Inr m' \<Rightarrow> mtab w' = t | Inl (e, m') \<Rightarrow> mtab w' = mount_on t m'"
proof -
  define first where "first = (if mIsMounted m
            then bindE (withState m
                   (if async then umountE h (mTarget m) True
                    else mapErrE (\<lambda>_. UnmountFailed (mTarget m))
                           (RunWithExpBackoff (\<lambda>_. False) (umountE h (mTarget m) False) 3)))
                   (\<lambda>_. returnE (m\<lparr>mIsMounted := False\<rparr>))
            else returnE m)"
  have f: "case x of Inr m' \<Rightarrow> \<not> mIsMounted m' \<and> mtab w1 = t | Inl (e, m') \<Rightarrow> mtab w1 = mount_on t m'"
    if x1: "first w = Some (x, w1)" for x w1
  proof (cases "mIsMounted m")
    case True
    then have top: "mtab w = mTarget m # t" using assms(2) by (simp add: mount_on_def)
    define um where "um = (if async then umountE h (mTarget m) True
                    else mapErrE (\<lambda>_. UnmountFailed (mTarget m))
                           (RunWithExpBackoff (\<lambda>_. False) (umountE h (mTarget m) False) 3))"
    obtain r1 where u: "um w = Some (r1, w1)" "isl x = isl r1" "\<forall>e m'. x = Inl (e, m') \<longrightarrow> m' = m"
      "\<forall>m'. x = Inr m' \<longrightarrow> \<not> mIsMounted m'"
    proof -
      from x1 True have x1': "bindE (withState m um) (\<lambda>_. returnE (m\<lparr>mIsMounted := False\<rparr>)) w = Some (x, w1)"
        by (simp add: first_def um_def [symmetric])
      then obtain r0 w2 where r0: "um w = Some (r0, w2)"
        by (auto simp: bindE_Some withState_Some)
      show thesis
        by (rule that [of r0]) (use x1' r0 in \<open>cases r0; auto simp: bindE_Some withState_Some\<close>)+
    qed
    have "mtab w1 = (if isl r1 then mTarget m # t else t)"
    proof (cases async)
      case True
      then show ?thesis
        using u(1) mount_laws_umount [OF assms(1) top, of True] top
        by (auto simp: um_def umountE_def sysE_def split: prod.splits if_splits)
    next
      case False
      then have "mapErrE (\<lambda>_. UnmountFailed (mTarget m))
          (RunWithExpBackoff (\<lambda>_. False) (umountE h (mTarget m) False) 3) w = Some (r1, w1)"
        using u(1) by (simp add: um_def)
      then show ?thesis by (rule umount_backoff [OF assms(1) top])
    qed
    with u(2-4) top assms(2) show ?thesis by (cases x) (auto simp: mount_on_def True)
  next
    case False
    with x1 assms(2) show ?thesis by (auto simp: first_def mount_on_def)
  qed
  obtain x w1 where x: "first w = Some (x, w1)"
    using assms(3) by (cases "first w") (auto simp: mount_close_def first_def [symmetric] bindE_def)
  show ?thesis
  proof (cases x)
    case (Inl em)
    with assms(3) x have "r = Inl em" "w' = w1" by (auto simp: mount_close_def first_def [symmetric] bindE_def)
    with f [OF x] Inl show ?thesis by (cases em) auto
  next
    case (Inr m')
    with f [OF x] have m': "\<not> mIsMounted m'" "mtab w1 = t" by auto
    from assms(3) x Inr have "mtab w' = mtab w1 \<and> (\<forall>e m2. r = Inl (e, m2) \<longrightarrow> \<not> mIsMounted m2)"
      using m'(1) mount_laws_same(2) [OF assms(1), of "mTarget m'" w1]
      by (auto simp: mount_close_def first_def [symmetric] bindE_def withState_def mapErrE_def sysE_def returnE_def
          split: if_splits prod.splits option.splits sum.splits)
    with m' show ?thesis by (cases r) (auto simp: mount_on_def)
  qed
qed

lemma Mount_Close_table:
  assumes "mount_laws h mtab" "mtab w = mount_on t m" "Mount_Close h m w = Some w'"
  shows "mtab w' = t \<or> mIsMounted m \<and> mtab w' = mTarget m # t"
proof -
  obtain r where r: "mount_close h True m w = Some (r, w')" using assms(3) by (auto simp: Mount_Close_def)
  show ?thesis
  proof (cases r)
    case (Inl em)
    have "snd em \<in> {m, m\<lparr>mIsMounted := False\<rparr>}"
      using r Inl by (auto simp: mount_close_def withState_def act_defs map_sum_eq_Inl sysE_def
          split: if_splits option.splits sum.splits prod.splits)
    with mount_close_table [OF assms(1,2) r] Inl show ?thesis by (cases em) (auto simp: mount_on_def split: if_splits)
  qed (use mount_close_table [OF assms(1,2) r] in auto)
qed

lemma backoff_first:
  "fst (h_umount h p detach w) \<Longrightarrow>
     RunWithExpBackoff (\<lambda>_. False) (umountE h p detach) 3 w = Some (Inr (), snd (h_umount h p detach w))"
  by (cases "h_umount h p detach w")
    (simp add: RunWithExpBackoff_def runWithBackoffInternal_def numeral_3_eq_3 umountE_def sysE_def)

lemma mount_close_none:
  "\<not> mIsMounted m \<Longrightarrow> \<not> mCreated m \<Longrightarrow> mount_close h async m w = Some (Inr m, w)"
  by (simp add: mount_close_def act_defs)

lemma Mount_Close_none: "\<not> mIsMounted m \<Longrightarrow> \<not> mCreated m \<Longrightarrow> Mount_Close h m w = Some w"
  by (simp add: Mount_Close_def mount_close_none)

text \<open>What is removed after the unmount is the empty target.\<close>

lemma mount_close_mounted:
  assumes "mIsMounted m"
  shows "mount_close h async m =
     bindE (withState m (if async then umountE h (mTarget m) True
                    else mapErrE (\<lambda>_. UnmountFailed (mTarget m))
                           (RunWithExpBackoff (\<lambda>_. False) (umountE h (mTarget m) False) 3)))
       (\<lambda>_. mount_close h async (m\<lparr>mIsMounted := False\<rparr>))"
  using assms by (rule_tac ext) (simp add: mount_close_def bindE_def returnE_def withState_def mapErrE_def split: option.splits sum.splits)

lemma mount_close_unmounted:
  assumes "mount_laws h mtab" "\<not> mIsMounted m" "mount_close h async m w = Some (r, w')"
  shows "mtab w' = mtab w
    \<and> (case r of Inr m' \<Rightarrow> m' = m\<lparr>mCreated := False\<rparr> | Inl (e, m') \<Rightarrow> e = MountTargetRemove (mTarget m) \<and> m' = m)"
proof (cases "mCreated m")
  case True
  have "mtab (snd (h_remove h (mTarget m) w)) = mtab w" using mount_laws_same(2) [OF assms(1)] .
  with assms(2,3) True show ?thesis
    by (auto simp: mount_close_def act_defs withState_def sysE_def split: prod.splits if_splits)
next
  case False
  then have "m\<lparr>mCreated := False\<rparr> = m" by simp
  moreover from assms(2,3) False have "r = Inr m" "w' = w" by (auto simp: mount_close_none)
  ultimately show ?thesis by simp
qed

lemma CleanClose_result:
  assumes "mount_laws h mtab" "mIsMounted m" "mtab w = mTarget m # t" "Mount_CleanClose h m w = Some (r, w')"
  shows "case r of
      Inr m' \<Rightarrow> mtab w' = t \<and> m' = m\<lparr>mIsMounted := False, mCreated := False\<rparr>
    | Inl (e, m') \<Rightarrow>
        if e = UnmountFailed (mTarget m) then \<not> fst (h_umount h (mTarget m) False w) \<and> mtab w' = mtab w \<and> m' = m
        else e = MountTargetRemove (mTarget m) \<and> mtab w' = t \<and> m' = m\<lparr>mIsMounted := False\<rparr>"
proof -
  let ?um = "mapErrE (\<lambda>_. UnmountFailed (mTarget m)) (RunWithExpBackoff (\<lambda>_. False) (umountE h (mTarget m) False) 3)"
  from assms(4) have "bindE (withState m ?um) (\<lambda>_. mount_close h False (m\<lparr>mIsMounted := False\<rparr>)) w = Some (r, w')"
    by (simp add: Mount_CleanClose_def mount_close_mounted [OF assms(2)])
  then obtain r0 w1 where u: "?um w = Some (r0, w1)"
    and c: "(\<exists>e. r0 = Inl e \<and> r = Inl (e, m) \<and> w' = w1) \<or> (\<exists>u. r0 = Inr u \<and> mount_close h False (m\<lparr>mIsMounted := False\<rparr>) w1 = Some (r, w'))"
    unfolding bindE_Some withState_Some by (elim disjE exE conjE; case_tac r0) auto
  have t1: "mtab w1 = (if isl r0 then mTarget m # t else t)" by (rule umount_backoff [OF assms(1,3) u])
  show ?thesis
  proof (cases r0)
    case (Inl e)
    with u obtain r1 where "RunWithExpBackoff (\<lambda>_. False) (umountE h (mTarget m) False) 3 w = Some (r1, w1)"
      and "Inl e = map_sum (\<lambda>_. UnmountFailed (mTarget m)) id r1" by (auto simp: mapErrE_Some)
    moreover from this have "e = UnmountFailed (mTarget m)" "isl r1" by (cases r1; simp)+
    ultimately have "e = UnmountFailed (mTarget m)" "\<not> fst (h_umount h (mTarget m) False w)"
      using backoff_first [of h "mTarget m" False w] by auto
    then show ?thesis using Inl c t1 assms(3) by auto
  next
    case (Inr x)
    with c have "mount_close h False (m\<lparr>mIsMounted := False\<rparr>) w1 = Some (r, w')" by auto
    from mount_close_unmounted [OF assms(1) _ this] t1 Inr show ?thesis by (auto split: sum.splits)
  qed
qed

lemma Mount_Close_result:
  assumes "mount_laws h mtab" "mIsMounted m" "mtab w = mTarget m # t" "Mount_Close h m w = Some w'"
  shows "mtab w' = (if fst (h_umount h (mTarget m) True w) then t else mtab w)"
proof -
  obtain ok w1 where u: "h_umount h (mTarget m) True w = (ok, w1)" by fastforce
  with mount_laws_umount [OF assms(1,3), of True] have t1: "mtab w1 = (if ok then t else mtab w)" by simp
  obtain r where r: "mount_close h True m w = Some (r, w')" using assms(4) by (auto simp: Mount_Close_def)
  then have "bindE (withState m (umountE h (mTarget m) True)) (\<lambda>_. mount_close h True (m\<lparr>mIsMounted := False\<rparr>)) w = Some (r, w')"
    by (simp add: mount_close_mounted [OF assms(2)])
  then have "(\<not> ok \<and> w' = w1) \<or> ok \<and> mount_close h True (m\<lparr>mIsMounted := False\<rparr>) w1 = Some (r, w')"
    using u by (cases ok) (auto simp: bindE_Some withState_Some umountE_def sysE_def)
  with mount_close_unmounted [OF assms(1), of "m\<lparr>mIsMounted := False\<rparr>" True w1 r w'] t1 u show ?thesis by auto
qed

text \<open>C39. The life of a mount. A \<open>NewMount\<close> that fails leaves the mount table as it was; one that succeeds puts the target
  on top of it. From there, if what was done meanwhile left the table alone: a \<open>CleanClose\<close> that succeeds restores the
  table and makes every later \<open>Close\<close> do nothing; one that fails has either failed to unmount (the first attempt failed,
  the table and the mount are as they were) or to remove the target, with the table restored and the mount recorded as
  unmounted, so that a deferred \<open>Close\<close> unmounts nothing more; and a \<open>Close\<close> restores the table exactly when the lazy unmount
  succeeds.\<close>

theorem mount_lifecycle:
  assumes "mount_laws h mtab" "NewMount h source target fstype flags data mk w = Some (r, w1)"
  shows "case r of
      Inl e \<Rightarrow> mtab w1 = mtab w
    | Inr m \<Rightarrow> mtab w1 = target # mtab w
        \<and> (\<forall>w2 c w3. mtab w2 = mtab w1 \<longrightarrow> Mount_CleanClose h m w2 = Some (c, w3) \<longrightarrow>
             (case c of
                Inr m' \<Rightarrow> mtab w3 = mtab w \<and> (\<forall>w4. Mount_Close h m' w4 = Some w4)
              | Inl (e, m') \<Rightarrow>
                  if e = UnmountFailed target then \<not> fst (h_umount h target False w2) \<and> mtab w3 = target # mtab w \<and> m' = m
                  else e = MountTargetRemove target \<and> mtab w3 = mtab w \<and> \<not> mIsMounted m'))
        \<and> (\<forall>w2 w3. mtab w2 = mtab w1 \<longrightarrow> Mount_Close h m w2 = Some w3 \<longrightarrow>
             mtab w3 = (if fst (h_umount h target True w2) then mtab w else target # mtab w))"
proof -
  obtain x wa where n: "newMountHelper h source target fstype flags data mk w = Some (x, wa)"
    using assms(2) by (cases "newMountHelper h source target fstype flags data mk w") (auto simp: NewMount_def closing_def)
  note nt = newMountHelper_table [OF assms(1) n]
  show ?thesis
  proof (cases x)
    case (Inl em)
    with assms(2) n have r: "r = Inl (fst em)" and cl: "Mount_Close h (snd em) wa = Some w1"
      by (cases em; auto simp: NewMount_def closing_def)+
    from nt Inl have t: "\<not> mIsMounted (snd em)" "mtab wa = mtab w" by auto
    from cl obtain y where "mount_close h True (snd em) wa = Some (y, w1)" by (auto simp: Mount_Close_def)
    from mount_close_unmounted [OF assms(1) t(1) this] t(2) r show ?thesis by simp
  next
    case (Inr m)
    with assms(2) n have r: "r = Inr m" "w1 = wa" by (auto simp: NewMount_def closing_def)
    from nt Inr have m: "mIsMounted m" "mTarget m = target" "mtab w1 = target # mtab w" by (auto simp: mount_on_def r(2))
    show ?thesis unfolding r(1) sum.case
    proof (intro conjI allI impI)
      fix w2 c w3 assume *: "mtab w2 = mtab w1" "Mount_CleanClose h m w2 = Some (c, w3)"
      with m have "mtab w2 = mTarget m # mtab w" by simp
      from CleanClose_result [OF assms(1) m(1) this *(2)] m *(1)
      show "case c of
                Inr m' \<Rightarrow> mtab w3 = mtab w \<and> (\<forall>w4. Mount_Close h m' w4 = Some w4)
              | Inl (e, m') \<Rightarrow>
                  if e = UnmountFailed target then \<not> fst (h_umount h target False w2) \<and> mtab w3 = target # mtab w \<and> m' = m
                  else e = MountTargetRemove target \<and> mtab w3 = mtab w \<and> \<not> mIsMounted m'"
        by (auto simp: Mount_Close_none split: sum.splits if_splits)
    next
      fix w2 w3 assume *: "mtab w2 = mtab w1" "Mount_Close h m w2 = Some w3"
      with m have "mtab w2 = mTarget m # mtab w" by simp
      from Mount_Close_result [OF assms(1) m(1) this *(2)] m *(1)
      show "mtab w3 = (if fst (h_umount h target True w2) then mtab w else target # mtab w)" by simp
    qed (use m in simp)
  qed
qed

section \<open>A chroot leaves no mount behind\<close>

lemma fullPath_mounted [simp]: "fullPath root (m\<lparr>mntIsMounted := b\<rparr>) = fullPath root m"
  by (simp add: fullPath_def)

lemma forE_Nil: "forE f [] = returnE ()"
  by (simp add: forE_def)

lemma forE_Cons: "forE f (x # xs) = bindE (f x) (\<lambda>_. forE f xs)"
proof -
  have "foldE (\<lambda>x _. f x) xs = (\<lambda>u. foldE (\<lambda>x _. f x) xs ())" by (rule ext) simp
  then show ?thesis by (simp add: forE_def)
qed

lemma unmountAll_Nil [simp]: "unmountAll h root detach [] = returnE ()"
  by (simp add: unmountAll_def forE_Nil)

lemma unmountAll_snoc:
  "unmountAll h root detach (ms @ [m]) = bindE (unmountOne h root detach m) (\<lambda>_. unmountAll h root detach ms)"
  by (simp add: unmountAll_def forE_Cons)

lemma unmountOne_skip:
  assumes "mount_laws h mtab" "\<not> mntIsMounted m \<or> fullPath root m \<notin> set (mtab w)"
    and "unmountOne h root detach m w = Some (r, w')"
  shows "w' = w"
proof -
  have "h_mounted h w (fullPath root m) = Some True \<Longrightarrow> \<not> mntIsMounted m"
    using mount_laws_mounted(1) [OF assms(1)] assms(2) by blast
  with assms(3) show ?thesis
    by (auto simp: unmountOne_def Let_def bindE_Some mapErrE_Some statE_def askE_def throwE_def split: if_splits option.splits)
qed

lemma unmountOne_top:
  assumes "mount_laws h mtab" "mntIsMounted m" "mtab w = fullPath root m # t"
    and "unmountOne h root detach m w = Some (r, w')"
  shows "mtab w' = (if isl r then mtab w else t)"
proof -
  let ?p = "fullPath root m"
  have ex: "h_stat h w ?p \<noteq> StatNotExist" "\<And>b. h_mounted h w ?p = Some b \<Longrightarrow> b"
    using mount_laws_mounted [OF assms(1)] assms(3) by (metis list.set_intros(1))+
  from assms(4) consider "w' = w" "isl r"
    | "mapErrE (\<lambda>_. UnmountFailed ?p) (RunWithExpBackoff (\<lambda>_. False) (umountE h ?p detach) 3) w = Some (r, w')"
    using ex assms(2)
    by (cases "h_stat h w ?p"; cases "h_mounted h w ?p")
      (auto simp: unmountOne_def Let_def bindE_def mapErrE_Some statE_def askE_def throwE_def mapErrE_def file_PathExists_def
        split: if_splits option.splits)
  then show ?thesis
  proof cases
    case 1
    then show ?thesis by simp
  next
    case 2
    from umount_backoff [OF assms(1,3) 2] assms(3) show ?thesis by simp
  qed
qed

lemma unmountAll_restores:
  assumes "mount_laws h mtab" "mtab w = rev (map (fullPath root) ms1) @ t"
    and "\<forall>m \<in> set ms1. mntIsMounted m"
    and "\<forall>m \<in> set ms2. \<not> mntIsMounted m \<or> fullPath root m \<notin> set (map (fullPath root) ms1 @ t)"
    and "unmountAll h root detach (ms1 @ ms2) w = Some (r, w')"
  shows "\<exists>k \<le> length ms1. mtab w' = rev (map (fullPath root) (take k ms1)) @ t \<and> (\<not> isl r \<longrightarrow> k = 0)"
  using assms(4,5,2)
proof (induction ms2 arbitrary: w rule: rev_induct)
  case Nil
  then have u: "unmountAll h root detach ms1 w = Some (r, w')" and mt: "mtab w = rev (map (fullPath root) ms1) @ t" by simp_all
  from assms(3) u mt show ?case
  proof (induction ms1 arbitrary: w rule: rev_induct)
    case Nil
    then show ?case by simp
  next
    case (snoc m ms)
    obtain r1 w1 where o: "unmountOne h root detach m w = Some (r1, w1)"
      using snoc.prems(2) by (auto simp: unmountAll_snoc bindE_Some)
    have top: "mtab w = fullPath root m # (rev (map (fullPath root) ms) @ t)" using snoc.prems(3) by simp
    note t1 = unmountOne_top [OF assms(1) _ top o]
    show ?case
    proof (cases r1)
      case (Inl e)
      with o snoc.prems(2) have "r = Inl e" "w' = w1" by (auto simp: unmountAll_snoc bindE_Some)
      with t1 Inl snoc.prems(1,3) show ?thesis by (intro exI [of _ "length (ms @ [m])"]) simp
    next
      case (Inr u)
      with o snoc.prems(2) have "unmountAll h root detach ms w1 = Some (r, w')" by (auto simp: unmountAll_snoc bindE_Some)
      moreover have "mtab w1 = rev (map (fullPath root) ms) @ t" using t1 Inr snoc.prems(1) by simp
      ultimately obtain k where "k \<le> length ms" "mtab w' = rev (map (fullPath root) (take k ms)) @ t" "\<not> isl r \<longrightarrow> k = 0"
        using snoc.IH snoc.prems(1) by auto
      then show ?thesis by (intro exI [of _ k]) auto
    qed
  qed
next
  case (snoc m ms)
  have u: "bindE (unmountOne h root detach m) (\<lambda>_. unmountAll h root detach (ms1 @ ms)) w = Some (r, w')"
    using snoc.prems(2) unmountAll_snoc [of h root detach "ms1 @ ms" m] by simp
  then obtain r1 w1 where o: "unmountOne h root detach m w = Some (r1, w1)" by (auto simp: bindE_Some)
  have "\<not> mntIsMounted m \<or> fullPath root m \<notin> set (mtab w)" using snoc.prems(1,3) by auto
  from unmountOne_skip [OF assms(1) this o] have w1: "w1 = w" .
  show ?case
  proof (cases r1)
    case (Inl e)
    with o u w1 have "isl r" "w' = w" by (auto simp: bindE_Some)
    with snoc.prems(3) show ?thesis by (intro exI [of _ "length ms1"]) simp
  next
    case (Inr x)
    with o u w1 have "unmountAll h root detach (ms1 @ ms) w = Some (r, w')" by (auto simp: bindE_Some)
    with snoc.IH snoc.prems(1,3) show ?thesis by auto
  qed
qed

lemma createMountPoints_table:
  assumes "mount_laws h mtab" "createMountPoints h root ms w = Some (r, w')"
  shows "case r of
      Inr ms' \<Rightarrow> ms' = map (mntIsMounted_update (\<lambda>_. True)) ms \<and> mtab w' = rev (map (fullPath root) ms) @ mtab w
    | Inl (e, ms') \<Rightarrow> \<exists>j < length ms. ms' = map (mntIsMounted_update (\<lambda>_. True)) (take j ms) @ drop j ms
        \<and> mtab w' = rev (map (fullPath root) (take j ms)) @ mtab w"
  using assms(2)
proof (induction ms arbitrary: w r)
  case (Cons m ms)
  let ?p = "fullPath root m"
  let ?one = "bindE (sysE (h_mkdirall h ?p) (MountMkdir ?p)) (\<lambda>_.
              sysE (h_mount h (mntSource m) ?p (mntFstype m) (mntFlags m) (mntData m)) (MountFailed (mntSource m) ?p))"
  obtain r1 w1 where o: "?one w = Some (r1, w1)" using Cons.prems by (auto split: option.splits)
  have t1: "mtab w1 = (if isl r1 then mtab w else ?p # mtab w)"
  proof -
    obtain ok1 wa where a: "h_mkdirall h ?p w = (ok1, wa)" by fastforce
    obtain ok2 wb where b: "h_mount h (mntSource m) ?p (mntFstype m) (mntFlags m) (mntData m) wa = (ok2, wb)" by fastforce
    from a mount_laws_same(1) [OF assms(1), of ?p w] have ta: "mtab wa = mtab w" by simp
    from b mount_laws_mount [OF assms(1), of "mntSource m" ?p "mntFstype m" "mntFlags m" "mntData m" wa] ta
    have "mtab wb = (if ok2 then ?p # mtab w else mtab w)" by simp
    with o a b ta show ?thesis by (auto simp: bindE_def sysE_def split: if_splits)
  qed
  show ?case
  proof (cases r1)
    case (Inl e)
    with o Cons.prems have "r = Inl (e, m # ms)" "w' = w1" by auto
    with t1 Inl show ?thesis by (auto intro!: exI [of _ 0])
  next
    case (Inr u)
    with o Cons.prems obtain r2 where c: "createMountPoints h root ms w1 = Some (r2, w')"
      and r: "r = map_sum (\<lambda>(e, ms'). (e, m\<lparr>mntIsMounted := True\<rparr> # ms')) (\<lambda>ms'. m\<lparr>mntIsMounted := True\<rparr> # ms') r2" by auto
    from t1 Inr have tw1: "mtab w1 = ?p # mtab w" by simp
    show ?thesis
    proof (cases r2)
      case (Inl em)
      with Cons.IH [OF c] obtain j where "j < length ms" "snd em = map (mntIsMounted_update (\<lambda>_. True)) (take j ms) @ drop j ms"
        "mtab w' = rev (map (fullPath root) (take j ms)) @ mtab w1" by (cases em) auto
      with r Inl tw1 show ?thesis by (cases em) (auto intro!: exI [of _ "Suc j"])
    next
      case Inr': (Inr ms')
      with Cons.IH [OF c] r tw1 show ?thesis by auto
    qed
  qed
qed (auto)

lemma unmountAndRemove_table:
  assumes "mount_laws h mtab" "unmountAndRemove h detach c w = Some (r, w')"
  shows "\<exists>r1 w1. unmountAll h (rootDir c) detach (mountPoints c) w = Some (r1, w1) \<and> mtab w' = mtab w1 \<and> (\<not> isl r \<longrightarrow> \<not> isl r1)"
proof -
  from assms(2) obtain r1 w1 where u: "unmountAll h (rootDir c) detach (mountPoints c) w = Some (r1, w1)"
    by (auto simp: unmountAndRemove_def bindE_Some)
  have "mtab w' = mtab w1 \<and> (\<not> isl r \<longrightarrow> \<not> isl r1)"
    using assms(2) u mount_laws_same(3) [OF assms(1), of "rootDir c" w1]
    by (auto simp: unmountAndRemove_def bindE_Some sysE_def split: if_splits prod.splits)
  with u show ?thesis by blast
qed

text \<open>The mount table over that of the start, when the first \<open>k\<close> mounts of the chroot are made.\<close>

definition chroot_table :: "string \<Rightarrow> ChrootMount list \<Rightarrow> nat \<Rightarrow> string list \<Rightarrow> string list" where
  "chroot_table root ms k t = rev (map (fullPath root) (take k ms)) @ t"

lemma chroot_Close_table:
  assumes "mount_laws h mtab" "mtab w = chroot_table (rootDir c) (mountPoints c) (length (mountPoints c)) t"
    and "\<forall>m \<in> set (mountPoints c). mntIsMounted m"
    and "distinct (map (fullPath (rootDir c)) (mountPoints c))"
    and "\<forall>m \<in> set (mountPoints c). fullPath (rootDir c) m \<notin> set t"
    and "chroot_Close h c w = Some (Inr (), w')"
  shows "mtab w' = t"
proof -
  let ?w0 = "snd (h_stop_processes h (rootDir c) w)" and ?ms = "mountPoints c" and ?fp = "fullPath (rootDir c)"
  have t0: "mtab ?w0 = rev (map ?fp ?ms) @ t"
    using assms(2) mount_laws_same(4) [OF assms(1)] by (simp add: chroot_table_def)
  obtain r1 w1 where u1: "unmountAndRemove h False c ?w0 = Some (r1, w1)"
    using assms(6) by (auto simp: chroot_Close_def split: option.splits)
  from unmountAndRemove_table [OF assms(1) u1] obtain r2 w2 where
    a: "unmountAll h (rootDir c) False (?ms @ []) ?w0 = Some (r2, w2)" "mtab w1 = mtab w2" "\<not> isl r1 \<longrightarrow> \<not> isl r2" by auto
  from unmountAll_restores [OF assms(1) t0 assms(3) _ a(1)] obtain k where
    k: "k \<le> length ?ms" "mtab w1 = rev (map ?fp (take k ?ms)) @ t" "\<not> isl r2 \<longrightarrow> k = 0" using a(2) by auto
  show ?thesis
  proof (cases r1)
    case (Inr u)
    with u1 assms(6) have "w' = w1" by (auto simp: chroot_Close_def)
    with k a(3) Inr show ?thesis by simp
  next
    case (Inl e)
    with u1 assms(6) have u2: "unmountAndRemove h True c w1 = Some (Inr (), w')" by (auto simp: chroot_Close_def)
    from unmountAndRemove_table [OF assms(1) u2] obtain r3 w3 where
      b: "unmountAll h (rootDir c) True (take k ?ms @ drop k ?ms) w1 = Some (r3, w3)" "mtab w' = mtab w3" "\<not> isl r3" by auto
    have "\<forall>m \<in> set (drop k ?ms). ?fp m \<notin> set (map ?fp (take k ?ms) @ t)"
    proof
      fix m assume m: "m \<in> set (drop k ?ms)"
      have "distinct (map ?fp (take k ?ms) @ map ?fp (drop k ?ms))" using assms(4) by (simp flip: map_append)
      then have "?fp m \<notin> set (map ?fp (take k ?ms))" using m by auto
      moreover have "?fp m \<notin> set t" using assms(5) m in_set_dropD by fast
      ultimately show "?fp m \<notin> set (map ?fp (take k ?ms) @ t)" by simp
    qed
    moreover have "\<forall>m \<in> set (take k ?ms). mntIsMounted m" using assms(3) in_set_takeD by fast
    ultimately obtain j where "j \<le> length (take k ?ms)" "mtab w3 = rev (map ?fp (take j (take k ?ms))) @ t" "\<not> isl r3 \<longrightarrow> j = 0"
      using unmountAll_restores [OF assms(1) k(2), of "drop k ?ms" True r3 w3] b(1) by blast
    with b(2,3) show ?thesis by simp
  qed
qed

lemma prepareChroot_keeps:
  assumes "mount_laws h mtab" "\<And>extract. tar = Some extract \<Longrightarrow> keeps mtab (extract (rootDir c))"
  shows "keeps mtab (prepareChroot h tar dirs c)"
  using assms(2) mount_laws_same(1) [OF assms(1)]
  by (auto simp: prepareChroot_def intro!: always_bindE always_forE always_sysE split: option.splits)

lemma chrootRootDir_keeps: "mount_laws h mtab \<Longrightarrow> keeps mtab (chrootRootDir h c)"
  by (auto simp: chrootRootDir_def mount_laws_same intro!: always_bindE always_sysE)

text \<open>C38. A chroot leaves no mount behind. When \<open>Initialize\<close> succeeds its mounts are on top of the mount table, in the
  order of \<open>allMountPoints\<close>: those before the defaults, the defaults, the others. When it fails, only some of the
  first of them can be left. And a \<open>Close\<close> that succeeds, at the first attempt or lazily
  at the second, brings the table back to what it was, if the mounts have paths of their own.\<close>

theorem chroot_balanced:
  assumes "mount_laws h mtab" "mountPoints c = []" "\<forall>m \<in> set extra. \<not> mntIsMounted m"
    and "\<And>extract. tar = Some extract \<Longrightarrow> keeps mtab (extract (rootDir c))"
    and "Initialize h tar dirs extra defaults c w = Some (r, w1)"
    and "ms = allMountPoints extra defaults" "distinct (map (fullPath (rootDir c)) ms)"
    and "\<forall>m \<in> set ms. fullPath (rootDir c) m \<notin> set (mtab w)"
  shows "case r of
      Inl e \<Rightarrow> \<exists>k \<le> length ms. mtab w1 = chroot_table (rootDir c) ms k (mtab w)
    | Inr c' \<Rightarrow> mtab w1 = chroot_table (rootDir c) ms (length ms) (mtab w)
        \<and> map mntTarget (mountPoints c') = map mntTarget ms
        \<and> (\<forall>w2 w3. mtab w2 = mtab w1 \<longrightarrow> chroot_Close h c' w2 = Some (Inr (), w3) \<longrightarrow> mtab w3 = mtab w)"
proof -
  let ?fp = "fullPath (rootDir c)" and ?up = "mntIsMounted_update (\<lambda>_. True)"
  have nm: "\<forall>m \<in> set ms. \<not> mntIsMounted m"
    using assms(3) by (auto simp: assms(6) allMountPoints_def defaultMountPoints_def NewMountPoint_def)
  obtain x wa where a: "chrootRootDir h c w = Some (x, wa)" using assms(5) by (auto simp: Initialize_def bindE_Some)
  have ta: "mtab wa = mtab w" by (rule keepsD [OF chrootRootDir_keeps [OF assms(1)] a])
  show ?thesis
  proof (cases x)
    case (Inl e)
    with a assms(5) have "r = Inl e" "w1 = wa" by (auto simp: Initialize_def bindE_Some)
    with ta show ?thesis by (auto simp: chroot_table_def intro!: exI [of _ 0])
  next
    case (Inr u)
    with a assms(5) obtain y wb where b: "prepareChroot h tar dirs c wa = Some (y, wb)"
      by (auto simp: Initialize_def bindE_Some Let_def split: option.splits)
    have tb: "mtab wb = mtab w" using keepsD [OF prepareChroot_keeps b] assms(1,4) ta by metis
    show ?thesis
    proof (cases y)
      case (Inl e)
      with a b Inr assms(5) obtain r2 where un: "unmountAndRemove h True c wb = Some (r2, w1)" and r: "r = Inl e"
        by (auto simp: Initialize_def bindE_Some Let_def)
      have "mtab w1 = mtab w" using unmountAndRemove_table [OF assms(1) un] tb by (auto simp: assms(2))
      with r show ?thesis by (auto simp: chroot_table_def intro!: exI [of _ 0])
    next
      case Inr': (Inr v)
      with a b Inr assms(5,6) obtain z wc where z: "createMountPoints h (rootDir c) ms wb = Some (z, wc)"
        by (auto simp: Initialize_def bindE_Some Let_def split: option.splits)
      note zt = createMountPoints_table [OF assms(1) z]
      show ?thesis
      proof (cases z)
        case (Inl em)
        with zt obtain j where j: "j < length ms" "snd em = map ?up (take j ms) @ drop j ms"
          "mtab wc = rev (map ?fp (take j ms)) @ mtab w" by (cases em) (auto simp: tb)
        from Inl a b Inr Inr' z assms(5,6) obtain r2 where r: "r = Inl (fst em)"
          and un: "unmountAndRemove h True (c\<lparr>includeDefaultMounts := defaults, mountPoints := snd em\<rparr>) wc = Some (r2, w1)"
          by (cases em) (auto simp: Initialize_def bindE_Some Let_def)
        from unmountAndRemove_table [OF assms(1) un] obtain r3 w3 where
          un': "unmountAll h (rootDir c) True (map ?up (take j ms) @ drop j ms) wc = Some (r3, w3)" "mtab w1 = mtab w3"
          by (auto simp: j(2))
        have "mtab wc = rev (map ?fp (map ?up (take j ms))) @ mtab w" using j(3) by (simp add: comp_def)
        moreover have "\<forall>m \<in> set (map ?up (take j ms)). mntIsMounted m" by auto
        moreover have "\<forall>m \<in> set (drop j ms). \<not> mntIsMounted m" using nm in_set_dropD by fast
        ultimately obtain k where "k \<le> j" "mtab w1 = rev (map ?fp (take k (map ?up (take j ms)))) @ mtab w"
          using unmountAll_restores [OF assms(1), of wc "rootDir c" "map ?up (take j ms)" "mtab w" "drop j ms" True r3 w3]
            un' j(1) by auto
        with r j(1) show ?thesis
          by (intro sum.case_eq_if [THEN iffD2]) (auto simp: chroot_table_def take_map comp_def intro!: exI [of _ k])
      next
        case Inr'': (Inr ms')
        with zt have ms': "ms' = map ?up ms" "mtab wc = rev (map ?fp ms) @ mtab w" by (auto simp: tb)
        let ?c' = "c\<lparr>includeDefaultMounts := defaults, mountPoints := ms'\<rparr>"
        from Inr'' a b Inr Inr' z assms(5,6) have r: "r = Inr ?c'" "w1 = wc"
          by (auto simp: Initialize_def bindE_Some Let_def)
        have "mtab w3 = mtab w" if "mtab w2 = mtab w1" "chroot_Close h ?c' w2 = Some (Inr (), w3)" for w2 w3
        proof -
          have "mtab w2 = chroot_table (rootDir ?c') (mountPoints ?c') (length (mountPoints ?c')) (mtab w)"
            using that(1) r(2) ms' by (simp add: chroot_table_def comp_def)
          moreover have "\<forall>m \<in> set (mountPoints ?c'). mntIsMounted m" by (simp add: ms'(1))
          moreover have "map (fullPath (rootDir ?c')) (mountPoints ?c') = map ?fp ms" by (simp add: ms'(1) comp_def)
          moreover from this have "\<forall>m \<in> set (mountPoints ?c'). fullPath (rootDir ?c') m \<notin> set (mtab w)"
            using assms(8) by (simp add: ms'(1))
          ultimately show ?thesis using chroot_Close_table [OF assms(1) _ _ _ _ that(2)] assms(7) by metis
        qed
        moreover have "mtab w1 = chroot_table (rootDir c) ms (length ms) (mtab w)" using ms' r(2) by (simp add: chroot_table_def)
        moreover have "map mntTarget (mountPoints ?c') = map mntTarget ms" by (simp add: ms'(1))
        ultimately show ?thesis unfolding r(1) sum.case by blast
      qed
    qed
  qed
qed

definition active_table :: "Chroot list \<Rightarrow> string list" where
  "active_table cs = concat (map (\<lambda>c. rev (map (fullPath (rootDir c)) (mountPoints c))) (rev cs))"

lemma cleanupAllChroots_restores:
  assumes "mount_laws h mtab" "mtab w = active_table cs @ t" "\<forall>c \<in> set cs. \<forall>m \<in> set (mountPoints c). mntIsMounted m"
    and "cleanupAllChroots h (rev cs) w = Some (True, w')"
  shows "mtab w' = t"
  using assms(2-4)
proof (induction cs arbitrary: w rule: rev_induct)
  case (snoc c cs)
  from snoc.prems(3) obtain r w1 where u: "unmountAndRemove h True c w = Some (r, w1)" "\<not> isl r"
    "cleanupAllChroots h (rev cs) w1 = Some (True, w')" by (auto split: option.splits)
  from unmountAndRemove_table [OF assms(1) u(1)] u(2) obtain r1 w2 where
    a: "unmountAll h (rootDir c) True (mountPoints c @ []) w = Some (r1, w2)" "mtab w1 = mtab w2" "\<not> isl r1" by auto
  have "mtab w = rev (map (fullPath (rootDir c)) (mountPoints c)) @ (active_table cs @ t)"
    using snoc.prems(1) by (simp add: active_table_def)
  from unmountAll_restores [OF assms(1) this _ _ a(1)] snoc.prems(2) a(2,3) have "mtab w1 = active_table cs @ t" by auto
  from snoc.IH [OF this _ u(3)] snoc.prems(2) show ?case by auto
qed (auto simp: active_table_def)

text \<open>C40. The clean-up on a signal, in a state where every mount of the active chroots is still on the mount table, on top
  of it and in the order in which they were made (those of the chroot initialized last uppermost): a clean-up that
  reports no failure takes all of them down and leaves the table below them. A mount made later on top of them, a mount
  taken down before, and a clean-up that reports a failure are not covered; see the finding on \<open>unmountAndRemove\<close> for
  what can go wrong then.\<close>

theorem cleanupOnSignal_restores:
  assumes "mount_laws h mtab" "mtab w = active_table (map snd active) @ t"
    and "\<forall>(i, c) \<in> set active. \<forall>m \<in> set (mountPoints c). mntIsMounted m"
    and "cleanupOnSignal h active w = Some (True, w')"
  shows "mtab w' = t"
  using cleanupAllChroots_restores [OF assms(1,2) _ assms(4) [unfolded cleanupOnSignal_def]] assms(3) by fastforce

text \<open>A host whose world is the mount table alone: every directory exists, commands fail, mounts succeed.\<close>

definition table_host :: "(string list) mount_host" where
  "table_host =
     \<lparr>h_exec = (\<lambda>args stdin w. (([], [], False), w)), h_stat = (\<lambda>w p. StatDir), h_read = (\<lambda>w p. None),
      h_reread = (\<lambda>d w. (errno_ok, w)), lsblk_json = (\<lambda>s. None), sfdisk_json = (\<lambda>s. None), majmin_json = (\<lambda>s. None),
      losetup_json = (\<lambda>s. None),
      host_mkfs = (\<lambda>w. \<lparr>uname_release = [], mkfs_btrfs_V = None, mke2fs_V = None, mkfs_xfs_V = None, visit_btrfs = [], visit_xfs = []\<rparr>),
      h_mkdirall = (\<lambda>p w. (True, w)), h_writefile = (\<lambda>p c w. (True, w)), h_remove = (\<lambda>p w. (p \<notin> set w, w)),
      h_removeall = (\<lambda>p w. (True, w)), h_mount = (\<lambda>s t ft fl d w. (True, t # w)),
      h_umount = (\<lambda>t detach w. if t \<in> set w
         then (True, (if detach then filter (\<lambda>p. \<not> HasPrefix p (t @ ''/'')) (takeWhile ((\<noteq>) t) w) else takeWhile ((\<noteq>) t) w)
                     @ drop 1 (dropWhile ((\<noteq>) t) w))
         else (False, w)),
      h_mounted = (\<lambda>w p. Some (p \<in> set w)), h_regular = (\<lambda>w p. False), h_stop_processes = (\<lambda>p w. (True, w))\<rparr>"

lemma table_host_laws: "mount_laws table_host (\<lambda>w. w)"
proof -
  have "\<exists>xs ys. w = xs @ t # ys \<and> t \<notin> set xs
      \<and> (if detach then filter (\<lambda>p. \<not> HasPrefix p (t @ ''/'')) (takeWhile ((\<noteq>) t) w) else takeWhile ((\<noteq>) t) w)
          @ drop 1 (dropWhile ((\<noteq>) t) w)
        = (if detach then filter (\<lambda>p. \<not> HasPrefix p (t @ ''/'')) xs else xs) @ ys"
    if "t \<in> set w" for t detach and w :: "string list"
  proof -
    from split_list_first [OF that] obtain xs ys where w: "w = xs @ t # ys" "t \<notin> set xs" by blast
    then have "takeWhile ((\<noteq>) t) w = xs" "dropWhile ((\<noteq>) t) w = t # ys" by (auto simp: takeWhile_append dropWhile_append)
    with w show ?thesis by (intro exI [of _ xs] exI [of _ ys]) simp
  qed
  then show ?thesis by (simp add: mount_laws_def table_host_def)
qed

theorem mount_lifecycle_witness:
  "case NewMount table_host ''/dev/loop0p1'' ''/mnt'' ''ext4'' 1 [] True [''/''] of
     Some (Inr m, w) \<Rightarrow> w = [''/mnt'', ''/''] \<and> map_option snd (Mount_CleanClose table_host m w) = Some [''/'']
   | _ \<Rightarrow> False"
proof -
  let ?m = "\<lparr>mTarget = ''/mnt'', mIsMounted = True, mCreated = True\<rparr>"
  have n: "NewMount table_host ''/dev/loop0p1'' ''/mnt'' ''ext4'' 1 [] True [''/''] = Some (Inr ?m, [''/mnt'', ''/''])"
    by code_simp
  obtain m' w3 where c: "Mount_CleanClose table_host ?m [''/mnt'', ''/''] = Some (Inr m', w3)"
  proof -
    have "case Mount_CleanClose table_host ?m [''/mnt'', ''/''] of Some (Inr _, _) \<Rightarrow> True | _ \<Rightarrow> False" by code_simp
    then show thesis using that by (auto split: option.splits sum.splits)
  qed
  have "w3 = [''/'']" using mount_lifecycle [OF table_host_laws n] c by fastforce
  with n c show ?thesis by simp
qed

definition sample_chroot :: Chroot where "sample_chroot = NewChroot ''/chroot'' True"

definition sample_extra_mounts :: "ChrootMount list" where
  "sample_extra_mounts = [NewMountPoint ''/dev/loop0p2'' ''/boot'' ''ext4'' 0 [], NewPreDefaultsMountPoint ''/dev/loop0p1'' ''/'' ''ext4'' 0 []]"

definition sample_open_chroot :: Chroot where
  "sample_open_chroot = sample_chroot\<lparr>includeDefaultMounts := True,
     mountPoints := map (mntIsMounted_update (\<lambda>_. True)) (allMountPoints sample_extra_mounts True)\<rparr>"

lemma sample_Initialize:
  "Initialize table_host None [] sample_extra_mounts True sample_chroot [''/''] =
     Some (Inr sample_open_chroot,
       [''/chroot/boot'', ''/chroot/tmp'', ''/chroot/dev/pts'', ''/chroot/run'', ''/chroot/sys'', ''/chroot/proc'', ''/chroot/dev'',
        ''/chroot'', ''/''])"
  by code_simp

theorem chroot_balanced_witness:
  "chroot_Close table_host sample_open_chroot
      [''/chroot/boot'', ''/chroot/tmp'', ''/chroot/dev/pts'', ''/chroot/run'', ''/chroot/sys'', ''/chroot/proc'', ''/chroot/dev'',
        ''/chroot'', ''/''] = Some (Inr (), [''/''])"
proof -
  let ?w = "[''/chroot/boot'', ''/chroot/tmp'', ''/chroot/dev/pts'', ''/chroot/run'', ''/chroot/sys'', ''/chroot/proc'', ''/chroot/dev'',
        ''/chroot'', ''/'']"
  have 1: "mountPoints sample_chroot = []" "\<forall>m \<in> set sample_extra_mounts. \<not> mntIsMounted m"
    by (simp_all add: sample_chroot_def NewChroot_def sample_extra_mounts_def NewMountPoint_def NewPreDefaultsMountPoint_def)
  have 2: "map (fullPath (rootDir sample_chroot)) (allMountPoints sample_extra_mounts True) =
      [''/chroot'', ''/chroot/dev'', ''/chroot/proc'', ''/chroot/sys'', ''/chroot/run'', ''/chroot/dev/pts'', ''/chroot/tmp'', ''/chroot/boot'']"
    by code_simp
  have 3: "distinct (map (fullPath (rootDir sample_chroot)) (allMountPoints sample_extra_mounts True))" unfolding 2 by simp
  have "\<forall>p \<in> set (map (fullPath (rootDir sample_chroot)) (allMountPoints sample_extra_mounts True)). p \<notin> set [''/'']"
    unfolding 2 by simp
  then have 4: "\<forall>m \<in> set (allMountPoints sample_extra_mounts True). fullPath (rootDir sample_chroot) m \<notin> set [''/'']"
    unfolding set_map by blast
  obtain w3 where c: "chroot_Close table_host sample_open_chroot ?w = Some (Inr (), w3)"
  proof -
    have "case chroot_Close table_host sample_open_chroot ?w of Some (Inr _, _) \<Rightarrow> True | _ \<Rightarrow> False" by code_simp
    then show thesis using that by (auto split: option.splits sum.splits)
  qed
  have "w3 = [''/'']"
    using chroot_balanced [OF table_host_laws 1, of None "[]" True "[''/'']" "Inr sample_open_chroot" ?w, OF _ _ refl 3 4]
      sample_Initialize c by auto
  with c show ?thesis by simp
qed

theorem cleanupOnSignal_restores_witness:
  "cleanupOnSignal table_host [(0, sample_open_chroot)] (active_table [sample_open_chroot] @ [''/'']) = Some (True, [''/''])"
proof -
  obtain w' where c: "cleanupOnSignal table_host [(0, sample_open_chroot)] (active_table [sample_open_chroot] @ [''/'']) = Some (True, w')"
  proof -
    have "case cleanupOnSignal table_host [(0, sample_open_chroot)] (active_table [sample_open_chroot] @ [''/'']) of
        Some (ok, _) \<Rightarrow> ok | None \<Rightarrow> False" by code_simp
    then show thesis using that by (auto split: option.splits)
  qed
  have "w' = [''/'']"
    using cleanupOnSignal_restores [OF table_host_laws _ _ c, of "[''/'']"] by (simp add: sample_open_chroot_def)
  with c show ?thesis by simp
qed

end
