(* ===== verification/Spec2Isabelle.thy ===== *)
theory Spec2Isabelle
  imports ConfigValidation BootCustomizer TargetOs Bls VerityUtils VerityDevices Mounts
begin

text \<open>
  Verification library of the image customizer, the Go program under \<open>src/toolkit/tools\<close>. Paths below are relative to that
  directory. The program reads a YAML configuration, validates it together with the configurations it is based on,
  connects to a disk image through a loop device and a chroot, changes the operating system on it (partitions, boot
  configuration, users, packages, verity) and writes the image out again. The library models the parts whose behaviour is
  decided by the program itself; what tools, the kernel and third-party packages do is a parameter.

  Conventions. A Go function that returns only an \<open>error\<close> is a function to \<open>'e option\<close> (\<open>None\<close>: no error), one that returns
  a value and an error is a function to \<open>'e + 'a\<close>, and each message of the code is a constructor of a datatype of errors, so
  that every early return is a branch. Index panics and nil dereferences are errors of their own. Strings are lists of
  bytes; functions on runes decode them as Go does. \<open>uint64\<close> and \<open>uint32\<close> are words; \<open>int\<close> is the type of integers where no
  overflow can matter. Structs are records, string enumerations are strings with constants, as in Go, where any string is a
  value of the type. A map that is only looked up is a function to an option. Code that runs tools is a function of a world
  of any type to a result and the next world (theory \<open>Host\<close>), with \<open>None\<close> when it does not return.

  Foundations. \<open>Prelude\<close> has the error sequences \<open>first_err\<close>, \<open>guard\<close> and \<open>validate_items\<close> and the collections of lemmas that
  all theories extend; \<open>GoStrings\<close>, \<open>TextUtils\<close> and \<open>Paths\<close> are the parts of Go's standard library that the program uses
  (\<open>strings\<close>, \<open>strconv\<close>, \<open>unicode/utf8\<close>, \<open>path/filepath\<close>, the result of \<open>os.Stat\<close>); \<open>MathUtils\<close> is \<open>internal/mathutils\<close> and
  \<open>internal/sliceutils\<close>; \<open>Uuid\<close> is \<open>internal/randomization\<close>.

  The configuration API, package \<open>imagecustomizerapi\<close>. \<open>DiskSizes\<close> (sizes and their text form), \<open>DiskLayout\<close> (\<open>Disk.IsValid\<close>,
  which places the partitions), \<open>FileSystems\<close> (file systems, mount points, btrfs subvolumes, overlays, verity items),
  \<open>Storage\<close> (\<open>Storage.IsValid\<close> and the tree of devices), \<open>OsConfig\<close> (\<open>OS.IsValid\<close>, scripts, \<open>iso\<close>, \<open>pxe\<close>) and \<open>ImageConfig\<close> (input,
  output, preview features, \<open>Config.IsValid\<close>). The lemmas show what an accepted configuration satisfies: devices form a tree
  without sharing, partitions are completely laid out in order, boot partitions fit the boot type, features used are
  enabled. The values that validation fills in (sizes, ends, partition ids, mounts of verity devices) are part of its
  result, as the code updates its receiver.

  Resolution and validation against files, package \<open>imagecustomizerlib\<close>. \<open>ConfigChain\<close> is \<open>baseconfigs.go\<close>: the recursion over
  base configurations is a partial function, shown to be the post-order of the bases and to return whatever cycles the
  files form, when only finitely many files are readable. \<open>ConfigResolve\<close> and \<open>ConfigValidation\<close> are \<open>configvalidation.go\<close>,
  \<open>createimagevalidation.go\<close> and the options: each field of the resolved configuration, the files that must exist, the
  checks of the create subcommand. The file system, the loader of configurations and package lists, the OCI registry and
  random bytes are fields of the record \<open>env\<close>. The locale \<open>overridden_field\<close> holds the laws of a field that the last
  configuration that sets it decides; it is interpreted on the resolution functions of the code.

  Boot configuration. \<open>FileScanner\<close>, \<open>GrubTokenizer\<close> and \<open>GrubUtils\<close> are \<open>internal/filescanner\<close> and \<open>internal/grub\<close>. The loops of
  the tokenizer are functions with termination proofs over the text that is left; the locale \<open>subword_parser\<close> states what a
  parser of a sub-word must do and is interpreted on the four parsers. \<open>GrubCfg\<close> and \<open>DefaultGrub\<close> edit \<open>grub.cfg\<close> and
  \<open>/etc/default/grub\<close> (\<open>grubcfgutils.go\<close>, \<open>defaultgrubutils.go\<close>): edits are splices of the original text, and what is written
  reads back. \<open>Bls\<close> is \<open>internal/bls\<close> and \<open>blsutils.go\<close>, with the order of kernel versions. \<open>BootCustomizer\<close> is the object of
  \<open>bootcustomizer.go\<close> over the state of the boot files, with writes that may fail as functions of the record \<open>boot_io\<close>.

  Disks. \<open>Fstab\<close>, \<open>MkfsOptions\<close> and \<open>DiskUtils\<close> are \<open>imagegen/diskutils\<close> and the look-ups of \<open>partitionutils.go\<close>; \<open>ImagerConfig\<close>
  is \<open>typeConversion.go\<close> and the types of \<open>imagegen/configuration\<close>. From the validated configuration to the sectors given to
  \<open>sfdisk\<close> one theorem spans \<open>DiskLayout\<close>, \<open>ImagerConfig\<close> and \<open>DiskUtils\<close>. Commands are run by the field \<open>h_exec\<close> of the host,
  their JSON output is parsed by fields of it. Loops that wait for the kernel are partial functions; where the number of
  attempts is bounded in the code they are structural on it.

  Verity. \<open>VerityUtils\<close> is \<open>internal/verityutils\<close> and the search of \<open>storage.go\<close> for the size of an inline hash tree: the loop over
  tree levels is a partial function on words, equal to the mathematical size of the tree when a hash block holds two
  hashes or more, and shown not to return otherwise; the locale \<open>block_cost\<close> holds the binary search over any monotone
  cost and is interpreted on the cost of the code. \<open>VerityDevices\<close> is \<open>customizeverity.go\<close>, \<open>veritytypes.go\<close> and
  \<open>shrinkfilesystems.go\<close>.

  System state. \<open>TargetOs\<close> is \<open>internal/version\<close>, \<open>internal/envfile\<close> and \<open>internal/targetos\<close>; \<open>UserFiles\<close> is the text part of
  \<open>internal/userutils\<close>; \<open>Host\<close> is the monad of actions and \<open>internal/retry\<close>; \<open>Mounts\<close> is \<open>internal/safemount\<close>,
  \<open>internal/safeloopback\<close> and the mounts of \<open>internal/safechroot\<close>. The predicate \<open>mount_laws\<close> states what is relied on of the
  system calls: a mount table on which a mount puts its target and from which an unmount takes the topmost mount of its
  target; \<open>table_host\<close> shows that a host can satisfy it.

  Properties. Every property is a theorem after a text block with its number, \<open>C1\<close> to \<open>C40\<close>, that states it with its
  conditions; a witness applies each one with conditions to concrete data. Where the code does not do what it means to, the
  theorem states what it does, and the conditions of a theorem say which inputs are left out: an end without a start and
  sizes near the end of the 64-bit range (\<open>DiskLayout\<close>), empty arguments and unquoted backslashes (\<open>GrubUtils\<close>), dollar signs in
  boot entries (\<open>Bls\<close>), commas in subvolume paths (\<open>VerityDevices\<close>), colons and line breaks in names and passwords
  (\<open>UserFiles\<close>).

  Not modelled: copying files into the image, running tools other than for their results, entering a chroot, ISO and PXE
  assembly, COSI output, UKI construction, OCI downloads and the OS modifier, which are sequences of tool runs and file
  copies; telemetry and logging; delays between attempts; the decoding of YAML and JSON, which libraries do. DNS names,
  times, URLs and image references are checked by library functions, given as the record \<open>library\<close>. Iteration over Go maps
  is in the order of the list that stands for the map. Nil and empty slices are the same list.
\<close>

end
